(* ===== verification/Prelude.thy ===== *)
theory Prelude
  imports
    Main
    "HOL-Library.Word"
    "HOL-Library.Char_ord"
    "HOL-Library.List_Lexorder"
    "HOL-Library.Option_ord"
    "HOL-Library.Product_Lexorder"
    "HOL-Library.Multiset"
    "HOL-Library.Countable"
begin

text \<open>
  Shared vocabulary of the development: byte strings and fixed-width digests, the
  result type of fallible code (\<open>Result<T, E>\<close> is \<open>'e + 'a\<close>, the error on the left)
  with the combinators the model uses for \<open>?\<close>, for loops that stop at the first
  error and for \<open>if let Some(x) = ...\<close>, the checked and saturating arithmetic of
  \<open>i128\<close>, and the interface of the wire codec (postcard), which is third-party
  code and therefore a parameter.
\<close>

named_theorems results \<open>characterisations of the result combinators\<close>

type_synonym bytes = "8 word list"
type_synonym hash32 = "256 word"  \<comment> \<open>\<open>[u8; 32]\<close>, read big-endian\<close>
type_synonym sig64 = "512 word"   \<comment> \<open>\<open>[u8; 64]\<close>, read big-endian\<close>

section \<open>Results\<close>

definition rbind :: "'e + 'a \<Rightarrow> ('a \<Rightarrow> 'e + 'b) \<Rightarrow> 'e + 'b" where
  "rbind m f = (case m of Inl e \<Rightarrow> Inl e | Inr x \<Rightarrow> f x)"

definition rmap :: "('a \<Rightarrow> 'b) \<Rightarrow> 'e + 'a \<Rightarrow> 'e + 'b" where
  "rmap f m = (case m of Inl e \<Rightarrow> Inl e | Inr x \<Rightarrow> Inr (f x))"

definition map_err :: "('e \<Rightarrow> 'f) \<Rightarrow> 'e + 'a \<Rightarrow> 'f + 'a" where
  "map_err g m = (case m of Inl e \<Rightarrow> Inl (g e) | Inr x \<Rightarrow> Inr x)"

definition is_ok :: "'e + 'a \<Rightarrow> bool" where
  "is_ok m = (case m of Inl _ \<Rightarrow> False | Inr _ \<Rightarrow> True)"

definition ensure :: "bool \<Rightarrow> 'e \<Rightarrow> 'e + unit" where
  "ensure b e = (if b then Inr () else Inl e)"

text \<open>A block of statements \<open>a?; b?; c?; Ok(())\<close>.\<close>

fun check_all :: "('e + unit) list \<Rightarrow> 'e + unit" where
  "check_all [] = Inr ()"
| "check_all (c # cs) = rbind c (\<lambda>_. check_all cs)"

text \<open>\<open>if let Some(x) = o { f(x)?; }\<close> and its variant that rewrites the value in place.\<close>

definition opt_check :: "('a \<Rightarrow> 'e + unit) \<Rightarrow> 'a option \<Rightarrow> 'e + unit" where
  "opt_check f x = (case x of None \<Rightarrow> Inr () | Some a \<Rightarrow> f a)"

definition opt_mapR :: "('a \<Rightarrow> 'e + 'b) \<Rightarrow> 'a option \<Rightarrow> 'e + 'b option" where
  "opt_mapR f x = (case x of None \<Rightarrow> Inr None | Some a \<Rightarrow> rmap Some (f a))"

text \<open>\<open>for x in xs.iter_mut() { f(x)?; }\<close>, also \<open>collect::<Result<Vec<_>, _>>()\<close>.\<close>

fun mapR :: "('a \<Rightarrow> 'e + 'b) \<Rightarrow> 'a list \<Rightarrow> 'e + 'b list" where
  "mapR f [] = Inr []"
| "mapR f (x # xs) = rbind (f x) (\<lambda>y. rbind (mapR f xs) (\<lambda>ys. Inr (y # ys)))"

lemma rbind_simps [simp]:
  "rbind (Inl e) f = Inl e"
  "rbind (Inr x) f = f x"
  by (simp_all add: rbind_def)

lemma rmap_simps [simp]:
  "rmap g (Inl e) = Inl e"
  "rmap g (Inr x) = Inr (g x)"
  by (simp_all add: rmap_def)

lemma map_err_simps [simp]:
  "map_err g (Inl e) = Inl (g e)"
  "map_err g (Inr x) = Inr x"
  by (simp_all add: map_err_def)

lemma is_ok_simps [simp]: "is_ok (Inr x)" "\<not> is_ok (Inl e)"
  by (simp_all add: is_ok_def)

lemma opt_simps [simp]:
  "opt_check f None = Inr ()" "opt_check f (Some x) = f x"
  "opt_mapR g None = Inr None" "opt_mapR g (Some x) = rmap Some (g x)"
  by (simp_all add: opt_check_def opt_mapR_def)

lemma rbind_eq_Inr [results]: "rbind m f = Inr y \<longleftrightarrow> (\<exists>x. m = Inr x \<and> f x = Inr y)"
  by (cases m) auto

lemma rbind_eq_Inl [results]: "rbind m f = Inl e \<longleftrightarrow> m = Inl e \<or> (\<exists>x. m = Inr x \<and> f x = Inl e)"
  by (cases m) auto

lemma rmap_eq_Inr [results]: "rmap f m = Inr y \<longleftrightarrow> (\<exists>x. m = Inr x \<and> y = f x)"
  by (cases m) auto

lemma map_err_eq_Inr [results]: "map_err g m = Inr y \<longleftrightarrow> m = Inr y"
  by (cases m) auto

lemma map_err_eq_Inl [results]: "map_err g m = Inl e \<longleftrightarrow> (\<exists>d. m = Inl d \<and> e = g d)"
  by (cases m) auto

lemma ensure_eq [results]:
  "ensure b e = Inr u \<longleftrightarrow> b"
  "ensure b e = Inl d \<longleftrightarrow> \<not> b \<and> d = e"
  by (auto simp: ensure_def)

lemma ensure_simps [simp]: "ensure True e = Inr ()" "ensure False e = Inl e"
  by (simp_all add: ensure_def)

lemma is_ok_iff: "is_ok m \<longleftrightarrow> (\<exists>x. m = Inr x)"
  by (cases m) auto

lemma check_all_Inr [results]: "check_all cs = Inr u \<longleftrightarrow> (\<forall>c\<in>set cs. c = Inr ())"
  by (induction cs) (auto simp: results)

lemma check_all_append: "check_all (as @ bs) = rbind (check_all as) (\<lambda>_. check_all bs)"
  by (induction as) (auto simp: rbind_def split: sum.splits)

lemma opt_check_Inr [results]: "opt_check f x = Inr u \<longleftrightarrow> (\<forall>a. x = Some a \<longrightarrow> f a = Inr ())"
  by (cases x) auto

lemma opt_mapR_Inr [results]:
  "opt_mapR f x = Inr y \<longleftrightarrow> rel_option (\<lambda>a b. f a = Inr b) x y"
  by (cases x; cases y) (auto simp: results)

lemma mapR_Inr [results]: "mapR f xs = Inr ys \<longleftrightarrow> list_all2 (\<lambda>x y. f x = Inr y) xs ys"
  by (induction xs arbitrary: ys) (auto simp: results list_all2_Cons1)

lemma mapR_id: "(\<And>x. x \<in> set xs \<Longrightarrow> f x = Inr x) \<Longrightarrow> mapR f xs = Inr xs"
  by (induction xs) auto

lemma mapR_map: "(\<And>x. x \<in> set xs \<Longrightarrow> f x = Inr (g x)) \<Longrightarrow> mapR f xs = Inr (map g xs)"
  by (induction xs) auto

lemma rel_option_same [results]: "rel_option R x x \<longleftrightarrow> (\<forall>a. x = Some a \<longrightarrow> R a a)"
  by (cases x) auto

lemmas list_all2_same [results]

lemma mapR_all:
  assumes "mapR f xs = Inr ys" and "\<And>x y. x \<in> set xs \<Longrightarrow> f x = Inr y \<Longrightarrow> Q y"
  shows "\<forall>y\<in>set ys. Q y"
proof
  fix y assume "y \<in> set ys"
  with assms(1) have "\<exists>x\<in>set xs. f x = Inr y"
    by (induction xs arbitrary: ys) (auto simp: rbind_eq_Inr)
  with assms(2) show "Q y" by blast
qed

lemma mapR_length: "mapR f xs = Inr ys \<Longrightarrow> length ys = length xs"
  by (simp add: mapR_Inr list_all2_lengthD)

lemma rbind_cong [fundef_cong]:
  "m = m' \<Longrightarrow> (\<And>x. m' = Inr x \<Longrightarrow> f x = g x) \<Longrightarrow> rbind m f = rbind m' g"
  by (cases m') auto

lemma mapR_cong [fundef_cong]:
  "xs = ys \<Longrightarrow> (\<And>x. x \<in> set ys \<Longrightarrow> f x = g x) \<Longrightarrow> mapR f xs = mapR g ys"
  by (induction ys arbitrary: xs) auto

lemma opt_check_cong [fundef_cong]:
  "x = y \<Longrightarrow> (\<And>a. y = Some a \<Longrightarrow> f a = g a) \<Longrightarrow> opt_check f x = opt_check g y"
  by (cases y) auto

lemma opt_mapR_cong [fundef_cong]:
  "x = y \<Longrightarrow> (\<And>a. y = Some a \<Longrightarrow> f a = g a) \<Longrightarrow> opt_mapR f x = opt_mapR g y"
  by (cases y) auto

section \<open>Sorting\<close>

lemma map_insort_key: "map f (insort_key (\<lambda>y. g (f y)) x xs) = insort_key g (f x) (map f xs)"
  by (induction xs) auto

lemma map_sort_key: "map f (sort_key (\<lambda>y. g (f y)) xs) = sort_key g (map f xs)"
  by (induction xs) (auto simp: map_insort_key)

lemma insort_key_cong:
  "(\<And>y. y \<in> insert x (set xs) \<Longrightarrow> f y = g y) \<Longrightarrow> insort_key f x xs = insort_key g x xs"
  by (induction xs) auto

lemma sort_key_cong:
  "(\<And>y. y \<in> set xs \<Longrightarrow> f y = g y) \<Longrightarrow> sort_key f xs = sort_key g xs"
proof (induction xs)
  case (Cons x xs)
  then show ?case using insort_key_cong[of x "sort_key g xs" f g] by simp
qed simp

text \<open>Sorting an index vector by the keys it points to sorts the vector of values.\<close>

lemma argsort:
  assumes "\<And>i. i < length xs \<Longrightarrow> keys ! i = key (xs ! i)"
  shows "map ((!) xs) (sort_key ((!) keys) [0..<length xs]) = sort_key key xs"
proof -
  have "sort_key ((!) keys) [0..<length xs] = sort_key (\<lambda>i. key (xs ! i)) [0..<length xs]"
    using assms by (intro sort_key_cong) auto
  then show ?thesis by (simp add: map_sort_key map_nth)
qed

text \<open>\<open>xs.windows(2)\<close> contains a pair of equal neighbours.\<close>

fun adjacent_equal :: "'a list \<Rightarrow> bool" where
  "adjacent_equal (x # y # zs) = (x = y \<or> adjacent_equal (y # zs))"
| "adjacent_equal _ = False"

lemma sorted_adjacent_equal: "sorted xs \<Longrightarrow> adjacent_equal xs \<longleftrightarrow> \<not> distinct xs"
  by (induction xs rule: adjacent_equal.induct) (auto simp: dual_order.antisym)

lemma sorted_wrt_less_iff: "sorted_wrt (<) xs \<longleftrightarrow> sorted xs \<and> distinct xs" for xs :: "'a::linorder list"
  by (simp add: strict_sorted_iff)

lemma sort_key_perm:
  assumes "mset xs = mset ys" "inj_on f (set xs)"
  shows "sort_key f xs = sort_key f ys"
proof -
  have set: "set ys = set xs" using mset_eq_setD[OF assms(1)] by simp
  have "sort (map f xs) = sort (map f ys)"
    using assms(1) by (metis mset_map sorted_list_of_multiset_mset)
  then have "map f (sort_key f xs) = map f (sort_key f ys)"
    by (simp flip: map_sort_key)
  then show ?thesis by (rule map_inj_on) (use assms(2) set in auto)
qed

section \<open>Arithmetic of \<open>i128\<close>\<close>

definition i128_ok :: "int \<Rightarrow> bool" where
  "i128_ok n = (- (2 ^ 127) \<le> n \<and> n < 2 ^ 127)"

definition checked_mul_i128 :: "int \<Rightarrow> int \<Rightarrow> int option" where
  "checked_mul_i128 a b = (if i128_ok (a * b) then Some (a * b) else None)"

definition saturate_i128 :: "int \<Rightarrow> int" where
  "saturate_i128 n = (if n < - (2 ^ 127) then - (2 ^ 127) else if n \<ge> 2 ^ 127 then 2 ^ 127 - 1 else n)"

definition saturating_mul_i128 :: "int \<Rightarrow> int \<Rightarrow> int" where
  "saturating_mul_i128 a b = saturate_i128 (a * b)"

lemma checked_saturating_mul:
  "checked_mul_i128 a b = Some c \<Longrightarrow> saturating_mul_i128 a b = c"
  by (auto simp: checked_mul_i128_def saturating_mul_i128_def saturate_i128_def i128_ok_def
      split: if_splits)

lemma saturate_i128_ok: "i128_ok (saturate_i128 n)"
  by (auto simp: saturate_i128_def i128_ok_def)

section \<open>The wire codec\<close>

text \<open>
  postcard's \<open>to_stdvec\<close> and \<open>take_from_bytes\<close>, at one type. The law is what the crate
  documents: serialising a value and reading it back returns the value and the bytes
  that follow it.
\<close>

datatype postcard_error = DeserializeUnexpectedEnd | PostcardError string

record 'a codec =
  to_stdvec :: "'a \<Rightarrow> postcard_error + bytes"
  take_from_bytes :: "bytes \<Rightarrow> postcard_error + ('a \<times> bytes)"

definition codec_law :: "'a codec \<Rightarrow> bool" where
  "codec_law c = (\<forall>x. \<exists>bs. to_stdvec c x = Inr bs \<and>
     (\<forall>rest. take_from_bytes c (bs @ rest) = Inr (x, rest)))"

lemma codec_lawD:
  "codec_law c \<Longrightarrow> to_stdvec c x = Inr bs \<Longrightarrow> take_from_bytes c (bs @ rest) = Inr (x, rest)"
  by (auto simp: codec_law_def) (metis sum.inject(2))

lemma codec_law_enc: "codec_law c \<Longrightarrow> \<exists>bs. to_stdvec c x = Inr bs"
  by (auto simp: codec_law_def)

lemma codec_law_nil: "codec_law c \<Longrightarrow> to_stdvec c x = Inr bs \<Longrightarrow> take_from_bytes c bs = Inr (x, [])"
  using codec_lawD[of c x bs "[]"] by simp

lemma codec_law_inj:
  "codec_law c \<Longrightarrow> to_stdvec c x = Inr bs \<Longrightarrow> to_stdvec c y = Inr bs \<Longrightarrow> x = y"
  using codec_law_nil[of c x bs] codec_law_nil[of c y bs] by simp

text \<open>A codec that satisfies the law exists for every countable type.\<close>

fun read_unary :: "bytes \<Rightarrow> postcard_error + (nat \<times> bytes)" where
  "read_unary [] = Inl DeserializeUnexpectedEnd"
| "read_unary (b # bs) = (if b = 0 then Inr (0, bs)
     else rmap (\<lambda>(n, r). (Suc n, r)) (read_unary bs))"

definition unary_codec :: "('a::countable) codec" where
  "unary_codec = \<lparr>to_stdvec = (\<lambda>x. Inr (replicate (to_nat x) 1 @ [0])),
     take_from_bytes = (\<lambda>bs. rmap (\<lambda>(n, r). (from_nat n, r)) (read_unary bs))\<rparr>"

lemma read_unary_replicate: "read_unary (replicate n 1 @ [0] @ rest) = Inr (n, rest)"
  by (induction n) auto

lemma codec_law_unary: "codec_law unary_codec"
  using read_unary_replicate by (simp add: codec_law_def unary_codec_def)

end
