(* ===== verification/IR.thy ===== *)
theory IR
  imports Prelude
begin

text \<open>
  The data model of \<open>ke-core\<close>: the version pins, the rule IR
  (\<open>src/crates/ke-core/src/ir\<close>), the IntentSpec IR and the artifact-level shapes of
  \<open>src/crates/ke-core/src/manifest.rs\<close>. Structs are records (their field names carry a
  prefix per struct, since several structs share names), enums are datatypes with the
  constructors of the source, and the two mutually recursive pairs
  (condition groups and decision trees) are mutual datatypes whose selectors name the
  struct fields.
\<close>

section \<open>Versions\<close>

record schema_version =
  sv_major :: "16 word"
  sv_minor :: "16 word"
  sv_patch :: "16 word"

definition IR_SCHEMA_VERSION :: schema_version where
  "IR_SCHEMA_VERSION = \<lparr>sv_major = 0, sv_minor = 5, sv_patch = 0\<rparr>"

definition CODEC_VERSION :: string where
  "CODEC_VERSION = ''postcard-1''"

definition CANONICALIZATION_VERSION :: string where
  "CANONICALIZATION_VERSION = ''ke-canon-5''"

section \<open>Conditions\<close>

datatype operator = OpEq | OpNotEq | OpIn | OpNotIn | OpGt | OpLt | OpGte | OpLte | OpExists

datatype scalar_value =
    ScalarStr string
  | ScalarBool bool
  | ScalarDecimal (mantissa: int) (scale: int)
  | ScalarList "scalar_value list"

definition scalar_int :: "int \<Rightarrow> scalar_value" where
  "scalar_int n = ScalarDecimal n 0"

record condition =
  cond_field :: string
  cond_operator :: operator
  cond_value :: scalar_value
  cond_description :: "string option"

datatype condition_or_group =
    CondItem condition
  | GroupItem condition_group
and condition_group =
    ConditionGroupSpec
      (group_all: "condition_or_group list option")
      (group_any: "condition_or_group list option")

section \<open>Sources, time and obligations\<close>

record document_ref =
  doc_document_id :: string
  doc_article :: "string option"
  doc_section :: "string option"
  doc_paragraphs :: "string list"
  doc_pages :: "32 word list"
  doc_url :: "string option"

record byte_range =
  range_start :: "64 word"
  range_end :: "64 word"

record source_span =
  span_document_id :: string
  span_article :: "string option"
  span_section :: "string option"
  span_paragraph :: "string option"
  span_pages :: "32 word list option"
  span_byte_range :: "byte_range option"
  span_text_hash :: "hash32 option"

text \<open>Years are \<open>i16\<close>, months and days \<open>u8\<close>; the code only compares them here.\<close>

record jurisdiction_date =
  year :: int
  month :: nat
  day :: nat

definition MIN_YEAR :: int where
  "MIN_YEAR = 1900"

definition is_structurally_valid :: "jurisdiction_date \<Rightarrow> bool" where
  "is_structurally_valid d =
     (MIN_YEAR \<le> year d \<and> 1 \<le> month d \<and> month d \<le> 12 \<and> 1 \<le> day d \<and> day d \<le> 31)"

record time_zone =
  tz_name :: string
  tz_data_version :: string

datatype effective_time_policy = MidnightLocal

record effective_window =
  effective_from :: jurisdiction_date
  effective_to :: "jurisdiction_date option"
  jurisdiction_time_zone :: "time_zone option"
  effective_time_policy :: "effective_time_policy option"

record obligation_spec =
  obl_id :: string
  obl_description :: "string option"
  obl_deadline :: "string option"
  obl_source_span :: "source_span option"

section \<open>Decision trees and rules\<close>

record decision_leaf =
  leaf_result :: string
  leaf_obligations :: "obligation_spec list option"
  leaf_notes :: "string option"
  leaf_source_span :: "source_span option"

datatype decision_entry =
    NodeEntry decision_node
  | LeafEntry decision_leaf
and decision_node =
    DecisionNode
      (node_id: string)
      (node_condition: condition)
      (true_branch: decision_entry)
      (false_branch: decision_entry)
      (node_source_span: "source_span option")

datatype provenance_marker =
    ProvCandidate "string option"
  | ProvStructurallyVerified
  | ProvMlChecked string
  | ProvExpertAttested "16 word"
  | ProvPublished string
  | ProvDeprecated
  | ProvRevoked

record rule_ir =
  rule_id :: string
  rule_version :: string
  rule_description :: "string option"
  rule_tags :: "string list option"
  applies_if :: "condition_group option"
  decision_tree :: decision_entry
  rule_obligations :: "obligation_spec list"
  rule_source :: document_ref
  interpretation_notes :: "string option"
  rule_effective_window :: "effective_window option"
  rule_provenance :: provenance_marker

section \<open>IntentSpec\<close>

datatype volatility = Stable | Volatile

record authorization_criterion =
  crit_name :: string
  crit_threshold :: scalar_value
  crit_volatility :: volatility

record idempotency_def =
  idem_key_fields :: "string list"
  idem_scope :: string

record intent_spec_ir =
  action_class :: string
  intent_criteria :: "authorization_criterion list"
  intent_idempotency :: idempotency_def
  intent_source_spans :: "source_span list"

section \<open>Manifest and policy\<close>

record sem_ver =
  semver_major :: "16 word"
  semver_minor :: "16 word"
  semver_patch :: "16 word"

datatype artifact_kind = RegimePack | EquivalenceMatrix | TestCorpus | PolicyBundleKind | IntentSpec

record manifest =
  artifact_kind :: artifact_kind
  artifact_hash :: hash32
  regime_id :: string
  man_effective_from :: jurisdiction_date
  man_effective_to :: "jurisdiction_date option"
  compiler_version :: sem_ver
  compiler_build_hash :: hash32
  ir_schema_version :: schema_version
  codec_version :: string
  canonicalization_version :: string
  corpus_root_hash :: hash32
  source_corpus_hash :: hash32
  attestation_policy_version :: string

datatype t2t3_mode = Strict | ReviewOverride | Advisory | Disabled

datatype attestation_type =
    SourceFidelity | Interpretation | ScenarioCoverage | EquivalenceClaim | PublicationApproval

datatype revocation_policy = HardStop | FinishPinned | AuditOnly

record attestation_count =
  count_type :: attestation_type
  count_min :: nat

record verification_policy =
  t2_t3_mode :: t2t3_mode
  required_attestation_types :: "attestation_type list"
  minimum_attestation_count_per_type :: "attestation_count list"

record policy_bundle =
  environment :: string
  policy_verification :: verification_policy
  policy_revocation :: revocation_policy
  policy_window :: effective_window

section \<open>Countability\<close>

text \<open>The IR types are countable, so a lawful codec exists at each of them.\<close>

lemma countable_by_key:
  fixes key :: "'a \<Rightarrow> 'b::countable"
  assumes "\<And>x y. key x = key y \<Longrightarrow> x = y"
  shows "\<exists>to_nat :: 'a \<Rightarrow> nat. inj to_nat"
  using assms by (intro exI[of _ "\<lambda>x. to_nat (key x)"] injI) simp

instance operator :: countable by countable_datatype
instance scalar_value :: countable by countable_datatype
instance effective_time_policy :: countable by countable_datatype
instance attestation_type :: countable by countable_datatype
instance artifact_kind :: countable by countable_datatype
instance revocation_policy :: countable by countable_datatype
instance t2t3_mode :: countable by countable_datatype

instance byte_range_ext :: (countable) countable
  by (standard, rule countable_by_key[of "\<lambda>r. (range_start r, range_end r, byte_range.more r)"]) (simp add: byte_range.equality)

instance source_span_ext :: (countable) countable
  by (standard, rule countable_by_key[of "\<lambda>r. (span_document_id r, span_article r, span_section r, span_paragraph r, span_pages r, span_byte_range r, span_text_hash r, source_span.more r)"]) (simp add: source_span.equality)

instance obligation_spec_ext :: (countable) countable
  by (standard, rule countable_by_key[of "\<lambda>r. (obl_id r, obl_description r, obl_deadline r, obl_source_span r, obligation_spec.more r)"]) (simp add: obligation_spec.equality)

instance document_ref_ext :: (countable) countable
  by (standard, rule countable_by_key[of "\<lambda>r. (doc_document_id r, doc_article r, doc_section r, doc_paragraphs r, doc_pages r, doc_url r, document_ref.more r)"]) (simp add: document_ref.equality)

instance jurisdiction_date_ext :: (countable) countable
  by (standard, rule countable_by_key[of "\<lambda>r. (year r, month r, day r, jurisdiction_date.more r)"]) (simp add: jurisdiction_date.equality)

instance time_zone_ext :: (countable) countable
  by (standard, rule countable_by_key[of "\<lambda>r. (tz_name r, tz_data_version r, time_zone.more r)"]) (simp add: time_zone.equality)

instance effective_window_ext :: (countable) countable
  by (standard, rule countable_by_key[of "\<lambda>r. (effective_from r, effective_to r, jurisdiction_time_zone r, effective_time_policy r, effective_window.more r)"]) (simp add: effective_window.equality)

instance condition_ext :: (countable) countable
  by (standard, rule countable_by_key[of "\<lambda>r. (cond_field r, cond_operator r, cond_value r, cond_description r, condition.more r)"]) (simp add: condition.equality)

instance condition_or_group :: countable by countable_datatype

instance condition_group :: countable by countable_datatype

instance decision_leaf_ext :: (countable) countable
  by (standard, rule countable_by_key[of "\<lambda>r. (leaf_result r, leaf_obligations r, leaf_notes r, leaf_source_span r, decision_leaf.more r)"]) (simp add: decision_leaf.equality)

instance decision_entry :: countable by countable_datatype

instance decision_node :: countable by countable_datatype

instance provenance_marker :: countable by countable_datatype

instance rule_ir_ext :: (countable) countable
  by (standard, rule countable_by_key[of "\<lambda>r. (rule_id r, rule_version r, rule_description r, rule_tags r, applies_if r, decision_tree r, rule_obligations r, rule_source r, interpretation_notes r, rule_effective_window r, rule_provenance r, rule_ir.more r)"]) (simp add: rule_ir.equality)

instance attestation_count_ext :: (countable) countable
  by (standard, rule countable_by_key[of "\<lambda>r. (count_type r, count_min r, attestation_count.more r)"]) (simp add: attestation_count.equality)

instance schema_version_ext :: (countable) countable
  by (standard, rule countable_by_key[of "\<lambda>r. (sv_major r, sv_minor r, sv_patch r, schema_version.more r)"]) (simp add: schema_version.equality)

instance sem_ver_ext :: (countable) countable
  by (standard, rule countable_by_key[of "\<lambda>r. (semver_major r, semver_minor r, semver_patch r, sem_ver.more r)"]) (simp add: sem_ver.equality)

instance manifest_ext :: (countable) countable
  by (standard, rule countable_by_key[of "\<lambda>r. (artifact_kind r, artifact_hash r, regime_id r, man_effective_from r, man_effective_to r, compiler_version r, compiler_build_hash r, ir_schema_version r, codec_version r, canonicalization_version r, corpus_root_hash r, source_corpus_hash r, attestation_policy_version r, manifest.more r)"]) (simp add: manifest.equality)

instance verification_policy_ext :: (countable) countable
  by (standard, rule countable_by_key[of "\<lambda>r. (t2_t3_mode r, required_attestation_types r, minimum_attestation_count_per_type r, verification_policy.more r)"]) (simp add: verification_policy.equality)

instance policy_bundle_ext :: (countable) countable
  by (standard, rule countable_by_key[of "\<lambda>r. (environment r, policy_verification r, policy_revocation r, policy_window r, policy_bundle.more r)"]) (simp add: policy_bundle.equality)

end
