(* ===== verification/Canonical_Ordering.thy ===== *)
theory Canonical_Ordering
  imports Complex_Main IR
begin

text \<open>
  The ordering rules and scalar validators of the canonical encoding
  (\<open>src/crates/ke-core/src/canonical/ordering.rs\<close>) with the two error types of
  \<open>canonical/mod.rs\<close>. Every rule comes as a pair: the encoder's (\<open>ensure_\<close>,
  \<open>normalize_\<close>, \<open>canonicalize_\<close>) and the strict decoder's (\<open>check_\<close>); the lemmas
  relate the two. Unicode's NFC test and the per-element serialisers are third-party
  code and come in as the record \<open>canon_lib\<close>.
\<close>

record canon_lib =
  is_nfc :: "string \<Rightarrow> bool"
  enc_string :: "string \<Rightarrow> postcard_error + bytes"
  enc_attestation_type :: "attestation_type \<Rightarrow> postcard_error + bytes"
  enc_attestation_count :: "attestation_count \<Rightarrow> postcard_error + bytes"

datatype canonical_error =
    EncCodec postcard_error
  | EncNonNfcString string
  | EncInvalidDate int nat nat
  | EncUnknownTimeZone string
  | EncDecimalOverflow int int
  | EncDuplicateSetElement

datatype canonical_decode_error =
    DecCodec postcard_error
  | DecTrailingBytes
  | DecUnsortedSet
  | DecDuplicateSetElement
  | DecNonNfcString
  | DecInvalidDate int nat nat
  | DecUnknownTimeZone string
  | DecNonCanonicalDecimal int int

definition KNOWN_TIME_ZONES :: "string list" where
  "KNOWN_TIME_ZONES =
     [''UTC'', ''Europe/Brussels'', ''Europe/Berlin'', ''Europe/London'', ''Europe/Zurich'',
      ''Asia/Singapore'', ''America/New_York'']"

section \<open>Strings, dates and time zones\<close>

definition ensure_nfc :: "canon_lib \<Rightarrow> string \<Rightarrow> canonical_error + unit" where
  "ensure_nfc L s = (if is_nfc L s then Inr () else Inl (EncNonNfcString s))"

definition check_nfc :: "canon_lib \<Rightarrow> string \<Rightarrow> canonical_decode_error + unit" where
  "check_nfc L s = (if is_nfc L s then Inr () else Inl DecNonNfcString)"

definition ensure_date :: "int \<Rightarrow> nat \<Rightarrow> nat \<Rightarrow> canonical_error + unit" where
  "ensure_date y m d =
     (if MIN_YEAR \<le> y \<and> (1 \<le> m \<and> m \<le> 12) \<and> (1 \<le> d \<and> d \<le> 31)
      then Inr () else Inl (EncInvalidDate y m d))"

definition check_date :: "int \<Rightarrow> nat \<Rightarrow> nat \<Rightarrow> canonical_decode_error + unit" where
  "check_date y m d =
     (if MIN_YEAR \<le> y \<and> (1 \<le> m \<and> m \<le> 12) \<and> (1 \<le> d \<and> d \<le> 31)
      then Inr () else Inl (DecInvalidDate y m d))"

definition ensure_known_tz :: "string \<Rightarrow> canonical_error + unit" where
  "ensure_known_tz name =
     (if name \<in> set KNOWN_TIME_ZONES then Inr () else Inl (EncUnknownTimeZone name))"

definition check_known_tz :: "string \<Rightarrow> canonical_decode_error + unit" where
  "check_known_tz name =
     (if name \<in> set KNOWN_TIME_ZONES then Inr () else Inl (DecUnknownTimeZone name))"

text \<open>The encoder's and the decoder's test accept the same values.\<close>

lemma scalar_checks_agree [simp]:
  "ensure_nfc L s = Inr u \<longleftrightarrow> check_nfc L s = Inr ()"
  "ensure_date y m d = Inr u \<longleftrightarrow> check_date y m d = Inr ()"
  "ensure_known_tz z = Inr u \<longleftrightarrow> check_known_tz z = Inr ()"
  by (simp_all add: ensure_nfc_def check_nfc_def ensure_date_def check_date_def
      ensure_known_tz_def check_known_tz_def)

section \<open>Decimals\<close>

text \<open>The value of a decimal, \<open>mantissa * 10 ^ (- scale)\<close>, used by the specifications.\<close>

definition decimal_value :: "int \<Rightarrow> int \<Rightarrow> rat" where
  "decimal_value m s = of_int m * 10 powi (- s)"

text \<open>The first loop of \<open>normalize_decimal\<close>: \<open>None\<close> is the overflow of \<open>checked_mul\<close>.\<close>

function fold_negative_scale :: "int \<Rightarrow> int \<Rightarrow> (int \<times> int) option" where
  "fold_negative_scale m s =
     (if s < 0
      then case checked_mul_i128 m 10 of
             None \<Rightarrow> None
           | Some m' \<Rightarrow> fold_negative_scale m' (s + 1)
      else Some (m, s))"
  by pat_completeness auto
termination by (relation "measure (\<lambda>(m, s). nat (- s))") auto

function strip_trailing_zeros :: "int \<Rightarrow> int \<Rightarrow> int \<times> int" where
  "strip_trailing_zeros m s =
     (if s > 0 \<and> m \<noteq> 0 \<and> m mod 10 = 0 then strip_trailing_zeros (m div 10) (s - 1)
      else (m, s))"
  by pat_completeness auto
termination by (relation "measure (\<lambda>(m, s). nat s)") auto

declare fold_negative_scale.simps [simp del] strip_trailing_zeros.simps [simp del]

definition normalize_decimal :: "int \<Rightarrow> int \<Rightarrow> canonical_error + (int \<times> int)" where
  "normalize_decimal mant scl =
     (case fold_negative_scale mant scl of
        None \<Rightarrow> Inl (EncDecimalOverflow mant scl)
      | Some (m, s) \<Rightarrow>
          (let (m, s) = strip_trailing_zeros m s;
               s = (if m = 0 then 0 else s)
           in Inr (m, s)))"

definition check_decimal_canonical :: "int \<Rightarrow> int \<Rightarrow> canonical_decode_error + unit" where
  "check_decimal_canonical mant scl =
     (let canonical = scl \<ge> 0 \<and> \<not> (scl > 0 \<and> mant \<noteq> 0 \<and> mant mod 10 = 0)
                      \<and> \<not> (mant = 0 \<and> scl \<noteq> 0)
      in if canonical then Inr () else Inl (DecNonCanonicalDecimal mant scl))"

lemma decimal_value_scale_up: "decimal_value (m * 10) (s + 1) = decimal_value m s"
  by (simp add: decimal_value_def power_int_diff power_int_minus field_simps)

lemma fold_negative_scale_Some:
  "fold_negative_scale m s = Some (m', s') \<Longrightarrow>
     decimal_value m' s' = decimal_value m s \<and> s' = max 0 s \<and> (m' = 0 \<longleftrightarrow> m = 0)"
proof (induction m s rule: fold_negative_scale.induct)
  case (1 m s)
  show ?case
    using "1.prems" "1.IH" decimal_value_scale_up[of m s]
    by (subst (asm) fold_negative_scale.simps)
       (auto simp: checked_mul_i128_def split: if_splits option.splits)
qed

lemma strip_trailing_zeros_spec:
  "strip_trailing_zeros m s = (m', s') \<Longrightarrow> 0 \<le> s \<Longrightarrow>
     decimal_value m' s' = decimal_value m s \<and> 0 \<le> s' \<and> (m' = 0 \<longleftrightarrow> m = 0)
     \<and> \<not> (s' > 0 \<and> m' \<noteq> 0 \<and> m' mod 10 = 0) \<and> \<bar>m'\<bar> \<le> \<bar>m\<bar>"
proof (induction m s arbitrary: m' s' rule: strip_trailing_zeros.induct)
  case (1 m s)
  show ?case
  proof (cases "s > 0 \<and> m \<noteq> 0 \<and> m mod 10 = 0")
    case True
    then have "10 dvd m" by presburger
    then obtain k where k: "m = k * 10" by (auto simp: mult.commute elim: dvdE)
    have "strip_trailing_zeros k (s - 1) = (m', s')"
      using "1.prems"(1) True k by (subst (asm) strip_trailing_zeros.simps) simp
    moreover have "decimal_value m s = decimal_value k (s - 1)"
      using decimal_value_scale_up[of k "s - 1"] k by simp
    ultimately show ?thesis using "1.IH"[OF True, of m' s'] True k by auto
  next
    case False
    then have "m' = m \<and> s' = s" using "1.prems"(1) by (subst (asm) strip_trailing_zeros.simps) auto
    with False "1.prems"(2) show ?thesis by auto
  qed
qed

lemma decimal_value_zero [simp]: "decimal_value 0 s = 0"
  by (simp add: decimal_value_def)

lemma normalize_decimal_spec:
  assumes "normalize_decimal m s = Inr (m', s')"
  shows "decimal_value m' s' = decimal_value m s" "check_decimal_canonical m' s' = Inr ()"
proof -
  from assms obtain a b c d where f: "fold_negative_scale m s = Some (a, b)"
    and t: "strip_trailing_zeros a b = (c, d)" and r: "m' = c" "s' = (if c = 0 then 0 else d)"
    by (auto simp: normalize_decimal_def Let_def split: option.splits prod.splits if_splits)
  note fs = fold_negative_scale_Some[OF f]
  note st = strip_trailing_zeros_spec[OF t]
  show "decimal_value m' s' = decimal_value m s" using fs st r by (auto split: if_splits)
  show "check_decimal_canonical m' s' = Inr ()"
    using fs st r by (auto simp: check_decimal_canonical_def Let_def)
qed

lemma normalize_decimal_id:
  "check_decimal_canonical m s = Inr () \<Longrightarrow> normalize_decimal m s = Inr (m, s)"
  by (auto simp: check_decimal_canonical_def normalize_decimal_def Let_def
      fold_negative_scale.simps[of m s] strip_trailing_zeros.simps[of m s] split: if_splits)

text \<open>Two canonical decimals with the same value are the same pair.\<close>

lemma canonical_decimal_unique_aux:
  assumes "decimal_value m s = decimal_value n (s + int k)" "n mod 10 \<noteq> 0"
  shows "k = 0"
proof (rule ccontr)
  assume "k \<noteq> 0"
  have "(10::rat) powi (- s) = 10 powi (- (s + int k)) * 10 ^ k"
    using power_int_add[of "10::rat" "- (s + int k)" "int k"] by simp
  then have "(of_int n :: rat) = of_int m * 10 ^ k"
    using assms(1) by (simp add: decimal_value_def)
  also have "\<dots> = of_int (m * 10 ^ k)" by simp
  finally have "n = m * 10 ^ k" by (simp only: of_int_eq_iff)
  with \<open>k \<noteq> 0\<close> have "10 dvd n" by (cases k) auto
  with assms(2) show False by (simp add: dvd_eq_mod_eq_0)
qed

lemma canonical_decimal_unique_le:
  assumes "check_decimal_canonical m s = Inr ()" "check_decimal_canonical n t = Inr ()"
    and eq: "decimal_value m s = decimal_value n t" and le: "s \<le> t"
  shows "m = n \<and> s = t"
proof -
  have zero: "m = 0 \<longleftrightarrow> n = 0" using eq by (auto simp: decimal_value_def)
  have "s = t"
  proof (cases "n = 0 \<or> n mod 10 \<noteq> 0")
    case True
    then show ?thesis
      using canonical_decimal_unique_aux[of m s n "nat (t - s)"] assms(1,2) eq le zero
      by (auto simp: check_decimal_canonical_def Let_def split: if_splits)
  next
    case False
    then show ?thesis
      using assms(1,2) le by (auto simp: check_decimal_canonical_def Let_def split: if_splits)
  qed
  with eq show ?thesis by (simp add: decimal_value_def)
qed

lemma canonical_decimal_unique:
  assumes "check_decimal_canonical m s = Inr ()" "check_decimal_canonical n t = Inr ()"
    and "decimal_value m s = decimal_value n t"
  shows "m = n \<and> s = t"
  using canonical_decimal_unique_le[of m s n t] canonical_decimal_unique_le[of n t m s] assms
  by (cases "s \<le> t") auto

section \<open>Sets and maps\<close>

text \<open>
  \<open>canonicalize_set\<close>: encode every element, argsort the indices by the encodings, reject
  equal neighbours, apply the permutation. The sort of the code (\<open>slice::sort_by\<close>) is
  stable, as \<open>sort_key\<close> is.
\<close>

definition canonicalize_set ::
    "('a \<Rightarrow> postcard_error + bytes) \<Rightarrow> 'a list \<Rightarrow> canonical_error + 'a list" where
  "canonicalize_set enc items =
     rbind (mapR (\<lambda>it. map_err EncCodec (enc it)) items) (\<lambda>keys.
       let order = sort_key ((!) keys) [0..<length items]
       in if adjacent_equal (map ((!) keys) order) then Inl EncDuplicateSetElement
          else Inr (map ((!) items) order))"

fun check_set_from ::
    "('a \<Rightarrow> postcard_error + bytes) \<Rightarrow> bytes option \<Rightarrow> 'a list \<Rightarrow> canonical_decode_error + unit"
where
  "check_set_from enc prev [] = Inr ()"
| "check_set_from enc prev (it # its) =
     rbind (map_err DecCodec (enc it)) (\<lambda>key.
       case prev of
         None \<Rightarrow> check_set_from enc (Some key) its
       | Some p \<Rightarrow>
           if key < p then Inl DecUnsortedSet
           else if key = p then Inl DecDuplicateSetElement
           else check_set_from enc (Some key) its)"

definition check_set_canonical ::
    "('a \<Rightarrow> postcard_error + bytes) \<Rightarrow> 'a list \<Rightarrow> canonical_decode_error + unit" where
  "check_set_canonical enc items = check_set_from enc None items"

text \<open>The abstract key of an element whose encoding succeeds.\<close>

definition set_key :: "('a \<Rightarrow> postcard_error + bytes) \<Rightarrow> 'a \<Rightarrow> bytes" where
  "set_key enc x = (case enc x of Inl _ \<Rightarrow> [] | Inr bs \<Rightarrow> bs)"

lemma set_key_Inr [simp]: "enc x = Inr bs \<Longrightarrow> set_key enc x = bs"
  by (simp add: set_key_def)

lemma enc_keys:
  "mapR (\<lambda>it. map_err g (enc it)) items = Inr keys \<longleftrightarrow>
     (\<forall>x\<in>set items. is_ok (enc x)) \<and> keys = map (set_key enc) items"
  by (induction items arbitrary: keys) (auto simp: results is_ok_iff)

lemma canonicalize_set_eq:
  "canonicalize_set enc items = Inr out \<longleftrightarrow>
     (\<forall>x\<in>set items. is_ok (enc x)) \<and> distinct (map (set_key enc) items)
     \<and> out = sort_key (set_key enc) items"
proof -
  let ?keys = "map (set_key enc) items"
  let ?order = "sort_key ((!) ?keys) [0..<length items]"
  have out: "map ((!) items) ?order = sort_key (set_key enc) items" by (rule argsort) simp
  have "map ((!) ?keys) ?order = sort_key id (map ((!) ?keys) [0..<length items])"
    by (simp add: map_sort_key[where g = id, unfolded id_apply] id_def)
  also have "map ((!) ?keys) [0..<length items] = ?keys"
    using map_nth[of ?keys] by simp
  finally have k: "map ((!) ?keys) ?order = sort ?keys" by (simp add: id_def)
  show ?thesis
    using sorted_adjacent_equal[of "sort ?keys"]
    by (auto simp: canonicalize_set_def rbind_eq_Inr enc_keys Let_def k out split: if_splits)
qed

lemma check_set_from_iff:
  "check_set_from enc prev items = Inr () \<longleftrightarrow>
     (\<forall>x\<in>set items. is_ok (enc x)) \<and>
     sorted_wrt (<) ((case prev of None \<Rightarrow> [] | Some p \<Rightarrow> [p]) @ map (set_key enc) items)"
proof (induction items arbitrary: prev)
  case (Cons it its)
  show ?case
  proof (cases "enc it")
    case (Inr key)
    show ?thesis
    proof (cases prev)
      case (Some p)
      consider "key < p" | "key = p" | "p < key" by force
      then show ?thesis
        by cases (use Inr Some in \<open>auto simp: Cons.IH dest: less_trans\<close>)
    qed (simp add: Inr Cons.IH)
  qed (simp add: results)
qed (auto split: option.splits)

lemma check_set_canonical_iff:
  "check_set_canonical enc items = Inr u \<longleftrightarrow>
     (\<forall>x\<in>set items. is_ok (enc x)) \<and> sorted_wrt (<) (map (set_key enc) items)"
  by (simp add: check_set_canonical_def check_set_from_iff)

lemma canonicalize_set_checks:
  "canonicalize_set enc items = Inr out \<Longrightarrow> check_set_canonical enc out = Inr ()"
  by (auto simp: canonicalize_set_eq check_set_canonical_iff sorted_wrt_less_iff
      distinct_map distinct_sort)

lemma canonicalize_set_id:
  "check_set_canonical enc items = Inr () \<Longrightarrow> canonicalize_set enc items = Inr items"
  by (simp add: canonicalize_set_eq check_set_canonical_iff sorted_wrt_less_iff
      sort_key_id_if_sorted)

lemma canonicalize_set_mset:
  "canonicalize_set enc items = Inr out \<Longrightarrow> mset out = mset items"
  by (auto simp: canonicalize_set_eq)

lemma canonicalize_set_perm:
  assumes "mset items = mset items'"
  shows "canonicalize_set enc items = Inr out \<longleftrightarrow> canonicalize_set enc items' = Inr out"
proof -
  have "set items = set items'" using assms by (rule mset_eq_setD)
  moreover have "distinct (map (set_key enc) items) = distinct (map (set_key enc) items')"
    using assms by (intro mset_eq_imp_distinct_iff) simp
  moreover have "sort_key (set_key enc) items = sort_key (set_key enc) items'"
    if "distinct (map (set_key enc) items)"
    using that assms by (intro sort_key_perm) (auto simp: distinct_map)
  ultimately show ?thesis by (auto simp: canonicalize_set_eq)
qed

end
