(* ===== verification/Canonical.thy ===== *)
theory Canonical
  imports Canonical_Ordering
begin

text \<open>
  The canonical profile (\<open>src/crates/ke-core/src/canonical\<close>): normalisation before
  serialisation (\<open>encode.rs\<close>), strict validation after deserialisation (\<open>decode.rs\<close>) and
  the six entry points of \<open>mod.rs\<close>. A walker of the code that mutates nothing is a check
  (its result is unit); one that rewrites its argument returns the rewritten value.
\<close>

section \<open>Normalisation (\<open>encode.rs\<close>)\<close>

fun canonicalize_scalar :: "canon_lib \<Rightarrow> scalar_value \<Rightarrow> canonical_error + scalar_value" where
  "canonicalize_scalar L (ScalarStr s) = rbind (ensure_nfc L s) (\<lambda>_. Inr (ScalarStr s))"
| "canonicalize_scalar L (ScalarBool b) = Inr (ScalarBool b)"
| "canonicalize_scalar L (ScalarDecimal m s) =
     rbind (normalize_decimal m s) (\<lambda>(m, s). Inr (ScalarDecimal m s))"
| "canonicalize_scalar L (ScalarList items) =
     rmap ScalarList (mapR (canonicalize_scalar L) items)"

definition canonicalize_condition :: "canon_lib \<Rightarrow> condition \<Rightarrow> canonical_error + condition" where
  "canonicalize_condition L c =
     rbind (check_all [ensure_nfc L (cond_field c), opt_check (ensure_nfc L) (cond_description c)])
       (\<lambda>_. rmap (\<lambda>v. c\<lparr>cond_value := v\<rparr>) (canonicalize_scalar L (cond_value c)))"

fun canonicalize_group :: "canon_lib \<Rightarrow> condition_group \<Rightarrow> canonical_error + condition_group"
  and canonicalize_cond_or_group ::
    "canon_lib \<Rightarrow> condition_or_group \<Rightarrow> canonical_error + condition_or_group"
where
  "canonicalize_group L (ConditionGroupSpec as ns) =
     rbind (opt_mapR (mapR (canonicalize_cond_or_group L)) as) (\<lambda>as.
     rbind (opt_mapR (mapR (canonicalize_cond_or_group L)) ns) (\<lambda>ns.
       Inr (ConditionGroupSpec as ns)))"
| "canonicalize_cond_or_group L (CondItem c) = rmap CondItem (canonicalize_condition L c)"
| "canonicalize_cond_or_group L (GroupItem g) = rmap GroupItem (canonicalize_group L g)"

definition canonicalize_source_span :: "canon_lib \<Rightarrow> source_span \<Rightarrow> canonical_error + unit" where
  "canonicalize_source_span L s = check_all
     [ensure_nfc L (span_document_id s),
      opt_check (ensure_nfc L) (span_article s),
      opt_check (ensure_nfc L) (span_section s),
      opt_check (ensure_nfc L) (span_paragraph s)]"

definition canonicalize_obligation :: "canon_lib \<Rightarrow> obligation_spec \<Rightarrow> canonical_error + unit" where
  "canonicalize_obligation L ob = check_all
     [ensure_nfc L (obl_id ob),
      opt_check (ensure_nfc L) (obl_description ob),
      opt_check (ensure_nfc L) (obl_deadline ob),
      opt_check (canonicalize_source_span L) (obl_source_span ob)]"

definition canonicalize_leaf :: "canon_lib \<Rightarrow> decision_leaf \<Rightarrow> canonical_error + unit" where
  "canonicalize_leaf L l = check_all
     [ensure_nfc L (leaf_result l),
      opt_check (\<lambda>obls. check_all (map (canonicalize_obligation L) obls)) (leaf_obligations l),
      opt_check (ensure_nfc L) (leaf_notes l),
      opt_check (canonicalize_source_span L) (leaf_source_span l)]"

fun canonicalize_entry :: "canon_lib \<Rightarrow> decision_entry \<Rightarrow> canonical_error + decision_entry"
  and canonicalize_node :: "canon_lib \<Rightarrow> decision_node \<Rightarrow> canonical_error + decision_node"
where
  "canonicalize_entry L (NodeEntry n) = rmap NodeEntry (canonicalize_node L n)"
| "canonicalize_entry L (LeafEntry l) = rbind (canonicalize_leaf L l) (\<lambda>_. Inr (LeafEntry l))"
| "canonicalize_node L (DecisionNode i c t f sp) =
     rbind (ensure_nfc L i) (\<lambda>_.
     rbind (canonicalize_condition L c) (\<lambda>c.
     rbind (canonicalize_entry L t) (\<lambda>t.
     rbind (canonicalize_entry L f) (\<lambda>f.
     rbind (opt_check (canonicalize_source_span L) sp) (\<lambda>_.
       Inr (DecisionNode i c t f sp))))))"

definition canonicalize_doc_ref :: "canon_lib \<Rightarrow> document_ref \<Rightarrow> canonical_error + unit" where
  "canonicalize_doc_ref L d = check_all
     [ensure_nfc L (doc_document_id d),
      opt_check (ensure_nfc L) (doc_article d),
      opt_check (ensure_nfc L) (doc_section d),
      check_all (map (ensure_nfc L) (doc_paragraphs d)),
      opt_check (ensure_nfc L) (doc_url d)]"

definition canonicalize_time_zone :: "canon_lib \<Rightarrow> time_zone \<Rightarrow> canonical_error + unit" where
  "canonicalize_time_zone L tz =
     check_all [ensure_known_tz (tz_name tz), ensure_nfc L (tz_data_version tz)]"

definition canonicalize_window :: "canon_lib \<Rightarrow> effective_window \<Rightarrow> canonical_error + unit" where
  "canonicalize_window L w = check_all
     [ensure_date (year (effective_from w)) (month (effective_from w)) (day (effective_from w)),
      opt_check (\<lambda>d. ensure_date (year d) (month d) (day d)) (effective_to w),
      opt_check (canonicalize_time_zone L) (jurisdiction_time_zone w)]"

fun canonicalize_provenance :: "canon_lib \<Rightarrow> provenance_marker \<Rightarrow> canonical_error + unit" where
  "canonicalize_provenance L (ProvCandidate (Some i)) = ensure_nfc L i"
| "canonicalize_provenance L (ProvMlChecked v) = ensure_nfc L v"
| "canonicalize_provenance L (ProvPublished e) = ensure_nfc L e"
| "canonicalize_provenance L _ = Inr ()"

definition canonicalize_tags :: "canon_lib \<Rightarrow> string list \<Rightarrow> canonical_error + string list" where
  "canonicalize_tags L tags =
     rbind (check_all (map (ensure_nfc L) tags)) (\<lambda>_. canonicalize_set (enc_string L) tags)"

definition canonicalize_rule :: "canon_lib \<Rightarrow> rule_ir \<Rightarrow> canonical_error + rule_ir" where
  "canonicalize_rule L r =
     rbind (check_all
       [ensure_nfc L (rule_id r), ensure_nfc L (rule_version r),
        opt_check (ensure_nfc L) (rule_description r),
        opt_check (ensure_nfc L) (interpretation_notes r)]) (\<lambda>_.
     rbind (opt_mapR (canonicalize_tags L) (rule_tags r)) (\<lambda>tags.
     rbind (opt_mapR (canonicalize_group L) (applies_if r)) (\<lambda>group.
     rbind (canonicalize_entry L (decision_tree r)) (\<lambda>tree.
     rbind (check_all
       [check_all (map (canonicalize_obligation L) (rule_obligations r)),
        canonicalize_doc_ref L (rule_source r),
        opt_check (canonicalize_window L) (rule_effective_window r),
        canonicalize_provenance L (rule_provenance r)]) (\<lambda>_.
       Inr (r\<lparr>rule_tags := tags, applies_if := group, decision_tree := tree\<rparr>))))))"

definition canonicalize_verification_policy ::
    "canon_lib \<Rightarrow> verification_policy \<Rightarrow> canonical_error + verification_policy" where
  "canonicalize_verification_policy L v =
     rbind (canonicalize_set (enc_attestation_type L) (required_attestation_types v)) (\<lambda>req.
     rbind (canonicalize_set (enc_attestation_count L) (minimum_attestation_count_per_type v)) (\<lambda>cnt.
       Inr (v\<lparr>required_attestation_types := req, minimum_attestation_count_per_type := cnt\<rparr>)))"

definition canonicalize_policy :: "canon_lib \<Rightarrow> policy_bundle \<Rightarrow> canonical_error + policy_bundle" where
  "canonicalize_policy L p =
     rbind (ensure_nfc L (environment p)) (\<lambda>_.
     rbind (canonicalize_verification_policy L (policy_verification p)) (\<lambda>v.
     rbind (canonicalize_window L (policy_window p)) (\<lambda>_.
       Inr (p\<lparr>policy_verification := v\<rparr>))))"

definition canonicalize_manifest :: "canon_lib \<Rightarrow> manifest \<Rightarrow> canonical_error + unit" where
  "canonicalize_manifest L m = check_all
     [ensure_nfc L (regime_id m),
      ensure_nfc L (codec_version m),
      ensure_nfc L (canonicalization_version m),
      ensure_nfc L (attestation_policy_version m),
      ensure_date (year (man_effective_from m)) (month (man_effective_from m))
        (day (man_effective_from m)),
      opt_check (\<lambda>d. ensure_date (year d) (month d) (day d)) (man_effective_to m)]"

section \<open>Strict validation (\<open>decode.rs\<close>)\<close>

fun validate_scalar :: "canon_lib \<Rightarrow> scalar_value \<Rightarrow> canonical_decode_error + unit" where
  "validate_scalar L (ScalarStr s) = check_nfc L s"
| "validate_scalar L (ScalarBool b) = Inr ()"
| "validate_scalar L (ScalarDecimal m s) = check_decimal_canonical m s"
| "validate_scalar L (ScalarList items) = check_all (map (validate_scalar L) items)"

definition validate_condition :: "canon_lib \<Rightarrow> condition \<Rightarrow> canonical_decode_error + unit" where
  "validate_condition L c = check_all
     [check_nfc L (cond_field c), opt_check (check_nfc L) (cond_description c),
      validate_scalar L (cond_value c)]"

fun validate_group :: "canon_lib \<Rightarrow> condition_group \<Rightarrow> canonical_decode_error + unit"
  and validate_cond_or_group :: "canon_lib \<Rightarrow> condition_or_group \<Rightarrow> canonical_decode_error + unit"
where
  "validate_group L (ConditionGroupSpec as ns) = check_all
     [opt_check (\<lambda>items. check_all (map (validate_cond_or_group L) items)) as,
      opt_check (\<lambda>items. check_all (map (validate_cond_or_group L) items)) ns]"
| "validate_cond_or_group L (CondItem c) = validate_condition L c"
| "validate_cond_or_group L (GroupItem g) = validate_group L g"

definition validate_source_span :: "canon_lib \<Rightarrow> source_span \<Rightarrow> canonical_decode_error + unit" where
  "validate_source_span L s = check_all
     [check_nfc L (span_document_id s),
      opt_check (check_nfc L) (span_article s),
      opt_check (check_nfc L) (span_section s),
      opt_check (check_nfc L) (span_paragraph s)]"

definition validate_obligation :: "canon_lib \<Rightarrow> obligation_spec \<Rightarrow> canonical_decode_error + unit" where
  "validate_obligation L ob = check_all
     [check_nfc L (obl_id ob),
      opt_check (check_nfc L) (obl_description ob),
      opt_check (check_nfc L) (obl_deadline ob),
      opt_check (validate_source_span L) (obl_source_span ob)]"

definition validate_leaf :: "canon_lib \<Rightarrow> decision_leaf \<Rightarrow> canonical_decode_error + unit" where
  "validate_leaf L l = check_all
     [check_nfc L (leaf_result l),
      opt_check (\<lambda>obls. check_all (map (validate_obligation L) obls)) (leaf_obligations l),
      opt_check (check_nfc L) (leaf_notes l),
      opt_check (validate_source_span L) (leaf_source_span l)]"

fun validate_entry :: "canon_lib \<Rightarrow> decision_entry \<Rightarrow> canonical_decode_error + unit"
  and validate_node :: "canon_lib \<Rightarrow> decision_node \<Rightarrow> canonical_decode_error + unit"
where
  "validate_entry L (NodeEntry n) = validate_node L n"
| "validate_entry L (LeafEntry l) = validate_leaf L l"
| "validate_node L (DecisionNode i c t f sp) = check_all
     [check_nfc L i, validate_condition L c, validate_entry L t, validate_entry L f,
      opt_check (validate_source_span L) sp]"

definition validate_doc_ref :: "canon_lib \<Rightarrow> document_ref \<Rightarrow> canonical_decode_error + unit" where
  "validate_doc_ref L d = check_all
     [check_nfc L (doc_document_id d),
      opt_check (check_nfc L) (doc_article d),
      opt_check (check_nfc L) (doc_section d),
      check_all (map (check_nfc L) (doc_paragraphs d)),
      opt_check (check_nfc L) (doc_url d)]"

definition validate_time_zone :: "canon_lib \<Rightarrow> time_zone \<Rightarrow> canonical_decode_error + unit" where
  "validate_time_zone L tz =
     check_all [check_known_tz (tz_name tz), check_nfc L (tz_data_version tz)]"

definition validate_window :: "canon_lib \<Rightarrow> effective_window \<Rightarrow> canonical_decode_error + unit" where
  "validate_window L w = check_all
     [check_date (year (effective_from w)) (month (effective_from w)) (day (effective_from w)),
      opt_check (\<lambda>d. check_date (year d) (month d) (day d)) (effective_to w),
      opt_check (validate_time_zone L) (jurisdiction_time_zone w)]"

fun validate_provenance :: "canon_lib \<Rightarrow> provenance_marker \<Rightarrow> canonical_decode_error + unit" where
  "validate_provenance L (ProvCandidate (Some i)) = check_nfc L i"
| "validate_provenance L (ProvMlChecked v) = check_nfc L v"
| "validate_provenance L (ProvPublished e) = check_nfc L e"
| "validate_provenance L _ = Inr ()"

definition validate_tags :: "canon_lib \<Rightarrow> string list \<Rightarrow> canonical_decode_error + unit" where
  "validate_tags L tags =
     check_all [check_all (map (check_nfc L) tags), check_set_canonical (enc_string L) tags]"

definition validate_rule :: "canon_lib \<Rightarrow> rule_ir \<Rightarrow> canonical_decode_error + unit" where
  "validate_rule L r = check_all
     [check_nfc L (rule_id r), check_nfc L (rule_version r),
      opt_check (check_nfc L) (rule_description r),
      opt_check (check_nfc L) (interpretation_notes r),
      opt_check (validate_tags L) (rule_tags r),
      opt_check (validate_group L) (applies_if r),
      validate_entry L (decision_tree r),
      check_all (map (validate_obligation L) (rule_obligations r)),
      validate_doc_ref L (rule_source r),
      opt_check (validate_window L) (rule_effective_window r),
      validate_provenance L (rule_provenance r)]"

definition validate_verification_policy ::
    "canon_lib \<Rightarrow> verification_policy \<Rightarrow> canonical_decode_error + unit" where
  "validate_verification_policy L v = check_all
     [check_set_canonical (enc_attestation_type L) (required_attestation_types v),
      check_set_canonical (enc_attestation_count L) (minimum_attestation_count_per_type v)]"

definition validate_policy :: "canon_lib \<Rightarrow> policy_bundle \<Rightarrow> canonical_decode_error + unit" where
  "validate_policy L p = check_all
     [check_nfc L (environment p), validate_verification_policy L (policy_verification p),
      validate_window L (policy_window p)]"

definition validate_manifest :: "canon_lib \<Rightarrow> manifest \<Rightarrow> canonical_decode_error + unit" where
  "validate_manifest L m = check_all
     [check_nfc L (regime_id m),
      check_nfc L (codec_version m),
      check_nfc L (canonicalization_version m),
      check_nfc L (attestation_policy_version m),
      check_date (year (man_effective_from m)) (month (man_effective_from m))
        (day (man_effective_from m)),
      opt_check (\<lambda>d. check_date (year d) (month d) (day d)) (man_effective_to m)]"

section \<open>Entry points (\<open>mod.rs\<close>)\<close>

definition encode_rule :: "canon_lib \<Rightarrow> rule_ir codec \<Rightarrow> rule_ir \<Rightarrow> canonical_error + bytes" where
  "encode_rule L C r = rbind (canonicalize_rule L r) (\<lambda>c. map_err EncCodec (to_stdvec C c))"

definition decode_rule :: "canon_lib \<Rightarrow> rule_ir codec \<Rightarrow> bytes \<Rightarrow> canonical_decode_error + rule_ir" where
  "decode_rule L C bs =
     rbind (map_err DecCodec (take_from_bytes C bs)) (\<lambda>(r, rest).
       if rest \<noteq> [] then Inl DecTrailingBytes
       else rbind (validate_rule L r) (\<lambda>_. Inr r))"

definition encode_policy ::
    "canon_lib \<Rightarrow> policy_bundle codec \<Rightarrow> policy_bundle \<Rightarrow> canonical_error + bytes" where
  "encode_policy L C p = rbind (canonicalize_policy L p) (\<lambda>c. map_err EncCodec (to_stdvec C c))"

definition decode_policy ::
    "canon_lib \<Rightarrow> policy_bundle codec \<Rightarrow> bytes \<Rightarrow> canonical_decode_error + policy_bundle" where
  "decode_policy L C bs =
     rbind (map_err DecCodec (take_from_bytes C bs)) (\<lambda>(p, rest).
       if rest \<noteq> [] then Inl DecTrailingBytes
       else rbind (validate_policy L p) (\<lambda>_. Inr p))"

definition encode_manifest ::
    "canon_lib \<Rightarrow> manifest codec \<Rightarrow> manifest \<Rightarrow> canonical_error + bytes" where
  "encode_manifest L C m =
     rbind (canonicalize_manifest L m) (\<lambda>_. map_err EncCodec (to_stdvec C m))"

definition decode_manifest ::
    "canon_lib \<Rightarrow> manifest codec \<Rightarrow> bytes \<Rightarrow> canonical_decode_error + manifest" where
  "decode_manifest L C bs =
     rbind (map_err DecCodec (take_from_bytes C bs)) (\<lambda>(m, rest).
       if rest \<noteq> [] then Inl DecTrailingBytes
       else rbind (validate_manifest L m) (\<lambda>_. Inr m))"

section \<open>Normalisation and validation agree\<close>

named_theorems walkers \<open>definitions of the walkers that only check\<close>

declare canonicalize_source_span_def [walkers] canonicalize_obligation_def [walkers]
  canonicalize_leaf_def [walkers] canonicalize_doc_ref_def [walkers]
  canonicalize_time_zone_def [walkers] canonicalize_window_def [walkers]
  canonicalize_manifest_def [walkers]
  validate_source_span_def [walkers] validate_obligation_def [walkers]
  validate_leaf_def [walkers] validate_doc_ref_def [walkers]
  validate_time_zone_def [walkers] validate_window_def [walkers]
  validate_manifest_def [walkers]

lemma check_walkers_agree:
  "canonicalize_source_span L s = Inr () \<longleftrightarrow> validate_source_span L s = Inr ()"
  "canonicalize_obligation L ob = Inr () \<longleftrightarrow> validate_obligation L ob = Inr ()"
  "canonicalize_leaf L l = Inr () \<longleftrightarrow> validate_leaf L l = Inr ()"
  "canonicalize_doc_ref L d = Inr () \<longleftrightarrow> validate_doc_ref L d = Inr ()"
  "canonicalize_window L w = Inr () \<longleftrightarrow> validate_window L w = Inr ()"
  "canonicalize_manifest L m = Inr () \<longleftrightarrow> validate_manifest L m = Inr ()"
  by (simp_all add: walkers results)

lemma check_provenance_agree:
  "canonicalize_provenance L p = Inr () \<longleftrightarrow> validate_provenance L p = Inr ()"
  by (cases "(L, p)" rule: canonicalize_provenance.cases) simp_all

lemmas walkers_agree [simp] = check_walkers_agree check_provenance_agree

lemma canonicalize_scalar_validates:
  "canonicalize_scalar L v = Inr v' \<Longrightarrow> validate_scalar L v' = Inr ()"
proof (induction v arbitrary: v')
  case (ScalarDecimal m s)
  then show ?case by (auto simp: results dest: normalize_decimal_spec(2))
next
  case (ScalarList items)
  then obtain ys where "v' = ScalarList ys" "mapR (canonicalize_scalar L) items = Inr ys"
    by (auto simp: rmap_eq_Inr)
  moreover from this(2) have "\<forall>y\<in>set ys. validate_scalar L y = Inr ()"
    by (rule mapR_all) (rule ScalarList.IH)
  ultimately show ?case by (simp add: results)
qed (auto simp: results)

lemma canonicalize_scalar_id:
  "validate_scalar L v = Inr () \<Longrightarrow> canonicalize_scalar L v = Inr v"
  by (induction v) (auto simp: results normalize_decimal_id)

lemma canonicalize_condition_validates:
  "canonicalize_condition L c = Inr c' \<Longrightarrow> validate_condition L c' = Inr ()"
  by (auto simp: canonicalize_condition_def validate_condition_def results
      dest: canonicalize_scalar_validates)

lemma canonicalize_condition_id:
  "validate_condition L c = Inr () \<Longrightarrow> canonicalize_condition L c = Inr c"
  by (simp add: canonicalize_condition_def validate_condition_def results canonicalize_scalar_id)

lemma canonicalize_group_validates:
  "canonicalize_group L g = Inr g' \<Longrightarrow> validate_group L g' = Inr ()"
  "canonicalize_cond_or_group L i = Inr i' \<Longrightarrow> validate_cond_or_group L i' = Inr ()"
proof (induction L g and L i arbitrary: g' and i'
    rule: canonicalize_group_canonicalize_cond_or_group.induct)
  case (1 L as ns)
  then obtain as' ns' where g: "g' = ConditionGroupSpec as' ns'"
    "rel_option (\<lambda>a b. mapR (canonicalize_cond_or_group L) a = Inr b) as as'"
    "rel_option (\<lambda>a b. mapR (canonicalize_cond_or_group L) a = Inr b) ns ns'"
    and as_ok: "opt_mapR (mapR (canonicalize_cond_or_group L)) as = Inr as'"
    by (auto simp: rbind_eq_Inr opt_mapR_Inr)
  have "\<forall>y\<in>set ys. validate_cond_or_group L y = Inr ()" if ys: "as' = Some ys" for ys
  proof -
    obtain xs where xs: "as = Some xs" "mapR (canonicalize_cond_or_group L) xs = Inr ys"
      using g(2) ys by (auto simp: option_rel_Some2)
    from xs(2) show ?thesis by (rule mapR_all) (rule "1.IH"(1)[OF xs(1)])
  qed
  moreover have "\<forall>y\<in>set ys. validate_cond_or_group L y = Inr ()" if ys: "ns' = Some ys" for ys
  proof -
    obtain xs where xs: "ns = Some xs" "mapR (canonicalize_cond_or_group L) xs = Inr ys"
      using g(3) ys by (auto simp: option_rel_Some2)
    from xs(2) show ?thesis by (rule mapR_all) (rule "1.IH"(2)[OF as_ok xs(1)])
  qed
  ultimately show ?case by (simp add: g(1) results)
qed (auto simp: results dest: canonicalize_condition_validates)

lemma canonicalize_group_id:
  "validate_group L g = Inr () \<Longrightarrow> canonicalize_group L g = Inr g"
  "validate_cond_or_group L i = Inr () \<Longrightarrow> canonicalize_cond_or_group L i = Inr i"
proof (induction L g and L i rule: validate_group_validate_cond_or_group.induct)
  case (1 L as ns)
  then have "opt_mapR (mapR (canonicalize_cond_or_group L)) as = Inr as"
    "opt_mapR (mapR (canonicalize_cond_or_group L)) ns = Inr ns"
    by (simp_all add: results)
  then show ?case by simp
qed (auto simp: canonicalize_condition_id)

lemma canonicalize_entry_validates:
  "canonicalize_entry L e = Inr e' \<Longrightarrow> validate_entry L e' = Inr ()"
  "canonicalize_node L n = Inr n' \<Longrightarrow> validate_node L n' = Inr ()"
  by (induction L e and L n arbitrary: e' and n'
      rule: canonicalize_entry_canonicalize_node.induct)
     (auto simp: results dest: canonicalize_condition_validates)

lemma canonicalize_entry_id:
  "validate_entry L e = Inr () \<Longrightarrow> canonicalize_entry L e = Inr e"
  "validate_node L n = Inr () \<Longrightarrow> canonicalize_node L n = Inr n"
proof (induction L e and L n rule: validate_entry_validate_node.induct)
  case (3 L i c t f sp)
  then show ?case by (cases sp) (auto simp: results canonicalize_condition_id)
qed (auto simp: results)

lemma canonicalize_tags_validates:
  "canonicalize_tags L ts = Inr ts' \<Longrightarrow> validate_tags L ts' = Inr ()"
  using canonicalize_set_checks[of "enc_string L" ts ts'] canonicalize_set_mset[of "enc_string L" ts ts']
  by (auto simp: canonicalize_tags_def validate_tags_def results dest: mset_eq_setD)

lemma canonicalize_tags_id: "validate_tags L ts = Inr () \<Longrightarrow> canonicalize_tags L ts = Inr ts"
  by (auto simp: canonicalize_tags_def validate_tags_def results canonicalize_set_id)

section \<open>Normal forms of rules, policies and manifests\<close>

lemma canonicalize_rule_validates:
  "canonicalize_rule L r = Inr c \<Longrightarrow> validate_rule L c = Inr ()"
  by (auto simp: canonicalize_rule_def validate_rule_def results option_rel_Some2
      dest: canonicalize_tags_validates canonicalize_group_validates(1)
        canonicalize_entry_validates(1))

lemma canonicalize_rule_id:
  assumes "validate_rule L r = Inr ()"
  shows "canonicalize_rule L r = Inr r"
proof -
  have "opt_mapR (canonicalize_tags L) (rule_tags r) = Inr (rule_tags r)"
    "opt_mapR (canonicalize_group L) (applies_if r) = Inr (applies_if r)"
    using assms
    by (simp_all add: validate_rule_def results canonicalize_tags_id canonicalize_group_id)
  with assms show ?thesis
    by (simp add: canonicalize_rule_def validate_rule_def check_all_Inr opt_check_Inr
        canonicalize_entry_id rbind_eq_Inr)
qed

lemma canonicalize_policy_validates:
  "canonicalize_policy L p = Inr c \<Longrightarrow> validate_policy L c = Inr ()"
  by (auto simp: canonicalize_policy_def validate_policy_def canonicalize_verification_policy_def
      validate_verification_policy_def results dest: canonicalize_set_checks)

lemma canonicalize_policy_id:
  "validate_policy L p = Inr () \<Longrightarrow> canonicalize_policy L p = Inr p"
  by (simp add: canonicalize_policy_def validate_policy_def canonicalize_verification_policy_def
      validate_verification_policy_def results canonicalize_set_id)

lemma decode_rule_append:
  assumes "codec_law C" "to_stdvec C c = Inr bs" "validate_rule L c = Inr ()"
  shows "decode_rule L C (bs @ rest) = (if rest = [] then Inr c else Inl DecTrailingBytes)"
  using codec_lawD[OF assms(1,2)] assms(3) by (simp add: decode_rule_def)

lemma decode_policy_append:
  assumes "codec_law C" "to_stdvec C c = Inr bs" "validate_policy L c = Inr ()"
  shows "decode_policy L C (bs @ rest) = (if rest = [] then Inr c else Inl DecTrailingBytes)"
  using codec_lawD[OF assms(1,2)] assms(3) by (simp add: decode_policy_def)

lemma decode_manifest_append:
  assumes "codec_law C" "to_stdvec C c = Inr bs" "validate_manifest L c = Inr ()"
  shows "decode_manifest L C (bs @ rest) = (if rest = [] then Inr c else Inl DecTrailingBytes)"
  using codec_lawD[OF assms(1,2)] assms(3) by (simp add: decode_manifest_def)

section \<open>A concrete library and rule\<close>

text \<open>
  ASCII text is in NFC, and postcard writes a short string as its length and its bytes.
  The sample rule has unsorted tags and a decimal with a trailing zero.
\<close>

definition ascii_lib :: canon_lib where
  "ascii_lib =
     \<lparr>is_nfc = (\<lambda>s. list_all (\<lambda>c. of_char c < (128 :: nat)) s),
      enc_string = (\<lambda>s. Inr (of_nat (length s) # map of_char s)),
      enc_attestation_type = (\<lambda>t. Inr [case t of SourceFidelity \<Rightarrow> 0 | Interpretation \<Rightarrow> 1
        | ScenarioCoverage \<Rightarrow> 2 | EquivalenceClaim \<Rightarrow> 3 | PublicationApproval \<Rightarrow> 4]),
      enc_attestation_count = (\<lambda>a. Inr [case count_type a of SourceFidelity \<Rightarrow> 0
        | Interpretation \<Rightarrow> 1 | ScenarioCoverage \<Rightarrow> 2 | EquivalenceClaim \<Rightarrow> 3
        | PublicationApproval \<Rightarrow> 4, of_nat (count_min a)])\<rparr>"

definition sample_doc :: document_ref where
  "sample_doc = \<lparr>doc_document_id = ''mica'', doc_article = Some ''36'', doc_section = None,
     doc_paragraphs = [''1''], doc_pages = [], doc_url = None\<rparr>"

definition sample_rule_with :: "string list \<Rightarrow> int \<Rightarrow> int \<Rightarrow> rule_ir" where
  "sample_rule_with tags m s =
     \<lparr>rule_id = ''r1'', rule_version = ''1'', rule_description = None,
      rule_tags = Some tags,
      applies_if = Some (ConditionGroupSpec (Some [CondItem
        \<lparr>cond_field = ''rate'', cond_operator = OpGte, cond_value = ScalarDecimal m s,
         cond_description = None\<rparr>]) None),
      decision_tree = LeafEntry \<lparr>leaf_result = ''ok'', leaf_obligations = None,
        leaf_notes = None, leaf_source_span = None\<rparr>,
      rule_obligations = [], rule_source = sample_doc, interpretation_notes = None,
      rule_effective_window = None, rule_provenance = ProvCandidate None\<rparr>"

lemmas sample_defs = ascii_lib_def sample_doc_def sample_rule_with_def

lemma sample_canonical:
  "canonicalize_rule ascii_lib (sample_rule_with [''b'', ''a''] 90 2)
     = Inr (sample_rule_with [''a'', ''b''] 9 1)"
  by code_simp

section \<open>Properties\<close>

text \<open>normalising a rule yields a value the strict decoder accepts, and that value is a
  fixed point: a second normalisation changes nothing and reports no error.\<close>

theorem canonicalize_rule_normal_form:
  assumes "canonicalize_rule L r = Inr c"
  shows "validate_rule L c = Inr () \<and> canonicalize_rule L c = Inr c"
  using canonicalize_rule_validates[OF assms] canonicalize_rule_id by blast

lemma canonicalize_rule_normal_form_witness:
  "validate_rule ascii_lib (sample_rule_with [''a'', ''b''] 9 1) = Inr ()
   \<and> canonicalize_rule ascii_lib (sample_rule_with [''a'', ''b''] 9 1)
       = Inr (sample_rule_with [''a'', ''b''] 9 1)"
  by (rule canonicalize_rule_normal_form[OF sample_canonical])

text \<open>C28: encoding then strictly decoding a rule returns its normal form, never an error, and
  any byte appended to the encoding is rejected as trailing.\<close>

theorem encode_decode_rule:
  assumes "codec_law C" and "canonicalize_rule L r = Inr c"
  shows "\<exists>bs. encode_rule L C r = Inr bs \<and> decode_rule L C bs = Inr c
    \<and> (\<forall>b rest. decode_rule L C (bs @ b # rest) = Inl DecTrailingBytes)"
proof -
  obtain bs where bs: "to_stdvec C c = Inr bs" using codec_law_enc[OF assms(1)] by blast
  note decode = decode_rule_append[OF assms(1) bs canonicalize_rule_validates[OF assms(2)]]
  show ?thesis using decode[of "[]"] decode assms(2) bs by (auto simp: encode_rule_def)
qed

lemma encode_decode_rule_witness:
  "\<exists>bs. encode_rule ascii_lib unary_codec (sample_rule_with [''b'', ''a''] 90 2) = Inr bs
    \<and> decode_rule ascii_lib unary_codec bs = Inr (sample_rule_with [''a'', ''b''] 9 1)
    \<and> (\<forall>b rest. decode_rule ascii_lib unary_codec (bs @ b # rest) = Inl DecTrailingBytes)"
  by (rule encode_decode_rule[OF codec_law_unary sample_canonical])



end
