(* ===== verification/Derived_Ord.thy ===== *)
theory Derived_Ord
  imports Prelude
begin

text \<open>
  \<open>std::cmp::Ordering\<close> and the comparisons that \<open>#[derive(PartialOrd, Ord)]\<close> generates:
  variants in declaration order, fields and sequence elements lexicographically. A
  comparator is lawful at a value when it decides equality, is antisymmetric and is
  transitive there; the per-value form lets recursive types be treated by induction.
\<close>

datatype ordering = OrdLess | OrdEqual | OrdGreater

fun reverse_ordering :: "ordering \<Rightarrow> ordering" where
  "reverse_ordering OrdLess = OrdGreater"
| "reverse_ordering OrdEqual = OrdEqual"
| "reverse_ordering OrdGreater = OrdLess"

text \<open>\<open>Ordering::then_with\<close>\<close>

fun then_cmp :: "ordering \<Rightarrow> ordering \<Rightarrow> ordering" where
  "then_cmp OrdEqual d = d"
| "then_cmp c d = c"

definition cmp_lin :: "'a::linorder \<Rightarrow> 'a \<Rightarrow> ordering" where
  "cmp_lin x y = (if x < y then OrdLess else if x = y then OrdEqual else OrdGreater)"

fun cmp_list :: "('a \<Rightarrow> 'a \<Rightarrow> ordering) \<Rightarrow> 'a list \<Rightarrow> 'a list \<Rightarrow> ordering" where
  "cmp_list c [] [] = OrdEqual"
| "cmp_list c [] (y # ys) = OrdLess"
| "cmp_list c (x # xs) [] = OrdGreater"
| "cmp_list c (x # xs) (y # ys) = then_cmp (c x y) (cmp_list c xs ys)"

lemma cmp_list_cong [fundef_cong]:
  "xs = xs' \<Longrightarrow> ys = ys' \<Longrightarrow> (\<And>x y. x \<in> set xs' \<Longrightarrow> y \<in> set ys' \<Longrightarrow> c x y = d x y)
     \<Longrightarrow> cmp_list c xs ys = cmp_list d xs' ys'"
proof (induction c xs ys arbitrary: xs' ys' rule: cmp_list.induct)
  case (4 c x xs y ys)
  show ?case using "4.IH"[of xs ys] "4.prems" by auto
qed auto

definition lawful_at :: "('a \<Rightarrow> 'a \<Rightarrow> ordering) \<Rightarrow> 'a \<Rightarrow> bool" where
  "lawful_at c x \<longleftrightarrow>
     (\<forall>y. c x y = OrdEqual \<longleftrightarrow> x = y)
     \<and> (\<forall>y. c y x = reverse_ordering (c x y))
     \<and> (\<forall>y z. c x y = OrdLess \<longrightarrow> c y z \<noteq> OrdGreater \<longrightarrow> c x z = OrdLess)"

lemma reverse_ordering_inj [simp]: "reverse_ordering a = reverse_ordering b \<longleftrightarrow> a = b"
  by (cases a; cases b) simp_all

lemma reverse_ordering_eq [simp]:
  "reverse_ordering a = OrdLess \<longleftrightarrow> a = OrdGreater"
  "reverse_ordering a = OrdGreater \<longleftrightarrow> a = OrdLess"
  "reverse_ordering a = OrdEqual \<longleftrightarrow> a = OrdEqual"
  by (cases a; simp)+

lemma reverse_then_cmp: "reverse_ordering (then_cmp a b) = then_cmp (reverse_ordering a) (reverse_ordering b)"
  by (cases a) simp_all

lemma then_cmp_eq:
  "then_cmp a b = OrdEqual \<longleftrightarrow> a = OrdEqual \<and> b = OrdEqual"
  "then_cmp a b = OrdLess \<longleftrightarrow> a = OrdLess \<or> a = OrdEqual \<and> b = OrdLess"
  by (cases a; simp)+

lemma lawful_atI:
  assumes "\<And>y. c x y = OrdEqual \<longleftrightarrow> x = y" "\<And>y. c y x = reverse_ordering (c x y)"
    "\<And>y z. c x y = OrdLess \<Longrightarrow> c y z \<noteq> OrdGreater \<Longrightarrow> c x z = OrdLess"
  shows "lawful_at c x"
  using assms by (auto simp: lawful_at_def)

lemma lawful_at_eq: "lawful_at c x \<Longrightarrow> c x y = OrdEqual \<longleftrightarrow> x = y"
  by (simp add: lawful_at_def)

lemma lawful_at_rev: "lawful_at c x \<Longrightarrow> c y x = reverse_ordering (c x y)"
  unfolding lawful_at_def by blast

lemma lawful_at_trans: "lawful_at c x \<Longrightarrow> c x y = OrdLess \<Longrightarrow> c y z \<noteq> OrdGreater \<Longrightarrow> c x z = OrdLess"
  unfolding lawful_at_def by blast

lemma lawful_cmp_lin: "lawful_at cmp_lin x"
  by (rule lawful_atI) (auto simp: cmp_lin_def split: if_splits)

lemma cmp_lin_simps [simp]:
  "cmp_lin x y = OrdLess \<longleftrightarrow> x < y"
  "cmp_lin x y = OrdEqual \<longleftrightarrow> x = y"
  "cmp_lin x y = OrdGreater \<longleftrightarrow> y < x"
  by (auto simp: cmp_lin_def)

lemma lawful_cmp_list:
  assumes "\<And>x. x \<in> set xs \<Longrightarrow> lawful_at c x"
  shows "lawful_at (cmp_list c) xs"
proof (rule lawful_atI)
  show "cmp_list c xs ys = OrdEqual \<longleftrightarrow> xs = ys" for ys
    using assms
    by (induction xs arbitrary: ys) (case_tac ys; auto simp: then_cmp_eq lawful_at_eq)+
  show "cmp_list c ys xs = reverse_ordering (cmp_list c xs ys)" for ys
    using assms
  proof (induction xs arbitrary: ys)
    case Nil
    show ?case by (cases ys) auto
  next
    case (Cons x xs)
    show ?case
    proof (cases ys)
      case ys: (Cons y zs)
      have "c y x = reverse_ordering (c x y)" using Cons.prems by (intro lawful_at_rev) simp
      with ys show ?thesis using Cons by (simp add: reverse_then_cmp)
    qed simp
  qed
  show "cmp_list c xs ys = OrdLess \<Longrightarrow> cmp_list c ys zs \<noteq> OrdGreater \<Longrightarrow> cmp_list c xs zs = OrdLess"
    for ys zs
    using assms
  proof (induction xs arbitrary: ys zs)
    case Nil
    then show ?case by (cases ys; cases zs) auto
  next
    case (Cons x xs)
    then obtain y ys' z zs' where yz: "ys = y # ys'" "zs = z # zs'"
      by (cases ys; cases zs) auto
    have lx: "lawful_at c x" using Cons.prems by simp
    have IH: "cmp_list c xs ys' = OrdLess \<Longrightarrow> cmp_list c ys' zs' \<noteq> OrdGreater
      \<Longrightarrow> cmp_list c xs zs' = OrdLess"
      using Cons by simp
    show ?case
    proof (cases "c x y = OrdLess")
      case True
      have "c y z \<noteq> OrdGreater" using Cons.prems(2) yz by auto
      from lawful_at_trans[OF lx True this] show ?thesis by (simp add: yz then_cmp_eq)
    next
      case False
      then have "x = y" and rest: "cmp_list c xs ys' = OrdLess"
        using Cons.prems(1) yz lawful_at_eq[OF lx, of y] by (auto simp: then_cmp_eq)
      then show ?thesis
        using Cons.prems(2) IH[OF rest] yz by (cases "c y z") auto
    qed
  qed
qed

text \<open>A lawful comparator gives the order of the class \<open>linorder\<close>.\<close>

lemma lawful_linorder:
  assumes "\<And>x. lawful_at c x"
  shows "c x y \<noteq> OrdGreater \<Longrightarrow> c y z \<noteq> OrdGreater \<Longrightarrow> c x z \<noteq> OrdGreater"
    and "c x y \<noteq> OrdGreater \<Longrightarrow> c y x \<noteq> OrdGreater \<Longrightarrow> x = y"
    and "c x y \<noteq> OrdGreater \<or> c y x \<noteq> OrdGreater"
    and "c x x \<noteq> OrdGreater"
    and "c x y = OrdLess \<longleftrightarrow> c x y \<noteq> OrdGreater \<and> \<not> c y x \<noteq> OrdGreater"
proof -
  have eq: "c a b = OrdEqual \<longleftrightarrow> a = b" and rev: "c b a = reverse_ordering (c a b)" for a b
    using assms lawful_at_eq lawful_at_rev by metis+
  show "c x y \<noteq> OrdGreater \<Longrightarrow> c y z \<noteq> OrdGreater \<Longrightarrow> c x z \<noteq> OrdGreater"
    using lawful_at_trans[OF assms] eq by (metis ordering.exhaust ordering.distinct(3))
  show "c x y \<noteq> OrdGreater \<Longrightarrow> c y x \<noteq> OrdGreater \<Longrightarrow> x = y"
    using eq[of x y] rev[of y x] by (cases "c x y") auto
  show "c x y \<noteq> OrdGreater \<or> c y x \<noteq> OrdGreater"
    using rev[of y x] by (cases "c x y") auto
  show "c x x \<noteq> OrdGreater" using eq[of x x] by simp
  show "c x y = OrdLess \<longleftrightarrow> c x y \<noteq> OrdGreater \<and> \<not> c y x \<noteq> OrdGreater"
    using rev[of y x] by (cases "c x y") auto
qed

end
