(* ===== verification/Semantic.thy ===== *)
theory Semantic
  imports Canonical Derived_Ord
begin

text \<open>
  The semantic normal form of a rule (\<open>src/crates/ke-core/src/semantic/form.rs\<close>) and the
  field-by-field difference (\<open>semantic/diff.rs\<close>). The derived orders of the source are
  instances of \<open>linorder\<close>, so \<open>Vec::sort\<close> is \<open>sort\<close>; \<open>Vec::dedup\<close> is \<open>remdups_adj\<close>. A path is
  pushed and popped on an explicit accumulator in the code; the model passes the
  accumulated prefix and returns the paths in the order they are pushed.
\<close>

section \<open>Values\<close>

datatype sem_value =
    SemStr string
  | SemBool bool
  | SemNum int int
  | SemList "sem_value list"

fun cmp_sem_value :: "sem_value \<Rightarrow> sem_value \<Rightarrow> ordering" where
  "cmp_sem_value (SemStr s) (SemStr t) = cmp_lin s t"
| "cmp_sem_value (SemStr s) _ = OrdLess"
| "cmp_sem_value (SemBool a) (SemBool b) = cmp_lin a b"
| "cmp_sem_value (SemBool a) (SemStr t) = OrdGreater"
| "cmp_sem_value (SemBool a) _ = OrdLess"
| "cmp_sem_value (SemNum m s) (SemNum n t) = then_cmp (cmp_lin m n) (cmp_lin s t)"
| "cmp_sem_value (SemNum m s) (SemList ys) = OrdLess"
| "cmp_sem_value (SemNum m s) _ = OrdGreater"
| "cmp_sem_value (SemList xs) (SemList ys) = cmp_list cmp_sem_value xs ys"
| "cmp_sem_value (SemList xs) _ = OrdGreater"

lemma lawful_then_lin:
  "then_cmp (cmp_lin a b) (cmp_lin c d) = OrdEqual \<longleftrightarrow> a = b \<and> c = d"
  "then_cmp (cmp_lin a b) (cmp_lin c d) = OrdLess \<longleftrightarrow> a < b \<or> a = b \<and> c < d"
  "then_cmp (cmp_lin a b) (cmp_lin c d) = OrdGreater \<longleftrightarrow> b < a \<or> a = b \<and> d < c"
  by (auto simp: cmp_lin_def)

lemma reverse_cmp_lin: "reverse_ordering (cmp_lin a b) = cmp_lin b a"
  by (auto simp: cmp_lin_def)

lemma lawful_sem_value: "lawful_at cmp_sem_value v"
proof (induction v)
  case (SemStr s)
  show ?case
  proof (rule lawful_atI)
    show "cmp_sem_value (SemStr s) y = OrdEqual \<longleftrightarrow> SemStr s = y" for y by (cases y) auto
    show "cmp_sem_value y (SemStr s) = reverse_ordering (cmp_sem_value (SemStr s) y)" for y
      by (cases y) (auto simp: reverse_cmp_lin)
    show "cmp_sem_value (SemStr s) y = OrdLess \<Longrightarrow> cmp_sem_value y z \<noteq> OrdGreater
      \<Longrightarrow> cmp_sem_value (SemStr s) z = OrdLess" for y z
      by (cases y; cases z) auto
  qed
next
  case (SemBool b)
  show ?case
  proof (rule lawful_atI)
    show "cmp_sem_value (SemBool b) y = OrdEqual \<longleftrightarrow> SemBool b = y" for y by (cases y) auto
    show "cmp_sem_value y (SemBool b) = reverse_ordering (cmp_sem_value (SemBool b) y)" for y
      by (cases y) (auto simp: reverse_cmp_lin)
    show "cmp_sem_value (SemBool b) y = OrdLess \<Longrightarrow> cmp_sem_value y z \<noteq> OrdGreater
      \<Longrightarrow> cmp_sem_value (SemBool b) z = OrdLess" for y z
      by (cases y; cases z) auto
  qed
next
  case (SemNum m s)
  show ?case
  proof (rule lawful_atI)
    show "cmp_sem_value (SemNum m s) y = OrdEqual \<longleftrightarrow> SemNum m s = y" for y
      by (cases y) (auto simp: lawful_then_lin)
    show "cmp_sem_value y (SemNum m s) = reverse_ordering (cmp_sem_value (SemNum m s) y)" for y
      by (cases y) (auto simp: reverse_cmp_lin reverse_then_cmp)
    show "cmp_sem_value (SemNum m s) y = OrdLess \<Longrightarrow> cmp_sem_value y z \<noteq> OrdGreater
      \<Longrightarrow> cmp_sem_value (SemNum m s) z = OrdLess" for y z
      by (cases y; cases z) (auto simp: lawful_then_lin)
  qed
next
  case (SemList xs)
  then have law: "lawful_at (cmp_list cmp_sem_value) xs" by (rule lawful_cmp_list)
  show ?case
  proof (rule lawful_atI)
    show "cmp_sem_value (SemList xs) y = OrdEqual \<longleftrightarrow> SemList xs = y" for y
      by (cases y) (auto simp: lawful_at_eq[OF law])
    show "cmp_sem_value y (SemList xs) = reverse_ordering (cmp_sem_value (SemList xs) y)" for y
      by (cases y) (auto simp: lawful_at_rev[OF law])
    show "cmp_sem_value (SemList xs) y = OrdLess \<Longrightarrow> cmp_sem_value y z \<noteq> OrdGreater
      \<Longrightarrow> cmp_sem_value (SemList xs) z = OrdLess" for y z
      by (cases y; cases z) (auto dest: lawful_at_trans[OF law])
  qed
qed

instantiation sem_value :: linorder
begin

definition less_eq_sem_value :: "sem_value \<Rightarrow> sem_value \<Rightarrow> bool" where
  "less_eq_sem_value x y = (cmp_sem_value x y \<noteq> OrdGreater)"

definition less_sem_value :: "sem_value \<Rightarrow> sem_value \<Rightarrow> bool" where
  "less_sem_value x y = (cmp_sem_value x y = OrdLess)"

instance
proof
  fix x y z :: sem_value
  note defs = less_eq_sem_value_def less_sem_value_def
  note order = lawful_linorder[of cmp_sem_value, OF lawful_sem_value]
  show "x < y \<longleftrightarrow> x \<le> y \<and> \<not> y \<le> x" unfolding defs by (rule order(5))
  show "x \<le> x" unfolding defs by (rule order(4))
  show "x \<le> z" if "x \<le> y" "y \<le> z" using that unfolding defs by (rule order(1))
  show "x = y" if "x \<le> y" "y \<le> x" using that unfolding defs by (rule order(2))
  show "x \<le> y \<or> y \<le> x" unfolding defs by (rule order(3))
qed

end

section \<open>Conditions, branches, paths and predicates\<close>

datatype sem_cond = SemCond (sem_field: string) (sem_operator: string) (sem_operand: sem_value)

definition sem_cond_key :: "sem_cond \<Rightarrow> string \<times> string \<times> sem_value" where
  "sem_cond_key c = (sem_field c, sem_operator c, sem_operand c)"

lemma sem_cond_key_inj [simp]: "sem_cond_key a = sem_cond_key b \<longleftrightarrow> a = b"
  by (cases a; cases b) (auto simp: sem_cond_key_def)

instantiation sem_cond :: linorder
begin
definition less_eq_sem_cond :: "sem_cond \<Rightarrow> sem_cond \<Rightarrow> bool" where
  "less_eq_sem_cond a b = (sem_cond_key a \<le> sem_cond_key b)"
definition less_sem_cond :: "sem_cond \<Rightarrow> sem_cond \<Rightarrow> bool" where
  "less_sem_cond a b = (sem_cond_key a < sem_cond_key b)"
instance
  by standard (auto simp: less_eq_sem_cond_def less_sem_cond_def less_le_not_le dest: order.antisym)
end

datatype sem_branch = SemBranch (branch_cond: sem_cond) (branch_taken: bool)

definition sem_branch_key :: "sem_branch \<Rightarrow> sem_cond \<times> bool" where
  "sem_branch_key b = (branch_cond b, branch_taken b)"

lemma sem_branch_key_inj [simp]: "sem_branch_key a = sem_branch_key b \<longleftrightarrow> a = b"
  by (cases a; cases b) (auto simp: sem_branch_key_def)

instantiation sem_branch :: linorder
begin
definition less_eq_sem_branch :: "sem_branch \<Rightarrow> sem_branch \<Rightarrow> bool" where
  "less_eq_sem_branch a b = (sem_branch_key a \<le> sem_branch_key b)"
definition less_sem_branch :: "sem_branch \<Rightarrow> sem_branch \<Rightarrow> bool" where
  "less_sem_branch a b = (sem_branch_key a < sem_branch_key b)"
instance
  by standard (auto simp: less_eq_sem_branch_def less_sem_branch_def less_le_not_le dest: order.antisym)
end

datatype sem_outcome = SemOutcome (outcome_result: string) (outcome_obligations: "string list")

datatype sem_path = SemPath (path_branches: "sem_branch list") (path_outcome: sem_outcome)

definition sem_path_key :: "sem_path \<Rightarrow> sem_branch list \<times> string \<times> string list" where
  "sem_path_key p =
     (path_branches p, outcome_result (path_outcome p), outcome_obligations (path_outcome p))"

lemma sem_path_key_inj [simp]: "sem_path_key a = sem_path_key b \<longleftrightarrow> a = b"
  by (cases a; cases b; cases "path_outcome a"; cases "path_outcome b")
     (auto simp: sem_path_key_def)

instantiation sem_path :: linorder
begin
definition less_eq_sem_path :: "sem_path \<Rightarrow> sem_path \<Rightarrow> bool" where
  "less_eq_sem_path a b = (sem_path_key a \<le> sem_path_key b)"
definition less_sem_path :: "sem_path \<Rightarrow> sem_path \<Rightarrow> bool" where
  "less_sem_path a b = (sem_path_key a < sem_path_key b)"
instance
  by standard (auto simp: less_eq_sem_path_def less_sem_path_def less_le_not_le dest: order.antisym)
end

datatype sem_predicate =
    SemAll "sem_predicate list"
  | SemAny "sem_predicate list"
  | SemCondP sem_cond

fun cmp_sem_predicate :: "sem_predicate \<Rightarrow> sem_predicate \<Rightarrow> ordering" where
  "cmp_sem_predicate (SemAll xs) (SemAll ys) = cmp_list cmp_sem_predicate xs ys"
| "cmp_sem_predicate (SemAll xs) _ = OrdLess"
| "cmp_sem_predicate (SemAny xs) (SemAny ys) = cmp_list cmp_sem_predicate xs ys"
| "cmp_sem_predicate (SemAny xs) (SemAll ys) = OrdGreater"
| "cmp_sem_predicate (SemAny xs) (SemCondP d) = OrdLess"
| "cmp_sem_predicate (SemCondP c) (SemCondP d) = cmp_lin c d"
| "cmp_sem_predicate (SemCondP c) _ = OrdGreater"

lemma lawful_sem_predicate: "lawful_at cmp_sem_predicate p"
proof (induction p)
  case (SemAll xs)
  then have law: "lawful_at (cmp_list cmp_sem_predicate) xs" by (rule lawful_cmp_list)
  show ?case
  proof (rule lawful_atI)
    show "cmp_sem_predicate (SemAll xs) y = OrdEqual \<longleftrightarrow> SemAll xs = y" for y
      by (cases y) (auto simp: lawful_at_eq[OF law])
    show "cmp_sem_predicate y (SemAll xs) = reverse_ordering (cmp_sem_predicate (SemAll xs) y)" for y
      by (cases y) (auto simp: lawful_at_rev[OF law])
    show "cmp_sem_predicate (SemAll xs) y = OrdLess \<Longrightarrow> cmp_sem_predicate y z \<noteq> OrdGreater
      \<Longrightarrow> cmp_sem_predicate (SemAll xs) z = OrdLess" for y z
      by (cases y; cases z) (auto dest: lawful_at_trans[OF law])
  qed
next
  case (SemAny xs)
  then have law: "lawful_at (cmp_list cmp_sem_predicate) xs" by (rule lawful_cmp_list)
  show ?case
  proof (rule lawful_atI)
    show "cmp_sem_predicate (SemAny xs) y = OrdEqual \<longleftrightarrow> SemAny xs = y" for y
      by (cases y) (auto simp: lawful_at_eq[OF law])
    show "cmp_sem_predicate y (SemAny xs) = reverse_ordering (cmp_sem_predicate (SemAny xs) y)" for y
      by (cases y) (auto simp: lawful_at_rev[OF law])
    show "cmp_sem_predicate (SemAny xs) y = OrdLess \<Longrightarrow> cmp_sem_predicate y z \<noteq> OrdGreater
      \<Longrightarrow> cmp_sem_predicate (SemAny xs) z = OrdLess" for y z
      by (cases y; cases z) (auto dest: lawful_at_trans[OF law])
  qed
next
  case (SemCondP c)
  show ?case
  proof (rule lawful_atI)
    show "cmp_sem_predicate (SemCondP c) y = OrdEqual \<longleftrightarrow> SemCondP c = y" for y by (cases y) auto
    show "cmp_sem_predicate y (SemCondP c) = reverse_ordering (cmp_sem_predicate (SemCondP c) y)" for y
      by (cases y) (auto simp: reverse_cmp_lin)
    show "cmp_sem_predicate (SemCondP c) y = OrdLess \<Longrightarrow> cmp_sem_predicate y z \<noteq> OrdGreater
      \<Longrightarrow> cmp_sem_predicate (SemCondP c) z = OrdLess" for y z
      by (cases y; cases z) auto
  qed
qed

instantiation sem_predicate :: linorder
begin
definition less_eq_sem_predicate :: "sem_predicate \<Rightarrow> sem_predicate \<Rightarrow> bool" where
  "less_eq_sem_predicate x y = (cmp_sem_predicate x y \<noteq> OrdGreater)"
definition less_sem_predicate :: "sem_predicate \<Rightarrow> sem_predicate \<Rightarrow> bool" where
  "less_sem_predicate x y = (cmp_sem_predicate x y = OrdLess)"
instance
proof
  fix x y z :: sem_predicate
  note defs = less_eq_sem_predicate_def less_sem_predicate_def
  note order = lawful_linorder[of cmp_sem_predicate, OF lawful_sem_predicate]
  show "x < y \<longleftrightarrow> x \<le> y \<and> \<not> y \<le> x" unfolding defs by (rule order(5))
  show "x \<le> x" unfolding defs by (rule order(4))
  show "x \<le> z" if "x \<le> y" "y \<le> z" using that unfolding defs by (rule order(1))
  show "x = y" if "x \<le> y" "y \<le> x" using that unfolding defs by (rule order(2))
  show "x \<le> y \<or> y \<le> x" unfolding defs by (rule order(3))
qed
end

type_synonym date_triple = "int \<times> nat \<times> nat"

record sem_window =
  win_from :: date_triple
  win_to :: "date_triple option"

record semantic_rule =
  sem_rule_id :: string
  sem_applicability :: "sem_predicate option"
  sem_decision_paths :: "sem_path list"
  sem_source_document :: string
  sem_effective :: "sem_window option"
  sem_tags :: "string list"

section \<open>Reduction\<close>

fun op_token :: "operator \<Rightarrow> string" where
  "op_token OpEq = ''==''"
| "op_token OpNotEq = ''!=''"
| "op_token OpIn = ''in''"
| "op_token OpNotIn = ''not_in''"
| "op_token OpGt = ''>''"
| "op_token OpLt = ''<''"
| "op_token OpGte = ''>=''"
| "op_token OpLte = ''<=''"
| "op_token OpExists = ''exists''"

text \<open>\<open>norm_decimal\<close> folds with \<open>saturating_mul\<close> where the canonical encoding uses
  \<open>checked_mul\<close>; the second loop is the same.\<close>

function saturating_fold :: "int \<Rightarrow> int \<Rightarrow> int \<times> int" where
  "saturating_fold m s =
     (if s < 0 then saturating_fold (saturating_mul_i128 m 10) (s + 1) else (m, s))"
  by pat_completeness auto
termination by (relation "measure (\<lambda>(m, s). nat (- s))") auto

declare saturating_fold.simps [simp del]

definition norm_decimal :: "int \<Rightarrow> int \<Rightarrow> int \<times> int" where
  "norm_decimal mant scl =
     (let (m, s) = saturating_fold mant scl;
          (m, s) = strip_trailing_zeros m s;
          s = (if m = 0 then 0 else s)
      in (m, s))"

fun sem_value_of :: "scalar_value \<Rightarrow> sem_value" where
  "sem_value_of (ScalarStr s) = SemStr s"
| "sem_value_of (ScalarBool b) = SemBool b"
| "sem_value_of (ScalarDecimal m s) = (let (m, s) = norm_decimal m s in SemNum m s)"
| "sem_value_of (ScalarList items) = SemList (sort (map sem_value_of items))"

definition sem_cond_of :: "condition \<Rightarrow> sem_cond" where
  "sem_cond_of c = SemCond (cond_field c) (op_token (cond_operator c)) (sem_value_of (cond_value c))"

fun sem_predicate_of :: "condition_group \<Rightarrow> sem_predicate"
  and sem_item :: "condition_or_group \<Rightarrow> sem_predicate"
where
  "sem_predicate_of (ConditionGroupSpec as ns) =
     (case as of
        Some items \<Rightarrow> SemAll (sort (map sem_item items))
      | None \<Rightarrow> (case ns of
          Some items \<Rightarrow> SemAny (sort (map sem_item items))
        | None \<Rightarrow> SemAll []))"
| "sem_item (CondItem c) = SemCondP (sem_cond_of c)"
| "sem_item (GroupItem g) = sem_predicate_of g"

definition leaf_outcome :: "decision_leaf \<Rightarrow> sem_outcome" where
  "leaf_outcome l =
     (let obligations = (case leaf_obligations l of None \<Rightarrow> [] | Some v \<Rightarrow> map obl_id v)
      in SemOutcome (leaf_result l) (remdups_adj (sort obligations)))"

fun collect_paths :: "decision_entry \<Rightarrow> sem_branch list \<Rightarrow> sem_path list"
  and collect_node_paths :: "decision_node \<Rightarrow> sem_branch list \<Rightarrow> sem_path list"
where
  "collect_paths (LeafEntry l) acc = [SemPath acc (leaf_outcome l)]"
| "collect_paths (NodeEntry n) acc = collect_node_paths n acc"
| "collect_node_paths (DecisionNode i c t f sp) acc =
     (let cond = sem_cond_of c in
        collect_paths t (acc @ [SemBranch cond True])
        @ collect_paths f (acc @ [SemBranch cond False]))"

definition date_triple :: "jurisdiction_date \<Rightarrow> date_triple" where
  "date_triple d = (year d, month d, day d)"

definition from_rule :: "rule_ir \<Rightarrow> semantic_rule" where
  "from_rule r =
     \<lparr>sem_rule_id = rule_id r,
      sem_applicability = map_option sem_predicate_of (applies_if r),
      sem_decision_paths = sort (collect_paths (decision_tree r) []),
      sem_source_document = doc_document_id (rule_source r),
      sem_effective = map_option (\<lambda>w. \<lparr>win_from = date_triple (effective_from w),
        win_to = map_option date_triple (effective_to w)\<rparr>) (rule_effective_window r),
      sem_tags = remdups_adj (sort (case rule_tags r of None \<Rightarrow> [] | Some ts \<Rightarrow> ts))\<rparr>"

section \<open>Difference\<close>

text \<open>The prose of a difference goes through the standard library's \<open>{:?}\<close> formatter,
  passed as \<open>debug_fmt\<close>.\<close>

record debug_fmt =
  fmt_string :: "string \<Rightarrow> string"
  fmt_window :: "sem_window option \<Rightarrow> string"
  fmt_strings :: "string list \<Rightarrow> string"
  fmt_usize :: "nat \<Rightarrow> string"

record difference =
  diff_field :: string
  diff_detail :: string

definition semantic_diff :: "debug_fmt \<Rightarrow> semantic_rule \<Rightarrow> semantic_rule \<Rightarrow> difference list" where
  "semantic_diff F a b =
     (if sem_rule_id a \<noteq> sem_rule_id b
      then [\<lparr>diff_field = ''rule_id'',
             diff_detail = fmt_string F (sem_rule_id a) @ '' != '' @ fmt_string F (sem_rule_id b)\<rparr>]
      else []) @
     (if sem_applicability a \<noteq> sem_applicability b
      then [\<lparr>diff_field = ''applicability'', diff_detail = ''applicability predicates differ''\<rparr>]
      else []) @
     (if sem_source_document a \<noteq> sem_source_document b
      then [\<lparr>diff_field = ''source_document'',
             diff_detail = fmt_string F (sem_source_document a) @ '' != ''
               @ fmt_string F (sem_source_document b)\<rparr>]
      else []) @
     (if sem_effective a \<noteq> sem_effective b
      then [\<lparr>diff_field = ''effective'',
             diff_detail = fmt_window F (sem_effective a) @ '' != '' @ fmt_window F (sem_effective b)\<rparr>]
      else []) @
     (if sem_tags a \<noteq> sem_tags b
      then [\<lparr>diff_field = ''tags'',
             diff_detail = fmt_strings F (sem_tags a) @ '' != '' @ fmt_strings F (sem_tags b)\<rparr>]
      else []) @
     (if sem_decision_paths a \<noteq> sem_decision_paths b
      then [\<lparr>diff_field = ''decision_paths'',
             diff_detail = fmt_usize F (length (sem_decision_paths a)) @ '' path(s) vs ''
               @ fmt_usize F (length (sem_decision_paths b)) @ '' path(s); content differs''\<rparr>]
      else [])"

section \<open>Meaning of the normal form\<close>

text \<open>
  The specification side: a valuation says which normalised conditions hold. \<open>tree_outcome\<close>
  walks the authored tree under it, \<open>group_holds\<close> reads an authored group (an absent \<open>all\<close>
  falls back to \<open>any\<close>, both absent is true), \<open>pred_holds\<close> reads the normal form.
\<close>

fun tree_outcome :: "(sem_cond \<Rightarrow> bool) \<Rightarrow> decision_entry \<Rightarrow> sem_outcome"
  and node_outcome :: "(sem_cond \<Rightarrow> bool) \<Rightarrow> decision_node \<Rightarrow> sem_outcome"
where
  "tree_outcome v (LeafEntry l) = leaf_outcome l"
| "tree_outcome v (NodeEntry n) = node_outcome v n"
| "node_outcome v (DecisionNode i c t f sp) =
     (if v (sem_cond_of c) then tree_outcome v t else tree_outcome v f)"

fun group_holds :: "(sem_cond \<Rightarrow> bool) \<Rightarrow> condition_group \<Rightarrow> bool"
  and item_holds :: "(sem_cond \<Rightarrow> bool) \<Rightarrow> condition_or_group \<Rightarrow> bool"
where
  "group_holds v (ConditionGroupSpec as ns) =
     (case as of
        Some items \<Rightarrow> list_all (item_holds v) items
      | None \<Rightarrow> (case ns of Some items \<Rightarrow> list_ex (item_holds v) items | None \<Rightarrow> True))"
| "item_holds v (CondItem c) = v (sem_cond_of c)"
| "item_holds v (GroupItem g) = group_holds v g"

fun pred_holds :: "(sem_cond \<Rightarrow> bool) \<Rightarrow> sem_predicate \<Rightarrow> bool" where
  "pred_holds v (SemAll ps) = list_all (pred_holds v) ps"
| "pred_holds v (SemAny ps) = list_ex (pred_holds v) ps"
| "pred_holds v (SemCondP c) = v c"

definition rule_decides :: "(sem_cond \<Rightarrow> bool) \<Rightarrow> rule_ir \<Rightarrow> sem_outcome option" where
  "rule_decides v r =
     (if (case applies_if r of None \<Rightarrow> True | Some g \<Rightarrow> group_holds v g)
      then Some (tree_outcome v (decision_tree r)) else None)"

definition branch_agrees :: "(sem_cond \<Rightarrow> bool) \<Rightarrow> sem_branch \<Rightarrow> bool" where
  "branch_agrees v b = (v (branch_cond b) = branch_taken b)"

definition path_agrees :: "(sem_cond \<Rightarrow> bool) \<Rightarrow> sem_path \<Rightarrow> bool" where
  "path_agrees v p = list_all (branch_agrees v) (path_branches p)"

lemma agrees_simps [simp]:
  "branch_agrees v (SemBranch c t) \<longleftrightarrow> v c = t"
  "path_agrees v (SemPath bs oc) \<longleftrightarrow> list_all (branch_agrees v) bs"
  by (simp_all add: branch_agrees_def path_agrees_def)

lemma sem_predicate_holds:
  "pred_holds v (sem_predicate_of g) = group_holds v g"
  "pred_holds v (sem_item i) = item_holds v i"
  by (induction v g and v i rule: group_holds_item_holds.induct)
     (auto simp: list_all_iff list_ex_iff split: option.splits)

lemma agreeing_paths:
  "map path_outcome (filter (path_agrees v) (collect_paths e acc)) =
     (if list_all (branch_agrees v) acc then [tree_outcome v e] else [])"
  "map path_outcome (filter (path_agrees v) (collect_node_paths n acc)) =
     (if list_all (branch_agrees v) acc then [node_outcome v n] else [])"
  by (induction e acc and n acc rule: collect_paths_collect_node_paths.induct)
     (auto simp: Let_def)

lemma sorted_paths_outcome:
  "mset (map path_outcome (filter (path_agrees v) (sort (collect_paths e []))))
     = {#tree_outcome v e#}"
proof -
  have "mset (map path_outcome (filter (path_agrees v) (sort (collect_paths e []))))
    = mset (map path_outcome (filter (path_agrees v) (collect_paths e [])))"
    by (simp add: mset_filter)
  also have "\<dots> = {#tree_outcome v e#}" by (simp only: agreeing_paths) simp
  finally show ?thesis .
qed

lemma from_rule_decides:
  "rule_decides v r =
     (if (case sem_applicability (from_rule r) of None \<Rightarrow> True | Some p \<Rightarrow> pred_holds v p)
      then Some (the_elem (set_mset (mset (map path_outcome
             (filter (path_agrees v) (sem_decision_paths (from_rule r)))))))
      else None)"
  unfolding from_rule_def semantic_rule.simps sorted_paths_outcome
  by (auto simp: rule_decides_def sem_predicate_holds split: option.splits)

section \<open>Decimals: the saturating fold against the checked one\<close>

lemma saturating_fold_checked:
  "fold_negative_scale m s = Some p \<Longrightarrow> saturating_fold m s = p"
proof (induction m s rule: fold_negative_scale.induct)
  case (1 m s)
  then show ?case
    by (subst saturating_fold.simps, subst (asm) (2) fold_negative_scale.simps)
       (auto simp: checked_saturating_mul split: if_splits option.splits)
qed

lemma norm_decimal_agrees:
  "normalize_decimal m s = Inr p \<Longrightarrow> norm_decimal m s = p"
  by (auto simp: normalize_decimal_def norm_decimal_def dest!: saturating_fold_checked
      split: option.splits prod.splits)

section \<open>Properties\<close>

text \<open>the reported difference of two semantic forms is empty exactly when the forms are
  equal, so the harness's \<open>is_empty\<close> test and \<open>Eq\<close> cannot disagree.\<close>

theorem semantic_diff_empty_iff: "semantic_diff F a b = [] \<longleftrightarrow> a = b"
  by (auto simp: semantic_diff_def intro: semantic_rule.equality split: if_splits)

text \<open>C29: the semantic form determines what a rule decides: two rules with equal forms are
  applicable under the same truth assignments of their normalised conditions and reach the
  same outcome there, whatever the shape of their trees and groups.\<close>

theorem equal_forms_decide_alike:
  assumes "from_rule r = from_rule r'"
  shows "rule_decides v r = rule_decides v r'"
  unfolding from_rule_decides assms ..

lemma equal_forms_decide_alike_witness:
  "\<forall>v. rule_decides v (sample_rule_with [''b'', ''a'', ''b''] 90 2)
     = rule_decides v (sample_rule_with [''a'', ''b''] 9 1)"
  by (intro allI equal_forms_decide_alike) code_simp

text \<open>the semantic normal form of a decimal is the canonical one whenever the canonical
  encoder accepts it; where the encoder reports an overflow the saturating fold identifies
  decimals with different values.\<close>

theorem norm_decimal_mirrors_canonical:
  "(case normalize_decimal m s of Inr p \<Rightarrow> norm_decimal m s = p | Inl _ \<Rightarrow> True)
   \<and> normalize_decimal (10 ^ 38) (- 1) = Inl (EncDecimalOverflow (10 ^ 38) (- 1))
   \<and> norm_decimal (10 ^ 38) (- 1) = norm_decimal (10 ^ 38) (- 2)
   \<and> decimal_value (10 ^ 38) (- 1) \<noteq> decimal_value (10 ^ 38) (- 2)"
proof -
  have "normalize_decimal (10 ^ 38) (- 1) = Inl (EncDecimalOverflow (10 ^ 38) (- 1))"
    "norm_decimal (10 ^ 38) (- 1) = norm_decimal (10 ^ 38) (- 2)"
    by code_simp+
  moreover have "decimal_value (10 ^ 38) (- 1) \<noteq> decimal_value (10 ^ 38) (- 2)"
    by (simp add: decimal_value_def)
  ultimately show ?thesis by (auto dest: norm_decimal_agrees split: sum.splits)
qed

end
