(* ===== verification/Decimal_Text.thy ===== *)
theory Decimal_Text
  imports Prelude
begin

text \<open>
  Decimal text as the standard library prints and reads it: \<open>Display\<close> of integers, the
  digit test, and the value of a digit string. Strings are UTF-8 byte strings.
\<close>

definition digit_char :: "int \<Rightarrow> char" where
  "digit_char d = char_of (48 + d)"

definition is_digit :: "char \<Rightarrow> bool" where
  "is_digit c = (48 \<le> (of_char c :: int) \<and> (of_char c :: int) \<le> 57)"

definition digit_value :: "char \<Rightarrow> int" where
  "digit_value c = of_char c - 48"

function nat_digits :: "int \<Rightarrow> string" where
  "nat_digits n =
     (if n < 10 then [digit_char n] else nat_digits (n div 10) @ [digit_char (n mod 10)])"
  by pat_completeness auto
termination by (relation "measure nat") auto

declare nat_digits.simps [simp del]

definition int_digits :: "int \<Rightarrow> string" where
  "int_digits n = (if n < 0 then ''-'' @ nat_digits (- n) else nat_digits n)"

definition digits_value :: "string \<Rightarrow> int" where
  "digits_value s = foldl (\<lambda>a c. a * 10 + digit_value c) 0 s"

lemma of_char_digit: "0 \<le> d \<Longrightarrow> d < 10 \<Longrightarrow> (of_char (digit_char d) :: int) = 48 + d"
  by (simp add: digit_char_def)

lemma digit_char_simps [simp]:
  "0 \<le> d \<Longrightarrow> d < 10 \<Longrightarrow> is_digit (digit_char d)"
  "0 \<le> d \<Longrightarrow> d < 10 \<Longrightarrow> digit_value (digit_char d) = d"
  by (simp_all add: is_digit_def digit_value_def of_char_digit)

lemma digit_value_nonneg: "is_digit c \<Longrightarrow> 0 \<le> digit_value c"
  by (simp add: is_digit_def digit_value_def)

lemma foldl_digits:
  "foldl (\<lambda>a c. a * 10 + digit_value c) a s = a * 10 ^ length s + digits_value s"
proof (induction s arbitrary: a)
  case (Cons c s)
  show ?case
    using Cons[of "a * 10 + digit_value c"] Cons[of "digit_value c"]
    by (simp add: digits_value_def algebra_simps)
qed (simp add: digits_value_def)

lemma digits_value_append:
  "digits_value (s @ t) = digits_value s * 10 ^ length t + digits_value t"
  using foldl_digits[of "digits_value s" t] by (simp add: digits_value_def)

lemma digits_value_simps [simp]:
  "digits_value [] = 0"
  "digits_value [c] = digit_value c"
  by (simp_all add: digits_value_def)

lemma digits_value_nat_digits [simp]: "0 \<le> n \<Longrightarrow> digits_value (nat_digits n) = n"
proof (induction n rule: nat_digits.induct)
  case (1 n)
  then show ?case by (subst nat_digits.simps) (simp add: digits_value_append)
qed

lemma nat_digits_digits: "0 \<le> n \<Longrightarrow> list_all is_digit (nat_digits n)"
proof (induction n rule: nat_digits.induct)
  case (1 n)
  then show ?case by (subst nat_digits.simps) simp
qed

lemma nat_digits_nonempty [simp]: "nat_digits n \<noteq> []"
  by (subst nat_digits.simps) simp

lemma nat_digits_inj: "0 \<le> m \<Longrightarrow> 0 \<le> n \<Longrightarrow> nat_digits m = nat_digits n \<longleftrightarrow> m = n"
  by (metis digits_value_nat_digits)

lemma digits_value_replicate_zero [simp]: "digits_value (replicate n CHR ''0'') = 0"
proof (induction n)
  case (Suc n)
  then show ?case
    using digits_value_append[of "[CHR ''0'']" "replicate n CHR ''0''"]
    by (simp add: digit_value_def)
qed simp

text \<open>\<open>parts.join(sep)\<close>\<close>

fun join_with :: "string \<Rightarrow> string list \<Rightarrow> string" where
  "join_with sep [] = []"
| "join_with sep [x] = x"
| "join_with sep (x # xs) = x @ sep @ join_with sep xs"

text \<open>ASCII white space, which is all of Unicode's white space below \<open>0x80\<close>.\<close>

definition is_ascii_white :: "char \<Rightarrow> bool" where
  "is_ascii_white c = ((of_char c :: nat) = 32 \<or> 9 \<le> (of_char c :: nat) \<and> (of_char c :: nat) \<le> 13)"

end
