(* ===== verification/F64.thy ===== *)
theory F64
  imports Complex_Main Decimal_Text Derived_Ord
begin

text \<open>
  The part of \<open>f64\<close> the preview runtime uses: IEEE 754 double values, rounding to nearest
  (ties to even) from an exact fraction, the comparisons, the reading of decimal text and
  the shortest round-trip printing of \<open>{:?}\<close>. A finite value is a sign, a mantissa below
  \<open>2 ^ 53\<close> and an exponent between \<open>-1074\<close> and \<open>971\<close>.
\<close>

datatype f64 = F64NaN | F64Inf bool | F64Fin bool int int

function bit_len :: "int \<Rightarrow> int" where
  "bit_len n = (if n \<le> 0 then 0 else 1 + bit_len (n div 2))"
  by pat_completeness auto
termination by (relation "measure nat") auto

declare bit_len.simps [simp del]

text \<open>\<open>floor (log2 (n / d))\<close> for positive \<open>n\<close> and \<open>d\<close>.\<close>

definition floor_log2 :: "int \<Rightarrow> int \<Rightarrow> int" where
  "floor_log2 n d =
     (let k = bit_len n - bit_len d
      in if (if k \<ge> 0 then d * 2 ^ nat k \<le> n else d \<le> n * 2 ^ nat (- k)) then k else k - 1)"

definition round_half_even :: "int \<Rightarrow> int \<Rightarrow> int" where
  "round_half_even n d =
     (let q = n div d; r = n mod d
      in if 2 * r < d \<or> 2 * r = d \<and> even q then q else q + 1)"

definition round_f64 :: "bool \<Rightarrow> int \<Rightarrow> int \<Rightarrow> f64" where
  "round_f64 neg n d =
     (if n = 0 then F64Fin neg 0 (- 1074)
      else let e = max (- 1074) (floor_log2 n d - 52);
               m = (if e \<ge> 0 then round_half_even n (d * 2 ^ nat e)
                    else round_half_even (n * 2 ^ nat (- e)) d);
               (m, e) = (if m = 2 ^ 53 then (2 ^ 52, e + 1) else (m, e))
           in if e > 971 then F64Inf neg else F64Fin neg m e)"

text \<open>\<open>i as f64\<close> for an integer.\<close>

definition int_as_f64 :: "int \<Rightarrow> f64" where
  "int_as_f64 n = round_f64 (n < 0) \<bar>n\<bar> 1"

definition signed_mantissa :: "bool \<Rightarrow> int \<Rightarrow> int" where
  "signed_mantissa neg m = (if neg then - m else m)"

fun f64_partial_cmp :: "f64 \<Rightarrow> f64 \<Rightarrow> ordering option" where
  "f64_partial_cmp F64NaN _ = None"
| "f64_partial_cmp _ F64NaN = None"
| "f64_partial_cmp (F64Inf s) (F64Inf t) = Some (cmp_lin t s)"
| "f64_partial_cmp (F64Inf s) (F64Fin _ _ _) = Some (if s then OrdLess else OrdGreater)"
| "f64_partial_cmp (F64Fin _ _ _) (F64Inf t) = Some (if t then OrdGreater else OrdLess)"
| "f64_partial_cmp (F64Fin s m e) (F64Fin t n f) =
     (let k = min e f
      in Some (cmp_lin (signed_mantissa s m * 2 ^ nat (e - k)) (signed_mantissa t n * 2 ^ nat (f - k))))"

definition f64_eq :: "f64 \<Rightarrow> f64 \<Rightarrow> bool" where
  "f64_eq a b = (f64_partial_cmp a b = Some OrdEqual)"

text \<open>\<open>str::parse::<f64>\<close> on the decimal grammar \<open>-?digits(.digits)?\<close>, the only texts the
  runtime gives it; \<open>None\<close> is its error.\<close>

definition parse_unsigned_f64 :: "bool \<Rightarrow> string \<Rightarrow> f64 option" where
  "parse_unsigned_f64 neg s =
     (let ip = takeWhile is_digit s; rest = dropWhile is_digit s
      in case rest of
           [] \<Rightarrow> if ip = [] then None else Some (round_f64 neg (digits_value ip) 1)
         | c # fp \<Rightarrow>
             if c = CHR ''.'' \<and> list_all is_digit fp \<and> (ip \<noteq> [] \<or> fp \<noteq> [])
             then Some (round_f64 neg (digits_value (ip @ fp)) (10 ^ length fp))
             else None)"

definition parse_f64 :: "string \<Rightarrow> f64 option" where
  "parse_f64 s =
     (case s of
        [] \<Rightarrow> None
      | c # cs \<Rightarrow> if c = CHR ''-'' then parse_unsigned_f64 True cs else parse_unsigned_f64 False s)"

text \<open>
  Shortest round-trip digits of \<open>n / d\<close>: with \<open>k\<close> such that \<open>10 ^ (k - 1) \<le> n / d < 10 ^ k\<close>,
  the first precision \<open>p\<close> at which the decimal below or above with \<open>p\<close> digits reads back
  as the same double; of two that do, the nearer, the upper one on a tie.
\<close>

definition scaled :: "int \<Rightarrow> int \<Rightarrow> int \<Rightarrow> int \<times> int" where
  "scaled n d j = (if j \<ge> 0 then (n * 10 ^ nat j, d) else (n, d * 10 ^ nat (- j)))"

definition decimal_reads_as :: "int \<Rightarrow> int \<Rightarrow> f64 \<Rightarrow> bool" where
  "decimal_reads_as dg j x =
     (round_f64 False (fst (scaled dg 1 (- j))) (snd (scaled dg 1 (- j))) = x)"

fun shortest_from :: "nat \<Rightarrow> int \<Rightarrow> int \<Rightarrow> int \<Rightarrow> f64 \<Rightarrow> int \<Rightarrow> int \<times> int" where
  "shortest_from 0 n d k x p = (0, 0)"
| "shortest_from (Suc fuel) n d k x p =
     (let j = p - k; (a, b) = scaled n d j; lo = a div b; r = a mod b;
          down = decimal_reads_as lo j x; up = r \<noteq> 0 \<and> decimal_reads_as (lo + 1) j x
      in if down \<or> up
         then (if up \<and> (\<not> down \<or> b \<le> 2 * r) then (lo + 1, j) else (lo, j))
         else shortest_from fuel n d k x (p + 1))"

fun decimal_exponent :: "nat \<Rightarrow> int \<Rightarrow> int \<Rightarrow> int \<Rightarrow> int" where
  "decimal_exponent 0 n d k = k"
| "decimal_exponent (Suc fuel) n d k =
     (let (a, b) = scaled n d (- k)
      in if b \<le> a then decimal_exponent fuel n d (k + 1)
         else if 10 * a < b then decimal_exponent fuel n d (k - 1) else k)"

fun strip_zero_digits :: "nat \<Rightarrow> int \<Rightarrow> int \<Rightarrow> int \<times> int" where
  "strip_zero_digits 0 dg j = (dg, j)"
| "strip_zero_digits (Suc fuel) dg j =
     (if dg \<noteq> 0 \<and> dg mod 10 = 0 then strip_zero_digits fuel (dg div 10) (j - 1) else (dg, j))"

text \<open>The digits and the scale of the shortest decimal of a positive finite double.\<close>

definition shortest_decimal :: "int \<Rightarrow> int \<Rightarrow> int \<times> int" where
  "shortest_decimal m e =
     (let (n, d) = (if e \<ge> 0 then (m * 2 ^ nat e, 1) else (m, 2 ^ nat (- e)));
          k = decimal_exponent 700 n d 0;
          (dg, j) = shortest_from 18 n d k (F64Fin False m e) 1
      in strip_zero_digits 20 dg j)"

text \<open>\<open>format!("{f:?}")\<close>: plain notation with at least one fractional digit for
  \<open>1e-4 \<le> |f| < 1e16\<close>, scientific notation outside.\<close>

definition debug_finite :: "int \<Rightarrow> int \<Rightarrow> string" where
  "debug_finite m e =
     (let (dg, j) = shortest_decimal m e; ds = nat_digits dg; len = int (length ds);
          point = len - j
      in if point < -3 \<or> 16 < point
         then (case ds of [] \<Rightarrow> [] | c # cs \<Rightarrow>
                 [c] @ (if cs = [] then [] else ''.'' @ cs) @ ''e'' @ int_digits (point - 1))
         else if point \<le> 0 then ''0.'' @ replicate (nat (- point)) CHR ''0'' @ ds
         else if point < len then take (nat point) ds @ ''.'' @ drop (nat point) ds
         else ds @ replicate (nat (point - len)) CHR ''0'' @ ''.0'')"

fun f64_debug :: "f64 \<Rightarrow> string" where
  "f64_debug F64NaN = ''NaN''"
| "f64_debug (F64Inf neg) = (if neg then ''-inf'' else ''inf'')"
| "f64_debug (F64Fin neg m e) =
     (if neg then ''-'' else []) @ (if m = 0 then ''0.0'' else debug_finite m e)"

section \<open>Comparison\<close>

lemma f64_partial_cmp_rev: "f64_partial_cmp b a = map_option reverse_ordering (f64_partial_cmp a b)"
  by (cases a; cases b) (auto simp: cmp_lin_def min.commute Let_def)

lemma f64_eq_refl: "a \<noteq> F64NaN \<Longrightarrow> f64_eq a a"
  by (cases a) (auto simp: f64_eq_def Let_def)

lemma f64_partial_cmp_None: "f64_partial_cmp a b = None \<longleftrightarrow> a = F64NaN \<or> b = F64NaN"
  by (cases a; cases b) (auto simp: Let_def)

lemma round_f64_not_nan [simp]: "round_f64 neg n d \<noteq> F64NaN"
  by (auto simp: round_f64_def Let_def)

lemma int_as_f64_not_nan [simp]: "int_as_f64 n \<noteq> F64NaN"
  by (simp add: int_as_f64_def)

section \<open>Exact integers\<close>

text \<open>The value of a finite double, and the comparison as the comparison of values.\<close>

definition fin_value :: "bool \<Rightarrow> int \<Rightarrow> int \<Rightarrow> rat" where
  "fin_value neg m e = of_int (signed_mantissa neg m) * 2 powi e"

lemma two_powi_nat: "0 \<le> j \<Longrightarrow> (2::rat) powi j = of_int (2 ^ nat j)"
  by (simp add: power_int_def)

lemma fin_value_scaled:
  assumes "k \<le> e"
  shows "fin_value neg m e = of_int (signed_mantissa neg m * 2 ^ nat (e - k)) * 2 powi k"
proof -
  have "(2::rat) powi e = 2 powi (e - k) * 2 powi k" by (simp flip: power_int_add)
  then show ?thesis using assms by (simp add: fin_value_def two_powi_nat)
qed

lemma f64_partial_cmp_value:
  "f64_partial_cmp (F64Fin s m e) (F64Fin t n f) = Some (cmp_lin (fin_value s m e) (fin_value t n f))"
proof -
  let ?k = "min e f"
  let ?a = "signed_mantissa s m * 2 ^ nat (e - ?k)" and ?b = "signed_mantissa t n * 2 ^ nat (f - ?k)"
  have v: "fin_value s m e = of_int ?a * 2 powi ?k" "fin_value t n f = of_int ?b * 2 powi ?k"
    by (rule fin_value_scaled, simp)+
  have pos: "(0::rat) < 2 powi ?k" by simp
  have "fin_value s m e < fin_value t n f \<longleftrightarrow> ?a < ?b"
    unfolding v by (simp only: mult_less_cancel_right_pos[OF pos] of_int_less_iff)
  moreover have "fin_value s m e = fin_value t n f \<longleftrightarrow> ?a = ?b"
    unfolding v using pos by (simp only: mult_cancel_right of_int_eq_iff) simp
  ultimately show ?thesis unfolding f64_partial_cmp.simps Let_def cmp_lin_def by simp
qed

lemma bit_len_bounds:
  "0 < n \<Longrightarrow> 0 < bit_len n \<and> 2 ^ nat (bit_len n - 1) \<le> n \<and> n < 2 ^ nat (bit_len n)"
proof (induction n rule: bit_len.induct)
  case (1 n)
  show ?case
  proof (cases "n = 1")
    case True
    then show ?thesis by (simp add: bit_len.simps)
  next
    case False
    with 1 have IH: "0 < bit_len (n div 2)" "2 ^ nat (bit_len (n div 2) - 1) \<le> n div 2"
      "n div 2 < 2 ^ nat (bit_len (n div 2))"
      by auto
    have b: "bit_len n = 1 + bit_len (n div 2)" using 1(2) by (subst bit_len.simps) simp
    obtain l where l: "bit_len (n div 2) = 1 + int l"
      using IH(1) by (metis add.commute zero_less_imp_eq_int int_Suc not0_implies_Suc nat_int of_nat_0_less_iff gr0_implies_Suc)
    have "nat (bit_len n - 1) = Suc l" "nat (bit_len n) = Suc (Suc l)"
      using b l by simp_all
    moreover have "2 ^ l \<le> n div 2" "n div 2 < 2 * 2 ^ l" using IH(2,3) l by (simp_all add: nat_add_distrib)
    moreover from this have "2 * 2 ^ l \<le> n" "n < 4 * 2 ^ l" by linarith+
    ultimately show ?thesis using l b by simp
  qed
qed

lemma floor_log2_one: "0 < n \<Longrightarrow> floor_log2 n 1 = bit_len n - 1"
  using bit_len_bounds[of n] by (auto simp: floor_log2_def Let_def bit_len.simps[of 1] bit_len.simps[of 0])

lemma round_half_even_exact: "0 < d \<Longrightarrow> round_half_even (q * d) d = q"
  by (simp add: round_half_even_def Let_def)

lemma round_f64_exact_int:
  assumes "0 \<le> n" "n \<le> 2 ^ 53"
  shows "\<exists>m e. round_f64 neg n 1 = F64Fin neg m e \<and> of_int m * (2::rat) powi e = of_int n"
proof (cases "n = 0")
  case False
  with assms have "0 < n" by simp
  note b = bit_len_bounds[OF \<open>0 < n\<close>]
  show ?thesis
  proof (cases "n = 2 ^ 53")
    case True
    have "round_f64 neg n 1 = F64Fin neg (2 ^ 52) 1" unfolding True by code_simp
    then show ?thesis using True by auto
  next
    case False
    have small: "bit_len n \<le> 53"
    proof (rule ccontr)
      assume "\<not> bit_len n \<le> 53"
      then have "(2::int) ^ 53 \<le> 2 ^ nat (bit_len n - 1)" by (intro power_increasing) auto
      with b assms False show False by linarith
    qed
    define e where "e = bit_len n - 53"
    have e: "max (- 1074) (floor_log2 n 1 - 52) = e" "e \<le> 0"
      using b small floor_log2_one[OF \<open>0 < n\<close>] by (auto simp: e_def)
    let ?m = "n * 2 ^ nat (- e)"
    have m: "(if 0 \<le> e then round_half_even n (1 * 2 ^ nat e)
        else round_half_even (n * 2 ^ nat (- e)) 1) = ?m"
      using e round_half_even_exact[of 1 n] round_half_even_exact[of 1 ?m] by auto
    have "?m < 2 ^ nat (bit_len n) * 2 ^ nat (- e)" using b by simp
    also have "\<dots> = 2 ^ 53" using b e by (simp add: e_def flip: power_add nat_add_distrib)
    finally have lt: "?m < 2 ^ 53" .
    have "round_f64 neg n 1 = F64Fin neg ?m e"
      unfolding round_f64_def e(1) m Let_def using \<open>0 < n\<close> lt e(2) by simp
    moreover have "of_int ?m * (2::rat) powi e = of_int n"
      using e(2) two_powi_nat[of "- e"] by (simp add: power_int_minus field_simps)
    ultimately show ?thesis by blast
  qed
qed (simp add: round_f64_def)

lemma int_as_f64_cmp:
  assumes "\<bar>a\<bar> \<le> 2 ^ 53" "\<bar>b\<bar> \<le> 2 ^ 53"
  shows "f64_partial_cmp (int_as_f64 a) (int_as_f64 b) = Some (cmp_lin a b)"
proof -
  have fin: "\<exists>m e. int_as_f64 c = F64Fin (c < 0) m e \<and> fin_value (c < 0) m e = of_int c"
    if c: "\<bar>c\<bar> \<le> 2 ^ 53" for c
  proof -
    obtain m e where "round_f64 (c < 0) \<bar>c\<bar> 1 = F64Fin (c < 0) m e"
      "of_int m * (2::rat) powi e = of_int \<bar>c\<bar>"
      using round_f64_exact_int[OF _ c, of "c < 0"] by auto
    then show ?thesis
      by (auto simp: int_as_f64_def fin_value_def signed_mantissa_def)
  qed
  from fin[OF assms(1)] fin[OF assms(2)] show ?thesis
    by (auto simp: f64_partial_cmp_value cmp_lin_def simp del: f64_partial_cmp.simps)
qed

section \<open>Rounding depends on the value only\<close>

lemma bit_len_powi:
  assumes "0 < n"
  shows "(2::rat) powi (bit_len n - 1) \<le> of_int n" "of_int n < (2::rat) powi (bit_len n)"
proof -
  note b = bit_len_bounds[OF assms]
  have "(of_int (2 ^ nat (bit_len n - 1)) :: rat) \<le> of_int n" using b by (simp only: of_int_le_iff)
  then show "(2::rat) powi (bit_len n - 1) \<le> of_int n" using b by (simp add: two_powi_nat)
  have "(of_int n :: rat) < of_int (2 ^ nat (bit_len n))" using b by (simp only: of_int_less_iff)
  then show "of_int n < (2::rat) powi (bit_len n)" using b by (simp add: two_powi_nat)
qed

lemma floor_log2_test:
  assumes "0 < d"
  shows "(if k \<ge> 0 then d * 2 ^ nat k \<le> n else d \<le> n * 2 ^ nat (- k))
    \<longleftrightarrow> (2::rat) powi k \<le> of_int n / of_int d"
proof (cases "0 \<le> k")
  case True
  have "d * 2 ^ nat k \<le> n \<longleftrightarrow> (of_int (d * 2 ^ nat k) :: rat) \<le> of_int n" by (simp only: of_int_le_iff)
  also have "\<dots> \<longleftrightarrow> (2::rat) powi k \<le> of_int n / of_int d"
    using True assms by (simp add: two_powi_nat field_simps)
  finally show ?thesis using True by simp
next
  case False
  have "d \<le> n * 2 ^ nat (- k) \<longleftrightarrow> (of_int d :: rat) \<le> of_int (n * 2 ^ nat (- k))" by (simp only: of_int_le_iff)
  also have "\<dots> \<longleftrightarrow> (of_int d :: rat) \<le> of_int n / 2 powi k"
    using False two_powi_nat[of "- k"] by (simp add: power_int_minus divide_inverse)
  also have "\<dots> \<longleftrightarrow> (2::rat) powi k \<le> of_int n / of_int d"
    using assms by (simp add: pos_le_divide_eq mult.commute)
  finally show ?thesis using False by simp
qed

lemma floor_log2_bounds:
  assumes "0 < n" "0 < d"
  defines "q \<equiv> of_int n / of_int d :: rat"
  shows "2 powi (floor_log2 n d) \<le> q \<and> q < 2 powi (floor_log2 n d + 1)"
proof -
  let ?k = "bit_len n - bit_len d"
  have up: "q < 2 powi (?k + 1)"
  proof -
    have "q \<le> of_int n / 2 powi (bit_len d - 1)"
      unfolding q_def using bit_len_powi(1)[OF assms(2)] assms(1,2) by (intro divide_left_mono mult_pos_pos) auto
    also have "\<dots> < 2 powi (bit_len n) / 2 powi (bit_len d - 1)"
      using bit_len_powi(2)[OF assms(1)] by (intro divide_strict_right_mono) auto
    also have "\<dots> = 2 powi (?k + 1)" by (simp add: algebra_simps flip: power_int_diff)
    finally show ?thesis .
  qed
  have lo: "2 powi (?k - 1) \<le> q"
  proof -
    have "(2::rat) powi (?k - 1) = 2 powi (bit_len n - 1) / 2 powi (bit_len d)"
      by (simp add: algebra_simps flip: power_int_diff)
    also have "\<dots> \<le> of_int n / 2 powi (bit_len d)"
      using bit_len_powi(1)[OF assms(1)] by (intro divide_right_mono) auto
    also have "\<dots> \<le> q"
      unfolding q_def using bit_len_powi(2)[OF assms(2)] assms by (intro divide_left_mono) auto
    finally show ?thesis .
  qed
  show ?thesis
    using up lo floor_log2_test[OF assms(2), of ?k n]
    unfolding floor_log2_def Let_def q_def by (auto simp: not_le)
qed

lemma floor_log2_unique:
  assumes "(2::rat) powi k \<le> q" "q < 2 powi (k + 1)" "2 powi l \<le> q" "q < 2 powi (l + 1)"
  shows "k = l"
proof -
  have "(2::rat) powi k < 2 powi (l + 1)" "(2::rat) powi l < 2 powi (k + 1)"
    using assms by (meson order.strict_trans1)+
  then have "\<not> l + 1 \<le> k" "\<not> k + 1 \<le> l"
    using power_int_increasing[of "l + 1" k "2::rat"] power_int_increasing[of "k + 1" l "2::rat"]
    by force+
  then show ?thesis by simp
qed

lemma floor_log2_scale:
  assumes "0 < n" "0 < d" "0 < c"
  shows "floor_log2 (n * c) (d * c) = floor_log2 n d"
  using floor_log2_bounds[of "n * c" "d * c"] floor_log2_bounds[of n d] assms
  by (intro floor_log2_unique[of _ "of_int n / of_int d"]) auto

lemma round_half_even_scale: "0 < c \<Longrightarrow> round_half_even (n * c) (d * c) = round_half_even n d"
proof -
  assume c: "0 < c"
  have "2 * (n mod d * c) < d * c \<longleftrightarrow> 2 * (n mod d) < d"
    using c mult_less_cancel_right_pos[OF c, of "2 * (n mod d)" d] by (simp add: mult.assoc)
  moreover have "2 * (n mod d * c) = d * c \<longleftrightarrow> 2 * (n mod d) = d"
    using c mult_cancel_right[of "2 * (n mod d)" c d] by (simp add: mult.assoc)
  ultimately show ?thesis
    using c by (simp add: round_half_even_def Let_def)
qed

lemma round_f64_scale:
  assumes "0 \<le> n" "0 < d" "0 < c"
  shows "round_f64 neg (n * c) (d * c) = round_f64 neg n d"
proof (cases "n = 0")
  case False
  with assms have n: "0 < n" by simp
  have "round_half_even (n * c) (d * c * 2 ^ j) = round_half_even n (d * 2 ^ j)"
    "round_half_even (n * c * 2 ^ j) (d * c) = round_half_even (n * 2 ^ j) d" for j
    using round_half_even_scale[OF assms(3), of n "d * 2 ^ j"]
      round_half_even_scale[OF assms(3), of "n * 2 ^ j" d]
    by (simp_all add: mult_ac)
  then have mant: "(if e \<ge> 0 then round_half_even (n * c) (d * c * 2 ^ nat e)
      else round_half_even (n * c * 2 ^ nat (- e)) (d * c))
    = (if e \<ge> 0 then round_half_even n (d * 2 ^ nat e) else round_half_even (n * 2 ^ nat (- e)) d)"
    for e :: int
    by simp
  have "n * c = 0 \<longleftrightarrow> n = 0" using assms(3) by simp
  then show ?thesis
    by (simp only: round_f64_def mant floor_log2_scale[OF n assms(2,3)])
qed (simp add: round_f64_def)

lemma round_f64_same_value:
  assumes "0 \<le> n" "0 < d" "0 \<le> n'" "0 < d'" "n * d' = n' * d"
  shows "round_f64 neg n d = round_f64 neg n' d'"
proof -
  have "round_f64 neg n d = round_f64 neg (n * d') (d * d')"
    using round_f64_scale[of n d d' neg] assms by simp
  also have "\<dots> = round_f64 neg (n' * d) (d' * d)" using assms(5) by (simp add: mult.commute)
  also have "\<dots> = round_f64 neg n' d'" using round_f64_scale[of n' d' d neg] assms by simp
  finally show ?thesis .
qed

end
