(* ===== verification/Runtime_Value.thy ===== *)
theory Runtime_Value
  imports F64 IR
begin

text \<open>
  Fact values and the CPython-faithful coercions of the preview runtime
  (\<open>src/crates/ke-runtime/src/value.rs\<close>). A JSON value is modelled by the view the code
  takes of \<open>serde_json::Value\<close>: a number is an integer (serde_json keeps one only when it
  fits \<open>i64\<close> or \<open>u64\<close>) or a double. The compact text of an object is printed by
  serde_json and is the parameter \<open>json_text\<close>.
\<close>

datatype json =
    JNull
  | JBool bool
  | JInt int
  | JFloat f64
  | JString string
  | JArray "json list"
  | JObject "(string \<times> json) list"

datatype fact_value =
    FactNull
  | FactBool bool
  | FactInt int
  | FactFloat f64
  | FactStr string
  | FactList "fact_value list"

type_synonym facts = "string \<Rightarrow> fact_value option"

definition as_i64 :: "int \<Rightarrow> int option" where
  "as_i64 n = (if - (2 ^ 63) \<le> n \<and> n < 2 ^ 63 then Some n else None)"

definition as_u64 :: "int \<Rightarrow> int option" where
  "as_u64 n = (if 0 \<le> n \<and> n < 2 ^ 64 then Some n else None)"

fun from_json :: "(json \<Rightarrow> string) \<Rightarrow> json \<Rightarrow> fact_value" where
  "from_json json_text JNull = FactNull"
| "from_json json_text (JBool b) = FactBool b"
| "from_json json_text (JInt n) =
     (case as_i64 n of
        Some i \<Rightarrow> FactInt i
      | None \<Rightarrow> (case as_u64 n of
          Some u \<Rightarrow> FactInt u
        | None \<Rightarrow> FactFloat (int_as_f64 n)))"
| "from_json json_text (JFloat f) = FactFloat f"
| "from_json json_text (JString s) = FactStr s"
| "from_json json_text (JArray a) = FactList (map (from_json json_text) a)"
| "from_json json_text (JObject ob) = FactStr (json_text (JObject ob))"

fun is_present :: "fact_value \<Rightarrow> bool" where
  "is_present FactNull = False"
| "is_present _ = True"

definition f64_zero :: f64 where
  "f64_zero = F64Fin False 0 (- 1074)"

definition f64_one :: f64 where
  "f64_one = F64Fin False (2 ^ 52) (- 52)"

fun as_number :: "fact_value \<Rightarrow> f64 option" where
  "as_number (FactInt i) = Some (int_as_f64 i)"
| "as_number (FactFloat f) = Some f"
| "as_number (FactBool b) = Some (if b then f64_one else f64_zero)"
| "as_number _ = None"

text \<open>\<open>collect\<close> into a \<open>BTreeMap\<close> keeps the last entry of a key.\<close>

fun facts_from_json :: "(json \<Rightarrow> string) \<Rightarrow> json \<Rightarrow> string + facts" where
  "facts_from_json json_text (JObject ob) =
     Inr (map_of (rev (map (\<lambda>(k, v). (k, from_json json_text v)) ob)))"
| "facts_from_json json_text _ = Inl ''facts must be a JSON object''"

definition lookup :: "facts \<Rightarrow> string \<Rightarrow> fact_value" where
  "lookup fs field = (case fs field of Some v \<Rightarrow> v | None \<Rightarrow> FactNull)"

section \<open>Decimal operands\<close>

definition decimal_to_string :: "int \<Rightarrow> int \<Rightarrow> string" where
  "decimal_to_string mant scl =
     (let sign = (if mant < 0 then ''-'' else []); digits = nat_digits \<bar>mant\<bar>
      in if scl \<le> 0 then sign @ digits @ replicate (nat (max (- scl) 0)) CHR ''0''
         else let sc = nat scl in
           if length digits \<le> sc
           then sign @ ''0.'' @ replicate (sc - length digits) CHR ''0'' @ digits
           else let point = length digits - sc
                in sign @ take point digits @ ''.'' @ drop point digits)"

definition decimal_to_f64 :: "int \<Rightarrow> int \<Rightarrow> f64" where
  "decimal_to_f64 mant scl =
     (case parse_f64 (decimal_to_string mant scl) of Some f \<Rightarrow> f | None \<Rightarrow> F64NaN)"

fun operand_as_number :: "scalar_value \<Rightarrow> f64 option" where
  "operand_as_number (ScalarDecimal m s) = Some (decimal_to_f64 m s)"
| "operand_as_number (ScalarBool b) = Some (if b then f64_one else f64_zero)"
| "operand_as_number _ = None"

section \<open>Python text\<close>

fun f64_is_zero :: "f64 \<Rightarrow> bool" where
  "f64_is_zero (F64Fin s m e) = (m = 0)"
| "f64_is_zero _ = False"

fun f64_is_sign_negative :: "f64 \<Rightarrow> bool" where
  "f64_is_sign_negative (F64Fin s m e) = s"
| "f64_is_sign_negative (F64Inf s) = s"
| "f64_is_sign_negative F64NaN = False"

definition python_float_str :: "f64 \<Rightarrow> string" where
  "python_float_str f =
     (if f64_is_zero f then (if f64_is_sign_negative f then ''-0.0'' else ''0.0'')
      else f64_debug f)"

definition python_list_repr :: "string list \<Rightarrow> string" where
  "python_list_repr parts = ''['' @ join_with '', '' parts @ '']''"

definition quoted :: "string \<Rightarrow> string" where
  "quoted s = [CHR 0x27] @ s @ [CHR 0x27]"

fun python_str_fact :: "fact_value \<Rightarrow> string"
  and python_repr_fact :: "fact_value \<Rightarrow> string"
where
  "python_str_fact FactNull = ''None''"
| "python_str_fact (FactBool b) = (if b then ''True'' else ''False'')"
| "python_str_fact (FactInt i) = int_digits i"
| "python_str_fact (FactFloat f) = python_float_str f"
| "python_str_fact (FactStr s) = s"
| "python_str_fact (FactList items) = python_list_repr (map python_repr_fact items)"
| "python_repr_fact (FactStr s) = quoted s"
| "python_repr_fact v = python_str_fact v"

fun python_str_scalar :: "scalar_value \<Rightarrow> string"
  and python_repr_scalar :: "scalar_value \<Rightarrow> string"
where
  "python_str_scalar (ScalarStr s) = s"
| "python_str_scalar (ScalarBool b) = (if b then ''True'' else ''False'')"
| "python_str_scalar (ScalarDecimal m s) =
     (if s \<le> 0 then decimal_to_string m s else python_float_str (decimal_to_f64 m s))"
| "python_str_scalar (ScalarList items) = python_list_repr (map python_repr_scalar items)"
| "python_repr_scalar (ScalarStr s) = quoted s"
| "python_repr_scalar v = python_str_scalar v"

section \<open>Reading an operand\<close>

text \<open>The text of a decimal reads back as the correctly rounded exact fraction.\<close>

lemma list_all_take_drop: "list_all P xs \<Longrightarrow> list_all P (take n xs) \<and> list_all P (drop n xs)"
  by (auto simp: list_all_iff dest: in_set_takeD in_set_dropD)

lemma takeWhile_digits:
  "list_all is_digit xs \<Longrightarrow> takeWhile is_digit xs = xs \<and> dropWhile is_digit xs = []"
  "list_all is_digit xs \<Longrightarrow> takeWhile is_digit (xs @ CHR ''.'' # ys) = xs
     \<and> dropWhile is_digit (xs @ CHR ''.'' # ys) = CHR ''.'' # ys"
  by (induction xs) (auto simp: is_digit_def)

lemma parse_unsigned_plain:
  "list_all is_digit xs \<Longrightarrow> xs \<noteq> [] \<Longrightarrow>
     parse_unsigned_f64 neg xs = Some (round_f64 neg (digits_value xs) 1)"
  by (simp add: parse_unsigned_f64_def takeWhile_digits(1))

lemma parse_unsigned_point:
  "list_all is_digit xs \<Longrightarrow> list_all is_digit ys \<Longrightarrow> xs \<noteq> [] \<Longrightarrow>
     parse_unsigned_f64 neg (xs @ CHR ''.'' # ys)
       = Some (round_f64 neg (digits_value (xs @ ys)) (10 ^ length ys))"
  by (simp add: parse_unsigned_f64_def takeWhile_digits(2))

lemma parse_f64_sign:
  "list_all is_digit (take 1 xs) \<Longrightarrow> xs \<noteq> [] \<Longrightarrow>
     parse_f64 ((if neg then ''-'' else []) @ xs) = parse_unsigned_f64 neg xs"
  by (cases xs) (auto simp: parse_f64_def is_digit_def)

definition decimal_magnitude :: "int \<Rightarrow> int \<Rightarrow> string" where
  "decimal_magnitude mant scl =
     (let digits = nat_digits \<bar>mant\<bar>
      in if scl \<le> 0 then digits @ replicate (nat (max (- scl) 0)) CHR ''0''
         else let sc = nat scl in
           if length digits \<le> sc
           then ''0.'' @ replicate (sc - length digits) CHR ''0'' @ digits
           else take (length digits - sc) digits @ ''.'' @ drop (length digits - sc) digits)"

lemma decimal_to_string_eq:
  "decimal_to_string m s = (if m < 0 then ''-'' else []) @ decimal_magnitude m s"
  by (simp add: decimal_to_string_def decimal_magnitude_def Let_def)

lemma zeros_digits: "list_all is_digit (replicate n CHR ''0'')"
  by (induction n) (auto simp: is_digit_def)

lemma parse_decimal_magnitude:
  "parse_unsigned_f64 neg (decimal_magnitude m s) =
     Some (if s \<le> 0 then round_f64 neg (\<bar>m\<bar> * 10 ^ nat (- s)) 1
           else round_f64 neg \<bar>m\<bar> (10 ^ nat s))"
proof -
  let ?ds = "nat_digits \<bar>m\<bar>"
  have ds: "list_all is_digit ?ds" by (rule nat_digits_digits) simp
  show ?thesis
  proof (cases "s \<le> 0")
    case True
    then have "decimal_magnitude m s = ?ds @ replicate (nat (- s)) CHR ''0''"
      by (simp add: decimal_magnitude_def max_def)
    moreover have "digits_value (?ds @ replicate (nat (- s)) CHR ''0'') = \<bar>m\<bar> * 10 ^ nat (- s)"
      by (simp add: digits_value_append)
    ultimately show ?thesis
      using True ds zeros_digits by (simp add: parse_unsigned_plain)
  next
    case False
    show ?thesis
    proof (cases "length ?ds \<le> nat s")
      case True
      let ?fr = "replicate (nat s - length ?ds) CHR ''0'' @ ?ds"
      have "decimal_magnitude m s = [CHR ''0''] @ CHR ''.'' # ?fr"
        using False True by (simp add: decimal_magnitude_def Let_def)
      moreover have "digits_value ([CHR ''0''] @ ?fr) = \<bar>m\<bar>"
        by (simp only: digits_value_append) (simp add: digit_value_def)
      moreover have "length ?fr = nat s" using True by simp
      moreover have "list_all is_digit ?fr" "list_all is_digit [CHR ''0'']"
        using ds zeros_digits by (simp_all add: is_digit_def)
      ultimately show ?thesis
        using False parse_unsigned_point[of "[CHR ''0'']" ?fr neg] by simp
    next
      case longer: False
      let ?p = "length ?ds - nat s"
      have "decimal_magnitude m s = take ?p ?ds @ CHR ''.'' # drop ?p ?ds"
        using False longer by (simp add: decimal_magnitude_def Let_def)
      moreover have "length (drop ?p ?ds) = nat s" "take ?p ?ds \<noteq> []"
        using longer by auto
      ultimately show ?thesis
        using False ds list_all_take_drop[OF ds, of ?p]
          parse_unsigned_point[of "take ?p ?ds" "drop ?p ?ds" neg] by simp
    qed
  qed
qed

lemma decimal_magnitude_start:
  "decimal_magnitude m s \<noteq> [] \<and> list_all is_digit (take 1 (decimal_magnitude m s))"
proof -
  have ds: "list_all is_digit (nat_digits \<bar>m\<bar>)" by (rule nat_digits_digits) simp
  obtain c cs where cs: "nat_digits \<bar>m\<bar> = c # cs" "is_digit c"
    using ds nat_digits_nonempty[of "\<bar>m\<bar>"] by (cases "nat_digits \<bar>m\<bar>") auto
  then show ?thesis
    by (auto simp: decimal_magnitude_def Let_def is_digit_def take_Cons split: nat.splits)
qed

lemma decimal_to_f64_eq:
  "decimal_to_f64 m s =
     (if s \<le> 0 then round_f64 (m < 0) (\<bar>m\<bar> * 10 ^ nat (- s)) 1
      else round_f64 (m < 0) \<bar>m\<bar> (10 ^ nat s))"
  using decimal_magnitude_start[of m s]
  by (simp add: decimal_to_f64_def decimal_to_string_eq parse_f64_sign parse_decimal_magnitude)

lemma decimal_to_f64_not_nan [simp]: "decimal_to_f64 m s \<noteq> F64NaN"
  by (simp add: decimal_to_f64_eq)

lemma decimal_to_f64_int: "decimal_to_f64 n 0 = int_as_f64 n"
  by (simp add: decimal_to_f64_eq int_as_f64_def)

end
