(* ===== verification/Compare.thy ===== *)
theory Compare
  imports Runtime_Value
begin

text \<open>
  Operator evaluation of the preview runtime
  (\<open>src/crates/ke-runtime/src/compare.rs\<close>): total, with CPython's rules for equality,
  ordering and string membership.
\<close>

function eval_eq :: "fact_value \<Rightarrow> scalar_value \<Rightarrow> bool" where
  "eval_eq actual operand =
     (case (as_number actual, operand_as_number operand) of
        (Some a, Some b) \<Rightarrow> f64_eq a b
      | _ \<Rightarrow> (case (actual, operand) of
          (FactStr a, ScalarStr b) \<Rightarrow> a = b
        | (FactList a, ScalarList b) \<Rightarrow>
            length a = length b \<and> list_all (\<lambda>(x, y). eval_eq x y) (zip a b)
        | _ \<Rightarrow> False))"
  by pat_completeness auto
termination
  by (relation "measure (\<lambda>(a, _). size a)")
     (auto dest!: set_zip_leftD simp: less_Suc_eq_le size_list_estimation')

declare eval_eq.simps [simp del]

datatype cmp_ordering = CmpGt | CmpLt | CmpGte | CmpLte

definition apply_ord :: "ordering option \<Rightarrow> cmp_ordering \<Rightarrow> bool" where
  "apply_ord cmp ord =
     (case cmp of
        None \<Rightarrow> False
      | Some c \<Rightarrow> (case ord of
          CmpGt \<Rightarrow> c = OrdGreater
        | CmpLt \<Rightarrow> c = OrdLess
        | CmpGte \<Rightarrow> c \<noteq> OrdLess
        | CmpLte \<Rightarrow> c \<noteq> OrdGreater))"

definition eval_ord :: "fact_value \<Rightarrow> scalar_value \<Rightarrow> cmp_ordering \<Rightarrow> bool" where
  "eval_ord actual operand ord =
     (case (as_number actual, operand_as_number operand) of
        (Some a, Some b) \<Rightarrow> apply_ord (f64_partial_cmp a b) ord
      | _ \<Rightarrow> (case (actual, operand) of
          (FactStr a, ScalarStr b) \<Rightarrow> apply_ord (Some (cmp_lin a b)) ord
        | _ \<Rightarrow> False))"

fun eval_in :: "fact_value \<Rightarrow> scalar_value \<Rightarrow> bool" where
  "eval_in actual (ScalarList items) =
     (let needle = python_str_fact actual
      in list_ex (\<lambda>e. python_str_scalar e = needle) items)"
| "eval_in actual _ = False"

fun evaluate_op :: "fact_value \<Rightarrow> operator \<Rightarrow> scalar_value \<Rightarrow> bool" where
  "evaluate_op actual OpEq operand = eval_eq actual operand"
| "evaluate_op actual OpNotEq operand = (\<not> eval_eq actual operand)"
| "evaluate_op actual OpIn operand = eval_in actual operand"
| "evaluate_op actual OpNotIn operand = (\<not> eval_in actual operand)"
| "evaluate_op actual OpGt operand = eval_ord actual operand CmpGt"
| "evaluate_op actual OpLt operand = eval_ord actual operand CmpLt"
| "evaluate_op actual OpGte operand = eval_ord actual operand CmpGte"
| "evaluate_op actual OpLte operand = eval_ord actual operand CmpLte"
| "evaluate_op actual OpExists operand = is_present actual"

section \<open>Laws of the operators\<close>

text \<open>Two sides are comparable when both are numbers (not NaN) or both are strings.\<close>

definition comparable :: "fact_value \<Rightarrow> scalar_value \<Rightarrow> bool" where
  "comparable actual operand =
     (case (as_number actual, operand_as_number operand) of
        (Some a, Some b) \<Rightarrow> a \<noteq> F64NaN \<and> b \<noteq> F64NaN
      | _ \<Rightarrow> (case (actual, operand) of (FactStr a, ScalarStr b) \<Rightarrow> True | _ \<Rightarrow> False))"

lemma apply_ord_simps [simp]:
  "apply_ord None ord = False"
  "apply_ord (Some c) CmpGt \<longleftrightarrow> c = OrdGreater"
  "apply_ord (Some c) CmpLt \<longleftrightarrow> c = OrdLess"
  "apply_ord (Some c) CmpGte \<longleftrightarrow> c \<noteq> OrdLess"
  "apply_ord (Some c) CmpLte \<longleftrightarrow> c \<noteq> OrdGreater"
  by (simp_all add: apply_ord_def)

lemma numeric_operators:
  assumes "as_number actual = Some a" "operand_as_number operand = Some b"
  shows "eval_eq actual operand = f64_eq a b"
    "eval_ord actual operand ord = apply_ord (f64_partial_cmp a b) ord"
  using assms by (simp_all add: eval_eq.simps eval_ord_def)

lemma string_operators:
  "eval_eq (FactStr s) (ScalarStr t) = (s = t)"
  "eval_ord (FactStr s) (ScalarStr t) ord = apply_ord (Some (cmp_lin s t)) ord"
  by (simp_all add: eval_eq.simps eval_ord_def)

lemma list_equality:
  "eval_eq (FactList as) (ScalarList xs) \<longleftrightarrow>
     length as = length xs \<and> list_all (\<lambda>(x, y). eval_eq x y) (zip as xs)"
  "\<not> (\<exists>as. a = FactList as) \<Longrightarrow> \<not> eval_eq a (ScalarList xs)"
  by (subst eval_eq.simps, simp) (subst eval_eq.simps, cases a, simp_all)

text \<open>The common result of the five relational operators on comparable sides.\<close>

definition relation_of :: "fact_value \<Rightarrow> scalar_value \<Rightarrow> ordering option" where
  "relation_of actual operand =
     (case (as_number actual, operand_as_number operand) of
        (Some a, Some b) \<Rightarrow> f64_partial_cmp a b
      | _ \<Rightarrow> (case (actual, operand) of
          (FactStr a, ScalarStr b) \<Rightarrow> Some (cmp_lin a b)
        | _ \<Rightarrow> None))"

lemma comparable_iff: "comparable actual operand \<longleftrightarrow> relation_of actual operand \<noteq> None"
proof -
  have strings: "(case (actual, operand) of (FactStr a, ScalarStr b) \<Rightarrow> True | _ \<Rightarrow> False)
    \<longleftrightarrow> (case (actual, operand) of
          (FactStr a, ScalarStr b) \<Rightarrow> Some (cmp_lin a b) | _ \<Rightarrow> None) \<noteq> None"
    by (auto split: fact_value.splits scalar_value.splits)
  have "a \<noteq> F64NaN \<and> b \<noteq> F64NaN \<longleftrightarrow> f64_partial_cmp a b \<noteq> None" for a b
    by (simp only: f64_partial_cmp_None de_Morgan_disj)
  then show ?thesis
    using strings unfolding comparable_def relation_of_def
    by (cases "as_number actual"; cases "operand_as_number operand") (simp_all del: not_None_eq)
qed

lemma eval_ord_relation: "eval_ord actual operand ord = apply_ord (relation_of actual operand) ord"
  by (auto simp: eval_ord_def relation_of_def split: option.splits fact_value.splits scalar_value.splits)

lemma eval_eq_relation:
  "relation_of actual operand = Some c \<Longrightarrow> eval_eq actual operand \<longleftrightarrow> c = OrdEqual"
  by (auto simp: eval_eq.simps relation_of_def f64_eq_def
      split: option.splits fact_value.splits scalar_value.splits)

lemma comparable_int:
  assumes "\<bar>n\<bar> \<le> 2 ^ 53" "\<bar>m\<bar> \<le> 2 ^ 53"
  shows "relation_of (FactInt n) (ScalarDecimal m 0) = Some (cmp_lin n m)"
  using int_as_f64_cmp[OF assms] by (simp add: relation_of_def decimal_to_f64_int)

section \<open>Properties\<close>

text \<open>On comparable sides exactly one of less, equal and greater holds, and the weak
  operators are their unions; on every other pair of types all four orderings are false,
  the \<open>TypeError\<close> of the reference runtime.\<close>

theorem ordering_operators:
  "if comparable a v
   then (evaluate_op a OpLt v \<longrightarrow> \<not> evaluate_op a OpEq v \<and> \<not> evaluate_op a OpGt v)
     \<and> (evaluate_op a OpEq v \<longrightarrow> \<not> evaluate_op a OpGt v)
     \<and> (evaluate_op a OpLt v \<or> evaluate_op a OpEq v \<or> evaluate_op a OpGt v)
     \<and> (evaluate_op a OpGte v \<longleftrightarrow> evaluate_op a OpGt v \<or> evaluate_op a OpEq v)
     \<and> (evaluate_op a OpLte v \<longleftrightarrow> evaluate_op a OpLt v \<or> evaluate_op a OpEq v)
   else \<not> evaluate_op a OpLt v \<and> \<not> evaluate_op a OpGt v
     \<and> \<not> evaluate_op a OpGte v \<and> \<not> evaluate_op a OpLte v"
proof (cases "relation_of a v")
  case None
  then show ?thesis by (simp add: comparable_iff eval_ord_relation)
next
  case (Some c)
  then show ?thesis
    using eval_eq_relation[OF Some] by (cases c) (simp_all add: comparable_iff eval_ord_relation)
qed

lemma ordering_operators_witness:
  "evaluate_op (FactInt 3) OpLt (ScalarDecimal 35 1) \<and> \<not> evaluate_op (FactInt 3) OpGte (ScalarDecimal 35 1)"
proof -
  have "comparable (FactInt 3) (ScalarDecimal 35 1)" "evaluate_op (FactInt 3) OpLt (ScalarDecimal 35 1)"
    by code_simp+
  then show ?thesis using ordering_operators[of "FactInt 3" "ScalarDecimal 35 1"] by simp
qed

text \<open>an integer fact against an integer operand compares as integers as long as both
  are within \<open>2 ^ 53\<close>; beyond, the shared conversion to \<open>f64\<close> makes distinct integers equal,
  where Python's integer comparison keeps them apart.\<close>

theorem integer_comparison_exact:
  assumes "\<bar>n\<bar> \<le> 2 ^ 53" "\<bar>m\<bar> \<le> 2 ^ 53"
  shows "(evaluate_op (FactInt n) OpEq (ScalarDecimal m 0) \<longleftrightarrow> n = m)
    \<and> (evaluate_op (FactInt n) OpLt (ScalarDecimal m 0) \<longleftrightarrow> n < m)
    \<and> (evaluate_op (FactInt n) OpLte (ScalarDecimal m 0) \<longleftrightarrow> n \<le> m)
    \<and> (evaluate_op (FactInt n) OpGt (ScalarDecimal m 0) \<longleftrightarrow> m < n)
    \<and> (evaluate_op (FactInt n) OpGte (ScalarDecimal m 0) \<longleftrightarrow> m \<le> n)"
  using eval_eq_relation[OF comparable_int[OF assms]]
  by (auto simp: eval_ord_relation comparable_int[OF assms] cmp_lin_def)

lemma integer_comparison_exact_witness:
  "evaluate_op (FactInt 7) OpLt (ScalarDecimal (2 ^ 53) 0)
   \<and> evaluate_op (FactInt (2 ^ 53 + 1)) OpEq (ScalarDecimal (2 ^ 53) 0)"
proof -
  have "evaluate_op (FactInt (2 ^ 53 + 1)) OpEq (ScalarDecimal (2 ^ 53) 0)" by code_simp
  then show ?thesis using integer_comparison_exact[of 7 "2 ^ 53"] by simp
qed

end
