(* ===== verification/Exec.thy ===== *)
theory Exec
  imports Compare Semantic
begin

text \<open>
  The preview executor (\<open>src/crates/ke-runtime/src/exec.rs\<close>), its normalised trace
  (\<open>trace.rs\<close>) and the effective-window test (\<open>effective.rs\<close>). A function of the code
  that appends to \<open>&mut Vec\<close> returns what it appends.
\<close>

record norm_step =
  step_field :: string
  step_operator :: string
  step_result :: bool

fun trace_op_token :: "operator \<Rightarrow> string" where
  "trace_op_token OpEq = ''==''"
| "trace_op_token OpNotEq = ''!=''"
| "trace_op_token OpIn = ''in''"
| "trace_op_token OpNotIn = ''not_in''"
| "trace_op_token OpGt = ''>''"
| "trace_op_token OpLt = ''<''"
| "trace_op_token OpGte = ''>=''"
| "trace_op_token OpLte = ''<=''"
| "trace_op_token OpExists = ''exists''"

definition norm_step_new :: "string \<Rightarrow> operator \<Rightarrow> bool \<Rightarrow> norm_step" where
  "norm_step_new field oper result =
     \<lparr>step_field = field, step_operator = trace_op_token oper, step_result = result\<rparr>"

datatype mode = ModeAll | ModeAny

record obligation =
  ob_id :: string
  ob_description :: "string option"
  ob_deadline :: "string option"

record evaluation =
  ev_rule_id :: string
  ev_applicable :: bool
  ev_decision :: "string option"
  ev_obligations :: "obligation list"
  ev_applicability_steps :: "norm_step list"
  ev_decision_path :: "norm_step list"

definition obligation_ids :: "evaluation \<Rightarrow> string list" where
  "obligation_ids ev = remdups_adj (sort (map ob_id (ev_obligations ev)))"

text \<open>The normalized object of the equivalence harness; \<open>serde_json\<close> keeps the order written.\<close>

definition norm_step_json :: "norm_step \<Rightarrow> json" where
  "norm_step_json st =
     JObject [(''field'', JString (step_field st)), (''operator'', JString (step_operator st)),
       (''result'', JBool (step_result st))]"

definition normalized_json :: "evaluation \<Rightarrow> json" where
  "normalized_json ev =
     JObject [(''applicable'', JBool (ev_applicable ev)),
       (''decision'', case ev_decision ev of None \<Rightarrow> JNull | Some d \<Rightarrow> JString d),
       (''obligations'', JArray (map JString (obligation_ids ev))),
       (''applicability_steps'', JArray (map norm_step_json (ev_applicability_steps ev))),
       (''decision_path'', JArray (map norm_step_json (ev_decision_path ev)))]"

text \<open>An empty \<open>all\<close> list is falsy: the mode is then \<open>any\<close>.\<close>

definition group_mode :: "condition_group \<Rightarrow> mode" where
  "group_mode g =
     (case group_all g of Some as \<Rightarrow> if as \<noteq> [] then ModeAll else ModeAny | None \<Rightarrow> ModeAny)"

fun flatten :: "condition_group \<Rightarrow> condition list"
  and flatten_item :: "condition_or_group \<Rightarrow> condition list"
where
  "flatten (ConditionGroupSpec as ns) =
     (case as of
        Some (a # rest) \<Rightarrow> concat (map flatten_item (a # rest))
      | _ \<Rightarrow> (case ns of
          Some items \<Rightarrow> concat (map flatten_item items)
        | None \<Rightarrow> []))"
| "flatten_item (CondItem c) = [c]"
| "flatten_item (GroupItem g) = flatten g"

definition flattened :: "condition_group \<Rightarrow> condition list \<times> mode" where
  "flattened g = (flatten g, group_mode g)"

definition eval_condition :: "facts \<Rightarrow> condition \<Rightarrow> bool" where
  "eval_condition fs c = evaluate_op (lookup fs (cond_field c)) (cond_operator c) (cond_value c)"

definition condition_step :: "facts \<Rightarrow> condition \<Rightarrow> norm_step" where
  "condition_step fs c = norm_step_new (cond_field c) (cond_operator c) (eval_condition fs c)"

text \<open>The loop over the checks: the verdict and the steps pushed, with the early returns.\<close>

fun run_checks :: "mode \<Rightarrow> facts \<Rightarrow> condition list \<Rightarrow> bool \<times> norm_step list" where
  "run_checks m fs [] = (m = ModeAll, [])"
| "run_checks m fs (c # cs) =
     (let result = eval_condition fs c; step = condition_step fs c
      in if m = ModeAll \<and> \<not> result then (False, [step])
         else if m = ModeAny \<and> result then (True, [step])
         else (let (b, steps) = run_checks m fs cs in (b, step # steps)))"

definition applicability :: "condition_group option \<Rightarrow> facts \<Rightarrow> bool \<times> norm_step list" where
  "applicability applies fs =
     (case applies of
        None \<Rightarrow> (True, [])
      | Some grp \<Rightarrow>
          (let checks = flatten grp
           in if checks = [] then (True, []) else run_checks (group_mode grp) fs checks))"

fun walk :: "decision_entry \<Rightarrow> facts \<Rightarrow> decision_leaf \<times> norm_step list"
  and walk_node :: "decision_node \<Rightarrow> facts \<Rightarrow> decision_leaf \<times> norm_step list"
where
  "walk (LeafEntry l) fs = (l, [])"
| "walk (NodeEntry n) fs = walk_node n fs"
| "walk_node (DecisionNode i c t f sp) fs =
     (let result = eval_condition fs c;
          (l, steps) = (if result then walk t fs else walk f fs)
      in (l, condition_step fs c # steps))"

definition leaf_obligation_list :: "decision_leaf \<Rightarrow> obligation list" where
  "leaf_obligation_list l =
     (case leaf_obligations l of
        None \<Rightarrow> []
      | Some os \<Rightarrow> map (\<lambda>ob. \<lparr>ob_id = obl_id ob, ob_description = obl_description ob,
          ob_deadline = obl_deadline ob\<rparr>) os)"

definition evaluate :: "rule_ir \<Rightarrow> facts \<Rightarrow> evaluation" where
  "evaluate r fs =
     (let (applicable, steps) = applicability (applies_if r) fs
      in if \<not> applicable
         then \<lparr>ev_rule_id = rule_id r, ev_applicable = False, ev_decision = None,
               ev_obligations = [], ev_applicability_steps = steps, ev_decision_path = []\<rparr>
         else let (leaf, path) = walk (decision_tree r) fs
              in \<lparr>ev_rule_id = rule_id r, ev_applicable = True,
                  ev_decision = Some (leaf_result leaf),
                  ev_obligations = leaf_obligation_list leaf,
                  ev_applicability_steps = steps, ev_decision_path = path\<rparr>)"

section \<open>Effective windows\<close>

definition date_key :: "jurisdiction_date \<Rightarrow> int \<times> nat \<times> nat" where
  "date_key d = (year d, month d, day d)"

definition effective_at :: "effective_window option \<Rightarrow> jurisdiction_date \<Rightarrow> bool" where
  "effective_at window date =
     (case window of
        None \<Rightarrow> True
      | Some w \<Rightarrow>
          if date_key date < date_key (effective_from w) then False
          else (case effective_to w of
                  Some t \<Rightarrow> date_key date < date_key t
                | None \<Rightarrow> True))"

section \<open>Applicability\<close>

text \<open>What the flattened checks mean, without the short circuit.\<close>

definition applies :: "condition_group option \<Rightarrow> facts \<Rightarrow> bool" where
  "applies a fs =
     (case a of
        None \<Rightarrow> True
      | Some g \<Rightarrow> flatten g = [] \<or>
          (if group_mode g = ModeAll then list_all (eval_condition fs) (flatten g)
           else list_ex (eval_condition fs) (flatten g)))"

lemma run_checks_verdict:
  "fst (run_checks m fs cs) \<longleftrightarrow>
     (if m = ModeAll then list_all (eval_condition fs) cs else list_ex (eval_condition fs) cs)"
  by (cases m; induction cs) (auto simp: Let_def split: prod.splits)

text \<open>The steps are those of the checks up to and including the first decisive one.\<close>

definition decisive :: "mode \<Rightarrow> facts \<Rightarrow> condition \<Rightarrow> bool" where
  "decisive m fs c = (eval_condition fs c = (m = ModeAny))"

fun upto_first :: "('a \<Rightarrow> bool) \<Rightarrow> 'a list \<Rightarrow> 'a list" where
  "upto_first P [] = []"
| "upto_first P (x # xs) = (if P x then [x] else x # upto_first P xs)"

lemma run_checks_steps:
  "snd (run_checks m fs cs) = map (condition_step fs) (upto_first (decisive m fs) cs)"
  by (cases m; induction cs) (auto simp: Let_def decisive_def split: prod.splits)

lemma applicability_spec:
  "fst (applicability a fs) \<longleftrightarrow> applies a fs"
  "snd (applicability a fs) = (case a of None \<Rightarrow> []
     | Some g \<Rightarrow> map (condition_step fs) (upto_first (decisive (group_mode g) fs) (flatten g)))"
  by (auto simp: applicability_def applies_def run_checks_verdict run_checks_steps Let_def
      split: option.splits)

section \<open>Walking the tree\<close>

text \<open>Replaying a list of branch results from the root.\<close>

fun replay :: "decision_entry \<Rightarrow> bool list \<Rightarrow> decision_leaf option"
  and replay_node :: "decision_node \<Rightarrow> bool list \<Rightarrow> decision_leaf option"
where
  "replay (LeafEntry l) bs = (if bs = [] then Some l else None)"
| "replay (NodeEntry n) bs = replay_node n bs"
| "replay_node (DecisionNode i c t f sp) bs =
     (case bs of [] \<Rightarrow> None | b # bs \<Rightarrow> if b then replay t bs else replay f bs)"

lemma norm_step_result [simp]: "step_result (condition_step fs c) = eval_condition fs c"
  by (simp add: condition_step_def norm_step_new_def)

lemma walk_replay:
  "replay e (map step_result (snd (walk e fs))) = Some (fst (walk e fs))"
  "replay_node n (map step_result (snd (walk_node n fs))) = Some (fst (walk_node n fs))"
  by (induction e fs and n fs rule: walk_walk_node.induct)
     (auto simp: Let_def split: prod.splits if_splits)

section \<open>Fields a rule reads\<close>

fun tree_fields :: "decision_entry \<Rightarrow> string set"
  and node_fields :: "decision_node \<Rightarrow> string set"
where
  "tree_fields (LeafEntry l) = {}"
| "tree_fields (NodeEntry n) = node_fields n"
| "node_fields (DecisionNode i c t f sp) = insert (cond_field c) (tree_fields t \<union> tree_fields f)"

definition rule_fields :: "rule_ir \<Rightarrow> string set" where
  "rule_fields r =
     (case applies_if r of None \<Rightarrow> {} | Some g \<Rightarrow> cond_field ` set (flatten g))
     \<union> tree_fields (decision_tree r)"

lemma condition_step_cong:
  "fs (cond_field c) = fs' (cond_field c) \<Longrightarrow>
     eval_condition fs c = eval_condition fs' c \<and> condition_step fs c = condition_step fs' c"
  by (simp add: eval_condition_def condition_step_def lookup_def)

lemma run_checks_cong:
  "(\<And>c. c \<in> set cs \<Longrightarrow> fs (cond_field c) = fs' (cond_field c)) \<Longrightarrow>
     run_checks m fs cs = run_checks m fs' cs"
proof (induction cs)
  case (Cons c cs)
  have tail: "run_checks m fs cs = run_checks m fs' cs" using Cons by simp
  have head: "eval_condition fs c = eval_condition fs' c" "condition_step fs c = condition_step fs' c"
    using Cons.prems condition_step_cong[of fs c fs'] by simp_all
  show ?case unfolding run_checks.simps head tail ..
qed simp

lemma walk_cong:
  "(\<And>x. x \<in> tree_fields e \<Longrightarrow> fs x = fs' x) \<Longrightarrow> walk e fs = walk e fs'"
  "(\<And>x. x \<in> node_fields n \<Longrightarrow> fs x = fs' x) \<Longrightarrow> walk_node n fs = walk_node n fs'"
proof (induction e fs and n fs rule: walk_walk_node.induct)
  case (3 i c t f sp fs)
  then show ?case using condition_step_cong[of fs c fs'] by (simp add: Let_def)
qed auto

section \<open>Canonicalisation and evaluation\<close>

lemma decimal_to_f64_fraction:
  "decimal_to_f64 m s = round_f64 (m < 0) (\<bar>m\<bar> * 10 ^ nat (- s)) (10 ^ nat s)"
  by (simp add: decimal_to_f64_eq)

lemma decimal_value_fraction:
  "decimal_value m s = of_int (m * 10 ^ nat (- s)) / of_int (10 ^ nat s)"
  by (cases "0 \<le> s") (auto simp: decimal_value_def power_int_def field_simps)

lemma decimal_to_f64_value:
  assumes "decimal_value m s = decimal_value m' s'"
  shows "decimal_to_f64 m s = decimal_to_f64 m' s'"
proof -
  let ?n = "m * 10 ^ nat (- s)" and ?n' = "m' * 10 ^ nat (- s')"
  have "(of_int (?n * 10 ^ nat s') :: rat) = of_int (?n' * 10 ^ nat s)"
    using assms by (simp add: decimal_value_fraction field_simps)
  then have eq: "?n * 10 ^ nat s' = ?n' * 10 ^ nat s" by (simp only: of_int_eq_iff)
  have "\<bar>?n\<bar> * 10 ^ nat s' = \<bar>?n'\<bar> * 10 ^ nat s"
    using arg_cong[OF eq, of abs] by (simp only: abs_mult power_abs abs_numeral)
  moreover have "m < 0 \<longleftrightarrow> m' < 0"
  proof -
    have "?n * 10 ^ nat s' < 0 \<longleftrightarrow> m < 0" "?n' * 10 ^ nat s < 0 \<longleftrightarrow> m' < 0"
      by (simp_all add: mult_less_0_iff)
    with eq show ?thesis by simp
  qed
  ultimately show ?thesis
    unfolding decimal_to_f64_fraction
    by (simp add: abs_mult) (intro round_f64_same_value, simp_all)
qed

lemma canonical_operand_number:
  "canonicalize_scalar L v = Inr v' \<Longrightarrow> operand_as_number v' = operand_as_number v"
  by (cases v) (auto simp: results dest!: normalize_decimal_spec(1) intro: decimal_to_f64_value)

lemma canonical_shape:
  "canonicalize_scalar L (ScalarStr s) = Inr v' \<Longrightarrow> v' = ScalarStr s"
  "canonicalize_scalar L (ScalarBool b) = Inr v' \<Longrightarrow> v' = ScalarBool b"
  "canonicalize_scalar L (ScalarDecimal m e) = Inr v' \<Longrightarrow> \<exists>m' e'. v' = ScalarDecimal m' e'"
  "canonicalize_scalar L (ScalarList xs) = Inr v' \<Longrightarrow>
     \<exists>ys. v' = ScalarList ys \<and> list_all2 (\<lambda>x y. canonicalize_scalar L x = Inr y) xs ys"
  by (auto simp: results)

lemma canonical_eval_ord:
  "canonicalize_scalar L v = Inr v' \<Longrightarrow> eval_ord a v' ord = eval_ord a v ord"
  using canonical_operand_number[of L v v']
  by (cases v) (auto dest!: canonical_shape simp: eval_ord_def
      split: option.splits fact_value.splits simp del: canonicalize_scalar.simps)

lemma canonical_eval_eq:
  "canonicalize_scalar L v = Inr v' \<Longrightarrow> eval_eq a v' = eval_eq a v"
proof (induction v arbitrary: a v')
  case (ScalarList xs)
  then obtain ys where ys: "v' = ScalarList ys"
    "list_all2 (\<lambda>x y. canonicalize_scalar L x = Inr y) xs ys"
    using canonical_shape(4) by blast
  show ?case
  proof (cases a)
    case (FactList as)
    have "list_all (\<lambda>(x, y). eval_eq x y) (zip as ys) = list_all (\<lambda>(x, y). eval_eq x y) (zip as xs)"
      if len: "length as = length xs"
    proof -
      have "eval_eq (as ! i) (ys ! i) = eval_eq (as ! i) (xs ! i)" if "i < length xs" for i
        using that ys(2) by (intro ScalarList.IH) (auto simp: list_all2_conv_all_nth)
      then show ?thesis
        using len ys(2) by (auto simp: list_all_length list_all2_conv_all_nth)
    qed
    then show ?thesis
      using ys FactList list_all2_lengthD[OF ys(2)] by (auto simp: list_equality(1))
  qed (simp_all add: list_equality(2) ys)
next
  case (ScalarDecimal m s)
  then show ?case
    using canonical_operand_number[OF ScalarDecimal] canonical_shape(3)[OF ScalarDecimal]
    by (auto simp: eval_eq.simps split: option.splits fact_value.splits)
qed (auto dest!: canonical_shape simp del: canonicalize_scalar.simps)

lemma canonical_evaluate_op:
  assumes "canonicalize_scalar L v = Inr v'" "oper \<noteq> OpIn" "oper \<noteq> OpNotIn"
  shows "evaluate_op a oper v' = evaluate_op a oper v"
  using assms by (cases oper) (simp_all add: canonical_eval_eq canonical_eval_ord)

section \<open>Properties\<close>

text \<open>C32: the executor decides a rule by its flattened checks - all of them, or any of them
  under an \<open>any\<close> mode, an empty list being true - records exactly the checks up to the first
  decisive one, and the recorded decision path, replayed from the root, ends in the leaf
  whose result and obligations are returned.\<close>

theorem evaluate_spec:
  "ev_applicable (evaluate r fs) = applies (applies_if r) fs
   \<and> ev_applicability_steps (evaluate r fs) = (case applies_if r of None \<Rightarrow> []
       | Some g \<Rightarrow> map (condition_step fs) (upto_first (decisive (group_mode g) fs) (flatten g)))
   \<and> (if applies (applies_if r) fs
      then \<exists>l. replay (decision_tree r) (map step_result (ev_decision_path (evaluate r fs))) = Some l
        \<and> ev_decision (evaluate r fs) = Some (leaf_result l)
        \<and> ev_obligations (evaluate r fs) = leaf_obligation_list l
      else ev_decision (evaluate r fs) = None \<and> ev_obligations (evaluate r fs) = []
        \<and> ev_decision_path (evaluate r fs) = [])"
proof -
  obtain b steps where ap: "applicability (applies_if r) fs = (b, steps)" by fastforce
  obtain l path where w: "walk (decision_tree r) fs = (l, path)" by fastforce
  show ?thesis
    using applicability_spec[of "applies_if r" fs] walk_replay(1)[of "decision_tree r" fs]
    by (auto simp: evaluate_def ap w)
qed

text \<open>the evaluation, trace included, depends only on the facts named by the rule's
  conditions.\<close>

theorem evaluate_relevant_facts:
  assumes "\<And>x. x \<in> rule_fields r \<Longrightarrow> fs x = fs' x"
  shows "evaluate r fs = evaluate r fs'"
proof -
  have a: "applicability (applies_if r) fs = applicability (applies_if r) fs'"
    using assms run_checks_cong[of _ fs fs']
    by (auto simp: applicability_def rule_fields_def Let_def split: option.splits)
  have w: "walk (decision_tree r) fs = walk (decision_tree r) fs'"
    using assms by (intro walk_cong(1)) (simp add: rule_fields_def)
  show ?thesis unfolding evaluate_def a w ..
qed

lemma evaluate_relevant_facts_witness:
  "evaluate (sample_rule_with [] 9 1) [''rate'' \<mapsto> FactInt 1, ''name'' \<mapsto> FactStr ''x'']
     = evaluate (sample_rule_with [] 9 1) [''rate'' \<mapsto> FactInt 1]"
  by (rule evaluate_relevant_facts) (auto simp: rule_fields_def sample_rule_with_def)

text \<open>a window is closed-open: for \<open>from < to\<close> exactly the dates from \<open>from\<close> up to but
  excluding \<open>to\<close> are effective, adjacent windows share no date and leave no gap.\<close>

theorem effective_at_closed_open:
  assumes "effective_to w = Some t" "effective_from w' = t" "date_key (effective_from w) \<le> date_key t"
  shows "(effective_at (Some w) d \<longleftrightarrow> date_key (effective_from w) \<le> date_key d \<and> date_key d < date_key t)
    \<and> \<not> (effective_at (Some w) d \<and> effective_at (Some w') d)
    \<and> (effective_to w' = None \<longrightarrow>
        (effective_at (Some w) d \<or> effective_at (Some w') d
           \<longleftrightarrow> date_key (effective_from w) \<le> date_key d))"
  using assms by (auto simp: effective_at_def not_less split: option.splits)

definition sample_window :: "int \<Rightarrow> int option \<Rightarrow> effective_window" where
  "sample_window a b = \<lparr>effective_from = \<lparr>year = a, month = 1, day = 1\<rparr>,
     effective_to = map_option (\<lambda>y. \<lparr>year = y, month = 1, day = 1\<rparr>) b,
     jurisdiction_time_zone = None, effective_time_policy = None\<rparr>"

lemma effective_at_closed_open_witness:
  "\<not> effective_at (Some (sample_window 2020 (Some 2024))) \<lparr>year = 2024, month = 1, day = 1\<rparr>
   \<and> effective_at (Some (sample_window 2024 None)) \<lparr>year = 2024, month = 1, day = 1\<rparr>"
  using effective_at_closed_open[of "sample_window 2020 (Some 2024)" "\<lparr>year = 2024, month = 1, day = 1\<rparr>"
      "sample_window 2024 None" "\<lparr>year = 2024, month = 1, day = 1\<rparr>"]
  by (auto simp: sample_window_def date_key_def)

definition membership_condition :: "scalar_value \<Rightarrow> condition" where
  "membership_condition v = \<lparr>cond_field = ''x'', cond_operator = OpIn, cond_value = ScalarList [v],
     cond_description = None\<rparr>"

text \<open>canonicalising a condition never changes what it evaluates to, for every operator
  but \<open>in\<close> and \<open>not_in\<close>. Those compare Python text, where the scale is visible: the operand
  \<open>5.0\<close> contains the fact \<open>5.0\<close>, its canonical form \<open>5\<close> does not.\<close>

theorem canonical_condition_evaluates_alike:
  assumes "canonicalize_condition L c = Inr c'" "cond_operator c \<noteq> OpIn" "cond_operator c \<noteq> OpNotIn"
  shows "eval_condition fs c' = eval_condition fs c"
  using assms by (auto simp: canonicalize_condition_def eval_condition_def results canonical_evaluate_op)

lemma canonical_condition_evaluates_alike_witness:
  "eval_condition [''x'' \<mapsto> FactInt 5]
     \<lparr>cond_field = ''x'', cond_operator = OpEq, cond_value = ScalarDecimal 5 0, cond_description = None\<rparr>
   = eval_condition [''x'' \<mapsto> FactInt 5]
     \<lparr>cond_field = ''x'', cond_operator = OpEq, cond_value = ScalarDecimal 50 1, cond_description = None\<rparr>"
  by (rule canonical_condition_evaluates_alike[where L = ascii_lib]) code_simp+

text \<open>canonical encoding changes the meaning of a membership test over a fractional
  operand with a trailing zero: before, the fact \<open>5.0\<close> is in \<open>[5.0]\<close>; after, it is not.\<close>

theorem canonical_membership_differs:
  "canonicalize_condition ascii_lib (membership_condition (ScalarDecimal 50 1))
     = Inr (membership_condition (ScalarDecimal 5 0))
   \<and> eval_condition [''x'' \<mapsto> FactFloat (decimal_to_f64 50 1)] (membership_condition (ScalarDecimal 50 1))
   \<and> \<not> eval_condition [''x'' \<mapsto> FactFloat (decimal_to_f64 50 1)] (membership_condition (ScalarDecimal 5 0))"
  by code_simp

end
