(* ===== verification/Wire.thy ===== *)
theory Wire
  imports Prelude
begin

text \<open>
  Bytes on the wire: big-endian digests, their lowercase hexadecimal form, composition of
  codecs (postcard serialises the fields of a struct one after the other with no framing)
  and the interface of the cryptographic crates. BLAKE3 and ed25519 are third-party code:
  a hash function, key derivation, signing and verification are parameters, and the only
  law ever assumed of them is that a signature made with a key verifies under its public
  key. No collision resistance is assumed anywhere.
\<close>

section \<open>Big-endian bytes\<close>

fun be_bytes :: "nat \<Rightarrow> int \<Rightarrow> bytes" where
  "be_bytes 0 v = []"
| "be_bytes (Suc n) v = be_bytes n (v div 256) @ [word_of_int (v mod 256)]"

definition of_be_bytes :: "bytes \<Rightarrow> int" where
  "of_be_bytes bs = foldl (\<lambda>a b. a * 256 + uint b) 0 bs"

definition hash_bytes :: "hash32 \<Rightarrow> bytes" where
  "hash_bytes h = be_bytes 32 (uint h)"

definition sig_bytes :: "sig64 \<Rightarrow> bytes" where
  "sig_bytes s = be_bytes 64 (uint s)"

definition bytes_hash :: "bytes \<Rightarrow> hash32" where
  "bytes_hash bs = word_of_int (of_be_bytes bs)"

definition bytes_sig :: "bytes \<Rightarrow> sig64" where
  "bytes_sig bs = word_of_int (of_be_bytes bs)"

definition u64_le_bytes :: "64 word \<Rightarrow> bytes" where
  "u64_le_bytes w = rev (be_bytes 8 (uint w))"

lemma length_be_bytes [simp]: "length (be_bytes n v) = n"
  by (induction n arbitrary: v) simp_all

lemma length_digests [simp]: "length (hash_bytes h) = 32" "length (sig_bytes s) = 64"
  by (simp_all add: hash_bytes_def sig_bytes_def)

lemma uint_byte: "uint (word_of_int (v mod 256) :: 8 word) = v mod 256"
  by (simp add: uint_word_of_int)

lemma of_be_bytes_be_bytes: "0 \<le> v \<Longrightarrow> v < 256 ^ n \<Longrightarrow> of_be_bytes (be_bytes n v) = v"
proof (induction n arbitrary: v)
  case (Suc n)
  have "of_be_bytes (be_bytes n (v div 256)) = v div 256"
    using Suc.prems by (intro Suc.IH) auto
  then show ?case by (simp add: of_be_bytes_def uint_byte)
qed (simp add: of_be_bytes_def)

lemma be_bytes_inj:
  "\<lbrakk>be_bytes n v = be_bytes n w; 0 \<le> v; v < 256 ^ n; 0 \<le> w; w < 256 ^ n\<rbrakk> \<Longrightarrow> v = w"
  using of_be_bytes_be_bytes by metis

lemma uint_digest_bound: "uint (h :: hash32) < 256 ^ 32" "uint (s :: sig64) < 256 ^ 64"
  using uint_bounded[of h] uint_bounded[of s] by simp_all

lemma bytes_hash_hash_bytes [simp]: "bytes_hash (hash_bytes h) = h"
  using of_be_bytes_be_bytes[OF _ uint_digest_bound(1), of h] by (simp add: bytes_hash_def hash_bytes_def)

lemma bytes_sig_sig_bytes [simp]: "bytes_sig (sig_bytes s) = s"
  using of_be_bytes_be_bytes[OF _ uint_digest_bound(2), of s] by (simp add: bytes_sig_def sig_bytes_def)

lemma hash_bytes_inj [simp]: "hash_bytes a = hash_bytes b \<longleftrightarrow> a = b"
  by (metis bytes_hash_hash_bytes)

section \<open>Composition of codecs\<close>

definition seq_codec :: "'a codec \<Rightarrow> 'b codec \<Rightarrow> ('a \<times> 'b) codec" where
  "seq_codec c d =
     \<lparr>to_stdvec = (\<lambda>(x, y). rbind (to_stdvec c x) (\<lambda>b1. rmap (\<lambda>b2. b1 @ b2) (to_stdvec d y))),
      take_from_bytes = (\<lambda>bs. rbind (take_from_bytes c bs) (\<lambda>(x, r1).
        rbind (take_from_bytes d r1) (\<lambda>(y, r2). Inr ((x, y), r2))))\<rparr>"

definition map_codec :: "('b \<Rightarrow> 'a) \<Rightarrow> ('a \<Rightarrow> 'b) \<Rightarrow> 'a codec \<Rightarrow> 'b codec" where
  "map_codec f g c =
     \<lparr>to_stdvec = (\<lambda>y. to_stdvec c (f y)),
      take_from_bytes = (\<lambda>bs. rmap (\<lambda>(x, r). (g x, r)) (take_from_bytes c bs))\<rparr>"

definition fixed_codec :: "nat \<Rightarrow> ('a \<Rightarrow> bytes) \<Rightarrow> (bytes \<Rightarrow> 'a) \<Rightarrow> 'a codec" where
  "fixed_codec n f g =
     \<lparr>to_stdvec = (\<lambda>x. Inr (f x)),
      take_from_bytes = (\<lambda>bs. if length bs < n then Inl DeserializeUnexpectedEnd
        else Inr (g (take n bs), drop n bs))\<rparr>"

lemma codec_lawI:
  assumes "\<And>x. to_stdvec c x = Inr (enc x)"
    and "\<And>x rest. take_from_bytes c (enc x @ rest) = Inr (x, rest)"
  shows "codec_law c"
  using assms by (auto simp: codec_law_def)

lemma codec_law_seq: "codec_law c \<Longrightarrow> codec_law d \<Longrightarrow> codec_law (seq_codec c d)"
  unfolding codec_law_def seq_codec_def by (auto simp: results split: prod.splits) (metis append_assoc)

lemma codec_law_map: "codec_law c \<Longrightarrow> (\<And>y. g (f y) = y) \<Longrightarrow> codec_law (map_codec f g c)"
  unfolding codec_law_def map_codec_def by simp (metis rmap_simps(2) case_prod_conv)

lemma codec_law_fixed:
  assumes "\<And>x. length (f x) = n" "\<And>x. g (f x) = x"
  shows "codec_law (fixed_codec n f g)"
  by (rule codec_lawI[of _ f]) (simp_all add: fixed_codec_def assms)

section \<open>Hexadecimal\<close>

definition hex_digit :: "int \<Rightarrow> char" where
  "hex_digit n = (if n < 10 then char_of (48 + n) else char_of (87 + n))"

definition hex_byte :: "8 word \<Rightarrow> string" where
  "hex_byte b = [hex_digit (uint b div 16), hex_digit (uint b mod 16)]"

definition hex32 :: "hash32 \<Rightarrow> string" where
  "hex32 h = concat (map hex_byte (hash_bytes h))"

text \<open>The value of a hexadecimal digit, either case.\<close>

definition hex_value :: "char \<Rightarrow> int option" where
  "hex_value c =
     (let n = of_char c in
        if 48 \<le> n \<and> n \<le> 57 then Some (n - 48)
        else if 97 \<le> n \<and> n \<le> 102 then Some (n - 87)
        else if 65 \<le> n \<and> n \<le> 70 then Some (n - 55)
        else None)"

lemma hex_value_digit: "0 \<le> n \<Longrightarrow> n < 16 \<Longrightarrow> hex_value (hex_digit n) = Some n"
  by (auto simp: hex_digit_def hex_value_def Let_def)

section \<open>Cryptographic interface\<close>

record crypto =
  blake3 :: "bytes \<Rightarrow> hash32"
  ed_public :: "hash32 \<Rightarrow> hash32"               \<comment> \<open>seed to public key\<close>
  ed_sign :: "hash32 \<Rightarrow> bytes \<Rightarrow> sig64"
  ed_point :: "hash32 \<Rightarrow> bool"                  \<comment> \<open>\<open>VerifyingKey::from_bytes\<close> succeeds\<close>
  ed_verify :: "hash32 \<Rightarrow> bytes \<Rightarrow> sig64 \<Rightarrow> bool"

definition crypto_law :: "crypto \<Rightarrow> bool" where
  "crypto_law K = (\<forall>sk msg. ed_point K (ed_public K sk)
     \<and> ed_verify K (ed_public K sk) msg (ed_sign K sk msg))"

text \<open>A toy instance for witnesses: the byte sum as hash, and a signature that names the
  key and the hash of the message.\<close>

definition sum_crypto :: crypto where
  "sum_crypto =
     \<lparr>blake3 = (\<lambda>m. word_of_int (1 + foldl (\<lambda>a b. a + uint b) 0 m)),
      ed_public = (\<lambda>sk. sk), ed_sign = (\<lambda>sk m. ucast sk + 256 * of_nat (length m)),
      ed_point = (\<lambda>_. True),
      ed_verify = (\<lambda>pk m s. s = ucast pk + 256 * of_nat (length m))\<rparr>"

lemma crypto_law_sum: "crypto_law sum_crypto"
  by (simp add: crypto_law_def sum_crypto_def)

end
