(* ===== verification/Artifact_Types.thy ===== *)
theory Artifact_Types
  imports Canonical Wire
begin

text \<open>
  The records of \<open>ke-artifact\<close> (\<open>src/crates/ke-artifact/src\<close>: \<open>artifact.rs\<close>,
  \<open>attestation.rs\<close>, \<open>consistency.rs\<close>, \<open>keydir.rs\<close>, \<open>tsa.rs\<close>) and the codecs they travel
  through. \<open>Artifact\<close> extends the envelope record by the three fields outside the hashed
  and signed prefix, and \<open>Attestation\<close> extends its payload by the signature, so
  \<open>truncate\<close> is the code's view type. \<open>u64\<close> times are 64-bit words.
\<close>

section \<open>Timestamps and keys\<close>

datatype timestamp_class = Rfc3161External string | Rfc3161Internal string | TsaMock

record timestamp_token =
  tok_class :: timestamp_class
  tok_token :: bytes
  tok_claimed_time_unix :: "64 word"

datatype signer_role = DomainExpert | PublicationApprover | RegistryRole

datatype key_status = KeyActive | KeyStatusExpired | KeyStatusRevoked

record key_directory_entry =
  kd_key_id :: string
  kd_public_key :: hash32
  kd_signer_roles :: "signer_role list"
  kd_authorized_types :: "attestation_type list"
  kd_valid_from_unix :: "64 word"
  kd_valid_to_unix :: "64 word"
  kd_status :: key_status
  kd_revoked_at_unix :: "64 word option"
  kd_revocation_reason :: "string option"
  kd_revocation_event_hash :: "hash32 option"

type_synonym key_directory = "key_directory_entry list"

definition keydir_lookup :: "key_directory \<Rightarrow> string \<Rightarrow> key_directory_entry option" where
  "keydir_lookup kd kid = find (\<lambda>e. kd_key_id e = kid) kd"

section \<open>Attestations\<close>

datatype attestation_scope = ScopeRuleIds "string list" | ScopeWholeArtifact

record attestation_payload =
  att_artifact_hash :: hash32
  att_scope :: attestation_scope
  att_type :: attestation_type
  att_signer_identity :: string
  att_key_id :: string
  att_signer_role :: signer_role
  att_regime_id :: string
  att_effective_from :: jurisdiction_date
  att_effective_to :: "jurisdiction_date option"
  att_legal_source_hash :: hash32
  att_ir_schema_version :: schema_version
  att_compiler_version :: sem_ver
  att_policy_version :: string
  att_test_corpus_hash :: "hash32 option"
  att_timestamp :: timestamp_token
  att_expiration :: "jurisdiction_date option"
  att_reviewer_comments :: "string option"

record attestation = attestation_payload +
  att_signature :: sig64

section \<open>Artifacts\<close>

record consistency_block =
  cb_tier_result :: string
  cb_policy_mode :: t2t3_mode
  cb_model_name :: string
  cb_model_version :: string
  cb_scoring_profile_version :: "string option"
  cb_evidence_references :: "string list"
  cb_reviewer_overrides :: "string list"
  cb_reviewer_rationale :: "string option"
  cb_timestamp :: string
  cb_execution_environment :: string

datatype artifact_payload = PayloadRules "rule_ir list" | PayloadIntentSpec intent_spec_ir

record span_index_entry =
  sie_rule_id :: string
  sie_spans :: "source_span list"

type_synonym source_span_index = "span_index_entry list"

record audit_versions =
  jurisdiction_resolver_version :: "string option"
  scenario_corpus_version :: "string option"

record compiler_signature =
  cs_key_id :: string
  cs_signature :: sig64

datatype registry_state_metadata = RegistryDraft

record envelope =
  art_manifest :: manifest
  art_payload :: artifact_payload
  art_span_index :: source_span_index
  art_audit_versions :: audit_versions
  art_consistency_block :: "consistency_block option"

record artifact = envelope +
  art_compiler_signature :: compiler_signature
  art_attestations :: "attestation list"
  art_registry_state :: registry_state_metadata

section \<open>Codecs\<close>

record artifact_codecs =
  pc_kind :: "artifact_kind codec"
  pc_envelope :: "envelope codec"
  pc_compiler_signature :: "compiler_signature codec"
  pc_attestations :: "attestation list codec"
  pc_registry_state :: "registry_state_metadata codec"
  pc_attestation_payload :: "attestation_payload codec"
  enc_artifact :: "artifact \<Rightarrow> postcard_error + bytes"
  enc_attestation :: "attestation \<Rightarrow> postcard_error + bytes"

definition set_hash :: "hash32 \<Rightarrow> envelope \<Rightarrow> envelope" where
  "set_hash h e = e\<lparr>art_manifest := (art_manifest e)\<lparr>artifact_hash := h\<rparr>\<rparr>"

text \<open>
  The documented behaviour of postcard on these types: each codec is lawful, structs are
  the concatenation of their fields without framing, a fixed array is its bytes. So the
  hash of the manifest sits right after the encoded kind, an artifact is its envelope
  followed by the three other fields, and an attestation is its payload followed by the
  64 signature bytes.
\<close>

definition struct_bytes :: "artifact_codecs \<Rightarrow> artifact \<Rightarrow> postcard_error + bytes" where
  "struct_bytes A a =
     rbind (to_stdvec (pc_envelope A) (envelope.truncate a)) (\<lambda>b1.
     rbind (to_stdvec (pc_compiler_signature A) (art_compiler_signature a)) (\<lambda>b2.
     rbind (to_stdvec (pc_attestations A) (art_attestations a)) (\<lambda>b3.
     rmap (\<lambda>b4. b1 @ b2 @ b3 @ b4) (to_stdvec (pc_registry_state A) (art_registry_state a)))))"

definition attestation_bytes :: "artifact_codecs \<Rightarrow> attestation \<Rightarrow> postcard_error + bytes" where
  "attestation_bytes A t =
     rmap (\<lambda>b. b @ sig_bytes (att_signature t))
       (to_stdvec (pc_attestation_payload A) (attestation_payload.truncate t))"

definition artifact_codec_law :: "artifact_codecs \<Rightarrow> bool" where
  "artifact_codec_law A \<longleftrightarrow>
     codec_law (pc_kind A) \<and> codec_law (pc_envelope A) \<and> codec_law (pc_compiler_signature A)
     \<and> codec_law (pc_attestations A) \<and> codec_law (pc_registry_state A)
     \<and> codec_law (pc_attestation_payload A)
     \<and> (\<forall>e. \<exists>kb rest. to_stdvec (pc_kind A) (artifact_kind (art_manifest e)) = Inr kb
          \<and> (\<forall>h. to_stdvec (pc_envelope A) (set_hash h e) = Inr (kb @ hash_bytes h @ rest)))
     \<and> (\<forall>a. enc_artifact A a = struct_bytes A a)
     \<and> (\<forall>t. enc_attestation A t = attestation_bytes A t)"

lemma artifact_codec_laws:
  assumes "artifact_codec_law A"
  shows "codec_law (pc_kind A)" "codec_law (pc_envelope A)" "codec_law (pc_compiler_signature A)"
    "codec_law (pc_attestations A)" "codec_law (pc_registry_state A)"
    "codec_law (pc_attestation_payload A)"
    "enc_artifact A a = struct_bytes A a" "enc_attestation A t = attestation_bytes A t"
  using assms by (simp_all add: artifact_codec_law_def)

lemma artifact_layout_law:
  assumes "artifact_codec_law A"
  shows "\<exists>kb rest. to_stdvec (pc_kind A) (artifact_kind (art_manifest e)) = Inr kb
    \<and> (\<forall>h. to_stdvec (pc_envelope A) (set_hash h e) = Inr (kb @ hash_bytes h @ rest))"
  using assms unfolding artifact_codec_law_def by (elim conjE allE[of _ e])

datatype artifact_error =
    ArtCanonical canonical_error
  | ArtCanonicalDecode canonical_decode_error
  | ArtTrailingBytes
  | ArtHashMismatch hash32 hash32
  | ArtSignatureInvalid
  | ArtEnvelopeTruncated
  | ArtKindPayloadMismatch artifact_kind
  | ArtPanic   \<comment> \<open>a slice index out of range or a failed \<open>expect\<close>\<close>

section \<open>Consistency blocks\<close>

datatype consistency_error = CbEmptyField string | CbEmptyEvidenceReference nat

fun position_empty :: "nat \<Rightarrow> string list \<Rightarrow> nat option" where
  "position_empty i [] = None"
| "position_empty i (s # ss) = (if s = [] then Some i else position_empty (i + 1) ss)"

definition build_consistency_block :: "consistency_block \<Rightarrow> consistency_error + consistency_block" where
  "build_consistency_block b =
     rbind (check_all (map (\<lambda>(name, value). ensure (value \<noteq> []) (CbEmptyField name))
       [(''tier_result'', cb_tier_result b),
        (''model_name'', cb_model_name b),
        (''model_version'', cb_model_version b),
        (''timestamp'', cb_timestamp b),
        (''execution_environment'', cb_execution_environment b)])) (\<lambda>_.
     case position_empty 0 (cb_evidence_references b) of
       Some i \<Rightarrow> Inl (CbEmptyEvidenceReference i)
     | None \<Rightarrow> Inr b)"

end
