(* ===== verification/Sample_Codecs.thy ===== *)
theory Sample_Codecs
  imports Artifact_Types
begin

text \<open>
  A concrete instance of the postcard codecs of \<open>Artifact_Types\<close>. Every record of an
  artifact is countable, so the unary codec of the prelude is a lawful codec of each, and the
  envelope codec is laid out like postcard's: kind, 32 hash bytes, the rest. The
  instance shows that the codec law has a model, and the witnesses run on it.
\<close>

section \<open>Countability\<close>

instance volatility :: countable by countable_datatype
instance timestamp_class :: countable by countable_datatype
instance signer_role :: countable by countable_datatype
instance attestation_scope :: countable by countable_datatype
instance registry_state_metadata :: countable by countable_datatype

instance authorization_criterion_ext :: (countable) countable
  by (standard, rule countable_by_key[of "\<lambda>r. (crit_name r, crit_threshold r, crit_volatility r, authorization_criterion.more r)"]) (simp add: authorization_criterion.equality)

instance idempotency_def_ext :: (countable) countable
  by (standard, rule countable_by_key[of "\<lambda>r. (idem_key_fields r, idem_scope r, idempotency_def.more r)"]) (simp add: idempotency_def.equality)

instance intent_spec_ir_ext :: (countable) countable
  by (standard, rule countable_by_key[of "\<lambda>r. (action_class r, intent_criteria r, intent_idempotency r, intent_source_spans r, intent_spec_ir.more r)"]) (simp add: intent_spec_ir.equality)

instance timestamp_token_ext :: (countable) countable
  by (standard, rule countable_by_key[of "\<lambda>r. (tok_class r, tok_token r, tok_claimed_time_unix r, timestamp_token.more r)"]) (simp add: timestamp_token.equality)

instance attestation_payload_ext :: (countable) countable
  by (standard, rule countable_by_key[of "\<lambda>r. (att_artifact_hash r, att_scope r, att_type r, att_signer_identity r, att_key_id r, att_signer_role r, att_regime_id r, att_effective_from r, att_effective_to r, att_legal_source_hash r, att_ir_schema_version r, att_compiler_version r, att_policy_version r, att_test_corpus_hash r, att_timestamp r, att_expiration r, att_reviewer_comments r, attestation_payload.more r)"]) (simp add: attestation_payload.equality)

instance consistency_block_ext :: (countable) countable
  by (standard, rule countable_by_key[of "\<lambda>r. (cb_tier_result r, cb_policy_mode r, cb_model_name r, cb_model_version r, cb_scoring_profile_version r, cb_evidence_references r, cb_reviewer_overrides r, cb_reviewer_rationale r, cb_timestamp r, cb_execution_environment r, consistency_block.more r)"]) (simp add: consistency_block.equality)

instance span_index_entry_ext :: (countable) countable
  by (standard, rule countable_by_key[of "\<lambda>r. (sie_rule_id r, sie_spans r, span_index_entry.more r)"]) (simp add: span_index_entry.equality)

instance audit_versions_ext :: (countable) countable
  by (standard, rule countable_by_key[of "\<lambda>r. (jurisdiction_resolver_version r, scenario_corpus_version r, audit_versions.more r)"]) (simp add: audit_versions.equality)

instance compiler_signature_ext :: (countable) countable
  by (standard, rule countable_by_key[of "\<lambda>r. (cs_key_id r, cs_signature r, compiler_signature.more r)"]) (simp add: compiler_signature.equality)

instance artifact_payload :: countable by countable_datatype

instance envelope_ext :: (countable) countable
  by (standard, rule countable_by_key[of "\<lambda>r. (art_manifest r, art_payload r, art_span_index r, art_audit_versions r, art_consistency_block r, envelope.more r)"]) (simp add: envelope.equality)

section \<open>The codecs\<close>

definition sample_envelope_codec :: "envelope codec" where
  "sample_envelope_codec =
     map_codec (\<lambda>e. (artifact_kind (art_manifest e), artifact_hash (art_manifest e), set_hash 0 e))
       (\<lambda>(k, h, e). set_hash h e)
       (seq_codec unary_codec (seq_codec (fixed_codec 32 hash_bytes bytes_hash) unary_codec))"

definition sample_attestations_codec :: "attestation list codec" where
  "sample_attestations_codec =
     map_codec (map (\<lambda>t. (attestation_payload.truncate t, att_signature t)))
       (map (\<lambda>(p, s). attestation_payload.extend p (attestation.fields s))) unary_codec"

definition sample_base :: artifact_codecs where
  "sample_base =
     \<lparr>pc_kind = unary_codec, pc_envelope = sample_envelope_codec,
      pc_compiler_signature = unary_codec, pc_attestations = sample_attestations_codec,
      pc_registry_state = unary_codec, pc_attestation_payload = unary_codec,
      enc_artifact = (\<lambda>_. Inr []), enc_attestation = (\<lambda>_. Inr [])\<rparr>"

definition sample_codecs :: artifact_codecs where
  "sample_codecs =
     sample_base\<lparr>enc_artifact := struct_bytes sample_base,
       enc_attestation := attestation_bytes sample_base\<rparr>"

lemma sample_envelope_law: "codec_law sample_envelope_codec"
  unfolding sample_envelope_codec_def
  by (intro codec_law_map codec_law_seq codec_law_unary codec_law_fixed) (simp_all add: set_hash_def)

lemma attestation_split:
  "attestation_payload.extend (attestation_payload.truncate t) (attestation.fields (att_signature t)) = t"
  for t :: attestation
  by (cases t) (simp add: attestation_payload.defs attestation.defs)

lemma sample_attestations_law: "codec_law sample_attestations_codec"
  unfolding sample_attestations_codec_def
  by (intro codec_law_map codec_law_unary) (simp add: comp_def attestation_split)

lemma sample_layout:
  "\<exists>kb rest. to_stdvec unary_codec (artifact_kind (art_manifest e)) = Inr kb
     \<and> (\<forall>h. to_stdvec sample_envelope_codec (set_hash h e) = Inr (kb @ hash_bytes h @ rest))"
  by (simp add: sample_envelope_codec_def map_codec_def seq_codec_def fixed_codec_def unary_codec_def
      set_hash_def)

lemma sample_codecs_law: "artifact_codec_law sample_codecs"
  unfolding artifact_codec_law_def
  using sample_layout
  by (simp add: sample_codecs_def sample_base_def codec_law_unary sample_envelope_law
      sample_attestations_law struct_bytes_def[abs_def] attestation_bytes_def[abs_def])

end
