(* ===== verification/Artifact.thy ===== *)
theory Artifact
  imports Sample_Codecs
begin

text \<open>
  Content addressing, signing, assembly and strict decoding of \<open>.kew\<close> files
  (\<open>src/crates/ke-artifact/src\<close>: \<open>hash.rs\<close>, \<open>sign.rs\<close>, \<open>artifact.rs\<close>). The lemmas show
  that assembly yields bytes which decode to the assembled record, whose hash
  recomputation and compiler signature verify, and that appending attestations touches
  nothing of the signed prefix.
\<close>

section \<open>Span index\<close>

fun collect_entry_spans :: "decision_entry \<Rightarrow> source_span list"
  and collect_node_spans :: "decision_node \<Rightarrow> source_span list"
where
  "collect_entry_spans (NodeEntry n) = collect_node_spans n"
| "collect_entry_spans (LeafEntry l) =
     (case leaf_source_span l of Some sp \<Rightarrow> [sp] | None \<Rightarrow> []) @
     (case leaf_obligations l of
        Some obls \<Rightarrow> List.map_filter obl_source_span obls
      | None \<Rightarrow> [])"
| "collect_node_spans (DecisionNode i c t f sp) =
     (case sp of Some s \<Rightarrow> [s] | None \<Rightarrow> []) @ collect_entry_spans t @ collect_entry_spans f"

definition collect_rule_spans :: "rule_ir \<Rightarrow> source_span list" where
  "collect_rule_spans r =
     collect_entry_spans (decision_tree r) @ List.map_filter obl_source_span (rule_obligations r)"

definition build_span_index :: "rule_ir list \<Rightarrow> source_span_index" where
  "build_span_index rules =
     sort_key sie_rule_id
       (map (\<lambda>r. \<lparr>sie_rule_id = rule_id r, sie_spans = collect_rule_spans r\<rparr>) rules)"

section \<open>Hash and signature\<close>

definition artifact_hash_offset :: "artifact_codecs \<Rightarrow> artifact_kind \<Rightarrow> artifact_error + nat" where
  "artifact_hash_offset A k =
     (case to_stdvec (pc_kind A) k of Inl _ \<Rightarrow> Inl ArtPanic | Inr kb \<Rightarrow> Inr (length kb))"

text \<open>\<open>bs[off..off + 32]\<close> overwritten.\<close>

definition patch32 :: "bytes \<Rightarrow> nat \<Rightarrow> bytes \<Rightarrow> bytes" where
  "patch32 bs off new = take off bs @ new @ drop (off + 32) bs"

definition content_hash :: "crypto \<Rightarrow> artifact_codecs \<Rightarrow> bytes \<Rightarrow> artifact_error + hash32" where
  "content_hash K A prefix =
     rbind (map_err (\<lambda>_. ArtEnvelopeTruncated) (take_from_bytes (pc_kind A) prefix)) (\<lambda>(kind, _).
     rbind (artifact_hash_offset A kind) (\<lambda>offset.
       if length prefix < offset + 32 then Inl ArtEnvelopeTruncated
       else Inr (blake3 K (patch32 prefix offset (replicate 32 0)))))"

definition sign_envelope :: "crypto \<Rightarrow> bytes \<Rightarrow> hash32 \<Rightarrow> string \<Rightarrow> compiler_signature" where
  "sign_envelope K prefix sk kid = \<lparr>cs_key_id = kid, cs_signature = ed_sign K sk prefix\<rparr>"

definition verify_signature ::
    "crypto \<Rightarrow> bytes \<Rightarrow> compiler_signature \<Rightarrow> hash32 \<Rightarrow> artifact_error + unit" where
  "verify_signature K prefix cs pk =
     (if ed_verify K pk prefix (cs_signature cs) then Inr () else Inl ArtSignatureInvalid)"

section \<open>Assembly\<close>

definition art_codec :: "postcard_error \<Rightarrow> artifact_error" where
  "art_codec e = ArtCanonical (EncCodec e)"

definition canonicalize_payload ::
    "canon_lib \<Rightarrow> artifact_payload \<Rightarrow> artifact_error + (artifact_payload \<times> source_span_index)" where
  "canonicalize_payload L p =
     (case p of
        PayloadRules rules \<Rightarrow>
          rbind (map_err ArtCanonical (mapR (canonicalize_rule L) rules)) (\<lambda>rules.
            Inr (PayloadRules rules, build_span_index rules))
      | PayloadIntentSpec s \<Rightarrow> Inr (PayloadIntentSpec s, []))"

definition assemble_payload ::
    "canon_lib \<Rightarrow> crypto \<Rightarrow> artifact_codecs \<Rightarrow> manifest \<Rightarrow> artifact_payload \<Rightarrow> audit_versions
     \<Rightarrow> hash32 \<Rightarrow> string \<Rightarrow> artifact_error + (artifact \<times> bytes)" where
  "assemble_payload L K A m p audit sk kid =
     (let m = m\<lparr>artifact_hash := 0\<rparr> in
      rbind (map_err ArtCanonical (canonicalize_manifest L m)) (\<lambda>_.
      rbind (canonicalize_payload L p) (\<lambda>(p, index).
      rbind (map_err art_codec (to_stdvec (pc_envelope A)
        \<lparr>art_manifest = m, art_payload = p, art_span_index = index,
         art_audit_versions = audit, art_consistency_block = None\<rparr>)) (\<lambda>zeroed.
      rbind (artifact_hash_offset A (artifact_kind m)) (\<lambda>offset.
      let h = blake3 K zeroed in
      if length zeroed < offset + 32 then Inl ArtPanic
      else
      let env = patch32 zeroed offset (hash_bytes h);
          m = m\<lparr>artifact_hash := h\<rparr>;
          cs = sign_envelope K env sk kid in
      rbind (map_err art_codec (to_stdvec (pc_compiler_signature A) cs)) (\<lambda>b1.
      rbind (map_err art_codec (to_stdvec (pc_attestations A) [])) (\<lambda>b2.
      rbind (map_err art_codec (to_stdvec (pc_registry_state A) RegistryDraft)) (\<lambda>b3.
        Inr (\<lparr>art_manifest = m, art_payload = p, art_span_index = index,
              art_audit_versions = audit, art_consistency_block = None,
              art_compiler_signature = cs, art_attestations = [],
              art_registry_state = RegistryDraft\<rparr>,
             env @ b1 @ b2 @ b3)))))))))"

definition assemble ::
    "canon_lib \<Rightarrow> crypto \<Rightarrow> artifact_codecs \<Rightarrow> manifest \<Rightarrow> rule_ir list \<Rightarrow> audit_versions
     \<Rightarrow> hash32 \<Rightarrow> string \<Rightarrow> artifact_error + (artifact \<times> bytes)" where
  "assemble L K A m rules audit sk kid =
     assemble_payload L K A m (PayloadRules rules) audit sk kid"

definition with_attestations ::
    "artifact_codecs \<Rightarrow> artifact \<Rightarrow> attestation list \<Rightarrow> artifact_error + (artifact \<times> bytes)" where
  "with_attestations A a atts =
     (let a = a\<lparr>art_attestations := atts\<rparr>
      in rmap (\<lambda>kew. (a, kew)) (map_err art_codec (enc_artifact A a)))"

section \<open>Decoding\<close>

definition art_codec_decode :: "postcard_error \<Rightarrow> artifact_error" where
  "art_codec_decode e = ArtCanonicalDecode (DecCodec e)"

definition envelope_error :: "postcard_error \<Rightarrow> artifact_error" where
  "envelope_error e =
     (case e of DeserializeUnexpectedEnd \<Rightarrow> ArtEnvelopeTruncated | _ \<Rightarrow> art_codec_decode e)"

definition validate_payload :: "canon_lib \<Rightarrow> artifact_kind \<Rightarrow> artifact_payload \<Rightarrow> artifact_error + unit" where
  "validate_payload L kind p =
     (case p of
        PayloadRules rules \<Rightarrow>
          if kind = IntentSpec then Inl (ArtKindPayloadMismatch kind)
          else map_err ArtCanonicalDecode (check_all (map (validate_rule L) rules))
      | PayloadIntentSpec _ \<Rightarrow>
          if kind \<noteq> IntentSpec then Inl (ArtKindPayloadMismatch kind) else Inr ())"

definition decode_artifact ::
    "canon_lib \<Rightarrow> artifact_codecs \<Rightarrow> bytes \<Rightarrow> artifact_error + (artifact \<times> nat)" where
  "decode_artifact L A bs =
     rbind (map_err envelope_error (take_from_bytes (pc_envelope A) bs)) (\<lambda>(env, rest).
     let envelope_len = length bs - length rest in
     rbind (map_err art_codec_decode (take_from_bytes (pc_compiler_signature A) rest)) (\<lambda>(cs, rest).
     rbind (map_err art_codec_decode (take_from_bytes (pc_attestations A) rest)) (\<lambda>(atts, rest).
     rbind (map_err art_codec_decode (take_from_bytes (pc_registry_state A) rest)) (\<lambda>(st, rest).
     if rest \<noteq> [] then Inl ArtTrailingBytes
     else
     rbind (map_err ArtCanonicalDecode (validate_manifest L (art_manifest env))) (\<lambda>_.
     rbind (validate_payload L (artifact_kind (art_manifest env)) (art_payload env)) (\<lambda>_.
       Inr (envelope.extend env (artifact.fields cs atts st), envelope_len)))))))"

definition verify_hash :: "canon_lib \<Rightarrow> crypto \<Rightarrow> artifact_codecs \<Rightarrow> bytes \<Rightarrow> artifact_error + hash32" where
  "verify_hash L K A kew =
     rbind (decode_artifact L A kew) (\<lambda>(a, envelope_len).
     rbind (content_hash K A (take envelope_len kew)) (\<lambda>got.
       let expected = artifact_hash (art_manifest a) in
       if got \<noteq> expected then Inl (ArtHashMismatch expected got) else Inr got))"

section \<open>Span index of an assembled artifact\<close>

text \<open>The span index is the one the assembler builds from the payload.\<close>

definition indexed :: "artifact \<Rightarrow> bool" where
  "indexed a \<longleftrightarrow> (\<forall>rules. art_payload a = PayloadRules rules \<longrightarrow> art_span_index a = build_span_index rules)"

lemma assembled_indexed: "assemble_payload L K A m p audit sk kid = Inr (a, kew) \<Longrightarrow> indexed a"
  by (auto simp: assemble_payload_def canonicalize_payload_def Let_def results indexed_def
      split: artifact_payload.splits if_splits)

lemma indexed_attested [simp]: "indexed (a\<lparr>art_attestations := atts\<rparr>) = indexed a"
  by (simp add: indexed_def)

section \<open>Layout of the encoded envelope\<close>

lemma hash_bytes_zero: "hash_bytes 0 = replicate 32 0"
  by (simp add: hash_bytes_def eval_nat_numeral)

lemma envelope_layout:
  assumes "artifact_codec_law A"
  obtains kb rest where "to_stdvec (pc_kind A) (artifact_kind (art_manifest e)) = Inr kb"
    and "\<And>h. to_stdvec (pc_envelope A) (set_hash h e) = Inr (kb @ hash_bytes h @ rest)"
  using artifact_layout_law[OF assms, of e] that by blast

lemma patch32_layout:
  "length old = 32 \<Longrightarrow> patch32 (kb @ old @ rest) (length kb) new = kb @ new @ rest"
  by (simp add: patch32_def)

lemma content_hash_layout:
  assumes "codec_law (pc_kind A)" "to_stdvec (pc_kind A) k = Inr kb"
  shows "content_hash K A (kb @ hash_bytes h @ rest) = Inr (blake3 K (kb @ hash_bytes 0 @ rest))"
  using codec_lawD[OF assms] assms(2)
  by (simp add: content_hash_def artifact_hash_offset_def patch32_layout hash_bytes_zero)

text \<open>The content address of an envelope: the digest of its encoding with the slot zeroed.\<close>

definition content_address :: "crypto \<Rightarrow> artifact_codecs \<Rightarrow> envelope \<Rightarrow> hash32 option" where
  "content_address K A e =
     (case to_stdvec (pc_envelope A) (set_hash 0 e) of Inr bs \<Rightarrow> Some (blake3 K bs) | Inl _ \<Rightarrow> None)"

lemma set_hash_set_hash [simp]: "set_hash h (set_hash g e) = set_hash h e"
  by (simp add: set_hash_def)

lemma set_hash_self [simp]: "set_hash (artifact_hash (art_manifest e)) e = e"
  by (simp add: set_hash_def)

lemma content_hash_envelope:
  assumes "artifact_codec_law A" "to_stdvec (pc_envelope A) e = Inr bs"
  shows "content_hash K A bs = Inr (the (content_address K A e))"
proof -
  obtain kb rest where kb: "to_stdvec (pc_kind A) (artifact_kind (art_manifest e)) = Inr kb"
    and enc: "\<And>h. to_stdvec (pc_envelope A) (set_hash h e) = Inr (kb @ hash_bytes h @ rest)"
    by (rule envelope_layout[OF assms(1), where e = e]) blast
  have "bs = kb @ hash_bytes (artifact_hash (art_manifest e)) @ rest"
    using enc[of "artifact_hash (art_manifest e)"] assms(2) by simp
  moreover have "codec_law (pc_kind A)" by (rule artifact_codec_laws(1)[OF assms(1)])
  ultimately show ?thesis
    using content_hash_layout[OF _ kb] enc[of 0] by (simp add: content_address_def)
qed

section \<open>Encoding and decoding\<close>

lemma artifact_split:
  "envelope.extend (envelope.truncate a)
     (artifact.fields (art_compiler_signature a) (art_attestations a) (art_registry_state a)) = a"
  for a :: artifact
  by (cases a) (simp add: envelope.defs artifact.defs)

definition artifact_valid :: "canon_lib \<Rightarrow> artifact \<Rightarrow> bool" where
  "artifact_valid L a \<longleftrightarrow> validate_manifest L (art_manifest a) = Inr ()
     \<and> validate_payload L (artifact_kind (art_manifest a)) (art_payload a) = Inr ()"

lemma truncate_sel [simp]:
  "art_manifest (envelope.truncate a) = art_manifest a"
  "art_payload (envelope.truncate a) = art_payload a"
  by (simp_all add: envelope.defs)

lemma decode_artifact_valid:
  "decode_artifact L A kew = Inr (a, n) \<Longrightarrow> artifact_valid L a"
  by (auto simp: decode_artifact_def artifact_valid_def Let_def rbind_eq_Inr map_err_eq_Inr
      envelope.defs artifact.defs split: if_splits)

lemma enc_artifact_parts:
  assumes "artifact_codec_law A" "enc_artifact A a = Inr kew"
  obtains b1 b2 b3 b4 where
    "to_stdvec (pc_envelope A) (envelope.truncate a) = Inr b1"
    "to_stdvec (pc_compiler_signature A) (art_compiler_signature a) = Inr b2"
    "to_stdvec (pc_attestations A) (art_attestations a) = Inr b3"
    "to_stdvec (pc_registry_state A) (art_registry_state a) = Inr b4"
    "kew = b1 @ b2 @ b3 @ b4"
  using assms(2) that
  by (auto simp: artifact_codec_laws(7)[OF assms(1)] struct_bytes_def rbind_eq_Inr rmap_eq_Inr)

lemma enc_artifact_total:
  assumes "artifact_codec_law A"
  shows "\<exists>kew. enc_artifact A a = Inr kew"
proof -
  note laws = artifact_codec_laws[OF assms]
  obtain b1 b2 b3 b4 where
    "to_stdvec (pc_envelope A) (envelope.truncate a) = Inr b1"
    "to_stdvec (pc_compiler_signature A) (art_compiler_signature a) = Inr b2"
    "to_stdvec (pc_attestations A) (art_attestations a) = Inr b3"
    "to_stdvec (pc_registry_state A) (art_registry_state a) = Inr b4"
    using laws(2-5)[THEN codec_law_enc] by meson
  then show ?thesis by (simp add: laws(7) struct_bytes_def)
qed

lemma decode_enc_artifact:
  assumes law: "artifact_codec_law A" and enc: "enc_artifact A a = Inr kew"
    and env: "to_stdvec (pc_envelope A) (envelope.truncate a) = Inr bs"
    and valid: "artifact_valid L a"
  shows "decode_artifact L A kew = Inr (a, length bs)" "take (length bs) kew = bs"
proof -
  obtain b1 b2 b3 b4 where
    b1: "to_stdvec (pc_envelope A) (envelope.truncate a) = Inr b1" and
    b2: "to_stdvec (pc_compiler_signature A) (art_compiler_signature a) = Inr b2" and
    b3: "to_stdvec (pc_attestations A) (art_attestations a) = Inr b3" and
    b4: "to_stdvec (pc_registry_state A) (art_registry_state a) = Inr b4" and
    kew: "kew = b1 @ b2 @ b3 @ b4"
    by (rule enc_artifact_parts[OF law enc])
  note laws = artifact_codec_laws(2-5)[OF law]
  note reads = codec_lawD[OF laws(1) b1] codec_lawD[OF laws(2) b2] codec_lawD[OF laws(3) b3]
    codec_law_nil[OF laws(4) b4]
  show "decode_artifact L A kew = Inr (a, length bs)"
    using valid b1 env
    by (simp add: decode_artifact_def kew reads artifact_valid_def artifact_split)
  show "take (length bs) kew = bs" using b1 env kew by simp
qed

lemma verify_hash_enc_artifact:
  assumes law: "artifact_codec_law A" and enc: "enc_artifact A a = Inr kew"
    and valid: "artifact_valid L a"
    and address: "content_address K A (envelope.truncate a) = Some (artifact_hash (art_manifest a))"
  shows "verify_hash L K A kew = Inr (artifact_hash (art_manifest a))"
proof -
  obtain bs where env: "to_stdvec (pc_envelope A) (envelope.truncate a) = Inr bs"
    using enc_artifact_parts[OF law enc] by metis
  show ?thesis
    using decode_enc_artifact[OF law enc env valid] content_hash_envelope[OF law env] address
    by (simp add: verify_hash_def)
qed

section \<open>Assembly\<close>

definition kind_agrees :: "artifact_kind \<Rightarrow> artifact_payload \<Rightarrow> bool" where
  "kind_agrees k p = (case p of PayloadRules _ \<Rightarrow> k \<noteq> IntentSpec | PayloadIntentSpec _ \<Rightarrow> k = IntentSpec)"

lemma canonicalize_payload_valid:
  assumes "canonicalize_payload L p = Inr (p', index)" "kind_agrees k p"
  shows "validate_payload L k p' = Inr ()"
proof (cases p)
  case (PayloadRules rules)
  with assms(1) obtain rules' where r: "p' = PayloadRules rules'" "mapR (canonicalize_rule L) rules = Inr rules'"
    by (auto simp: canonicalize_payload_def results simp del: mapR.simps)
  have "\<forall>r\<in>set rules'. validate_rule L r = Inr ()"
    using r(2) by (rule mapR_all) (rule canonicalize_rule_validates)
  then show ?thesis
    using assms(2) PayloadRules r(1) by (auto simp: validate_payload_def kind_agrees_def results)
qed (use assms in \<open>auto simp: canonicalize_payload_def validate_payload_def kind_agrees_def\<close>)

lemma manifest_hash_irrelevant:
  "canonicalize_manifest L (m\<lparr>artifact_hash := h\<rparr>) = canonicalize_manifest L m"
  by (simp add: canonicalize_manifest_def)

text \<open>What assembly returns: the envelope's hash is its content address, the signature is
  over the encoded envelope and the bytes are the encoding of the record (the
  \<open>debug_assert_eq\<close> of the source).\<close>

lemma assemble_payload_result:
  assumes law: "artifact_codec_law A" and ok: "assemble_payload L K A m p audit sk kid = Inr (a, kew)"
  obtains env p' index where
    "canonicalize_payload L p = Inr (p', index)"
    "art_payload a = p'" "art_manifest a = m\<lparr>artifact_hash := artifact_hash (art_manifest a)\<rparr>"
    "canonicalize_manifest L m = Inr ()"
    "to_stdvec (pc_envelope A) (envelope.truncate a) = Inr env"
    "content_address K A (envelope.truncate a) = Some (artifact_hash (art_manifest a))"
    "art_compiler_signature a = sign_envelope K env sk kid"
    "art_attestations a = []"
    "enc_artifact A a = Inr kew"
proof -
  let ?m = "m\<lparr>artifact_hash := 0\<rparr>"
  from ok obtain p' index zeroed offset b1 b2 b3 where
    can: "canonicalize_manifest L m = Inr ()" "canonicalize_payload L p = Inr (p', index)" and
    z: "to_stdvec (pc_envelope A) \<lparr>art_manifest = ?m, art_payload = p', art_span_index = index,
      art_audit_versions = audit, art_consistency_block = None\<rparr> = Inr zeroed" and
    off: "artifact_hash_offset A (artifact_kind m) = Inr offset" and
    b: "to_stdvec (pc_compiler_signature A)
        (sign_envelope K (patch32 zeroed offset (hash_bytes (blake3 K zeroed))) sk kid) = Inr b1"
      "to_stdvec (pc_attestations A) [] = Inr b2" "to_stdvec (pc_registry_state A) RegistryDraft = Inr b3" and
    a: "a = \<lparr>art_manifest = ?m\<lparr>artifact_hash := blake3 K zeroed\<rparr>, art_payload = p',
        art_span_index = index, art_audit_versions = audit, art_consistency_block = None,
        art_compiler_signature =
          sign_envelope K (patch32 zeroed offset (hash_bytes (blake3 K zeroed))) sk kid,
        art_attestations = [], art_registry_state = RegistryDraft\<rparr>" and
    kew: "kew = patch32 zeroed offset (hash_bytes (blake3 K zeroed)) @ b1 @ b2 @ b3"
    by (auto simp: assemble_payload_def Let_def rbind_eq_Inr map_err_eq_Inr manifest_hash_irrelevant
        split: if_splits)
  let ?e = "\<lparr>art_manifest = ?m, art_payload = p', art_span_index = index,
      art_audit_versions = audit, art_consistency_block = None\<rparr>"
  let ?h = "blake3 K zeroed"
  obtain kb rest where kb: "to_stdvec (pc_kind A) (artifact_kind (art_manifest ?e)) = Inr kb"
    and layout: "\<And>h. to_stdvec (pc_envelope A) (set_hash h ?e) = Inr (kb @ hash_bytes h @ rest)"
    by (rule envelope_layout[OF law, where e = ?e]) blast
  have zeroed: "zeroed = kb @ hash_bytes 0 @ rest" using z layout[of 0] by (simp add: set_hash_def)
  have offset: "offset = length kb" using off kb by (simp add: artifact_hash_offset_def)
  let ?env = "kb @ hash_bytes ?h @ rest"
  have patched: "patch32 zeroed offset (hash_bytes ?h) = ?env"
    using zeroed offset by (simp add: patch32_layout)
  have trunc: "envelope.truncate a = set_hash ?h ?e" by (simp add: a set_hash_def envelope.defs)
  have env: "to_stdvec (pc_envelope A) (envelope.truncate a) = Inr ?env"
    using layout[of ?h] by (simp add: trunc)
  have enc: "enc_artifact A a = Inr kew"
  proof -
    have fields: "art_compiler_signature a = sign_envelope K ?env sk kid" "art_attestations a = []"
      "art_registry_state a = RegistryDraft"
      by (simp_all add: a patched)
    show ?thesis
      by (simp add: artifact_codec_laws(7)[OF law] struct_bytes_def env fields b[unfolded patched]
          kew[unfolded patched])
  qed
  have address: "content_address K A (envelope.truncate a) = Some (artifact_hash (art_manifest a))"
  proof -
    have "artifact_hash (art_manifest a) = ?h" by (simp add: a)
    then show ?thesis
      unfolding trunc content_address_def using layout[of 0] by (simp add: zeroed)
  qed
  show ?thesis
    by (rule that[OF can(2) _ _ can(1) env address _ _ enc]) (simp_all add: a patched)
qed


lemma canonicalize_manifest_validates:
  "validate_manifest L (m\<lparr>artifact_hash := h\<rparr>) = Inr () \<longleftrightarrow> canonicalize_manifest L m = Inr ()"
  by (simp add: canonicalize_manifest_def validate_manifest_def results)

lemma assemble_payload_total:
  assumes law: "artifact_codec_law A" and "canonicalize_manifest L m = Inr ()"
    and "canonicalize_payload L p = Inr (p', index)"
  shows "\<exists>a kew. assemble_payload L K A m p audit sk kid = Inr (a, kew)"
proof -
  let ?e = "\<lparr>art_manifest = m\<lparr>artifact_hash := 0\<rparr>, art_payload = p', art_span_index = index,
      art_audit_versions = audit, art_consistency_block = None\<rparr>"
  obtain kb rest where kb: "to_stdvec (pc_kind A) (artifact_kind (art_manifest ?e)) = Inr kb"
    and layout: "\<And>h. to_stdvec (pc_envelope A) (set_hash h ?e) = Inr (kb @ hash_bytes h @ rest)"
    by (rule envelope_layout[OF law, where e = ?e]) blast
  have z: "to_stdvec (pc_envelope A) ?e = Inr (kb @ hash_bytes 0 @ rest)"
    using layout[of 0] by (simp add: set_hash_def)
  have off: "artifact_hash_offset A (artifact_kind m) = Inr (length kb)"
    using kb by (simp add: artifact_hash_offset_def)
  note laws = artifact_codec_laws(3-5)[OF law]
  have enc: "\<exists>b. to_stdvec (pc_compiler_signature A) cs = Inr b"
    "\<exists>b. to_stdvec (pc_attestations A) ts = Inr b" "\<exists>b. to_stdvec (pc_registry_state A) st = Inr b"
    for cs ts st
    using laws[THEN codec_law_enc] by blast+
  obtain b2 b3 where "to_stdvec (pc_attestations A) [] = Inr b2"
    "to_stdvec (pc_registry_state A) RegistryDraft = Inr b3"
    using enc by meson
  moreover obtain b1 where "to_stdvec (pc_compiler_signature A)
      (sign_envelope K (patch32 (kb @ hash_bytes 0 @ rest) (length kb)
         (hash_bytes (blake3 K (kb @ hash_bytes 0 @ rest)))) sk kid) = Inr b1"
    using enc by meson
  ultimately show ?thesis
    using assms(2,3) z off
    by (simp add: assemble_payload_def Let_def manifest_hash_irrelevant del: walkers_agree)
qed

lemma assemble_payload_valid:
  assumes law: "artifact_codec_law A" and ok: "assemble_payload L K A m p audit sk kid = Inr (a, kew)"
    and kind: "kind_agrees (artifact_kind m) p"
  shows "artifact_valid L a"
proof -
  obtain p' index where
    r: "canonicalize_payload L p = Inr (p', index)" "art_payload a = p'"
      "art_manifest a = m\<lparr>artifact_hash := artifact_hash (art_manifest a)\<rparr>"
      "canonicalize_manifest L m = Inr ()"
    by (rule assemble_payload_result[OF law ok])
  have k: "artifact_kind (art_manifest a) = artifact_kind m" by (subst r(3)) simp
  have "validate_manifest L (art_manifest a) = Inr ()"
    using r(4) by (subst r(3)) (simp only: canonicalize_manifest_validates)
  then show ?thesis
    using canonicalize_payload_valid[OF r(1) kind] by (simp add: artifact_valid_def r(2) k)
qed

lemma with_attestations_core:
  assumes "artifact_codec_law A" "decode_artifact L A kew = Inr (a, n)" "enc_artifact A a = Inr kew"
  obtains kew' where "with_attestations A a atts = Inr (a\<lparr>art_attestations := atts\<rparr>, kew')"
    "take n kew' = take n kew" "decode_artifact L A kew' = Inr (a\<lparr>art_attestations := atts\<rparr>, n)"
    "verify_hash L K A kew' = verify_hash L K A kew" "enc_artifact A (a\<lparr>art_attestations := atts\<rparr>) = Inr kew'"
proof -
  note law = assms(1)
  let ?a = "a\<lparr>art_attestations := atts\<rparr>"
  obtain kew' where enc': "enc_artifact A ?a = Inr kew'" using enc_artifact_total[OF law] by blast
  obtain bs where env: "to_stdvec (pc_envelope A) (envelope.truncate a) = Inr bs"
    by (rule enc_artifact_parts[OF law assms(3)])
  have env': "to_stdvec (pc_envelope A) (envelope.truncate ?a) = Inr bs"
    using env by (simp add: envelope.defs)
  have valid: "artifact_valid L a" by (rule decode_artifact_valid[OF assms(2)])
  then have valid': "artifact_valid L ?a" by (simp add: artifact_valid_def)
  note d = decode_enc_artifact[OF law assms(3) env valid]
  note d' = decode_enc_artifact[OF law enc' env' valid']
  have n: "n = length bs" using d(1) assms(2) by simp
  show ?thesis
    using d d' n enc' by (intro that[of kew']) (auto simp: with_attestations_def verify_hash_def)
qed

section \<open>A concrete artifact\<close>

definition sample_date :: jurisdiction_date where
  "sample_date = \<lparr>year = 2024, month = 6, day = 30\<rparr>"

definition sample_manifest :: "artifact_kind \<Rightarrow> manifest" where
  "sample_manifest k =
     \<lparr>artifact_kind = k, artifact_hash = 0, regime_id = ''mica'', man_effective_from = sample_date,
      man_effective_to = None, compiler_version = \<lparr>semver_major = 0, semver_minor = 1, semver_patch = 0\<rparr>,
      compiler_build_hash = 7, ir_schema_version = IR_SCHEMA_VERSION, codec_version = CODEC_VERSION,
      canonicalization_version = CANONICALIZATION_VERSION, corpus_root_hash = 5,
      source_corpus_hash = 6, attestation_policy_version = ''v1''\<rparr>"

definition sample_audit :: audit_versions where
  "sample_audit = \<lparr>jurisdiction_resolver_version = None, scenario_corpus_version = None\<rparr>"

definition sample_payload :: artifact_payload where
  "sample_payload = PayloadRules [sample_rule_with [''b'', ''a''] 90 2]"

definition sample_artifact :: "artifact_kind \<Rightarrow> artifact" where
  "sample_artifact k =
     \<lparr>art_manifest = sample_manifest k,
      art_payload = PayloadRules [sample_rule_with [''a'', ''b''] 9 1], art_span_index = [],
      art_audit_versions = sample_audit, art_consistency_block = None,
      art_compiler_signature = \<lparr>cs_key_id = ''k'', cs_signature = 3\<rparr>,
      art_attestations = [], art_registry_state = RegistryDraft\<rparr>"

lemma sample_manifest_canonical: "canonicalize_manifest ascii_lib (sample_manifest k) = Inr ()"
  by (simp add: canonicalize_manifest_def sample_manifest_def sample_date_def ascii_lib_def
      ensure_nfc_def ensure_date_def MIN_YEAR_def CODEC_VERSION_def CANONICALIZATION_VERSION_def results)

lemma sample_payload_canonical:
  "\<exists>index. canonicalize_payload ascii_lib sample_payload
     = Inr (PayloadRules [sample_rule_with [''a'', ''b''] 9 1], index)"
  by (simp add: canonicalize_payload_def sample_payload_def sample_canonical)

lemma sample_artifact_valid: "k \<noteq> IntentSpec \<Longrightarrow> artifact_valid ascii_lib (sample_artifact k)"
  using sample_manifest_canonical[of k] canonicalize_rule_validates[OF sample_canonical]
    canonicalize_manifest_validates[where L = ascii_lib and m = "sample_manifest k" and h = 0]
  by (simp add: artifact_valid_def sample_artifact_def validate_payload_def sample_manifest_def)

section \<open>Properties\<close>

text \<open>C1: assembling canonicalisable content under a kind that fits the payload always succeeds,
  and the bytes decode to the assembled record with nothing left over, carry their own
  content address, and verify under the compiler's public key over exactly the prefix the
  decoder reports.\<close>

theorem assemble_verifies:
  assumes "artifact_codec_law A" "crypto_law K"
    and "canonicalize_manifest L m = Inr ()" "canonicalize_payload L p = Inr (p', index)"
    and "kind_agrees (artifact_kind m) p"
  shows "\<exists>a kew n. assemble_payload L K A m p audit sk kid = Inr (a, kew)
    \<and> art_payload a = p' \<and> art_attestations a = []
    \<and> decode_artifact L A kew = Inr (a, n)
    \<and> verify_hash L K A kew = Inr (artifact_hash (art_manifest a))
    \<and> verify_signature K (take n kew) (art_compiler_signature a) (ed_public K sk) = Inr ()"
proof -
  note law = assms(1)
  obtain a kew where ok: "assemble_payload L K A m p audit sk kid = Inr (a, kew)"
    using assemble_payload_total[OF law assms(3,4)] by blast
  obtain env p'' index' where
    r: "canonicalize_payload L p = Inr (p'', index')" "art_payload a = p''"
      "art_manifest a = m\<lparr>artifact_hash := artifact_hash (art_manifest a)\<rparr>" and
    env: "to_stdvec (pc_envelope A) (envelope.truncate a) = Inr env" and
    address: "content_address K A (envelope.truncate a) = Some (artifact_hash (art_manifest a))" and
    sig: "art_compiler_signature a = sign_envelope K env sk kid" and
    att: "art_attestations a = []" and enc: "enc_artifact A a = Inr kew"
    by (rule assemble_payload_result[OF law ok])
  have valid: "artifact_valid L a" by (rule assemble_payload_valid[OF law ok assms(5)])
  have "verify_signature K env (art_compiler_signature a) (ed_public K sk) = Inr ()"
    using assms(2) by (simp add: verify_signature_def sig sign_envelope_def crypto_law_def)
  then show ?thesis
    using ok r(1,2) assms(4) att decode_enc_artifact[OF law enc env valid]
      verify_hash_enc_artifact[OF law enc valid address] by auto
qed

lemma assemble_verifies_witness:
  "\<exists>a kew n. assemble_payload ascii_lib sum_crypto sample_codecs (sample_manifest RegimePack)
       sample_payload sample_audit 42 ''k'' = Inr (a, kew)
    \<and> decode_artifact ascii_lib sample_codecs kew = Inr (a, n)
    \<and> verify_signature sum_crypto (take n kew) (art_compiler_signature a) (ed_public sum_crypto 42) = Inr ()"
proof -
  obtain index where p: "canonicalize_payload ascii_lib sample_payload
      = Inr (PayloadRules [sample_rule_with [''a'', ''b''] 9 1], index)"
    using sample_payload_canonical by blast
  have k: "kind_agrees (artifact_kind (sample_manifest RegimePack)) sample_payload"
    by (simp add: kind_agrees_def sample_payload_def sample_manifest_def)
  show ?thesis
    using assemble_verifies[OF sample_codecs_law crypto_law_sum sample_manifest_canonical p k] by blast
qed

text \<open>appending attestations rewrites only what follows the signed prefix: the envelope, its
  length, the content hash and the compiler signature of the new bytes are the old ones, and
  the decoded record differs in its attestation list alone.\<close>

theorem with_attestations_frame:
  assumes "artifact_codec_law A" "decode_artifact L A kew = Inr (a, n)" "enc_artifact A a = Inr kew"
  shows "\<exists>kew'. with_attestations A a atts = Inr (a\<lparr>art_attestations := atts\<rparr>, kew')
    \<and> take n kew' = take n kew
    \<and> decode_artifact L A kew' = Inr (a\<lparr>art_attestations := atts\<rparr>, n)
    \<and> verify_hash L K A kew' = verify_hash L K A kew"
  using with_attestations_core[OF assms] by blast

lemma with_attestations_frame_witness:
  "\<exists>kew n kew'. decode_artifact ascii_lib sample_codecs kew = Inr (sample_artifact TestCorpus, n)
    \<and> with_attestations sample_codecs (sample_artifact TestCorpus) [] = Inr (sample_artifact TestCorpus, kew')
    \<and> take n kew' = take n kew"
proof -
  let ?a = "sample_artifact TestCorpus"
  obtain kew where enc: "enc_artifact sample_codecs ?a = Inr kew"
    using enc_artifact_total[OF sample_codecs_law] by blast
  obtain bs where env: "to_stdvec (pc_envelope sample_codecs) (envelope.truncate ?a) = Inr bs"
    by (rule enc_artifact_parts[OF sample_codecs_law enc])
  have dec: "decode_artifact ascii_lib sample_codecs kew = Inr (?a, length bs)"
    by (rule decode_enc_artifact[OF sample_codecs_law enc env sample_artifact_valid]) simp
  have same: "?a\<lparr>art_attestations := []\<rparr> = ?a" by (simp add: sample_artifact_def)
  show ?thesis
    using with_attestations_frame[OF sample_codecs_law dec enc, of "[]"] dec unfolding same by blast
qed

text \<open>strict decoding accepts nothing but a whole record: any byte after it is reported as
  trailing, and a kind that does not fit the payload is rejected.\<close>

theorem decode_artifact_rejects:
  assumes "artifact_codec_law A" "enc_artifact A a = Inr kew"
  shows "decode_artifact L A (kew @ b # rest) = Inl ArtTrailingBytes
    \<and> (validate_manifest L (art_manifest a) = Inr ()
       \<longrightarrow> \<not> kind_agrees (artifact_kind (art_manifest a)) (art_payload a)
       \<longrightarrow> decode_artifact L A kew = Inl (ArtKindPayloadMismatch (artifact_kind (art_manifest a))))"
proof -
  obtain b1 b2 b3 b4 where
    b1: "to_stdvec (pc_envelope A) (envelope.truncate a) = Inr b1" and
    b2: "to_stdvec (pc_compiler_signature A) (art_compiler_signature a) = Inr b2" and
    b3: "to_stdvec (pc_attestations A) (art_attestations a) = Inr b3" and
    b4: "to_stdvec (pc_registry_state A) (art_registry_state a) = Inr b4" and
    kew: "kew = b1 @ b2 @ b3 @ b4"
    by (rule enc_artifact_parts[OF assms])
  note laws = artifact_codec_laws(2-5)[OF assms(1)]
  note reads = codec_lawD[OF laws(1) b1] codec_lawD[OF laws(2) b2] codec_lawD[OF laws(3) b3]
    codec_lawD[OF laws(4) b4] codec_law_nil[OF laws(4) b4]
  show ?thesis
    by (auto simp: decode_artifact_def kew reads validate_payload_def kind_agrees_def
        split: artifact_payload.splits if_splits)
qed

lemma decode_artifact_rejects_witness:
  "\<exists>kew. enc_artifact sample_codecs (sample_artifact IntentSpec) = Inr kew
    \<and> decode_artifact ascii_lib sample_codecs (kew @ [0]) = Inl ArtTrailingBytes
    \<and> decode_artifact ascii_lib sample_codecs kew = Inl (ArtKindPayloadMismatch IntentSpec)"
proof -
  let ?a = "sample_artifact IntentSpec"
  obtain kew where enc: "enc_artifact sample_codecs ?a = Inr kew"
    using enc_artifact_total[OF sample_codecs_law] by blast
  have "validate_manifest ascii_lib (art_manifest ?a) = Inr ()"
    using sample_manifest_canonical[of IntentSpec]
      canonicalize_manifest_validates[where L = ascii_lib and m = "sample_manifest IntentSpec" and h = 0]
    by (simp add: sample_artifact_def sample_manifest_def)
  then show ?thesis
    using decode_artifact_rejects[OF sample_codecs_law enc, of ascii_lib 0 "[]"] enc
    by (simp add: sample_artifact_def sample_manifest_def kind_agrees_def)
qed

end
