(* ===== verification/Attestation.thy ===== *)
theory Attestation
  imports Artifact Decimal_Text "HOL-Library.Signed_Division"
begin

text \<open>
  Timestamp tokens, signing and the rejection rules R1 to R8
  (\<open>src/crates/ke-artifact/src\<close>: \<open>tsa.rs\<close>, \<open>attestation.rs\<close>). A rejection is a value, so
  the order of the checks is the order of the binds. The lemmas characterise acceptance of
  one attestation and of a set, show that signing and verifying fit together, and that the
  expiry clock counts calendar days.
\<close>

section \<open>The mock timestamp authority\<close>

definition MOCK_TSA_PUBLIC_KEY :: hash32 where
  "MOCK_TSA_PUBLIC_KEY = 0x0957c83d33c4e4e7c13b3c8f5224e8a69994ae46e3b2ea31ed8a4786d7508221"

text \<open>The ASCII bytes of \<open>ke-workbench-test-mock-tsa-seed1\<close>.\<close>

definition MOCK_TSA_SEED :: hash32 where
  "MOCK_TSA_SEED = bytes_hash (map of_char ''ke-workbench-test-mock-tsa-seed1'')"

datatype tsa_error = TsaUnsupportedClass timestamp_class | TsaClassMismatch

fun class_discriminant :: "timestamp_class \<Rightarrow> 8 word" where
  "class_discriminant (Rfc3161External _) = 0"
| "class_discriminant (Rfc3161Internal _) = 1"
| "class_discriminant TsaMock = 2"

definition mock_message :: "hash32 \<Rightarrow> 64 word \<Rightarrow> bytes" where
  "mock_message payload_hash claimed =
     class_discriminant TsaMock # hash_bytes payload_hash @ u64_le_bytes claimed"

definition verifies_as_mock :: "crypto \<Rightarrow> timestamp_token \<Rightarrow> hash32 \<Rightarrow> bool" where
  "verifies_as_mock K tok payload_hash =
     (if length (tok_token tok) \<noteq> 64 then False
      else if \<not> ed_point K MOCK_TSA_PUBLIC_KEY then False
      else ed_verify K MOCK_TSA_PUBLIC_KEY
        (mock_message payload_hash (tok_claimed_time_unix tok)) (bytes_sig (tok_token tok)))"

definition derive_class :: "crypto \<Rightarrow> timestamp_token \<Rightarrow> hash32 \<Rightarrow> tsa_error + timestamp_class" where
  "derive_class K tok payload_hash =
     (if verifies_as_mock K tok payload_hash then Inr TsaMock
      else case tok_class tok of
        TsaMock \<Rightarrow> Inl TsaClassMismatch
      | c \<Rightarrow> Inl (TsaUnsupportedClass c))"

definition stamp :: "crypto \<Rightarrow> hash32 \<Rightarrow> 64 word \<Rightarrow> timestamp_token" where
  "stamp K payload_hash claimed =
     \<lparr>tok_class = TsaMock,
      tok_token = sig_bytes (ed_sign K MOCK_TSA_SEED (mock_message payload_hash claimed)),
      tok_claimed_time_unix = claimed\<rparr>"

section \<open>Calendar time\<close>

text \<open>\<open>/\<close> on \<open>i64\<close> truncates, so it is \<open>sdiv\<close>; no step can leave \<open>i64\<close>, the year being
  an \<open>i16\<close>.\<close>

definition unix_start_of :: "jurisdiction_date \<Rightarrow> int" where
  "unix_start_of d =
     (let yr = year d - (if month d \<le> 2 then 1 else 0);
          era = (if yr \<ge> 0 then yr else yr - 399) sdiv 400;
          year_of_era = yr - era * 400;
          mon = int (month d);
          day_of_year = (153 * (mon + (if mon > 2 then -3 else 9)) + 2) sdiv 5 + int (day d) - 1;
          day_of_era = year_of_era * 365 + year_of_era sdiv 4 - year_of_era sdiv 100 + day_of_year
      in (era * 146097 + day_of_era - 719468) * 86400)"

section \<open>Rejections\<close>

record policy_context =
  ctx_environment :: string
  ctx_now_unix :: "64 word"
  ctx_supported_policy_versions :: "string list"
  ctx_current_legal_source_hash :: "hash32 option"

definition is_local :: "policy_context \<Rightarrow> bool" where
  "is_local ctx = (ctx_environment ctx = ''local'')"

datatype attestation_rejection =
    KeyUnknown string
  | KeyExpired string
  | KeyRevoked string
  | KeyUnauthorizedForType string attestation_type
  | NotBoundToArtifact hash32 hash32
  | PolicyVersionUnsupported string
  | AttExpired
  | LegalSourceHashChanged
  | RequiredTypeMissing attestation_type nat nat
  | CoAttestationAbsent attestation_type
  | MockTsaNonLocal
  | AttestationSignatureInvalid
  | TimestampClassMismatch
  | TsaUnsupported timestamp_class

definition schema_version_text :: "schema_version \<Rightarrow> string" where
  "schema_version_text v = nat_digits (uint (sv_major v)) @ ''.'' @ nat_digits (uint (sv_minor v))
     @ ''.'' @ nat_digits (uint (sv_patch v))"

section \<open>Signing\<close>

definition payload_prefix :: "artifact_codecs \<Rightarrow> attestation \<Rightarrow> artifact_error + bytes" where
  "payload_prefix A t =
     rbind (map_err art_codec (enc_attestation A t)) (\<lambda>bs.
     rbind (map_err art_codec (take_from_bytes (pc_attestation_payload A) bs)) (\<lambda>(_, rest).
       Inr (take (length bs - length rest) bs)))"

definition sign_attestation ::
    "crypto \<Rightarrow> artifact_codecs \<Rightarrow> attestation \<Rightarrow> hash32 \<Rightarrow> artifact_error + attestation" where
  "sign_attestation K A t sk =
     rbind (payload_prefix A t) (\<lambda>prefix. Inr (t\<lparr>att_signature := ed_sign K sk prefix\<rparr>))"

section \<open>Verification of one attestation\<close>

definition tsa_rejection :: "tsa_error \<Rightarrow> attestation_rejection" where
  "tsa_rejection e = (case e of TsaUnsupportedClass c \<Rightarrow> TsaUnsupported c
     | TsaClassMismatch \<Rightarrow> TimestampClassMismatch)"

text \<open>\<open>i64::try_from(now).unwrap_or(i64::MAX)\<close>.\<close>

definition now_i64 :: "64 word \<Rightarrow> int" where
  "now_i64 w = (if uint w < 2 ^ 63 then uint w else 2 ^ 63 - 1)"

definition verify_attestation ::
    "crypto \<Rightarrow> artifact_codecs \<Rightarrow> attestation \<Rightarrow> hash32 \<Rightarrow> manifest \<Rightarrow> key_directory \<Rightarrow> policy_context
     \<Rightarrow> attestation_rejection + unit" where
  "verify_attestation K A t expected m kd ctx =
     (case keydir_lookup kd (att_key_id t) of
        None \<Rightarrow> Inl (KeyUnknown (att_key_id t))
      | Some entry \<Rightarrow>
          rbind (ensure (ed_point K (kd_public_key entry)) AttestationSignatureInvalid) (\<lambda>_.
          rbind (map_err (\<lambda>_. AttestationSignatureInvalid) (payload_prefix A t)) (\<lambda>prefix.
          rbind (ensure (ed_verify K (kd_public_key entry) prefix (att_signature t))
                  AttestationSignatureInvalid) (\<lambda>_.
          rbind (map_err tsa_rejection (derive_class K (att_timestamp t) (att_artifact_hash t))) (\<lambda>derived.
          if derived \<noteq> tok_class (att_timestamp t) then Inl TimestampClassMismatch
          else if derived = TsaMock \<and> \<not> is_local ctx then Inl MockTsaNonLocal
          else if kd_status entry = KeyStatusExpired then Inl (KeyExpired (att_key_id t))
          else if kd_status entry = KeyStatusRevoked then Inl (KeyRevoked (att_key_id t))
          else if ctx_now_unix ctx < kd_valid_from_unix entry \<or> kd_valid_to_unix entry \<le> ctx_now_unix ctx
            then Inl (KeyExpired (att_key_id t))
          else if att_signer_role t \<notin> set (kd_signer_roles entry)
              \<or> att_type t \<notin> set (kd_authorized_types entry)
            then Inl (KeyUnauthorizedForType (att_key_id t) (att_type t))
          else if att_artifact_hash t \<noteq> expected
            then Inl (NotBoundToArtifact expected (att_artifact_hash t))
          else if att_regime_id t \<noteq> regime_id m \<or> att_compiler_version t \<noteq> compiler_version m
            then Inl (NotBoundToArtifact expected (att_artifact_hash t))
          else if att_policy_version t \<notin> set (ctx_supported_policy_versions ctx)
            then Inl (PolicyVersionUnsupported (att_policy_version t))
          else if att_ir_schema_version t \<noteq> ir_schema_version m
            then Inl (PolicyVersionUnsupported
              (''ir-schema-'' @ schema_version_text (att_ir_schema_version t)))
          else if (case att_expiration t of None \<Rightarrow> False
              | Some e \<Rightarrow> unix_start_of e \<le> now_i64 (ctx_now_unix ctx)) then Inl AttExpired
          else if (case ctx_current_legal_source_hash ctx of None \<Rightarrow> False
              | Some current \<Rightarrow> current \<noteq> att_legal_source_hash t) then Inl LegalSourceHashChanged
          else Inr ())))))"

section \<open>Verification of a set\<close>

fun co_attestation_types :: "artifact_kind \<Rightarrow> attestation_type list" where
  "co_attestation_types IntentSpec = [SourceFidelity]"
| "co_attestation_types _ = [ScenarioCoverage, SourceFidelity]"

definition required_count :: "verification_policy \<Rightarrow> attestation_type \<Rightarrow> nat" where
  "required_count policy ty =
     max 1 (case find (\<lambda>c. count_type c = ty) (minimum_attestation_count_per_type policy) of
        Some c \<Rightarrow> count_min c | None \<Rightarrow> 1)"

definition count_of_type :: "attestation_type \<Rightarrow> attestation list \<Rightarrow> nat" where
  "count_of_type ty atts = length (filter (\<lambda>t. att_type t = ty) atts)"

definition r6_rejections :: "verification_policy \<Rightarrow> attestation list \<Rightarrow> attestation_rejection list" where
  "r6_rejections policy valid =
     concat (map (\<lambda>ty.
       let required = required_count policy ty; found = count_of_type ty valid in
       if found < required then [RequiredTypeMissing ty required found] else [])
       (required_attestation_types policy))"

definition r7_rejections :: "artifact_kind \<Rightarrow> attestation list \<Rightarrow> attestation_rejection list" where
  "r7_rejections kind valid =
     (case find (\<lambda>t. att_type t = PublicationApproval) valid of
        None \<Rightarrow> []
      | Some approval \<Rightarrow>
          concat (map (\<lambda>co.
            if \<exists>t\<in>set valid. att_type t = co \<and> att_artifact_hash t = att_artifact_hash approval
            then [] else [CoAttestationAbsent co])
            (co_attestation_types kind)))"

definition verify_attestation_set ::
    "crypto \<Rightarrow> artifact_codecs \<Rightarrow> artifact \<Rightarrow> verification_policy \<Rightarrow> key_directory \<Rightarrow> policy_context
     \<Rightarrow> attestation_rejection list + unit" where
  "verify_attestation_set K A a policy kd ctx =
     (let check = (\<lambda>t. verify_attestation K A t (artifact_hash (art_manifest a)) (art_manifest a) kd ctx);
          valid = filter (\<lambda>t. is_ok (check t)) (art_attestations a);
          rejections = List.map_filter (\<lambda>t. case check t of Inl r \<Rightarrow> Some r | Inr _ \<Rightarrow> None)
              (art_attestations a)
            @ r6_rejections policy valid
            @ r7_rejections (artifact_kind (art_manifest a)) valid
      in if rejections = [] then Inr () else Inl rejections)"

section \<open>What a signature covers\<close>

lemma payload_prefix_payload:
  assumes "artifact_codec_law A"
  shows "payload_prefix A t
    = map_err art_codec (to_stdvec (pc_attestation_payload A) (attestation_payload.truncate t))"
proof -
  obtain bs where bs: "to_stdvec (pc_attestation_payload A) (attestation_payload.truncate t) = Inr bs"
    using artifact_codec_laws(6)[OF assms, THEN codec_law_enc] by blast
  show ?thesis
    using codec_lawD[OF artifact_codec_laws(6)[OF assms] bs] bs
    by (simp add: payload_prefix_def artifact_codec_laws(8)[OF assms] attestation_bytes_def)
qed

lemma derive_class_Mock:
  "derive_class K tok h = Inr c \<longleftrightarrow> c = TsaMock \<and> verifies_as_mock K tok h"
  by (auto simp: derive_class_def split: timestamp_class.splits)

lemma stamp_verifies:
  assumes "crypto_law K" "ed_public K MOCK_TSA_SEED = MOCK_TSA_PUBLIC_KEY"
  shows "verifies_as_mock K (stamp K h now) h"
  using assms unfolding crypto_law_def
  by (simp add: verifies_as_mock_def stamp_def) metis

lemma class_discriminant_separates:
  "class_discriminant c = class_discriminant TsaMock \<longleftrightarrow> c = TsaMock"
  by (cases c) simp_all

section \<open>Acceptance\<close>

definition bound_to :: "attestation \<Rightarrow> hash32 \<Rightarrow> manifest \<Rightarrow> bool" where
  "bound_to t h m \<longleftrightarrow> att_artifact_hash t = h \<and> att_regime_id t = regime_id m
     \<and> att_compiler_version t = compiler_version m \<and> att_ir_schema_version t = ir_schema_version m"

definition key_may_sign :: "key_directory_entry \<Rightarrow> attestation \<Rightarrow> 64 word \<Rightarrow> bool" where
  "key_may_sign e t now \<longleftrightarrow> kd_status e = KeyActive
     \<and> kd_valid_from_unix e \<le> now \<and> now < kd_valid_to_unix e
     \<and> att_signer_role t \<in> set (kd_signer_roles e) \<and> att_type t \<in> set (kd_authorized_types e)"

definition still_current :: "attestation \<Rightarrow> policy_context \<Rightarrow> bool" where
  "still_current t ctx \<longleftrightarrow> att_policy_version t \<in> set (ctx_supported_policy_versions ctx)
     \<and> (case att_expiration t of None \<Rightarrow> True
        | Some e \<Rightarrow> now_i64 (ctx_now_unix ctx) < unix_start_of e)
     \<and> (case ctx_current_legal_source_hash ctx of None \<Rightarrow> True
        | Some current \<Rightarrow> att_legal_source_hash t = current)"

lemmas acceptance_defs = bound_to_def key_may_sign_def still_current_def

lemma kd_active: "kd_status e \<noteq> KeyStatusExpired \<and> kd_status e \<noteq> KeyStatusRevoked \<longleftrightarrow> kd_status e = KeyActive"
  by (cases "kd_status e") simp_all

lemma verify_attestation_Inr:
  assumes law: "artifact_codec_law A" and entry: "keydir_lookup kd (att_key_id t) = Some entry"
    and bs: "to_stdvec (pc_attestation_payload A) (attestation_payload.truncate t) = Inr bs"
  shows "verify_attestation K A t h m kd ctx = Inr () \<longleftrightarrow>
    ed_point K (kd_public_key entry) \<and> ed_verify K (kd_public_key entry) bs (att_signature t)
    \<and> tok_class (att_timestamp t) = TsaMock
    \<and> verifies_as_mock K (att_timestamp t) (att_artifact_hash t)
    \<and> is_local ctx \<and> key_may_sign entry t (ctx_now_unix ctx) \<and> bound_to t h m \<and> still_current t ctx"
  unfolding verify_attestation_def acceptance_defs
  using kd_active[of entry]
  by (auto simp: entry payload_prefix_payload[OF law] bs rbind_eq_Inr map_err_eq_Inr ensure_def
      derive_class_Mock split: option.splits if_splits)

lemma verify_attestation_known:
  "verify_attestation K A t h m kd ctx = Inr () \<Longrightarrow> \<exists>entry. keydir_lookup kd (att_key_id t) = Some entry"
  by (cases "keydir_lookup kd (att_key_id t)") (simp_all add: verify_attestation_def)

lemma verify_attestation_bound:
  assumes "artifact_codec_law A" "verify_attestation K A t h m kd ctx = Inr ()"
  shows "bound_to t h m \<and> is_local ctx \<and> tok_class (att_timestamp t) = TsaMock"
proof -
  obtain entry where entry: "keydir_lookup kd (att_key_id t) = Some entry"
    using verify_attestation_known[OF assms(2)] by blast
  obtain bs where bs: "to_stdvec (pc_attestation_payload A) (attestation_payload.truncate t) = Inr bs"
    using artifact_codec_laws(6)[OF assms(1), THEN codec_law_enc] by blast
  show ?thesis using assms(2) verify_attestation_Inr[OF assms(1) entry bs] by blast
qed

section \<open>Sets\<close>

lemma concat_map_nil: "concat (map f xs) = [] \<longleftrightarrow> (\<forall>x\<in>set xs. f x = [])"
  by auto

lemma r6_empty:
  "r6_rejections policy valid = [] \<longleftrightarrow>
    (\<forall>ty\<in>set (required_attestation_types policy). required_count policy ty \<le> count_of_type ty valid)"
  unfolding r6_rejections_def concat_map_nil by (auto simp: Let_def not_less)

lemma r7_empty:
  assumes "\<forall>t\<in>set valid. att_artifact_hash t = h"
  shows "r7_rejections kind valid = [] \<longleftrightarrow>
    ((\<exists>t\<in>set valid. att_type t = PublicationApproval)
      \<longrightarrow> (\<forall>co\<in>set (co_attestation_types kind). \<exists>t\<in>set valid. att_type t = co))"
proof (cases "find (\<lambda>t. att_type t = PublicationApproval) valid")
  case None
  then have "\<forall>t\<in>set valid. att_type t \<noteq> PublicationApproval" by (auto simp: find_None_iff)
  then show ?thesis by (simp add: r7_rejections_def None)
next
  case (Some approval)
  then have approval: "approval \<in> set valid" "att_type approval = PublicationApproval"
    by (auto simp: find_Some_iff)
  then show ?thesis
    unfolding r7_rejections_def Some option.case concat_map_nil using assms by auto
qed

lemma unit_result: "(\<forall>e. m \<noteq> Inl e) \<longleftrightarrow> m = Inr ()"
  by (cases m) auto

lemma filter_map_nil: "List.map_filter f xs = [] \<longleftrightarrow> (\<forall>x\<in>set xs. f x = None)"
  by (induction xs) (auto simp: List.map_filter_def)

section \<open>Calendar lemmas\<close>

definition is_leap :: "int \<Rightarrow> bool" where
  "is_leap y \<longleftrightarrow> y mod 4 = 0 \<and> (y mod 100 \<noteq> 0 \<or> y mod 400 = 0)"

definition days_in_month :: "int \<Rightarrow> nat \<Rightarrow> nat" where
  "days_in_month y m =
     (if m = 2 then (if is_leap y then 29 else 28) else if m \<in> {4, 6, 9, 11} then 30 else 31)"

text \<open>The day after, in the Gregorian calendar.\<close>

definition next_day :: "jurisdiction_date \<Rightarrow> jurisdiction_date" where
  "next_day d =
     (if day d < days_in_month (year d) (month d) then d\<lparr>day := day d + 1\<rparr>
      else if month d < 12 then d\<lparr>month := month d + 1, day := 1\<rparr>
      else d\<lparr>year := year d + 1, month := 1, day := 1\<rparr>)"

lemma sdiv_div: "0 \<le> a \<Longrightarrow> 0 \<le> b \<Longrightarrow> a sdiv b = a div b" for a b :: int
  by (cases "a = 0"; cases "b = 0") (auto simp: signed_divide_int_def)

lemma floor_by_sdiv: "(if a \<ge> 0 then a else a - 399) sdiv 400 = a div 400" for a :: int
proof (cases "0 \<le> a")
  case False
  then have "(a - 399) sdiv 400 = - ((399 - a) div 400)"
    by (simp add: signed_divide_int_def sgn_if)
  also have "(399 - a) div 400 = - (a div 400)"
    by (rule int_div_pos_eq[where r = "399 - a mod 400"]) (use mult_div_mod_eq[of 400 a] pos_mod_bound[of 400 a] pos_mod_sign[of 400 a] in linarith)+
  finally show ?thesis using False by simp
qed (simp add: sdiv_div)

lemma century_days:
  "y - y div 400 * 400 = (y mod 400 :: int)"
  "y div 400 * 146097 + ((y mod 400) * 365 + (y mod 400) div 4 - (y mod 400) div 100)
     = 365 * y + y div 4 - y div 100 + y div 400" for y :: int
proof -
  have y: "y mod 400 + y div 400 * 400 = y" by simp
  have "y div 4 = (y mod 400 + (y div 400 * 100) * 4) div 4"
    "y div 100 = (y mod 400 + (y div 400 * 4) * 100) div 100"
    by (subst y[symmetric], simp)+
  then have "y div 4 = y div 400 * 100 + y mod 400 div 4" "y div 100 = y div 400 * 4 + y mod 400 div 100"
    by (simp_all only: div_mult_self1)
  then show "y div 400 * 146097 + ((y mod 400) * 365 + (y mod 400) div 4 - (y mod 400) div 100)
     = 365 * y + y div 4 - y div 100 + y div 400"
    using y by linarith
qed (simp add: minus_div_mult_eq_mod)

lemma shift_days: "a + b = s \<Longrightarrow> (a + (b + (m + d - 1)) - 719468) * 86400 = (s + m + d - 719469) * 86400"
  for a b s m d :: int
  by simp

text \<open>Days in the years before a year that starts in March.\<close>

definition year_days :: "int \<Rightarrow> int" where
  "year_days y = 365 * y + y div 4 - y div 100 + y div 400"

lemma unix_start_of_closed:
  assumes "1 \<le> month d"
  shows "unix_start_of d =
    (let y = (if month d \<le> 2 then year d - 1 else year d);
         m = (if month d \<le> 2 then int (month d) + 9 else int (month d) - 3) in
     (year_days y + (153 * m + 2) div 5 + int (day d) - 719469) * 86400)"
proof -
  define y where "y = (if month d \<le> 2 then year d - 1 else year d)"
  define m where "m = (if month d \<le> 2 then int (month d) + 9 else int (month d) - 3)"
  have y: "year d - (if month d \<le> 2 then 1 else 0) = y" by (simp add: y_def)
  have mm: "int (month d) + (if int (month d) > 2 then -3 else 9) = m" by (simp add: m_def)
  have "0 \<le> 153 * m + 2" using assms by (simp add: m_def)
  then have quot: "(153 * m + 2) sdiv 5 = (153 * m + 2) div 5"
    "(y mod 400) sdiv 4 = (y mod 400) div 4" "(y mod 400) sdiv 100 = (y mod 400) div 100"
    by (simp_all add: sdiv_div)
  show ?thesis
    unfolding unix_start_of_def Let_def y floor_by_sdiv mm century_days(1) quot
      y_def[symmetric] m_def[symmetric] year_days_def
    by (rule shift_days[OF century_days(2)])
qed

lemma leap_step:
  "year_days y = year_days (y - 1) + (if is_leap y then 366 else 365)"
proof -
  have step: "y div n = (y - 1) div n + (if y mod n = 0 then 1 else 0)" if "0 < n" for n :: int
  proof (cases "y mod n = 0")
    case True
    have "(y - 1) div n = y div n - 1"
      by (rule int_div_pos_eq[where r = "n - 1"])
        (use that True div_mult_mod_eq[of y n] in \<open>simp_all add: algebra_simps\<close>)
    then show ?thesis using True by simp
  next
    case False
    then have "1 \<le> y mod n" using pos_mod_sign[OF that, of y] by linarith
    then have "(y - 1) div n = y div n"
      by (intro int_div_pos_eq[where r = "y mod n - 1"])
        (use that pos_mod_bound[OF that, of y] mult_div_mod_eq[of n y] in linarith)+
    then show ?thesis using False by simp
  qed
  define p where "p = (\<lambda>n. (y - 1) div n)"
  have steps: "y div 4 = p 4 + (if y mod 4 = 0 then 1 else 0)"
    "y div 100 = p 100 + (if y mod 100 = 0 then 1 else 0)"
    "y div 400 = p 400 + (if y mod 400 = 0 then 1 else 0)"
    unfolding p_def by (rule step, simp)+
  have dvds: "y mod 100 = 0 \<Longrightarrow> y mod 4 = 0" "y mod 400 = 0 \<Longrightarrow> y mod 100 = 0"
    unfolding mod_eq_0_iff_dvd by (erule dvd_trans[rotated], simp)+
  show ?thesis
    unfolding year_days_def steps is_leap_def p_def[symmetric] using dvds
    by (cases "y mod 4 = 0"; cases "y mod 100 = 0"; cases "y mod 400 = 0") simp_all
qed

lemma month_cases:
  fixes m :: nat
  assumes "1 \<le> m" "m \<le> 12"
  shows "m = 1 \<or> m = 2 \<or> m = 3 \<or> m = 4 \<or> m = 5 \<or> m = 6 \<or> m = 7 \<or> m = 8 \<or> m = 9
    \<or> m = 10 \<or> m = 11 \<or> m = 12"
  using assms by presburger

section \<open>A concrete attestation\<close>

text \<open>The toy cryptography with the mock authority's key pair pinned, as the unit test of
  \<open>tsa.rs\<close> pins it.\<close>

definition mock_crypto :: crypto where
  "mock_crypto = sum_crypto\<lparr>
     ed_public := (\<lambda>sk. if sk = MOCK_TSA_SEED then MOCK_TSA_PUBLIC_KEY else sk),
     ed_sign := (\<lambda>sk m. ed_sign sum_crypto (if sk = MOCK_TSA_SEED then MOCK_TSA_PUBLIC_KEY else sk) m)\<rparr>"

lemma mock_crypto_law: "crypto_law mock_crypto" "ed_public mock_crypto MOCK_TSA_SEED = MOCK_TSA_PUBLIC_KEY"
  by (simp_all add: crypto_law_def mock_crypto_def sum_crypto_def)

definition sample_attestation :: "crypto \<Rightarrow> hash32 \<Rightarrow> attestation_type \<Rightarrow> attestation" where
  "sample_attestation K h ty =
     \<lparr>att_artifact_hash = h, att_scope = ScopeWholeArtifact, att_type = ty,
      att_signer_identity = ''expert'', att_key_id = ''test-expert'', att_signer_role = DomainExpert,
      att_regime_id = ''mica'', att_effective_from = sample_date, att_effective_to = None,
      att_legal_source_hash = 5, att_ir_schema_version = IR_SCHEMA_VERSION,
      att_compiler_version = compiler_version (sample_manifest RegimePack),
      att_policy_version = ''v1'', att_test_corpus_hash = None, att_timestamp = stamp K h 100,
      att_expiration = Some sample_date, att_reviewer_comments = None, att_signature = 0\<rparr>"

definition sample_key :: "string \<Rightarrow> hash32 \<Rightarrow> key_directory_entry" where
  "sample_key kid pk =
     \<lparr>kd_key_id = kid, kd_public_key = pk, kd_signer_roles = [DomainExpert],
      kd_authorized_types = [SourceFidelity, PublicationApproval, ScenarioCoverage],
      kd_valid_from_unix = 0, kd_valid_to_unix = 5000, kd_status = KeyActive,
      kd_revoked_at_unix = None, kd_revocation_reason = None, kd_revocation_event_hash = None\<rparr>"

definition sample_context :: policy_context where
  "sample_context =
     \<lparr>ctx_environment = ''local'', ctx_now_unix = 1000, ctx_supported_policy_versions = [''v1''],
      ctx_current_legal_source_hash = Some 5\<rparr>"

lemmas sample_attestation_defs = sample_attestation_def sample_key_def sample_context_def
  keydir_lookup_def sample_manifest_def sample_date_def stamp_def

lemma sign_then_verify:
  assumes law: "artifact_codec_law A" and crypto: "crypto_law K"
    and pin: "ed_public K MOCK_TSA_SEED = MOCK_TSA_PUBLIC_KEY"
    and entry: "keydir_lookup kd (att_key_id t) = Some entry" "kd_public_key entry = ed_public K sk"
    and token: "att_timestamp t = stamp K (att_artifact_hash t) now" and loc: "is_local ctx"
    and ok: "key_may_sign entry t (ctx_now_unix ctx)" "bound_to t h m" "still_current t ctx"
  shows "\<exists>t'. sign_attestation K A t sk = Inr t'
    \<and> verify_attestation K A t' h m kd ctx = Inr ()
    \<and> attestation_payload.truncate t' = attestation_payload.truncate t
    \<and> sign_attestation K A t' sk = Inr t'"
proof -
  obtain bs where bs: "to_stdvec (pc_attestation_payload A) (attestation_payload.truncate t) = Inr bs"
    using artifact_codec_laws(6)[OF law, THEN codec_law_enc] by blast
  let ?t = "t\<lparr>att_signature := ed_sign K sk bs\<rparr>"
  have same: "attestation_payload.truncate ?t = attestation_payload.truncate t"
    by (simp add: attestation_payload.defs)
  then have bs': "to_stdvec (pc_attestation_payload A) (attestation_payload.truncate ?t) = Inr bs"
    using bs by simp
  have sign: "sign_attestation K A t sk = Inr ?t" "sign_attestation K A ?t sk = Inr ?t"
    using bs bs' by (simp_all add: sign_attestation_def payload_prefix_payload[OF law])
  have "keydir_lookup kd (att_key_id ?t) = Some entry" using entry(1) by simp
  moreover have "tok_class (att_timestamp ?t) = TsaMock"
    "verifies_as_mock K (att_timestamp ?t) (att_artifact_hash ?t)"
    using token stamp_verifies[OF crypto pin] by (simp_all add: stamp_def)
  moreover have "key_may_sign entry ?t (ctx_now_unix ctx)" "bound_to ?t h m" "still_current ?t ctx"
    using ok by (simp_all add: acceptance_defs split: option.splits)
  moreover have "ed_point K (kd_public_key entry)" "ed_verify K (kd_public_key entry) bs (att_signature ?t)"
    using crypto by (simp_all add: entry(2) crypto_law_def)
  ultimately have "verify_attestation K A ?t h m kd ctx = Inr ()"
    using verify_attestation_Inr[OF law _ bs'] loc by metis
  then show ?thesis using sign same by blast
qed

lemma attestation_set_accepted:
  assumes "artifact_codec_law A"
  shows "verify_attestation_set K A a policy kd ctx = Inr () \<longleftrightarrow>
    (\<forall>t\<in>set (art_attestations a).
       verify_attestation K A t (artifact_hash (art_manifest a)) (art_manifest a) kd ctx = Inr ())
    \<and> (\<forall>ty\<in>set (required_attestation_types policy).
         required_count policy ty \<le> count_of_type ty (art_attestations a))
    \<and> ((\<exists>t\<in>set (art_attestations a). att_type t = PublicationApproval) \<longrightarrow>
        (\<forall>co\<in>set (co_attestation_types (artifact_kind (art_manifest a))).
           \<exists>t\<in>set (art_attestations a). att_type t = co))"
proof -
  let ?check = "\<lambda>t. verify_attestation K A t (artifact_hash (art_manifest a)) (art_manifest a) kd ctx"
  have failures: "List.map_filter (\<lambda>t. case ?check t of Inl r \<Rightarrow> Some r | Inr _ \<Rightarrow> None) (art_attestations a) = []
      \<longleftrightarrow> (\<forall>t\<in>set (art_attestations a). ?check t = Inr ())"
    unfolding filter_map_nil by (auto simp: unit_result split: sum.splits)
  show ?thesis
  proof (cases "\<forall>t\<in>set (art_attestations a). ?check t = Inr ()")
    case True
    then have valid: "filter (\<lambda>t. is_ok (?check t)) (art_attestations a) = art_attestations a"
      by (auto simp: filter_id_conv)
    have hash: "\<forall>t\<in>set (art_attestations a). att_artifact_hash t = artifact_hash (art_manifest a)"
      using True verify_attestation_bound[OF assms] by (auto simp: bound_to_def)
    show ?thesis
      unfolding verify_attestation_set_def Let_def valid
      using failures True r6_empty[of policy "art_attestations a"] r7_empty[OF hash]
      by (simp del: set_simps)
  next
    case False
    then show ?thesis
      unfolding verify_attestation_set_def Let_def using failures by (simp del: set_simps) blast
  qed
qed

section \<open>Properties\<close>

text \<open>the expiry clock is the Gregorian calendar: epoch day zero is 1 January 1970 and each
  calendar day starts exactly 86400 seconds after the one before it, across month ends, leap
  days and century years.\<close>

theorem unix_start_of_next_day:
  assumes "1 \<le> month d" "month d \<le> 12" "day d \<le> days_in_month (year d) (month d)"
  shows "unix_start_of \<lparr>year = 1970, month = 1, day = 1\<rparr> = 0
    \<and> unix_start_of (next_day d) = unix_start_of d + 86400"
proof
  show "unix_start_of \<lparr>year = 1970, month = 1, day = 1\<rparr> = 0" by (simp add: unix_start_of_closed year_days_def)
  have m': "1 \<le> month (next_day d)" using assms by (simp add: next_day_def)
  show "unix_start_of (next_day d) = unix_start_of d + 86400"
  proof (cases "day d < days_in_month (year d) (month d)")
    case True
    then show ?thesis
      using assms(1) by (simp add: next_day_def unix_start_of_closed Let_def)
  next
    case False
    then have last: "day d = days_in_month (year d) (month d)" using assms(3) by simp
    show ?thesis
      using month_cases[OF assms(1,2)] last leap_step[of "year d"]
      unfolding unix_start_of_closed[OF m'] unix_start_of_closed[OF assms(1)]
      by (elim disjE) (simp_all add: next_day_def Let_def days_in_month_def split: if_splits)
  qed
qed

lemma unix_start_of_next_day_witness:
  "unix_start_of \<lparr>year = 2000, month = 3, day = 1\<rparr>
    = unix_start_of \<lparr>year = 2000, month = 2, day = 29\<rparr> + 86400"
  using unix_start_of_next_day[of "\<lparr>year = 2000, month = 2, day = 29\<rparr>"]
  by (simp add: next_day_def days_in_month_def is_leap_def)

text \<open>C13: an attestation is accepted exactly when its key is in the directory, the ed25519
  signature is over the encoding of the whole payload and nothing else, the timestamp is a
  genuine mock token over the attested hash in a local environment (no other token class can
  be verified), the key may sign at this time, and the payload is bound to this artifact and
  still current.\<close>

theorem verify_attestation_accepts_iff:
  assumes "artifact_codec_law A"
  shows "verify_attestation K A t h m kd ctx = Inr () \<longleftrightarrow>
    (case keydir_lookup kd (att_key_id t) of None \<Rightarrow> False
     | Some entry \<Rightarrow>
        ed_point K (kd_public_key entry)
        \<and> (\<exists>bs. to_stdvec (pc_attestation_payload A) (attestation_payload.truncate t) = Inr bs
             \<and> ed_verify K (kd_public_key entry) bs (att_signature t))
        \<and> tok_class (att_timestamp t) = TsaMock
        \<and> verifies_as_mock K (att_timestamp t) (att_artifact_hash t)
        \<and> is_local ctx \<and> key_may_sign entry t (ctx_now_unix ctx)
        \<and> bound_to t h m \<and> still_current t ctx)"
proof (cases "keydir_lookup kd (att_key_id t)")
  case None
  then show ?thesis by (simp add: verify_attestation_def)
next
  case (Some entry)
  obtain bs where bs: "to_stdvec (pc_attestation_payload A) (attestation_payload.truncate t) = Inr bs"
    using artifact_codec_laws(6)[OF assms, THEN codec_law_enc] by blast
  show ?thesis
    unfolding verify_attestation_Inr[OF assms Some bs] Some option.case using bs by auto
qed

lemma verify_attestation_accepts_iff_witness:
  "\<exists>s. verify_attestation mock_crypto sample_codecs
       ((sample_attestation mock_crypto 9 SourceFidelity)\<lparr>att_signature := s\<rparr>) 9
       (sample_manifest RegimePack) [sample_key ''test-expert'' (ed_public mock_crypto 77)]
       sample_context = Inr ()"
proof -
  let ?t = "sample_attestation mock_crypto 9 SourceFidelity"
  obtain bs where bs: "to_stdvec (pc_attestation_payload sample_codecs) (attestation_payload.truncate ?t) = Inr bs"
    using artifact_codec_laws(6)[OF sample_codecs_law, THEN codec_law_enc] by blast
  let ?t' = "?t\<lparr>att_signature := ed_sign mock_crypto 77 bs\<rparr>"
  have bs': "to_stdvec (pc_attestation_payload sample_codecs) (attestation_payload.truncate ?t') = Inr bs"
    using bs by (simp add: attestation_payload.defs)
  have "verifies_as_mock mock_crypto (att_timestamp ?t') (att_artifact_hash ?t')"
    using stamp_verifies[OF mock_crypto_law, of 9 100] by (simp add: sample_attestation_def)
  moreover have "ed_verify mock_crypto (ed_public mock_crypto 77) bs (ed_sign mock_crypto 77 bs)"
    "ed_point mock_crypto (ed_public mock_crypto 77)"
    using mock_crypto_law(1) by (simp_all add: crypto_law_def)
  ultimately show ?thesis
    using bs'
    by (intro exI[of _ "ed_sign mock_crypto 77 bs"], unfold verify_attestation_accepts_iff[OF sample_codecs_law])
      (simp add: sample_attestation_defs is_local_def acceptance_defs now_i64_def unix_start_of_closed
        year_days_def)
qed

text \<open>signing and verifying fit together: an attestation stamped by the mock authority and
  signed with the key its directory entry publishes is accepted whenever the key may sign, the
  payload is bound to the artifact and still current; signing changes no field but the
  signature, and signing again gives the same bytes.\<close>

theorem signed_attestation_accepted:
  assumes law: "artifact_codec_law A" and crypto: "crypto_law K"
    and pin: "ed_public K MOCK_TSA_SEED = MOCK_TSA_PUBLIC_KEY"
    and entry: "keydir_lookup kd (att_key_id t) = Some entry" "kd_public_key entry = ed_public K sk"
    and token: "att_timestamp t = stamp K (att_artifact_hash t) now" and loc: "is_local ctx"
    and ok: "key_may_sign entry t (ctx_now_unix ctx)" "bound_to t h m" "still_current t ctx"
  shows "\<exists>t'. sign_attestation K A t sk = Inr t'
    \<and> verify_attestation K A t' h m kd ctx = Inr ()
    \<and> attestation_payload.truncate t' = attestation_payload.truncate t
    \<and> sign_attestation K A t' sk = Inr t'"
  by (rule sign_then_verify[OF assms])

lemma signed_attestation_accepted_witness:
  "\<exists>t'. sign_attestation mock_crypto sample_codecs (sample_attestation mock_crypto 9 SourceFidelity) 77 = Inr t'
    \<and> verify_attestation mock_crypto sample_codecs t' 9 (sample_manifest RegimePack)
        [sample_key ''test-expert'' (ed_public mock_crypto 77)] sample_context = Inr ()"
proof -
  let ?t = "sample_attestation mock_crypto 9 SourceFidelity"
  let ?e = "sample_key ''test-expert'' (ed_public mock_crypto 77)"
  have "keydir_lookup [?e] (att_key_id ?t) = Some ?e" "kd_public_key ?e = ed_public mock_crypto 77"
    "att_timestamp ?t = stamp mock_crypto (att_artifact_hash ?t) 100" "is_local sample_context"
    "key_may_sign ?e ?t (ctx_now_unix sample_context)" "bound_to ?t 9 (sample_manifest RegimePack)"
    "still_current ?t sample_context"
    by (simp_all add: sample_attestation_defs is_local_def acceptance_defs now_i64_def
        unix_start_of_closed year_days_def)
  from signed_attestation_accepted[OF sample_codecs_law mock_crypto_law this] show ?thesis by blast
qed

text \<open>C14: a set passes exactly when every attestation on the artifact is accepted (one bad
  attestation, even a superfluous one, fails the set), every required type reaches its
  minimum count, and a publication approval comes with the co-attestations of the artifact's
  kind.\<close>

theorem verify_attestation_set_iff:
  assumes "artifact_codec_law A"
  shows "verify_attestation_set K A a policy kd ctx = Inr () \<longleftrightarrow>
    (\<forall>t\<in>set (art_attestations a).
       verify_attestation K A t (artifact_hash (art_manifest a)) (art_manifest a) kd ctx = Inr ())
    \<and> (\<forall>ty\<in>set (required_attestation_types policy).
         required_count policy ty \<le> count_of_type ty (art_attestations a))
    \<and> ((\<exists>t\<in>set (art_attestations a). att_type t = PublicationApproval) \<longrightarrow>
        (\<forall>co\<in>set (co_attestation_types (artifact_kind (art_manifest a))).
           \<exists>t\<in>set (art_attestations a). att_type t = co))"
  by (rule attestation_set_accepted[OF assms])

lemma verify_attestation_set_iff_witness:
  "verify_attestation_set mock_crypto sample_codecs (sample_artifact RegimePack)
     \<lparr>t2_t3_mode = Strict, required_attestation_types = [], minimum_attestation_count_per_type = []\<rparr>
     [] sample_context = Inr ()"
  unfolding verify_attestation_set_iff[OF sample_codecs_law] by (simp add: sample_artifact_def)

end
