(* ===== verification/Verify.thy ===== *)
theory Verify
  imports Attestation
begin

text \<open>
  The one consumer call of \<open>src/crates/ke-artifact/src/verify.rs\<close>: decode, content hash,
  compiler signature, attestation set, registry status and staleness, first failure first,
  with a provenance projection that does not depend on the verdict. A decode rejection
  carries the error value itself; the code carries its rendered message.
\<close>

section \<open>Types\<close>

datatype registry_status = StatusPublished | StatusDeprecated | StatusRevoked | StatusUnknown

record registry_evidence =
  ev_status :: registry_status
  ev_event_head_hash :: hash32
  ev_live_event_head :: "hash32 option"

datatype rejection_reason =
    RejDecode artifact_error
  | RejHashMismatch
  | RejCompilerSignatureInvalid
  | RejAttestations "attestation_rejection list"
  | RejNotPublished registry_status
  | RejStaleEventHead hash32 hash32

datatype verdict = Verified | Rejected rejection_reason

record attestation_summary =
  sum_attestation_type :: attestation_type
  sum_signer_key_id :: string
  sum_is_test_key :: bool
  sum_tsa_class :: timestamp_class
  sum_claimed_time_unix :: "64 word"

record artifact_provenance =
  prov_artifact_kind :: "artifact_kind option"
  prov_regime_id :: string
  prov_artifact_hash :: hash32
  prov_ir_schema_version :: string
  prov_codec_version :: string
  prov_canonicalization_version :: string
  prov_signer_key_id :: string
  prov_is_test_key :: bool
  prov_attestations :: "attestation_summary list"
  prov_registry_state :: registry_status
  prov_registry_event_head_hash :: hash32
  prov_exported_at_unix :: "64 word"

record verification_outcome =
  out_verdict :: verdict
  out_provenance :: artifact_provenance
  out_registry_state :: registry_status

section \<open>Provenance\<close>

definition is_test_key :: "string \<Rightarrow> bool" where
  "is_test_key kid = (take 5 kid = ''test-'')"

definition summarize_attestation :: "attestation \<Rightarrow> attestation_summary" where
  "summarize_attestation t =
     \<lparr>sum_attestation_type = att_type t, sum_signer_key_id = att_key_id t,
      sum_is_test_key = is_test_key (att_key_id t), sum_tsa_class = tok_class (att_timestamp t),
      sum_claimed_time_unix = tok_claimed_time_unix (att_timestamp t)\<rparr>"

definition provenance_of :: "artifact \<Rightarrow> registry_evidence \<Rightarrow> 64 word \<Rightarrow> artifact_provenance" where
  "provenance_of a ev exported_at =
     (let m = art_manifest a; kid = cs_key_id (art_compiler_signature a) in
      \<lparr>prov_artifact_kind = Some (artifact_kind m), prov_regime_id = regime_id m,
       prov_artifact_hash = artifact_hash m,
       prov_ir_schema_version = schema_version_text (ir_schema_version m),
       prov_codec_version = codec_version m,
       prov_canonicalization_version = canonicalization_version m,
       prov_signer_key_id = kid, prov_is_test_key = is_test_key kid,
       prov_attestations = map summarize_attestation (art_attestations a),
       prov_registry_state = ev_status ev, prov_registry_event_head_hash = ev_event_head_hash ev,
       prov_exported_at_unix = exported_at\<rparr>)"

definition decode_failed_provenance :: "registry_evidence \<Rightarrow> 64 word \<Rightarrow> artifact_provenance" where
  "decode_failed_provenance ev exported_at =
     \<lparr>prov_artifact_kind = None, prov_regime_id = [], prov_artifact_hash = 0,
      prov_ir_schema_version = [], prov_codec_version = [], prov_canonicalization_version = [],
      prov_signer_key_id = [], prov_is_test_key = False, prov_attestations = [],
      prov_registry_state = ev_status ev, prov_registry_event_head_hash = ev_event_head_hash ev,
      prov_exported_at_unix = exported_at\<rparr>"

section \<open>Verdict\<close>

definition verdict_for ::
    "canon_lib \<Rightarrow> crypto \<Rightarrow> artifact_codecs \<Rightarrow> artifact \<Rightarrow> bytes \<Rightarrow> nat \<Rightarrow> key_directory \<Rightarrow> policy_context
     \<Rightarrow> verification_policy \<Rightarrow> registry_evidence \<Rightarrow> verdict" where
  "verdict_for L K A a kew envelope_len kd ctx policy ev =
     (if \<not> is_ok (verify_hash L K A kew) then Rejected RejHashMismatch
      else case keydir_lookup kd (cs_key_id (art_compiler_signature a)) of
        None \<Rightarrow> Rejected RejCompilerSignatureInvalid
      | Some entry \<Rightarrow>
          if \<not> ed_point K (kd_public_key entry) then Rejected RejCompilerSignatureInvalid
          else if \<not> is_ok (verify_signature K (take envelope_len kew) (art_compiler_signature a)
                            (kd_public_key entry))
            then Rejected RejCompilerSignatureInvalid
          else case verify_attestation_set K A a policy kd ctx of
            Inl rejections \<Rightarrow> Rejected (RejAttestations rejections)
          | Inr _ \<Rightarrow>
              if ev_status ev \<noteq> StatusPublished then Rejected (RejNotPublished (ev_status ev))
              else case ev_live_event_head ev of
                Some live \<Rightarrow>
                  if live \<noteq> ev_event_head_hash ev
                  then Rejected (RejStaleEventHead (ev_event_head_hash ev) live) else Verified
              | None \<Rightarrow> Verified)"

definition verify_artifact ::
    "canon_lib \<Rightarrow> crypto \<Rightarrow> artifact_codecs \<Rightarrow> bytes \<Rightarrow> key_directory \<Rightarrow> policy_context
     \<Rightarrow> verification_policy \<Rightarrow> registry_evidence \<Rightarrow> 64 word \<Rightarrow> verification_outcome" where
  "verify_artifact L K A kew kd ctx policy ev exported_at =
     (case decode_artifact L A kew of
        Inl e \<Rightarrow> \<lparr>out_verdict = Rejected (RejDecode e),
                  out_provenance = decode_failed_provenance ev exported_at,
                  out_registry_state = ev_status ev\<rparr>
      | Inr (a, envelope_len) \<Rightarrow>
          \<lparr>out_verdict = verdict_for L K A a kew envelope_len kd ctx policy ev,
           out_provenance = provenance_of a ev exported_at,
           out_registry_state = ev_status ev\<rparr>)"

section \<open>When a verdict is positive\<close>

definition evidence_live :: "registry_evidence \<Rightarrow> bool" where
  "evidence_live ev \<longleftrightarrow> ev_status ev = StatusPublished
     \<and> (ev_live_event_head ev = None \<or> ev_live_event_head ev = Some (ev_event_head_hash ev))"

lemma is_ok_unit: "is_ok m \<longleftrightarrow> m = Inr ()"
  by (cases m) auto

lemma verify_signature_ok: "verify_signature K bs cs pk = Inr () \<longleftrightarrow> ed_verify K pk bs (cs_signature cs)"
  by (simp add: verify_signature_def)

lemma verdict_for_Verified:
  "verdict_for L K A a kew n kd ctx policy ev = Verified \<longleftrightarrow>
     (\<exists>h. verify_hash L K A kew = Inr h)
     \<and> (\<exists>entry. keydir_lookup kd (cs_key_id (art_compiler_signature a)) = Some entry
          \<and> ed_point K (kd_public_key entry)
          \<and> ed_verify K (kd_public_key entry) (take n kew) (cs_signature (art_compiler_signature a)))
     \<and> verify_attestation_set K A a policy kd ctx = Inr ()
     \<and> evidence_live ev"
proof (cases "keydir_lookup kd (cs_key_id (art_compiler_signature a))")
  case None
  then show ?thesis by (simp add: verdict_for_def)
next
  case (Some entry)
  show ?thesis
    unfolding verdict_for_def Some option.case is_ok_iff[of "verify_hash L K A kew"] is_ok_unit
      verify_signature_ok
    by (cases "verify_attestation_set K A a policy kd ctx"; cases "ev_live_event_head ev")
      (auto simp: evidence_live_def)
qed

lemma verify_hash_decoded:
  "decode_artifact L A kew = Inr (a, n) \<Longrightarrow>
    (\<exists>h. verify_hash L K A kew = Inr h)
      \<longleftrightarrow> content_hash K A (take n kew) = Inr (artifact_hash (art_manifest a))"
  by (auto simp: verify_hash_def rbind_eq_Inr Let_def split: if_splits)

section \<open>Composition with assembly\<close>

lemma verified_artifact:
  "out_verdict (verify_artifact L K A kew kd ctx policy ev now) = Verified \<longleftrightarrow>
    (\<exists>a n. decode_artifact L A kew = Inr (a, n)
      \<and> content_hash K A (take n kew) = Inr (artifact_hash (art_manifest a))
      \<and> (\<exists>entry. keydir_lookup kd (cs_key_id (art_compiler_signature a)) = Some entry
           \<and> ed_point K (kd_public_key entry)
           \<and> ed_verify K (kd_public_key entry) (take n kew) (cs_signature (art_compiler_signature a)))
      \<and> verify_attestation_set K A a policy kd ctx = Inr ()
      \<and> evidence_live ev)"
proof (cases "decode_artifact L A kew")
  case (Inr r)
  obtain a n where r: "r = (a, n)" by (cases r)
  show ?thesis
    using verify_hash_decoded[OF Inr[unfolded r]]
    by (auto simp: verify_artifact_def Inr r verdict_for_Verified)
qed (simp add: verify_artifact_def)

lemma attested_assembly_verifies:
  assumes law: "artifact_codec_law A" and crypto: "crypto_law K"
    and ok: "assemble_payload L K A m p audit sk kid = Inr (a, kew)"
    and kind: "kind_agrees (artifact_kind m) p"
    and entry: "keydir_lookup kd kid = Some entry" "kd_public_key entry = ed_public K sk"
    and set: "verify_attestation_set K A (a\<lparr>art_attestations := atts\<rparr>) policy kd ctx = Inr ()"
    and live: "evidence_live ev"
  obtains kew' where "with_attestations A a atts = Inr (a\<lparr>art_attestations := atts\<rparr>, kew')"
    "out_verdict (verify_artifact L K A kew' kd ctx policy ev now) = Verified"
    "out_provenance (verify_artifact L K A kew' kd ctx policy ev now)
       = provenance_of (a\<lparr>art_attestations := atts\<rparr>) ev now"
proof -
  let ?a = "a\<lparr>art_attestations := atts\<rparr>"
  obtain env where
    env: "to_stdvec (pc_envelope A) (envelope.truncate a) = Inr env" and
    address: "content_address K A (envelope.truncate a) = Some (artifact_hash (art_manifest a))" and
    sig: "art_compiler_signature a = sign_envelope K env sk kid"
    by (rule assemble_payload_result[OF law ok])
  obtain kew' where enc: "enc_artifact A ?a = Inr kew'" using enc_artifact_total[OF law] by blast
  have trunc: "envelope.truncate ?a = envelope.truncate a" by (simp add: envelope.defs)
  have valid: "artifact_valid L ?a"
    using assemble_payload_valid[OF law ok kind] by (simp add: artifact_valid_def)
  note d = decode_enc_artifact[OF law enc env[folded trunc] valid]
  have "content_hash K A env = Inr (artifact_hash (art_manifest a))"
    using content_hash_envelope[OF law env] address by simp
  moreover have "ed_verify K (kd_public_key entry) env (cs_signature (art_compiler_signature a))"
    "ed_point K (kd_public_key entry)" "cs_key_id (art_compiler_signature a) = kid"
    using crypto by (simp_all add: entry(2) sig sign_envelope_def crypto_law_def)
  ultimately have "out_verdict (verify_artifact L K A kew' kd ctx policy ev now) = Verified"
    unfolding verified_artifact using d entry(1) set live by auto
  then show ?thesis
    using d enc by (intro that[of kew']) (simp_all add: with_attestations_def verify_artifact_def)
qed

section \<open>A concrete set\<close>

definition sample_policy :: verification_policy where
  "sample_policy = \<lparr>t2_t3_mode = Strict, required_attestation_types = [SourceFidelity],
     minimum_attestation_count_per_type = [\<lparr>count_type = SourceFidelity, count_min = 1\<rparr>]\<rparr>"

definition sample_evidence :: registry_evidence where
  "sample_evidence = \<lparr>ev_status = StatusPublished, ev_event_head_hash = 4, ev_live_event_head = Some 4\<rparr>"

definition sample_keydir :: "crypto \<Rightarrow> key_directory" where
  "sample_keydir K = [sample_key ''k'' (ed_public K 42), sample_key ''test-expert'' (ed_public K 77)]"

lemma sample_attested:
  assumes "artifact_kind m = RegimePack" "regime_id m = ''mica''"
    "compiler_version m = compiler_version (sample_manifest RegimePack)" "ir_schema_version m = IR_SCHEMA_VERSION"
  shows "\<exists>t. verify_attestation mock_crypto sample_codecs t h m (sample_keydir mock_crypto) sample_context = Inr ()
    \<and> att_type t = SourceFidelity"
proof -
  let ?t = "sample_attestation mock_crypto h SourceFidelity"
  let ?e = "sample_key ''test-expert'' (ed_public mock_crypto 77)"
  have facts: "keydir_lookup (sample_keydir mock_crypto) (att_key_id ?t) = Some ?e"
    "kd_public_key ?e = ed_public mock_crypto 77"
    "att_timestamp ?t = stamp mock_crypto (att_artifact_hash ?t) 100" "is_local sample_context"
    "key_may_sign ?e ?t (ctx_now_unix sample_context)" "bound_to ?t h m" "still_current ?t sample_context"
    using assms
    by (simp_all add: sample_attestation_defs sample_keydir_def is_local_def acceptance_defs now_i64_def
        unix_start_of_closed year_days_def)
  obtain t' where t': "verify_attestation mock_crypto sample_codecs t' h m (sample_keydir mock_crypto) sample_context = Inr ()"
    "attestation_payload.truncate t' = attestation_payload.truncate ?t"
    using sign_then_verify[OF sample_codecs_law mock_crypto_law facts] by blast
  have "att_type t' = att_type ?t"
    using t'(2) by (metis attestation_payload.simps(3) attestation_payload.defs(4))
  then show ?thesis using t'(1) by (intro exI[of _ t']) (simp add: sample_attestation_def)
qed

section \<open>Properties\<close>

text \<open>C11: the single consumer call says Verified exactly when the bytes decode, the digest of
  the prefix with the hash slot zeroed is the manifest's hash, the compiler signature holds
  over that prefix under the directory's key, the attestation set passes, the registry says
  Published and a supplied live head agrees. In particular a deprecated, revoked, unknown or
  stale artifact is refused whatever its cryptography says.\<close>

theorem verify_artifact_verified_iff:
  "out_verdict (verify_artifact L K A kew kd ctx policy ev now) = Verified \<longleftrightarrow>
    (\<exists>a n. decode_artifact L A kew = Inr (a, n)
      \<and> content_hash K A (take n kew) = Inr (artifact_hash (art_manifest a))
      \<and> (\<exists>entry. keydir_lookup kd (cs_key_id (art_compiler_signature a)) = Some entry
           \<and> ed_point K (kd_public_key entry)
           \<and> ed_verify K (kd_public_key entry) (take n kew) (cs_signature (art_compiler_signature a)))
      \<and> verify_attestation_set K A a policy kd ctx = Inr ()
      \<and> evidence_live ev)"
  by (rule verified_artifact)



text \<open>outside the local environment nothing that needs an attestation verifies: RFC 3161
  tokens cannot be checked yet and mock tokens are refused, so a policy that requires at least
  one attestation type rejects every artifact.\<close>

theorem nonlocal_policy_rejects_all:
  assumes "artifact_codec_law A" "\<not> is_local ctx" "required_attestation_types policy \<noteq> []"
  shows "out_verdict (verify_artifact L K A kew kd ctx policy ev now) \<noteq> Verified"
proof
  assume "out_verdict (verify_artifact L K A kew kd ctx policy ev now) = Verified"
  then obtain a where set: "verify_attestation_set K A a policy kd ctx = Inr ()"
    unfolding verified_artifact by blast
  obtain ty where "ty \<in> set (required_attestation_types policy)" using assms(3) by (cases "required_attestation_types policy") auto
  then have "1 \<le> count_of_type ty (art_attestations a)"
    using set unfolding attestation_set_accepted[OF assms(1)] required_count_def by fastforce
  then obtain t where "t \<in> set (art_attestations a)"
    by (auto simp: count_of_type_def Suc_le_eq filter_empty_conv)
  then show False
    using set verify_attestation_bound[OF assms(1)] assms(2)
    unfolding attestation_set_accepted[OF assms(1)] by blast
qed

lemma nonlocal_policy_rejects_all_witness:
  "out_verdict (verify_artifact ascii_lib mock_crypto sample_codecs [1, 2] (sample_keydir mock_crypto)
     (sample_context\<lparr>ctx_environment := ''production''\<rparr>) sample_policy sample_evidence 9) \<noteq> Verified"
  by (rule nonlocal_policy_rejects_all[OF sample_codecs_law])
    (simp_all add: is_local_def sample_context_def sample_policy_def)

end
