(* ===== verification/Policy.thy ===== *)
theory Policy
  imports Verify
begin

text \<open>
  Which attestations a publication needs and how strict a revocation is
  (\<open>src/crates/ke-cli/src/policy.rs\<close>, \<open>src/crates/ke-core/src/revocation.rs\<close>, and the pure part of
  \<open>src/crates/ke-cli/src/commands/revoke.rs\<close>). Reading and parsing a \<open>--policy\<close> file is a
  parameter.
\<close>

section \<open>Verification policies\<close>

definition strict_policy :: "attestation_type list \<Rightarrow> verification_policy" where
  "strict_policy required =
     \<lparr>t2_t3_mode = Strict, required_attestation_types = required,
      minimum_attestation_count_per_type =
        map (\<lambda>ty. \<lparr>count_type = ty, count_min = 1\<rparr>) required\<rparr>"

definition default_verification_policy :: verification_policy where
  "default_verification_policy = strict_policy [SourceFidelity, ScenarioCoverage, PublicationApproval]"

definition intentspec_verification_policy :: verification_policy where
  "intentspec_verification_policy = strict_policy [SourceFidelity, PublicationApproval]"

fun policy_for_kind :: "artifact_kind \<Rightarrow> verification_policy" where
  "policy_for_kind IntentSpec = intentspec_verification_policy"
| "policy_for_kind RegimePack = default_verification_policy"
| "policy_for_kind EquivalenceMatrix = default_verification_policy"
| "policy_for_kind TestCorpus = default_verification_policy"
| "policy_for_kind PolicyBundleKind = default_verification_policy"

text \<open>\<open>load\<close> reads and parses the file; its error is the message of the code.\<close>

definition resolve_policy ::
    "(string \<Rightarrow> string + policy_bundle) \<Rightarrow> string option \<Rightarrow> artifact_kind \<Rightarrow> string + verification_policy" where
  "resolve_policy load path kind =
     (case path of
        None \<Rightarrow> Inr (policy_for_kind kind)
      | Some p \<Rightarrow> rmap policy_verification (load p))"

section \<open>Revocation\<close>

datatype revocation_reason_class = KeyCompromise | LegalInvalidity | RoutineSupersession | AdvisoryReason

fun revocation_floor :: "revocation_reason_class \<Rightarrow> revocation_policy" where
  "revocation_floor KeyCompromise = HardStop"
| "revocation_floor LegalInvalidity = HardStop"
| "revocation_floor RoutineSupersession = FinishPinned"
| "revocation_floor AdvisoryReason = AuditOnly"

fun strictness_rank :: "revocation_policy \<Rightarrow> nat" where
  "strictness_rank HardStop = 2"
| "strictness_rank FinishPinned = 1"
| "strictness_rank AuditOnly = 0"

definition revocation_decision ::
    "revocation_reason_class \<Rightarrow> revocation_policy option \<Rightarrow> revocation_policy" where
  "revocation_decision reason configured =
     (let floor_policy = revocation_floor reason in
      case configured of
        Some c \<Rightarrow> if strictness_rank floor_policy < strictness_rank c then c else floor_policy
      | None \<Rightarrow> floor_policy)"

datatype policy_error = BelowFloor revocation_policy revocation_reason_class | MissingPolicy

definition recorded_policy ::
    "revocation_policy option \<Rightarrow> revocation_reason_class option \<Rightarrow> policy_error + revocation_policy" where
  "recorded_policy policy reason_class =
     (case (policy, reason_class) of
        (Some p, None) \<Rightarrow> Inr p
      | (configured, Some class) \<Rightarrow>
          (case configured of
             Some c \<Rightarrow>
               if strictness_rank c < strictness_rank (revocation_floor class) then Inl (BelowFloor c class)
               else Inr (revocation_decision class configured)
           | None \<Rightarrow> Inr (revocation_decision class configured))
      | (None, None) \<Rightarrow> Inl MissingPolicy)"

fun severity_for :: "revocation_policy \<Rightarrow> string" where
  "severity_for AuditOnly = ''high''"
| "severity_for _ = ''normal''"

section \<open>Command-line words\<close>

definition ascii_lower :: "char \<Rightarrow> char" where
  "ascii_lower c = (if 65 \<le> (of_char c :: int) \<and> (of_char c :: int) \<le> 90 then char_of (of_char c + 32 :: int) else c)"

definition parse_revocation_policy :: "string \<Rightarrow> revocation_policy option" where
  "parse_revocation_policy s =
     (let t = map ascii_lower s in
      if t = ''hardstop'' \<or> t = ''hard_stop'' then Some HardStop
      else if t = ''finishpinned'' \<or> t = ''finish_pinned'' then Some FinishPinned
      else if t = ''auditonly'' \<or> t = ''audit_only'' then Some AuditOnly
      else None)"

definition parse_reason_class :: "string \<Rightarrow> revocation_reason_class option" where
  "parse_reason_class s =
     (let t = map ascii_lower s in
      if t = ''key_compromise'' \<or> t = ''keycompromise'' then Some KeyCompromise
      else if t = ''legal_invalidity'' \<or> t = ''legalinvalidity'' then Some LegalInvalidity
      else if t = ''routine_supersession'' \<or> t = ''routinesupersession'' then Some RoutineSupersession
      else if t = ''advisory'' then Some AdvisoryReason
      else None)"

definition parse_attestation_type :: "string \<Rightarrow> attestation_type option" where
  "parse_attestation_type s =
     (let t = map ascii_lower s in
      if t = ''source_fidelity'' then Some SourceFidelity
      else if t = ''interpretation'' then Some Interpretation
      else if t = ''scenario_coverage'' then Some ScenarioCoverage
      else if t = ''equivalence_claim'' then Some EquivalenceClaim
      else if t = ''publication_approval'' then Some PublicationApproval
      else None)"

section \<open>Lemmas\<close>

lemma strictness_rank_inj: "strictness_rank a = strictness_rank b \<longleftrightarrow> a = b"
  by (cases a; cases b) simp_all

lemma required_count_strict: "ty \<in> set types \<Longrightarrow> required_count (strict_policy types) ty = 1"
  by (auto simp: required_count_def strict_policy_def find_Some_iff split: option.splits)

lemma required_types_strict [simp]: "required_attestation_types (strict_policy types) = types"
  by (simp add: strict_policy_def)

lemma policy_for_kind_types:
  "required_attestation_types (policy_for_kind k) =
     (if k = IntentSpec then [SourceFidelity, PublicationApproval]
      else [SourceFidelity, ScenarioCoverage, PublicationApproval])"
  by (cases k) (simp_all add: intentspec_verification_policy_def default_verification_policy_def)

lemma policy_for_kind_count:
  "ty \<in> set (required_attestation_types (policy_for_kind k)) \<Longrightarrow> required_count (policy_for_kind k) ty = 1"
  by (cases k) (simp_all only: policy_for_kind.simps intentspec_verification_policy_def
      default_verification_policy_def required_types_strict required_count_strict)

lemma count_of_type_pos: "Suc 0 \<le> count_of_type ty atts \<longleftrightarrow> (\<exists>t\<in>set atts. att_type t = ty)"
  by (auto simp: count_of_type_def Suc_le_eq filter_empty_conv)

lemma co_types_required:
  "set (co_attestation_types k) \<subseteq> set (required_attestation_types (policy_for_kind k))"
  unfolding policy_for_kind_types by (cases k) simp_all

section \<open>Properties\<close>

text \<open>Under the built-in policy of an artifact's kind a set passes exactly when every
  attestation is accepted and each required type occurs: the co-attestation rule R7 never
  rejects a set that satisfies R6, for IntentSpecs and rule packs alike.\<close>

theorem default_policies_cover_co_attestations:
  assumes "artifact_codec_law A"
  shows "verify_attestation_set K A a (policy_for_kind (artifact_kind (art_manifest a))) kd ctx = Inr () \<longleftrightarrow>
    (\<forall>t\<in>set (art_attestations a).
       verify_attestation K A t (artifact_hash (art_manifest a)) (art_manifest a) kd ctx = Inr ())
    \<and> set (required_attestation_types (policy_for_kind (artifact_kind (art_manifest a))))
        \<subseteq> att_type ` set (art_attestations a)"
proof -
  let ?k = "artifact_kind (art_manifest a)"
  have "(\<forall>ty\<in>set (required_attestation_types (policy_for_kind ?k)).
      required_count (policy_for_kind ?k) ty \<le> count_of_type ty (art_attestations a))
    \<longleftrightarrow> set (required_attestation_types (policy_for_kind ?k)) \<subseteq> att_type ` set (art_attestations a)"
    using count_of_type_pos[of _ "art_attestations a"] by (auto simp: policy_for_kind_count image_iff)
  then show ?thesis
    unfolding attestation_set_accepted[OF assms] using co_types_required[of ?k] by blast
qed

lemma default_policies_cover_co_attestations_witness:
  "verify_attestation_set mock_crypto sample_codecs (sample_artifact IntentSpec)
     (policy_for_kind (artifact_kind (art_manifest (sample_artifact IntentSpec)))) [] sample_context \<noteq> Inr ()"
  unfolding default_policies_cover_co_attestations[OF sample_codecs_law]
  unfolding policy_for_kind_types by (simp add: sample_artifact_def sample_manifest_def)

text \<open>the policy a revocation records is the configured one only when that is at least as
  strict as the floor of the reason class, else the floor itself when none is configured;
  a configured policy below the floor and a call with neither input are refused.\<close>

theorem recorded_policy_iff:
  "recorded_policy policy reason_class = Inr q \<longleftrightarrow>
    (case reason_class of
       None \<Rightarrow> policy = Some q
     | Some c \<Rightarrow> strictness_rank (revocation_floor c) \<le> strictness_rank q
         \<and> (policy = Some q \<or> policy = None \<and> q = revocation_floor c))"
  using strictness_rank_inj
  by (auto simp: recorded_policy_def revocation_decision_def Let_def not_less
      split: option.splits)

end
