(* ===== verification/Registry_Event.thy ===== *)
theory Registry_Event
  imports Policy
begin

text \<open>
  Lifecycle states, the transition table and the append-only, hash-chained, root-signed event
  log (\<open>src/crates/ke-cli/src/registry/event.rs\<close> and the pure part of \<open>registry/mod.rs\<close>). The
  log is a list; \<open>current_state\<close> walks it as the code does. Shown: which logs are accepted,
  that the events the registry builds extend an accepted log, and that two accepted logs with
  the same head link are equal unless the digest has a collision.
\<close>

section \<open>States and transitions\<close>

datatype lifecycle_state =
  Draft | StructurallyVerified | MlChecked | ExpertAttested | Published | Deprecated | Revoked

fun event_kind_of :: "lifecycle_state \<Rightarrow> string" where
  "event_kind_of Draft = ''draft''"
| "event_kind_of StructurallyVerified = ''structurally_verified''"
| "event_kind_of MlChecked = ''ml_checked''"
| "event_kind_of ExpertAttested = ''expert_attested''"
| "event_kind_of Published = ''published''"
| "event_kind_of Deprecated = ''deprecated''"
| "event_kind_of Revoked = ''revoked''"

definition is_rollback_eligible :: "lifecycle_state \<Rightarrow> bool" where
  "is_rollback_eligible s = (s = Published)"

record preconditions =
  structural_clean :: bool
  compiler_signature_valid :: bool
  consistency_block_present :: bool
  attestation_set_valid :: bool
  prior_is_expert_attested :: bool

definition no_preconditions :: preconditions where
  "no_preconditions = \<lparr>structural_clean = False, compiler_signature_valid = False,
     consistency_block_present = False, attestation_set_valid = False,
     prior_is_expert_attested = False\<rparr>"

fun can_transition :: "lifecycle_state \<Rightarrow> lifecycle_state \<Rightarrow> preconditions \<Rightarrow> bool" where
  "can_transition Draft StructurallyVerified pre = (structural_clean pre \<and> compiler_signature_valid pre)"
| "can_transition StructurallyVerified MlChecked pre = consistency_block_present pre"
| "can_transition MlChecked ExpertAttested pre = attestation_set_valid pre"
| "can_transition ExpertAttested Published pre = prior_is_expert_attested pre"
| "can_transition Published Deprecated pre = True"
| "can_transition Published Revoked pre = True"
| "can_transition Deprecated Revoked pre = True"
| "can_transition _ _ pre = False"

section \<open>Events\<close>

record event_payload =
  ev_artifact_hash :: hash32
  ev_seq :: "32 word"
  ev_prior_state :: "lifecycle_state option"
  ev_new_state :: lifecycle_state
  ev_kind :: string
  ev_authority_key_id :: string
  ev_authority_role :: signer_role
  ev_timestamp :: timestamp_token
  ev_prev_hash :: "hash32 option"

record lifecycle_event = event_payload +
  ev_signature :: sig64

datatype registry_error =
    SeqGap "32 word" "32 word"
  | ChainBroken "32 word"
  | SignatureInvalid "32 word"
  | ChainGenesisInvalid "32 word"
  | EventEncode postcard_error
  | EventJsonEncode
  | EventJsonDecode
  | ArtifactDecode artifact_error
  | RegistryIo string
  | BadHashHex string
  | EventExists "32 word"
  | TransitionRejected lifecycle_state lifecycle_state
  | NotFound string
  | Ambiguous string nat
  | ResolvedHashMismatch string
  | RollbackIneligible lifecycle_state
  | AttestationSetRejected "attestation_rejection list"
  | PolicyLoad string
  | SidecarExists string
  | NoState
  | RegistryPanic   \<comment> \<open>arithmetic overflow of \<open>seq\<close> (debug builds) or a slice out of range\<close>

text \<open>The codecs of an event: postcard writes the payload fields, then the 64 bytes.\<close>

record event_codecs =
  pc_event_payload :: "event_payload codec"
  enc_event :: "lifecycle_event \<Rightarrow> postcard_error + bytes"

definition event_bytes :: "event_codecs \<Rightarrow> lifecycle_event \<Rightarrow> postcard_error + bytes" where
  "event_bytes E e =
     rmap (\<lambda>b. b @ sig_bytes (ev_signature e)) (to_stdvec (pc_event_payload E) (event_payload.truncate e))"

definition event_codec_law :: "event_codecs \<Rightarrow> bool" where
  "event_codec_law E \<longleftrightarrow> codec_law (pc_event_payload E) \<and> (\<forall>e. enc_event E e = event_bytes E e)"

definition event_prefix :: "event_codecs \<Rightarrow> lifecycle_event \<Rightarrow> registry_error + bytes" where
  "event_prefix E e =
     rbind (map_err EventEncode (enc_event E e)) (\<lambda>bs.
     rbind (map_err EventEncode (take_from_bytes (pc_event_payload E) bs)) (\<lambda>(_, rest).
       Inr (take (length bs - length rest) bs)))"

definition canonical_bytes :: "event_codecs \<Rightarrow> lifecycle_event \<Rightarrow> registry_error + bytes" where
  "canonical_bytes E e = map_err EventEncode (enc_event E e)"

definition chain_hash :: "crypto \<Rightarrow> event_codecs \<Rightarrow> lifecycle_event \<Rightarrow> registry_error + hash32" where
  "chain_hash K E e = rmap (blake3 K) (canonical_bytes E e)"

definition REGISTRY_ROOT_PUBLIC_KEY :: hash32 where
  "REGISTRY_ROOT_PUBLIC_KEY = 0xab4b876b1180339dfe2aecec7b1f603ae6baba317208e22139512d1c065132bf"

definition REGISTRY_ROOT_SEED :: hash32 where
  "REGISTRY_ROOT_SEED = bytes_hash (map of_char ''ke-workbench-test-registry-seed1'')"

definition REGISTRY_ROOT_KEY_ID :: string where
  "REGISTRY_ROOT_KEY_ID = ''test-registry-fixed-seed-1''"

definition verify_event_signature :: "crypto \<Rightarrow> event_codecs \<Rightarrow> lifecycle_event \<Rightarrow> registry_error + unit" where
  "verify_event_signature K E e =
     rbind (ensure (ed_point K REGISTRY_ROOT_PUBLIC_KEY) (SignatureInvalid (ev_seq e))) (\<lambda>_.
     rbind (event_prefix E e) (\<lambda>prefix.
       ensure (ed_verify K REGISTRY_ROOT_PUBLIC_KEY prefix (ev_signature e)) (SignatureInvalid (ev_seq e))))"

definition sign_event :: "crypto \<Rightarrow> event_codecs \<Rightarrow> lifecycle_event \<Rightarrow> registry_error + lifecycle_event" where
  "sign_event K E e =
     rbind (event_prefix E e) (\<lambda>prefix. Inr (e\<lparr>ev_signature := ed_sign K REGISTRY_ROOT_SEED prefix\<rparr>))"

section \<open>Walking the log\<close>

text \<open>The link check of one event: its index, its \<open>prev_event_hash\<close> and the chain hash of the
  event before it.\<close>

definition check_link :: "nat \<Rightarrow> hash32 option \<Rightarrow> lifecycle_event \<Rightarrow> registry_error + unit" where
  "check_link i prior e =
     (if ev_seq e \<noteq> of_nat i then Inl (SeqGap (of_nat i) (ev_seq e))
      else if i = 0 then
        (case ev_prev_hash e of None \<Rightarrow> Inr () | Some _ \<Rightarrow> Inl (ChainGenesisInvalid (ev_seq e)))
      else
        (case ev_prev_hash e of
           None \<Rightarrow> Inl (ChainGenesisInvalid (ev_seq e))
         | Some link \<Rightarrow> if prior = Some link then Inr () else Inl (ChainBroken (ev_seq e))))"

fun walk_events ::
    "crypto \<Rightarrow> event_codecs \<Rightarrow> nat \<Rightarrow> hash32 option \<Rightarrow> lifecycle_event list \<Rightarrow> registry_error + unit" where
  "walk_events K E i prior [] = Inr ()"
| "walk_events K E i prior (e # es) =
     rbind (check_link i prior e) (\<lambda>_.
     rbind (verify_event_signature K E e) (\<lambda>_.
     rbind (chain_hash K E e) (\<lambda>h. walk_events K E (Suc i) (Some h) es)))"

definition last_state :: "lifecycle_event list \<Rightarrow> lifecycle_state option" where
  "last_state es = (if es = [] then None else Some (ev_new_state (last es)))"

definition current_state ::
    "crypto \<Rightarrow> event_codecs \<Rightarrow> lifecycle_event list \<Rightarrow> registry_error + lifecycle_state option" where
  "current_state K E es = rbind (walk_events K E 0 None es) (\<lambda>_. Inr (last_state es))"

section \<open>Building events\<close>

definition build_draft_event ::
    "crypto \<Rightarrow> event_codecs \<Rightarrow> hash32 \<Rightarrow> string \<Rightarrow> timestamp_token \<Rightarrow> registry_error + lifecycle_event" where
  "build_draft_event K E h kid ts =
     sign_event K E
       \<lparr>ev_artifact_hash = h, ev_seq = 0, ev_prior_state = None, ev_new_state = Draft,
        ev_kind = event_kind_of Draft, ev_authority_key_id = kid, ev_authority_role = RegistryRole,
        ev_timestamp = ts, ev_prev_hash = None, ev_signature = 0\<rparr>"

definition next_seq :: "32 word \<Rightarrow> registry_error + 32 word" where
  "next_seq s = (if s = - 1 then Inl RegistryPanic else Inr (s + 1))"

text \<open>The two builders differ in the new state and the kind.\<close>

definition build_chained_event ::
    "crypto \<Rightarrow> event_codecs \<Rightarrow> lifecycle_event \<Rightarrow> lifecycle_state \<Rightarrow> string \<Rightarrow> string \<Rightarrow> signer_role
     \<Rightarrow> timestamp_token \<Rightarrow> registry_error + lifecycle_event" where
  "build_chained_event K E prior new_state kind kid role ts =
     rbind (next_seq (ev_seq prior)) (\<lambda>seq.
     rbind (chain_hash K E prior) (\<lambda>link.
       sign_event K E
         \<lparr>ev_artifact_hash = ev_artifact_hash prior, ev_seq = seq,
          ev_prior_state = Some (ev_new_state prior), ev_new_state = new_state, ev_kind = kind,
          ev_authority_key_id = kid, ev_authority_role = role, ev_timestamp = ts,
          ev_prev_hash = Some link, ev_signature = 0\<rparr>))"

definition build_transition_event ::
    "crypto \<Rightarrow> event_codecs \<Rightarrow> lifecycle_event \<Rightarrow> lifecycle_state \<Rightarrow> string \<Rightarrow> signer_role
     \<Rightarrow> timestamp_token \<Rightarrow> registry_error + lifecycle_event" where
  "build_transition_event K E prior new_state kid role ts =
     build_chained_event K E prior new_state (event_kind_of new_state) kid role ts"

definition build_tag_moved_event ::
    "crypto \<Rightarrow> event_codecs \<Rightarrow> lifecycle_event \<Rightarrow> string \<Rightarrow> signer_role \<Rightarrow> timestamp_token
     \<Rightarrow> registry_error + lifecycle_event" where
  "build_tag_moved_event K E prior kid role ts =
     build_chained_event K E prior (ev_new_state prior) ''tag_moved'' kid role ts"

section \<open>Signatures and links\<close>

lemma event_codec_laws:
  assumes "event_codec_law E"
  shows "codec_law (pc_event_payload E)" "enc_event E e = event_bytes E e"
  using assms by (simp_all add: event_codec_law_def)

lemma event_encodes:
  assumes "event_codec_law E"
  obtains bs where "to_stdvec (pc_event_payload E) (event_payload.truncate e) = Inr bs"
    "enc_event E e = Inr (bs @ sig_bytes (ev_signature e))" "event_prefix E e = Inr bs"
proof -
  obtain bs where bs: "to_stdvec (pc_event_payload E) (event_payload.truncate e) = Inr bs"
    using codec_law_enc[OF event_codec_laws(1)[OF assms]] by blast
  have enc: "enc_event E e = Inr (bs @ sig_bytes (ev_signature e))"
    using bs by (simp add: event_codec_laws(2)[OF assms] event_bytes_def)
  then have "event_prefix E e = Inr bs"
    using codec_lawD[OF event_codec_laws(1)[OF assms] bs] by (simp add: event_prefix_def)
  then show ?thesis using that bs enc by blast
qed

lemma event_split:
  "event_payload.extend (event_payload.truncate e) (lifecycle_event.fields (ev_signature e)) = e"
  for e :: lifecycle_event
  by (cases e) (simp add: event_payload.defs lifecycle_event.defs)

lemma truncate_signature [simp]:
  "event_payload.truncate (e\<lparr>ev_signature := s\<rparr>) = event_payload.truncate (e :: lifecycle_event)"
  by (simp add: event_payload.defs)

definition registry_keys :: "crypto \<Rightarrow> bool" where
  "registry_keys K \<longleftrightarrow> crypto_law K \<and> ed_public K REGISTRY_ROOT_SEED = REGISTRY_ROOT_PUBLIC_KEY"

lemma registry_keys_verify:
  assumes "registry_keys K"
  shows "ed_point K REGISTRY_ROOT_PUBLIC_KEY"
    "ed_verify K REGISTRY_ROOT_PUBLIC_KEY bs (ed_sign K REGISTRY_ROOT_SEED bs)"
  using assms unfolding registry_keys_def crypto_law_def by metis+

lemma sign_event_verifies:
  assumes "event_codec_law E" "registry_keys K"
  obtains s where "sign_event K E e = Inr (e\<lparr>ev_signature := s\<rparr>)"
    "verify_event_signature K E (e\<lparr>ev_signature := s\<rparr>) = Inr ()"
proof -
  obtain bs where prefix: "event_prefix E e = Inr bs"
    and bs: "to_stdvec (pc_event_payload E) (event_payload.truncate e) = Inr bs"
    by (rule event_encodes[OF assms(1)])
  let ?e = "e\<lparr>ev_signature := ed_sign K REGISTRY_ROOT_SEED bs\<rparr>"
  obtain bs' where prefix': "event_prefix E ?e = Inr bs'"
    and bs': "to_stdvec (pc_event_payload E) (event_payload.truncate ?e) = Inr bs'"
    by (rule event_encodes[OF assms(1), where e = ?e])
  have "bs' = bs" using bs bs' by simp
  then have "verify_event_signature K E ?e = Inr ()"
    using prefix' registry_keys_verify[OF assms(2)]
    by (simp add: verify_event_signature_def ensure_def)
  then show ?thesis using that prefix by (simp add: sign_event_def)
qed

lemma chain_hash_total:
  assumes "event_codec_law E"
  shows "\<exists>h. chain_hash K E e = Inr h"
proof -
  obtain bs where "enc_event E e = Inr (bs @ sig_bytes (ev_signature e))"
    by (rule event_encodes[OF assms])
  then show ?thesis by (simp add: chain_hash_def canonical_bytes_def)
qed

section \<open>Accepted logs\<close>

definition valid_log :: "crypto \<Rightarrow> event_codecs \<Rightarrow> lifecycle_event list \<Rightarrow> bool" where
  "valid_log K E es \<longleftrightarrow> walk_events K E 0 None es = Inr ()"

definition head_link :: "crypto \<Rightarrow> event_codecs \<Rightarrow> lifecycle_event list \<Rightarrow> hash32 option" where
  "head_link K E es =
     (if es = [] then None else case chain_hash K E (last es) of Inr h \<Rightarrow> Some h | Inl _ \<Rightarrow> None)"

lemma current_state_valid: "valid_log K E es \<Longrightarrow> current_state K E es = Inr (last_state es)"
  by (simp add: valid_log_def current_state_def)

lemma current_state_Inr: "current_state K E es = Inr st \<longleftrightarrow> valid_log K E es \<and> st = last_state es"
  by (cases "walk_events K E 0 None es") (auto simp: valid_log_def current_state_def)

definition link_ok :: "nat \<Rightarrow> hash32 option \<Rightarrow> lifecycle_event \<Rightarrow> bool" where
  "link_ok i prior e \<longleftrightarrow> ev_seq e = of_nat i
     \<and> (if i = 0 then ev_prev_hash e = None else prior \<noteq> None \<and> ev_prev_hash e = prior)"

lemma check_link_Inr [results]: "check_link i prior e = Inr () \<longleftrightarrow> link_ok i prior e"
  by (auto simp: check_link_def link_ok_def split: option.splits if_splits)

lemma walk_append:
  assumes "event_codec_law E"
  shows "walk_events K E i prior (es @ [e]) = Inr () \<longleftrightarrow>
    walk_events K E i prior es = Inr ()
    \<and> link_ok (i + length es) (if es = [] then prior else head_link K E es) e
    \<and> verify_event_signature K E e = Inr ()"
proof (induction es arbitrary: i prior)
  case Nil
  show ?case using chain_hash_total[OF assms, of K e] by (auto simp: results rbind_eq_Inr)
next
  case (Cons x xs)
  obtain h where h: "chain_hash K E x = Inr h" using chain_hash_total[OF assms] by blast
  have link: "(if xs = [] then Some h else head_link K E xs) = head_link K E (x # xs)"
    by (simp add: head_link_def h)
  show ?case
    using Cons.IH[of "Suc i" "Some h"] link by (auto simp: rbind_eq_Inr h)
qed

lemma valid_log_snoc:
  assumes "event_codec_law E"
  shows "valid_log K E (es @ [e]) \<longleftrightarrow>
    valid_log K E es \<and> link_ok (length es) (head_link K E es) e \<and> verify_event_signature K E e = Inr ()"
  using walk_append[OF assms, of K 0 None es e] by (cases "es = []") (simp_all add: valid_log_def head_link_def)

lemma valid_log_Nil [simp]: "valid_log K E []"
  by (simp add: valid_log_def)

lemma last_state_snoc [simp]: "last_state (es @ [e]) = Some (ev_new_state e)"
  by (simp add: last_state_def)

lemma valid_log_seq:
  assumes "event_codec_law E" "valid_log K E es" "i < length es"
  shows "ev_seq (es ! i) = of_nat i"
  using assms(2,3)
proof (induction es rule: rev_induct)
  case (snoc x xs)
  then show ?case
    unfolding valid_log_snoc[OF assms(1)] by (cases "i = length xs") (auto simp: nth_append link_ok_def)
qed simp

section \<open>Built events extend the log\<close>

lemma draft_starts_log:
  assumes "event_codec_law E" "registry_keys K"
  obtains e where "build_draft_event K E h kid ts = Inr e" "valid_log K E [e]" "ev_new_state e = Draft"
    "ev_artifact_hash e = h" "ev_seq e = 0" "ev_kind e = ''draft''" "ev_prior_state e = None"
proof -
  let ?e = "\<lparr>ev_artifact_hash = h, ev_seq = 0, ev_prior_state = None, ev_new_state = Draft,
        ev_kind = event_kind_of Draft, ev_authority_key_id = kid, ev_authority_role = RegistryRole,
        ev_timestamp = ts, ev_prev_hash = None, ev_signature = 0\<rparr>"
  obtain s where s: "sign_event K E ?e = Inr (?e\<lparr>ev_signature := s\<rparr>)"
    "verify_event_signature K E (?e\<lparr>ev_signature := s\<rparr>) = Inr ()"
    by (rule sign_event_verifies[OF assms, where e = ?e])
  have "valid_log K E ([] @ [?e\<lparr>ev_signature := s\<rparr>])"
    unfolding valid_log_snoc[OF assms(1)] using s(2) by (simp add: link_ok_def)
  then show ?thesis
    using s(1) by (intro that[of "?e\<lparr>ev_signature := s\<rparr>"]) (simp_all add: build_draft_event_def)
qed

lemma chained_event_extends:
  assumes law: "event_codec_law E" "registry_keys K" and log: "valid_log K E es" "es \<noteq> []"
    and short: "length es < 2 ^ 32"
  obtains e where "build_chained_event K E (last es) ns kind kid role ts = Inr e" "valid_log K E (es @ [e])"
    "ev_new_state e = ns" "ev_kind e = kind" "ev_prior_state e = last_state es"
    "ev_artifact_hash e = ev_artifact_hash (last es)" "ev_seq e = of_nat (length es)"
proof -
  obtain h where h: "chain_hash K E (last es) = Inr h" using chain_hash_total[OF law(1)] by blast
  have len: "length es = Suc (length es - 1)" using log(2) by simp
  have seq: "ev_seq (last es) = of_nat (length es - 1)"
    using valid_log_seq[OF law(1) log(1), of "length es - 1"] log(2) by (simp add: last_conv_nth)
  have "unat (ev_seq (last es)) = length es - 1"
    using short by (simp add: seq unat_of_nat)
  moreover have "unat (- 1 :: 32 word) = 2 ^ 32 - 1" by (simp add: unsigned_minus_1_eq_mask mask_eq_exp_minus_1)
  moreover have "length es - 1 < 2 ^ 32 - 1" using short len by linarith
  ultimately have "ev_seq (last es) \<noteq> - 1" by (metis less_irrefl)
  then have next_seq: "next_seq (ev_seq (last es)) = Inr (of_nat (length es))"
    using seq len by (metis next_seq_def of_nat_Suc add.commute)
  let ?e = "\<lparr>ev_artifact_hash = ev_artifact_hash (last es), ev_seq = of_nat (length es),
          ev_prior_state = Some (ev_new_state (last es)), ev_new_state = ns, ev_kind = kind,
          ev_authority_key_id = kid, ev_authority_role = role, ev_timestamp = ts,
          ev_prev_hash = Some h, ev_signature = 0\<rparr>"
  obtain s where s: "sign_event K E ?e = Inr (?e\<lparr>ev_signature := s\<rparr>)"
    "verify_event_signature K E (?e\<lparr>ev_signature := s\<rparr>) = Inr ()"
    by (rule sign_event_verifies[OF law, where e = ?e])
  have "valid_log K E (es @ [?e\<lparr>ev_signature := s\<rparr>])"
    unfolding valid_log_snoc[OF law(1)] using s(2) log by (simp add: link_ok_def head_link_def h)
  then show ?thesis
    using s(1) log(2)
    by (intro that[of "?e\<lparr>ev_signature := s\<rparr>"])
      (simp_all add: build_chained_event_def next_seq h last_state_def)
qed

section \<open>Accepted logs by index\<close>

definition link_before :: "crypto \<Rightarrow> event_codecs \<Rightarrow> lifecycle_event list \<Rightarrow> nat \<Rightarrow> hash32 option" where
  "link_before K E es i = head_link K E (take i es)"

lemma valid_log_nth:
  assumes "event_codec_law E"
  shows "valid_log K E es \<longleftrightarrow>
    (\<forall>i<length es. ev_seq (es ! i) = of_nat i \<and> ev_prev_hash (es ! i) = link_before K E es i
       \<and> verify_event_signature K E (es ! i) = Inr ())"
proof (induction es rule: rev_induct)
  case (snoc x xs)
  have head: "head_link K E xs \<noteq> None \<longleftrightarrow> xs \<noteq> []"
    using chain_hash_total[OF assms, of K "last xs"] by (auto simp: head_link_def)
  have link: "link_ok (length xs) (head_link K E xs) x \<longleftrightarrow>
      ev_seq x = of_nat (length xs) \<and> ev_prev_hash x = head_link K E xs"
    using head by (cases "xs = []") (auto simp: link_ok_def head_link_def)
  have "(\<forall>i<length (xs @ [x]). ev_seq ((xs @ [x]) ! i) = of_nat i
      \<and> ev_prev_hash ((xs @ [x]) ! i) = link_before K E (xs @ [x]) i
      \<and> verify_event_signature K E ((xs @ [x]) ! i) = Inr ())
    \<longleftrightarrow> (\<forall>i<length xs. ev_seq (xs ! i) = of_nat i \<and> ev_prev_hash (xs ! i) = link_before K E xs i
          \<and> verify_event_signature K E (xs ! i) = Inr ())
      \<and> ev_seq x = of_nat (length xs) \<and> ev_prev_hash x = head_link K E xs
      \<and> verify_event_signature K E x = Inr ()"
    by (auto simp: less_Suc_eq nth_append link_before_def)
  then show ?case unfolding valid_log_snoc[OF assms] snoc.IH link by blast
qed simp

section \<open>Collisions\<close>

lemma event_bytes_inj:
  assumes "event_codec_law E" "enc_event E e = Inr bs" "enc_event E e' = Inr bs"
  shows "e = e'"
proof -
  obtain p where p: "to_stdvec (pc_event_payload E) (event_payload.truncate e) = Inr p"
    "enc_event E e = Inr (p @ sig_bytes (ev_signature e))"
    by (rule event_encodes[OF assms(1)])
  obtain p' where p': "to_stdvec (pc_event_payload E) (event_payload.truncate e') = Inr p'"
    "enc_event E e' = Inr (p' @ sig_bytes (ev_signature e'))"
    by (rule event_encodes[OF assms(1), where e = e'])
  have eq: "p @ sig_bytes (ev_signature e) = p' @ sig_bytes (ev_signature e')"
    using p(2) p'(2) assms(2,3) by simp
  note law = event_codec_laws(1)[OF assms(1)]
  have "(event_payload.truncate e, sig_bytes (ev_signature e))
      = (event_payload.truncate e', sig_bytes (ev_signature e'))"
    using codec_lawD[OF law p(1), of "sig_bytes (ev_signature e)"]
      codec_lawD[OF law p'(1), of "sig_bytes (ev_signature e')"] by (simp add: eq)
  then have "event_payload.truncate e = event_payload.truncate e'" "ev_signature e = ev_signature e'"
    using bytes_sig_sig_bytes by (metis prod.inject)+
  then show ?thesis using event_split by metis
qed

definition collision :: "crypto \<Rightarrow> bool" where
  "collision K \<longleftrightarrow> (\<exists>x y. x \<noteq> y \<and> blake3 K x = blake3 K y)"

lemma chain_hash_inj:
  assumes "event_codec_law E" "chain_hash K E e = chain_hash K E e'" "\<not> collision K"
  shows "e = e'"
proof -
  obtain b b' where b: "enc_event E e = Inr b" "enc_event E e' = Inr b'"
    using event_encodes[OF assms(1)] by metis
  then have "b = b'" using assms(2,3) by (auto simp: chain_hash_def canonical_bytes_def collision_def)
  then show ?thesis using event_bytes_inj[OF assms(1)] b by simp
qed

lemma equal_links_equal_logs:
  assumes law: "event_codec_law E" "\<not> collision K"
    and "valid_log K E es" "valid_log K E es'" "head_link K E es = head_link K E es'"
  shows "es = es'"
  using assms(3-5)
proof (induction es arbitrary: es' rule: rev_induct)
  case Nil
  then show ?case
    using chain_hash_total[OF law(1), of K "last es'"] by (auto simp: head_link_def split: if_splits)
next
  case (snoc x xs)
  obtain hx where hx: "chain_hash K E x = Inr hx" using chain_hash_total[OF law(1)] by blast
  then have "es' \<noteq> []" using snoc.prems(3) by (auto simp: head_link_def)
  then obtain xs' x' where es': "es' = xs' @ [x']" by (metis append_butlast_last_id)
  obtain hx' where hx': "chain_hash K E x' = Inr hx'" using chain_hash_total[OF law(1)] by blast
  have x: "x = x'"
    by (rule chain_hash_inj[OF law(1) _ law(2)]) (use snoc.prems(3) hx hx' es' in \<open>simp add: head_link_def\<close>)
  note valid = snoc.prems(1,2)[unfolded es' valid_log_snoc[OF law(1)]]
  have "head_link K E xs = head_link K E xs'"
    using valid x unfolding link_ok_def head_link_def
    using chain_hash_total[OF law(1)]
    by (cases "xs = []"; cases "xs' = []") (auto split: sum.splits if_splits)
  then show ?case using snoc.IH[of xs'] valid x es' by blast
qed

section \<open>Concrete codecs and keys\<close>

instance lifecycle_state :: countable by countable_datatype

instance event_payload_ext :: (countable) countable
  by (standard, rule countable_by_key[of "\<lambda>r. (ev_artifact_hash r, ev_seq r, ev_prior_state r,
    ev_new_state r, ev_kind r, ev_authority_key_id r, ev_authority_role r, ev_timestamp r,
    ev_prev_hash r, event_payload.more r)"]) (simp add: event_payload.equality)

definition sample_event_base :: event_codecs where
  "sample_event_base = \<lparr>pc_event_payload = unary_codec, enc_event = (\<lambda>_. Inr [])\<rparr>"

definition sample_event_codecs :: event_codecs where
  "sample_event_codecs = sample_event_base\<lparr>enc_event := event_bytes sample_event_base\<rparr>"

lemma sample_event_law: "event_codec_law sample_event_codecs"
  by (simp add: event_codec_law_def sample_event_codecs_def sample_event_base_def codec_law_unary
      event_bytes_def[abs_def])

text \<open>The toy cryptography with both fixed key pairs pinned.\<close>

definition toy_public :: "hash32 \<Rightarrow> hash32" where
  "toy_public sk = (if sk = MOCK_TSA_SEED then MOCK_TSA_PUBLIC_KEY
     else if sk = REGISTRY_ROOT_SEED then REGISTRY_ROOT_PUBLIC_KEY else sk)"

definition root_crypto :: crypto where
  "root_crypto = sum_crypto\<lparr>ed_public := toy_public,
     ed_sign := (\<lambda>sk m. ed_sign sum_crypto (toy_public sk) m)\<rparr>"

lemma seeds_differ: "REGISTRY_ROOT_SEED \<noteq> MOCK_TSA_SEED"
  by code_simp

lemma root_crypto_keys:
  "registry_keys root_crypto" "crypto_law root_crypto"
  "ed_public root_crypto MOCK_TSA_SEED = MOCK_TSA_PUBLIC_KEY"
  using seeds_differ
  by (simp_all add: registry_keys_def crypto_law_def root_crypto_def sum_crypto_def toy_public_def)

section \<open>Properties\<close>

text \<open>a log is accepted exactly when its sequence numbers count from zero, the first event
  has no predecessor link, every later one carries the digest of the canonical bytes of the
  event before it, signature included, and every event is signed by the registry root; the
  state is then that of the last event.\<close>

theorem current_state_accepts_iff:
  assumes "event_codec_law E"
  shows "current_state K E es = Inr st \<longleftrightarrow>
    (\<forall>i<length es. ev_seq (es ! i) = of_nat i \<and> ev_prev_hash (es ! i) = link_before K E es i
       \<and> verify_event_signature K E (es ! i) = Inr ())
    \<and> st = last_state es"
  unfolding current_state_Inr valid_log_nth[OF assms] ..

lemma current_state_accepts_iff_witness:
  "\<exists>e. build_draft_event root_crypto sample_event_codecs 7 ''k'' (stamp root_crypto 7 1) = Inr e
    \<and> current_state root_crypto sample_event_codecs [e] = Inr (Some Draft)"
proof -
  obtain e where e: "build_draft_event root_crypto sample_event_codecs 7 ''k'' (stamp root_crypto 7 1) = Inr e"
    "valid_log root_crypto sample_event_codecs [e]" "ev_new_state e = Draft"
    by (rule draft_starts_log[OF sample_event_law root_crypto_keys(1)])
  have "current_state root_crypto sample_event_codecs [e] = Inr (Some Draft)"
    using e(2) valid_log_nth[OF sample_event_law, of root_crypto "[e]"]
    unfolding current_state_accepts_iff[OF sample_event_law] by (simp add: last_state_def e(3))
  then show ?thesis using e(1) by blast
qed

text \<open>the chain is tamper evident: two accepted logs with the same head link are the same log,
  event by event, unless the digest maps two different byte strings to one value.\<close>

theorem equal_heads_equal_logs:
  assumes "event_codec_law E"
    and "current_state K E es = Inr st" "current_state K E es' = Inr st'"
    and "head_link K E es = head_link K E es'"
  shows "es = es' \<or> (\<exists>x y. x \<noteq> y \<and> blake3 K x = blake3 K y)"
  using equal_links_equal_logs[OF assms(1)] assms(2-4)
  by (auto simp: current_state_Inr collision_def)

lemma equal_heads_equal_logs_witness:
  "\<exists>d. current_state root_crypto sample_event_codecs [d] = Inr (Some Draft)
    \<and> ([d] = [d] \<or> (\<exists>x y. x \<noteq> y \<and> blake3 root_crypto x = blake3 root_crypto y))"
proof -
  obtain d where d: "valid_log root_crypto sample_event_codecs [d]" "ev_new_state d = Draft"
    by (rule draft_starts_log[OF sample_event_law root_crypto_keys(1),
          where h = 7 and kid = "''k''" and ts = "stamp root_crypto 7 1"])
  then have cs: "current_state root_crypto sample_event_codecs [d] = Inr (Some Draft)"
    by (simp add: current_state_Inr last_state_def)
  show ?thesis using equal_heads_equal_logs[OF sample_event_law cs cs refl] cs by blast
qed

text \<open>an event the registry builds onto an accepted log is accepted: the longer log is in the
  new state, and the event records the previous one, for every log short enough for its
  32-bit sequence number.\<close>

theorem built_event_extends_log:
  assumes "event_codec_law E" "registry_keys K"
    and "current_state K E es = Inr (Some st)" "length es < 2 ^ 32"
  shows "\<exists>e. build_transition_event K E (last es) ns kid role ts = Inr e
    \<and> current_state K E (es @ [e]) = Inr (Some ns) \<and> ev_prior_state e = Some st
    \<and> ev_artifact_hash e = ev_artifact_hash (last es)"
proof -
  have log: "valid_log K E es" "es \<noteq> []" "last_state es = Some st"
    using assms(3) by (auto simp: current_state_Inr last_state_def split: if_splits)
  show ?thesis
    by (rule chained_event_extends[OF assms(1,2) log(1,2) assms(4),
          where ns = ns and kind = "event_kind_of ns" and kid = kid and role = role and ts = ts])
      (auto simp: build_transition_event_def current_state_Inr log(3))
qed

lemma built_event_extends_log_witness:
  "\<exists>d e. current_state root_crypto sample_event_codecs [d] = Inr (Some Draft)
    \<and> build_transition_event root_crypto sample_event_codecs (last [d]) StructurallyVerified ''k''
        RegistryRole (stamp root_crypto 7 1) = Inr e
    \<and> current_state root_crypto sample_event_codecs ([d] @ [e]) = Inr (Some StructurallyVerified)"
proof -
  obtain d where d: "valid_log root_crypto sample_event_codecs [d]" "ev_new_state d = Draft"
    by (rule draft_starts_log[OF sample_event_law root_crypto_keys(1),
          where h = 7 and kid = "''k''" and ts = "stamp root_crypto 7 1"])
  then have cs: "current_state root_crypto sample_event_codecs [d] = Inr (Some Draft)"
    by (simp add: current_state_Inr last_state_def)
  show ?thesis
    using built_event_extends_log[OF sample_event_law root_crypto_keys(1) cs] cs by fastforce
qed

end
