(* ===== verification/Action.thy ===== *)
theory Action
  imports Prelude
begin

text \<open>
  Stateful, fallible operations: a function from a state to a result and the state it left
  behind. The state is kept on an error, so a write that happened before a failure stays
  visible. \<open>triple\<close> is the partial-correctness triple with a condition for each exit; the rules
  are applied backwards along a command, and every action here terminates by construction.
\<close>

type_synonym ('s, 'e, 'a) action = "'s \<Rightarrow> ('e + 'a) \<times> 's"

definition ret :: "'a \<Rightarrow> ('s, 'e, 'a) action" where
  "ret x = (\<lambda>s. (Inr x, s))"

definition throw :: "'e \<Rightarrow> ('s, 'e, 'a) action" where
  "throw e = (\<lambda>s. (Inl e, s))"

definition lift :: "'e + 'a \<Rightarrow> ('s, 'e, 'a) action" where
  "lift r = (\<lambda>s. (r, s))"

definition modify :: "('s \<Rightarrow> 's) \<Rightarrow> ('s, 'e, unit) action" where
  "modify f = (\<lambda>s. (Inr (), f s))"

definition gets :: "('s \<Rightarrow> 'a) \<Rightarrow> ('s, 'e, 'a) action" where
  "gets f = (\<lambda>s. (Inr (f s), s))"

definition abind :: "('s, 'e, 'a) action \<Rightarrow> ('a \<Rightarrow> ('s, 'e, 'b) action) \<Rightarrow> ('s, 'e, 'b) action" where
  "abind m f = (\<lambda>s. case m s of (Inl e, t) \<Rightarrow> (Inl e, t) | (Inr x, t) \<Rightarrow> f x t)"

definition guard :: "bool \<Rightarrow> 'e \<Rightarrow> ('s, 'e, unit) action" where
  "guard b e = (if b then ret () else throw e)"

text \<open>The conversion \<open>?\<close> performs on an error.\<close>

definition with_error :: "('e \<Rightarrow> 'f) \<Rightarrow> ('s, 'e, 'a) action \<Rightarrow> ('s, 'f, 'a) action" where
  "with_error g m = (\<lambda>s. case m s of (r, t) \<Rightarrow> (map_err g r, t))"

fun each :: "('a \<Rightarrow> ('s, 'e, 'b) action) \<Rightarrow> 'a list \<Rightarrow> ('s, 'e, 'b list) action" where
  "each f [] = ret []"
| "each f (x # xs) = abind (f x) (\<lambda>y. abind (each f xs) (\<lambda>ys. ret (y # ys)))"

lemma action_simps [simp]:
  "ret x s = (Inr x, s)" "throw e s = (Inl e, s)" "lift r s = (r, s)" "modify f s = (Inr (), f s)"
  "gets g s = (Inr (g s), s)"
  by (simp_all add: ret_def throw_def lift_def modify_def gets_def)

lemma abind_cong [fundef_cong]:
  "\<lbrakk>m = m'; \<And>x s t. m' s = (Inr x, t) \<Longrightarrow> f x t = g x t\<rbrakk> \<Longrightarrow> abind m f = abind m' g"
  by (auto simp: abind_def fun_eq_iff split: sum.splits prod.splits)

section \<open>Triples\<close>

definition triple ::
    "('s \<Rightarrow> bool) \<Rightarrow> ('s, 'e, 'a) action \<Rightarrow> ('a \<Rightarrow> 's \<Rightarrow> bool) \<Rightarrow> ('e \<Rightarrow> 's \<Rightarrow> bool) \<Rightarrow> bool" where
  "triple P m Q F \<longleftrightarrow> (\<forall>s. P s \<longrightarrow> (case m s of (Inr x, t) \<Rightarrow> Q x t | (Inl e, t) \<Rightarrow> F e t))"

lemma triple_iff:
  "triple P m Q F \<longleftrightarrow> (\<forall>s x t. P s \<longrightarrow> m s = (Inr x, t) \<longrightarrow> Q x t)
    \<and> (\<forall>s e t. P s \<longrightarrow> m s = (Inl e, t) \<longrightarrow> F e t)"
proof -
  have exits: "(case m s of (Inr x, t) \<Rightarrow> Q x t | (Inl e, t) \<Rightarrow> F e t) \<longleftrightarrow>
      (\<forall>x t. m s = (Inr x, t) \<longrightarrow> Q x t) \<and> (\<forall>e t. m s = (Inl e, t) \<longrightarrow> F e t)" for s
  proof -
    obtain r u where "m s = (r, u)" by (cases "m s")
    then show ?thesis by (cases r) simp_all
  qed
  show ?thesis unfolding triple_def exits by blast
qed

lemma tripleD_ok: "triple P m Q F \<Longrightarrow> P s \<Longrightarrow> m s = (Inr x, t) \<Longrightarrow> Q x t"
  unfolding triple_iff by blast

lemma tripleD_err: "triple P m Q F \<Longrightarrow> P s \<Longrightarrow> m s = (Inl e, t) \<Longrightarrow> F e t"
  unfolding triple_iff by blast

lemma triple_ret: "(\<And>s. P s \<Longrightarrow> Q x s) \<Longrightarrow> triple P (ret x) Q F"
  by (simp add: triple_def)

lemma triple_throw: "(\<And>s. P s \<Longrightarrow> F e s) \<Longrightarrow> triple P (throw e) Q F"
  by (simp add: triple_def)

lemma triple_lift:
  "(\<And>x s. r = Inr x \<Longrightarrow> P s \<Longrightarrow> Q x s) \<Longrightarrow> (\<And>e s. r = Inl e \<Longrightarrow> P s \<Longrightarrow> F e s) \<Longrightarrow> triple P (lift r) Q F"
  by (cases r) (auto simp: triple_def)

lemma triple_modify: "(\<And>s. P s \<Longrightarrow> Q () (f s)) \<Longrightarrow> triple P (modify f) Q F"
  by (simp add: triple_def)

lemma triple_gets: "(\<And>s. P s \<Longrightarrow> Q (g s) s) \<Longrightarrow> triple P (gets g) Q F"
  by (simp add: triple_def)

lemma triple_guard:
  "(\<And>s. P s \<Longrightarrow> b \<Longrightarrow> Q () s) \<Longrightarrow> (\<And>s. P s \<Longrightarrow> \<not> b \<Longrightarrow> F e s) \<Longrightarrow> triple P (guard b e) Q F"
  by (simp add: triple_def guard_def)

lemma abind_cases:
  "abind m f s = (Inr y, u) \<longleftrightarrow> (\<exists>x t. m s = (Inr x, t) \<and> f x t = (Inr y, u))"
  "abind m f s = (Inl e, u) \<longleftrightarrow> m s = (Inl e, u) \<or> (\<exists>x t. m s = (Inr x, t) \<and> f x t = (Inl e, u))"
  by (cases "m s"; cases "fst (m s)"; auto simp: abind_def)+

lemma gets_bind [simp]: "abind (gets g) m s = m (g s) s"
  by (simp add: abind_def)

lemma triple_bind:
  assumes "triple P m R F" "\<And>x. triple (R x) (f x) Q F"
  shows "triple P (abind m f) Q F"
  using assms unfolding triple_iff abind_cases by blast

lemma triple_if:
  "(b \<Longrightarrow> triple P m Q F) \<Longrightarrow> (\<not> b \<Longrightarrow> triple P n Q F) \<Longrightarrow> triple P (if b then m else n) Q F"
  by simp

lemma triple_weaken:
  assumes "triple P m Q F" "\<And>s. P' s \<Longrightarrow> P s" "\<And>x s. Q x s \<Longrightarrow> Q' x s" "\<And>e s. F e s \<Longrightarrow> F' e s"
  shows "triple P' m Q' F'"
  using assms unfolding triple_iff by blast

lemma with_error_cases:
  "with_error g m s = (Inr x, t) \<longleftrightarrow> m s = (Inr x, t)"
  "with_error g m s = (Inl e, t) \<longleftrightarrow> (\<exists>d. m s = (Inl d, t) \<and> e = g d)"
  by (cases "m s"; cases "fst (m s)"; auto simp: with_error_def)+

lemma triple_with_error:
  "triple P m Q (\<lambda>e. F (g e)) \<Longrightarrow> triple P (with_error g m) Q F"
  unfolding triple_iff with_error_cases by blast

lemma triple_assume: "(\<And>s. P s \<Longrightarrow> triple ((=) s) m Q F) \<Longrightarrow> triple P m Q F"
  unfolding triple_iff by blast

lemma triple_pure: "(C \<Longrightarrow> triple P m Q F) \<Longrightarrow> triple (\<lambda>s. C \<and> P s) m Q F"
  unfolding triple_iff by blast

lemma triple_each_rel:
  assumes "\<And>x. x \<in> set xs \<Longrightarrow> triple P (f x) (\<lambda>y s. P s \<and> rel x y) F"
  shows "triple P (each f xs) (\<lambda>ys s. P s \<and> list_all2 rel xs ys) F"
  using assms
proof (induction xs)
  case (Cons x xs)
  have tail: "triple P (each f xs) (\<lambda>ys s. P s \<and> list_all2 rel xs ys) F"
    using Cons by (meson list.set_intros(2))
  show ?case
    unfolding each.simps
  proof (rule triple_bind)
    show "triple P (f x) (\<lambda>y s. P s \<and> rel x y) F" using Cons.prems by simp
    show "triple (\<lambda>s. P s \<and> rel x y) (abind (each f xs) (\<lambda>ys. ret (y # ys)))
        (\<lambda>ys s. P s \<and> list_all2 rel (x # xs) ys) F" for y
    proof (rule triple_bind)
      show "triple (\<lambda>s. P s \<and> rel x y) (each f xs) (\<lambda>ys s. (P s \<and> rel x y) \<and> list_all2 rel xs ys) F"
        using tail unfolding triple_iff by blast
    qed (auto intro: triple_ret)
  qed
qed (auto intro: triple_ret)

lemma list_all2_map: "list_all2 (\<lambda>x y. g x = y) xs ys \<longleftrightarrow> ys = map g xs"
  by (induction xs arbitrary: ys) (auto simp: list_all2_Cons1)

lemma triple_each:
  assumes "\<And>x. x \<in> set xs \<Longrightarrow> triple P (f x) (\<lambda>y s. P s \<and> g x = y) F"
  shows "triple P (each f xs) (\<lambda>ys s. P s \<and> ys = map g xs) F"
  using triple_each_rel[where rel = "\<lambda>x y. g x = y", OF assms] by (simp add: list_all2_map)

end
