(* ===== verification/Registry_Backend.thy ===== *)
theory Registry_Backend
  imports Registry_Event Action "HOL-Library.AList"
begin

text \<open>
  The storage seam of the registry and its local file-system implementation
  (\<open>src/crates/ke-cli/src/registry/backend.rs\<close>). The trait is a record of operations. The
  file system is a record of the objects under the root; every system call first consumes an
  outcome of \<open>st_io\<close>, so any operation may fail at any call (an exhausted list means success).
  A write is atomic: it fails before it changes the object. JSON written by the backend reads
  back as the value written. The locale \<open>registry_backend\<close> states what the commands rely on, over
  an abstract view of the objects; the local backend is its interpretation.
\<close>

section \<open>Objects\<close>

record revocation_record =
  rr_policy :: revocation_policy
  rr_reason :: "string option"
  rr_event_ref :: string
  rr_severity :: string
  rr_reason_class :: "revocation_reason_class option"

record tag_pointer =
  tp_env :: string
  tp_tag :: string
  tp_target_hash_hex :: string
  tp_event_ref :: string

text \<open>\<open>u8::from_str_radix(.., 16)\<close> on two characters also accepts a leading \<open>+\<close>.\<close>

definition radix16_pair :: "char \<Rightarrow> char \<Rightarrow> 8 word option" where
  "radix16_pair a b =
     (if a = CHR ''+'' then map_option word_of_int (hex_value b)
      else case (hex_value a, hex_value b) of
        (Some x, Some y) \<Rightarrow> Some (word_of_int (16 * x + y))
      | _ \<Rightarrow> None)"

text \<open>A byte inside a multi-byte character of UTF-8: no string may be sliced before it.\<close>

definition continuation_byte :: "char \<Rightarrow> bool" where
  "continuation_byte c = (128 \<le> (of_char c :: int) \<and> (of_char c :: int) < 192)"

text \<open>\<open>hex[i * 2..i * 2 + 2]\<close> panics when an end of the range is inside a character.\<close>

fun hex_pairs :: "string \<Rightarrow> string \<Rightarrow> registry_error + bytes" where
  "hex_pairs hex [] = Inr []"
| "hex_pairs hex [c] = Inl RegistryPanic"
| "hex_pairs hex (a # b # cs) =
     (if continuation_byte a \<or> (cs \<noteq> [] \<and> continuation_byte (hd cs)) then Inl RegistryPanic
      else case radix16_pair a b of
        None \<Rightarrow> Inl (BadHashHex hex)
      | Some x \<Rightarrow> rmap ((#) x) (hex_pairs hex cs))"

definition hex_to_hash :: "string \<Rightarrow> registry_error + hash32" where
  "hex_to_hash s =
     (if length s \<noteq> 64 then Inl (BadHashHex s) else rmap bytes_hash (hex_pairs s s))"

definition target_hash :: "tag_pointer \<Rightarrow> registry_error + hash32" where
  "target_hash p = hex_to_hash (tp_target_hash_hex p)"

text \<open>\<open>{seq:04}-{kind}.json\<close>\<close>

definition pad_left :: "nat \<Rightarrow> string \<Rightarrow> string" where
  "pad_left n s = replicate (n - length s) (CHR ''0'') @ s"

definition event_file_name :: "32 word \<Rightarrow> string \<Rightarrow> string" where
  "event_file_name seq kind = pad_left 4 (nat_digits (uint seq)) @ ''-'' @ kind @ ''.json''"

section \<open>The trait\<close>

type_synonym ('s, 'a) registry_action = "('s, registry_error, 'a) action"

record 's backend =
  be_put_artifact :: "hash32 \<Rightarrow> bytes \<Rightarrow> string \<Rightarrow> string \<Rightarrow> ('s, unit) registry_action"
  be_append_event :: "hash32 \<Rightarrow> lifecycle_event \<Rightarrow> ('s, unit) registry_action"
  be_read_artifact_kew :: "hash32 \<Rightarrow> ('s, bytes) registry_action"
  be_read_events :: "hash32 \<Rightarrow> ('s, lifecycle_event list) registry_action"
  be_put_pointer :: "string \<Rightarrow> string \<Rightarrow> hash32 \<Rightarrow> string \<Rightarrow> ('s, unit) registry_action"
  be_read_pointer :: "string \<Rightarrow> string \<Rightarrow> ('s, tag_pointer option) registry_action"
  be_list_manifests :: "('s, (hash32 \<times> manifest) list) registry_action"
  be_list_addresses :: "('s, hash32 list) registry_action"
  be_put_consistency :: "hash32 \<Rightarrow> consistency_block \<Rightarrow> ('s, unit) registry_action"
  be_read_consistency :: "hash32 \<Rightarrow> ('s, consistency_block option) registry_action"
  be_put_revocation :: "hash32 \<Rightarrow> revocation_record \<Rightarrow> ('s, unit) registry_action"
  be_read_revocation :: "hash32 \<Rightarrow> ('s, revocation_record option) registry_action"

section \<open>The local file system\<close>

record fs_store =
  st_io :: "bool list"
  st_artifacts_dir :: bool
  st_kew :: "(hash32 \<times> bytes) list"
  st_manifest_json :: "(hash32 \<times> string) list"
  st_schema_json :: "(hash32 \<times> string) list"
  st_event_dirs :: "hash32 list"
  st_events :: "(hash32 \<times> (string \<times> lifecycle_event)) list"
  st_pointers :: "((string \<times> string) \<times> tag_pointer) list"
  st_consistency :: "(hash32 \<times> consistency_block) list"
  st_revocations :: "(hash32 \<times> revocation_record) list"

definition io :: "string \<Rightarrow> (fs_store, unit) registry_action" where
  "io what = (\<lambda>s. case st_io s of
     [] \<Rightarrow> (Inr (), s)
   | b # bs \<Rightarrow> (if b then Inr () else Inl (RegistryIo what), s\<lparr>st_io := bs\<rparr>))"

definition fs_put_artifact ::
    "hash32 \<Rightarrow> bytes \<Rightarrow> string \<Rightarrow> string \<Rightarrow> (fs_store, unit) registry_action" where
  "fs_put_artifact h kew manifest_json schema_json =
     abind (io ''create artifact dir'') (\<lambda>_.
     abind (modify (\<lambda>s. s\<lparr>st_artifacts_dir := True\<rparr>)) (\<lambda>_.
     abind (io ''write artifact.kew'') (\<lambda>_.
     abind (modify (\<lambda>s. s\<lparr>st_kew := AList.update h kew (st_kew s)\<rparr>)) (\<lambda>_.
     abind (io ''write manifest.json'') (\<lambda>_.
     abind (modify (\<lambda>s. s\<lparr>st_manifest_json := AList.update h manifest_json (st_manifest_json s)\<rparr>)) (\<lambda>_.
     abind (io ''write schema.json'') (\<lambda>_.
       modify (\<lambda>s. s\<lparr>st_schema_json := AList.update h schema_json (st_schema_json s)\<rparr>))))))))"

definition event_files :: "fs_store \<Rightarrow> hash32 \<Rightarrow> (string \<times> lifecycle_event) list" where
  "event_files s h = map snd (filter (\<lambda>f. fst f = h) (st_events s))"

definition fs_append_event :: "hash32 \<Rightarrow> lifecycle_event \<Rightarrow> (fs_store, unit) registry_action" where
  "fs_append_event h e =
     abind (io ''create events dir'') (\<lambda>_.
     abind (modify (\<lambda>s. s\<lparr>st_event_dirs := List.insert h (st_event_dirs s)\<rparr>)) (\<lambda>_.
     let name = event_file_name (ev_seq e) (ev_kind e) in
     abind (gets (\<lambda>s. name \<in> set (map fst (event_files s h)))) (\<lambda>exists.
     if exists then throw (EventExists (ev_seq e))
     else
     abind (io ''write event'') (\<lambda>_.
       modify (\<lambda>s. s\<lparr>st_events := st_events s @ [(h, name, e)]\<rparr>)))))"

definition fs_read_artifact_kew :: "hash32 \<Rightarrow> (fs_store, bytes) registry_action" where
  "fs_read_artifact_kew h =
     abind (gets (\<lambda>s. map_of (st_kew s) h)) (\<lambda>found.
     case found of
       None \<Rightarrow> throw (NotFound (''by-hash:'' @ hex32 h))
     | Some kew \<Rightarrow> abind (io ''read artifact.kew'') (\<lambda>_. ret kew))"

definition fs_read_events :: "hash32 \<Rightarrow> (fs_store, lifecycle_event list) registry_action" where
  "fs_read_events h =
     abind (gets (\<lambda>s. h \<in> set (st_event_dirs s))) (\<lambda>exists.
     if \<not> exists then ret []
     else
     abind (io ''read events dir'') (\<lambda>_.
     abind (gets (\<lambda>s. event_files s h)) (\<lambda>files.
     abind (each (\<lambda>f. abind (io ''read event entry'') (\<lambda>_. ret f)) files) (\<lambda>files.
     abind (each (\<lambda>(_, e). abind (io ''read event'') (\<lambda>_. ret e)) (sort_key fst files)) (\<lambda>events.
       ret (sort_key ev_seq events))))))"

definition fs_put_pointer ::
    "string \<Rightarrow> string \<Rightarrow> hash32 \<Rightarrow> string \<Rightarrow> (fs_store, unit) registry_action" where
  "fs_put_pointer env tag target event_ref =
     abind (io ''create tags dir'') (\<lambda>_.
     abind (io ''write tag pointer'') (\<lambda>_.
       modify (\<lambda>s. s\<lparr>st_pointers := AList.update (env, tag)
         \<lparr>tp_env = env, tp_tag = tag, tp_target_hash_hex = hex32 target, tp_event_ref = event_ref\<rparr>
         (st_pointers s)\<rparr>)))"

text \<open>The four reads of an optional object: absent is \<open>None\<close> with no system call.\<close>

definition fs_read_optional ::
    "(fs_store \<Rightarrow> 'v option) \<Rightarrow> string \<Rightarrow> (fs_store, 'v option) registry_action" where
  "fs_read_optional find_object what =
     abind (gets find_object) (\<lambda>found.
     case found of None \<Rightarrow> ret None | Some v \<Rightarrow> abind (io what) (\<lambda>_. ret (Some v)))"

definition fs_read_pointer :: "string \<Rightarrow> string \<Rightarrow> (fs_store, tag_pointer option) registry_action" where
  "fs_read_pointer env tag = fs_read_optional (\<lambda>s. map_of (st_pointers s) (env, tag)) ''read tag pointer''"

definition fs_list_manifests ::
    "canon_lib \<Rightarrow> artifact_codecs \<Rightarrow> (fs_store, (hash32 \<times> manifest) list) registry_action" where
  "fs_list_manifests L A =
     abind (gets (\<lambda>s. (st_artifacts_dir s, st_kew s))) (\<lambda>(exists, entries).
     if \<not> exists then ret []
     else
     abind (io ''read artifacts dir'') (\<lambda>_.
     abind (each (\<lambda>(_, kew).
         abind (io ''read artifact entry'') (\<lambda>_.
         abind (io ''read artifact.kew'') (\<lambda>_.
         abind (lift (map_err ArtifactDecode (decode_artifact L A kew))) (\<lambda>(a, _).
           ret (artifact_hash (art_manifest a), art_manifest a))))) entries) (\<lambda>out.
       ret (sort_key fst out))))"

definition fs_list_addresses :: "(fs_store, hash32 list) registry_action" where
  "fs_list_addresses =
     abind (gets (\<lambda>s. (st_artifacts_dir s, st_kew s))) (\<lambda>(exists, entries).
     if \<not> exists then ret []
     else
     abind (io ''read artifacts dir'') (\<lambda>_.
     abind (each (\<lambda>(h, _). abind (io ''read artifact entry'') (\<lambda>_. ret h)) entries) (\<lambda>out.
       ret (sort out))))"

definition fs_put_consistency :: "hash32 \<Rightarrow> consistency_block \<Rightarrow> (fs_store, unit) registry_action" where
  "fs_put_consistency h block =
     abind (gets (\<lambda>s. map_of (st_consistency s) h \<noteq> None)) (\<lambda>exists.
     if exists then throw (SidecarExists ''consistency'')
     else
     abind (io ''create consistency dir'') (\<lambda>_.
     abind (io ''write consistency sidecar'') (\<lambda>_.
       modify (\<lambda>s. s\<lparr>st_consistency := AList.update h block (st_consistency s)\<rparr>))))"

definition fs_read_consistency :: "hash32 \<Rightarrow> (fs_store, consistency_block option) registry_action" where
  "fs_read_consistency h = fs_read_optional (\<lambda>s. map_of (st_consistency s) h) ''read consistency sidecar''"

definition fs_put_revocation :: "hash32 \<Rightarrow> revocation_record \<Rightarrow> (fs_store, unit) registry_action" where
  "fs_put_revocation h r =
     abind (gets (\<lambda>s. map_of (st_revocations s) h \<noteq> None)) (\<lambda>exists.
     if exists then throw (SidecarExists ''revocation'')
     else
     abind (io ''create revocations dir'') (\<lambda>_.
     abind (io ''write revocation sidecar'') (\<lambda>_.
       modify (\<lambda>s. s\<lparr>st_revocations := AList.update h r (st_revocations s)\<rparr>))))"

definition fs_read_revocation :: "hash32 \<Rightarrow> (fs_store, revocation_record option) registry_action" where
  "fs_read_revocation h = fs_read_optional (\<lambda>s. map_of (st_revocations s) h) ''read revocation sidecar''"

definition local_fs :: "canon_lib \<Rightarrow> artifact_codecs \<Rightarrow> fs_store backend" where
  "local_fs L A =
     \<lparr>be_put_artifact = fs_put_artifact, be_append_event = fs_append_event,
      be_read_artifact_kew = fs_read_artifact_kew, be_read_events = fs_read_events,
      be_put_pointer = fs_put_pointer, be_read_pointer = fs_read_pointer,
      be_list_manifests = fs_list_manifests L A, be_list_addresses = fs_list_addresses,
      be_put_consistency = fs_put_consistency, be_read_consistency = fs_read_consistency,
      be_put_revocation = fs_put_revocation, be_read_revocation = fs_read_revocation\<rparr>"

definition empty_store :: "bool list \<Rightarrow> fs_store" where
  "empty_store outcomes =
     \<lparr>st_io = outcomes, st_artifacts_dir = False, st_kew = [], st_manifest_json = [],
      st_schema_json = [], st_event_dirs = [], st_events = [], st_pointers = [],
      st_consistency = [], st_revocations = []\<rparr>"

section \<open>The contract\<close>

record registry_view =
  vw_log :: "hash32 \<Rightarrow> lifecycle_event list"
  vw_kew :: "hash32 \<Rightarrow> bytes option"
  vw_pointer :: "string \<times> string \<Rightarrow> tag_pointer option"
  vw_consistency :: "hash32 \<Rightarrow> consistency_block option"
  vw_revocation :: "hash32 \<Rightarrow> revocation_record option"

definition with_log :: "hash32 \<Rightarrow> lifecycle_event \<Rightarrow> registry_view \<Rightarrow> registry_view" where
  "with_log h e v = v\<lparr>vw_log := (vw_log v)(h := vw_log v h @ [e])\<rparr>"

definition with_kew :: "hash32 \<Rightarrow> bytes \<Rightarrow> registry_view \<Rightarrow> registry_view" where
  "with_kew h kew v = v\<lparr>vw_kew := (vw_kew v)(h \<mapsto> kew)\<rparr>"

definition with_pointer :: "string \<Rightarrow> string \<Rightarrow> hash32 \<Rightarrow> string \<Rightarrow> registry_view \<Rightarrow> registry_view" where
  "with_pointer env tag h ref v =
     v\<lparr>vw_pointer := (vw_pointer v)((env, tag) \<mapsto>
       \<lparr>tp_env = env, tp_tag = tag, tp_target_hash_hex = hex32 h, tp_event_ref = ref\<rparr>)\<rparr>"

definition with_consistency :: "hash32 \<Rightarrow> consistency_block \<Rightarrow> registry_view \<Rightarrow> registry_view" where
  "with_consistency h c v = v\<lparr>vw_consistency := (vw_consistency v)(h \<mapsto> c)\<rparr>"

definition with_revocation :: "hash32 \<Rightarrow> revocation_record \<Rightarrow> registry_view \<Rightarrow> registry_view" where
  "with_revocation h r v = v\<lparr>vw_revocation := (vw_revocation v)(h \<mapsto> r)\<rparr>"

lemmas view_updates = with_log_def with_kew_def with_pointer_def with_consistency_def with_revocation_def

definition increasing :: "lifecycle_event list \<Rightarrow> bool" where
  "increasing es \<longleftrightarrow> sorted_wrt (<) (map ev_seq es)"

definition stored_manifests ::
    "canon_lib \<Rightarrow> artifact_codecs \<Rightarrow> registry_view \<Rightarrow> (hash32 \<times> manifest) set" where
  "stored_manifests L A v =
     {(artifact_hash (art_manifest a), art_manifest a) | a.
       \<exists>h kew n. vw_kew v h = Some kew \<and> decode_artifact L A kew = Inr (a, n)}"

definition undecodable :: "canon_lib \<Rightarrow> artifact_codecs \<Rightarrow> registry_view \<Rightarrow> bool" where
  "undecodable L A v \<longleftrightarrow> (\<exists>h kew e. vw_kew v h = Some kew \<and> decode_artifact L A kew = Inl e)"

text \<open>What a command may rely on. \<open>stands b v\<close>: the state shows the view \<open>v\<close>, and with \<open>b\<close> no
  system call will fail. A failing write leaves the old view, except that \<open>put_artifact\<close> may
  have stored the bytes already; a read changes nothing; an event with a larger sequence
  number than all others is appended, and a file that exists is never overwritten.\<close>

locale registry_backend =
  fixes B :: "'s backend"
    and L :: canon_lib and A :: artifact_codecs
    and view :: "'s \<Rightarrow> registry_view"
    and invar :: "'s \<Rightarrow> bool"
    and reliable :: "'s \<Rightarrow> bool"
    and stands :: "bool \<Rightarrow> registry_view \<Rightarrow> 's \<Rightarrow> bool"
  assumes stands_def: "stands b v s \<longleftrightarrow> invar s \<and> view s = v \<and> (b \<longrightarrow> reliable s)"
    and put_artifact: "triple (stands b v) (be_put_artifact B h kew mj sj) (\<lambda>_. stands b (with_kew h kew v))
      (\<lambda>_ s. \<not> b \<and> (stands b v s \<or> stands b (with_kew h kew v) s))"
    and append_event: "increasing (vw_log v h @ [e]) \<Longrightarrow>
      triple (stands b v) (be_append_event B h e) (\<lambda>_. stands b (with_log h e v)) (\<lambda>_ s. \<not> b \<and> stands b v s)"
    and append_existing: "\<lbrakk>e' \<in> set (vw_log v h); ev_seq e' = ev_seq e; ev_kind e' = ev_kind e\<rbrakk> \<Longrightarrow>
      triple (stands b v) (be_append_event B h e) (\<lambda>_ _. False)
        (\<lambda>err s. stands b v s \<and> (b \<longrightarrow> err = EventExists (ev_seq e)))"
    and read_artifact_kew: "triple (stands b v) (be_read_artifact_kew B h)
      (\<lambda>kew s. vw_kew v h = Some kew \<and> stands b v s) (\<lambda>_ s. (b \<longrightarrow> vw_kew v h = None) \<and> stands b v s)"
    and read_events: "triple (stands b v) (be_read_events B h)
      (\<lambda>es s. es = vw_log v h \<and> stands b v s) (\<lambda>_ s. \<not> b \<and> stands b v s)"
    and put_pointer: "triple (stands b v) (be_put_pointer B env tag h ref)
      (\<lambda>_. stands b (with_pointer env tag h ref v)) (\<lambda>_ s. \<not> b \<and> stands b v s)"
    and read_pointer: "triple (stands b v) (be_read_pointer B env tag)
      (\<lambda>p s. p = vw_pointer v (env, tag) \<and> stands b v s) (\<lambda>_ s. \<not> b \<and> stands b v s)"
    and list_manifests: "triple (stands b v) (be_list_manifests B)
      (\<lambda>ms s. set ms = stored_manifests L A v \<and> sorted (map fst ms) \<and> length ms = card (dom (vw_kew v))
         \<and> stands b v s)
      (\<lambda>_ s. (b \<longrightarrow> undecodable L A v) \<and> stands b v s)"
    and list_addresses: "triple (stands b v) (be_list_addresses B)
      (\<lambda>hs s. set hs = dom (vw_kew v) \<and> sorted hs \<and> stands b v s) (\<lambda>_ s. \<not> b \<and> stands b v s)"
    and put_consistency: "triple (stands b v) (be_put_consistency B h c)
      (\<lambda>_ s. vw_consistency v h = None \<and> stands b (with_consistency h c v) s)
      (\<lambda>err s. (b \<longrightarrow> vw_consistency v h \<noteq> None \<and> err = SidecarExists ''consistency'') \<and> stands b v s)"
    and read_consistency: "triple (stands b v) (be_read_consistency B h)
      (\<lambda>c s. c = vw_consistency v h \<and> stands b v s) (\<lambda>_ s. \<not> b \<and> stands b v s)"
    and put_revocation: "triple (stands b v) (be_put_revocation B h r)
      (\<lambda>_ s. vw_revocation v h = None \<and> stands b (with_revocation h r v) s)
      (\<lambda>err s. (b \<longrightarrow> vw_revocation v h \<noteq> None \<and> err = SidecarExists ''revocation'') \<and> stands b v s)"
    and read_revocation: "triple (stands b v) (be_read_revocation B h)
      (\<lambda>r s. r = vw_revocation v h \<and> stands b v s) (\<lambda>_ s. \<not> b \<and> stands b v s)"

section \<open>The local backend keeps the contract\<close>

definition fs_view :: "fs_store \<Rightarrow> registry_view" where
  "fs_view s =
     \<lparr>vw_log = (\<lambda>h. sort_key ev_seq (map snd (sort_key fst (event_files s h)))),
      vw_kew = map_of (st_kew s), vw_pointer = map_of (st_pointers s),
      vw_consistency = map_of (st_consistency s), vw_revocation = map_of (st_revocations s)\<rparr>"

definition fs_invar :: "fs_store \<Rightarrow> bool" where
  "fs_invar s \<longleftrightarrow>
     (\<forall>(h, name, e)\<in>set (st_events s). h \<in> set (st_event_dirs s) \<and> name = event_file_name (ev_seq e) (ev_kind e))
     \<and> (st_kew s \<noteq> [] \<longrightarrow> st_artifacts_dir s) \<and> distinct (map fst (st_kew s))"

definition fs_reliable :: "fs_store \<Rightarrow> bool" where
  "fs_reliable s \<longleftrightarrow> st_io s = []"

definition fs_stands :: "bool \<Rightarrow> registry_view \<Rightarrow> fs_store \<Rightarrow> bool" where
  "fs_stands b v s \<longleftrightarrow> fs_invar s \<and> fs_view s = v \<and> (b \<longrightarrow> fs_reliable s)"

text \<open>Changing the outcome list changes neither the view nor the invariant.\<close>

lemma fs_view_io [simp]:
  "fs_view (s\<lparr>st_io := bs\<rparr>) = fs_view s" "fs_invar (s\<lparr>st_io := bs\<rparr>) = fs_invar s"
  "event_files (s\<lparr>st_io := bs\<rparr>) h = event_files s h"
  by (simp_all add: fs_view_def fs_invar_def event_files_def)

lemma fs_stands_io [simp]: "fs_stands b v (s\<lparr>st_io := bs\<rparr>) \<longleftrightarrow> fs_invar s \<and> fs_view s = v \<and> (b \<longrightarrow> bs = [])"
  by (simp add: fs_stands_def fs_reliable_def)

lemma action_cases:
  "ret x s = (r, t) \<longleftrightarrow> r = Inr x \<and> t = s"
  "throw e s = (r, t) \<longleftrightarrow> r = Inl e \<and> t = s"
  "modify f s = (r, t) \<longleftrightarrow> r = Inr () \<and> t = f s"
  "gets g s = (r, t) \<longleftrightarrow> r = Inr (g s) \<and> t = s"
  "lift q s = (r, t) \<longleftrightarrow> r = q \<and> t = s"
  by auto

text \<open>The rules that walk a command backwards: a system call, a change, and a read that the
  view determines.\<close>

lemma io_bind:
  assumes "\<And>s bs. C s \<Longrightarrow> C (s\<lparr>st_io := bs\<rparr>)"
    and "\<And>e s. \<not> b \<Longrightarrow> fs_stands b v s \<Longrightarrow> C s \<Longrightarrow> F e s"
    and "triple (\<lambda>s. fs_stands b v s \<and> C s) m Q F"
  shows "triple (\<lambda>s. fs_stands b v s \<and> C s) (abind (io what) (\<lambda>_. m)) Q F"
proof (rule triple_bind[where R = "\<lambda>_ s. fs_stands b v s \<and> C s"])
  show "triple (\<lambda>s. fs_stands b v s \<and> C s) (io what) (\<lambda>_ s. fs_stands b v s \<and> C s) F"
    using assms(1,2)
    by (auto simp: triple_iff io_def fs_stands_def fs_reliable_def split: list.splits if_splits)
qed (rule assms(3))

lemma io_step:
  assumes "\<And>e s. \<not> b \<Longrightarrow> fs_stands b v s \<Longrightarrow> F e s" "triple (fs_stands b v) m Q F"
  shows "triple (fs_stands b v) (abind (io what) (\<lambda>_. m)) Q F"
  using io_bind[of "\<lambda>_. True" b v F m Q what] assms by simp

lemma modify_step:
  assumes "\<And>s. fs_stands b v s \<Longrightarrow> fs_stands b w (f s)" "triple (fs_stands b w) m Q F"
  shows "triple (fs_stands b v) (abind (modify f) (\<lambda>_. m)) Q F"
  by (rule triple_bind[OF _ assms(2)]) (rule triple_modify, rule assms(1))

lemma gets_step:
  assumes "\<And>s. P s \<Longrightarrow> g s = x" "triple P (m x) Q F"
  shows "triple P (abind (gets g) m) Q F"
  using assms unfolding triple_def by simp

lemma gets_keep:
  assumes "\<And>x. triple (\<lambda>s. fs_stands b v s \<and> g s = x) (m x) Q F"
  shows "triple (fs_stands b v) (abind (gets g) m) Q F"
  using assms unfolding triple_def by simp

lemmas fs_defs = fs_stands_def fs_invar_def fs_view_def fs_reliable_def view_updates event_files_def

lemma fs_put_artifact_triple:
  "triple (fs_stands b v) (fs_put_artifact h kew mj sj) (\<lambda>_. fs_stands b (with_kew h kew v))
      (\<lambda>_ s. \<not> b \<and> (fs_stands b v s \<or> fs_stands b (with_kew h kew v) s))"
proof -
  have kew: "fs_stands b v s \<Longrightarrow> st_artifacts_dir s \<Longrightarrow>
      fs_stands b (with_kew h kew v) (s\<lparr>st_kew := AList.update h kew (st_kew s)\<rparr>)" for s
    by (auto simp: fs_defs update_conv' distinct_update)
  show ?thesis
    unfolding fs_put_artifact_def
    apply (rule io_step, blast)
    apply (rule triple_bind[where R = "\<lambda>_ s. fs_stands b v s \<and> st_artifacts_dir s"])
     apply (rule triple_modify, simp add: fs_defs)
    apply (rule io_bind, simp, blast)
    apply (rule triple_bind[where R = "\<lambda>_. fs_stands b (with_kew h kew v)"])
     apply (rule triple_modify, simp add: kew)
    apply (rule io_step, blast)
    apply (rule modify_step[where w = "with_kew h kew v"], simp add: fs_defs)
    apply (rule io_step, blast)
    apply (rule triple_modify, simp add: fs_defs)
    done
qed


text \<open>The file name determines the sequence number, whatever the kind.\<close>

lemma digit_not_dash: "is_digit c \<Longrightarrow> c \<noteq> CHR ''-''"
  by (auto simp: is_digit_def)

lemma digits_value_pad: "digits_value (replicate n (CHR ''0'') @ ds) = digits_value ds"
  by (induction n) (simp_all add: digits_value_def digit_value_def)

lemma file_name_seq:
  "digits_value (takeWhile (\<lambda>c. c \<noteq> CHR ''-'') (event_file_name seq kind)) = uint seq"
proof -
  have "list_all is_digit (pad_left 4 (nat_digits (uint seq)))"
    using nat_digits_digits[of "uint seq"] by (auto simp: pad_left_def list_all_iff is_digit_def)
  then have "takeWhile (\<lambda>c. c \<noteq> CHR ''-'') (event_file_name seq kind) = pad_left 4 (nat_digits (uint seq))"
    unfolding event_file_name_def
    by (subst takeWhile_append2) (auto simp: list_all_iff digit_not_dash)
  then show ?thesis by (simp add: pad_left_def digits_value_pad)
qed

lemma file_name_inj: "event_file_name s k = event_file_name s' k' \<Longrightarrow> s = s'"
  using file_name_seq[of s k] file_name_seq[of s' k'] by (metis word_uint_eq_iff)

lemma set_vw_log: "set (vw_log (fs_view s) h) = snd ` set (event_files s h)"
  by (simp add: fs_view_def)

lemma file_exists_iff:
  assumes "fs_stands b v s"
  shows "name \<in> set (map fst (event_files s h)) \<longleftrightarrow>
    (\<exists>e\<in>set (vw_log v h). name = event_file_name (ev_seq e) (ev_kind e))"
proof -
  have v: "v = fs_view s" and inv: "fs_invar s" using assms by (simp_all add: fs_stands_def)
  show ?thesis
    unfolding v set_vw_log using inv by (force simp: fs_invar_def event_files_def image_iff)
qed

lemma sort_by_seq_snoc:
  assumes "mset ys = mset (xs @ [e])" "increasing (sort_key ev_seq xs @ [e])"
  shows "sort_key ev_seq ys = sort_key ev_seq xs @ [e]"
proof (rule sort_key_inj_key_eq)
  show "mset ys = mset (sort_key ev_seq xs @ [e])" using assms(1) by simp
  have "distinct (map ev_seq (sort_key ev_seq xs @ [e]))"
    using assms(2) strict_sorted_iff unfolding increasing_def by blast
  moreover have "set ys = set (sort_key ev_seq xs @ [e])" using assms(1) by (metis set_mset_mset mset_append mset_sort)
  ultimately show "inj_on ev_seq (set ys)" by (simp only: distinct_map)
  show "sorted (map ev_seq (sort_key ev_seq xs @ [e]))"
    using assms(2) strict_sorted_iff unfolding increasing_def by blast
qed

lemma append_view:
  assumes "fs_stands b v s" "increasing (vw_log v h @ [e])" "h \<in> set (st_event_dirs s)"
  shows "fs_stands b (with_log h e v)
    (s\<lparr>st_events := st_events s @ [(h, event_file_name (ev_seq e) (ev_kind e), e)]\<rparr>)"
proof -
  let ?n = "event_file_name (ev_seq e) (ev_kind e)"
  let ?s = "s\<lparr>st_events := st_events s @ [(h, ?n, e)]\<rparr>"
  have files: "event_files ?s h = event_files s h @ [(?n, e)]"
    "h' \<noteq> h \<Longrightarrow> event_files ?s h' = event_files s h'" for h'
    by (simp_all add: event_files_def)
  have v: "v = fs_view s" using assms(1) by (simp add: fs_stands_def)
  have "sort_key ev_seq (map snd (sort_key fst (event_files ?s h)))
      = sort_key ev_seq (map snd (sort_key fst (event_files s h))) @ [e]"
    using assms(2) unfolding v fs_view_def registry_view.simps
    by (intro sort_by_seq_snoc) (simp_all add: files)
  then have "fs_view ?s = with_log h e v"
    by (auto simp: v fs_view_def with_log_def files(2) fun_eq_iff)
  then show ?thesis
    using assms(1,3) by (auto simp: fs_stands_def fs_invar_def fs_reliable_def)
qed

lemma fs_append_event_triple:
  assumes "increasing (vw_log v h @ [e])"
  shows "triple (fs_stands b v) (fs_append_event h e) (\<lambda>_. fs_stands b (with_log h e v))
    (\<lambda>_ s. \<not> b \<and> fs_stands b v s)"
proof -
  have seqs: "\<forall>e'\<in>set (vw_log v h). ev_seq e' < ev_seq e"
    using assms by (simp add: increasing_def sorted_wrt_append)
  have fresh: "(event_file_name (ev_seq e) (ev_kind e) \<in> set (map fst (event_files s h))) = False"
    if "fs_stands b v s" for s
    unfolding file_exists_iff[OF that] using seqs file_name_inj by fastforce
  show ?thesis
    unfolding fs_append_event_def Let_def
    apply (rule io_step, blast)
    apply (rule triple_bind[where R = "\<lambda>_ s. fs_stands b v s \<and> h \<in> set (st_event_dirs s)"])
     apply (rule triple_modify, force simp: fs_defs)
    apply (rule gets_step[where x = False], blast dest: fresh)
    apply simp
    apply (rule io_bind, simp, blast)
    apply (rule triple_modify, simp add: append_view[OF _ assms])
    done
qed

lemma fs_append_existing_triple:
  assumes "e' \<in> set (vw_log v h)" "ev_seq e' = ev_seq e" "ev_kind e' = ev_kind e"
  shows "triple (fs_stands b v) (fs_append_event h e) (\<lambda>_ _. False)
    (\<lambda>err s. fs_stands b v s \<and> (b \<longrightarrow> err = EventExists (ev_seq e)))"
proof -
  have present: "(event_file_name (ev_seq e) (ev_kind e) \<in> set (map fst (event_files s h))) = True"
    if "fs_stands b v s" for s
    unfolding file_exists_iff[OF that] using assms by metis
  show ?thesis
    unfolding fs_append_event_def Let_def
    apply (rule io_step, blast)
    apply (rule modify_step[where w = v], force simp: fs_defs)
    apply (rule gets_step[where x = True], erule present)
    apply simp
    apply (rule triple_throw, blast)
    done
qed

lemma fs_read_artifact_kew_triple:
  "triple (fs_stands b v) (fs_read_artifact_kew h) (\<lambda>kew s. vw_kew v h = Some kew \<and> fs_stands b v s)
    (\<lambda>_ s. (b \<longrightarrow> vw_kew v h = None) \<and> fs_stands b v s)"
  unfolding fs_read_artifact_kew_def
  apply (rule gets_step[where x = "vw_kew v h"], force simp: fs_defs)
  apply (cases "vw_kew v h"; simp)
   apply (rule triple_throw, simp)
  apply (rule io_step, blast)
  apply (rule triple_ret, simp)
  done

lemma fs_read_optional_triple:
  assumes "\<And>s. fs_stands b v s \<Longrightarrow> g s = x"
  shows "triple (fs_stands b v) (fs_read_optional g what) (\<lambda>y s. y = x \<and> fs_stands b v s)
    (\<lambda>_ s. \<not> b \<and> fs_stands b v s)"
  unfolding fs_read_optional_def
  apply (rule gets_step[where x = x], erule assms)
  apply (cases x; simp)
   apply (rule triple_ret, simp)
  apply (rule io_step, blast)
  apply (rule triple_ret, simp)
  done

lemma fs_put_sidecar_triples:
  "triple (fs_stands b v) (fs_put_consistency h c)
    (\<lambda>_ s. vw_consistency v h = None \<and> fs_stands b (with_consistency h c v) s)
    (\<lambda>err s. (b \<longrightarrow> vw_consistency v h \<noteq> None \<and> err = SidecarExists ''consistency'') \<and> fs_stands b v s)"
  "triple (fs_stands b v) (fs_put_revocation h r)
    (\<lambda>_ s. vw_revocation v h = None \<and> fs_stands b (with_revocation h r v) s)
    (\<lambda>err s. (b \<longrightarrow> vw_revocation v h \<noteq> None \<and> err = SidecarExists ''revocation'') \<and> fs_stands b v s)"
  unfolding fs_put_consistency_def fs_put_revocation_def
   apply (rule gets_step[where x = "vw_consistency v h \<noteq> None"], force simp: fs_defs)
   apply (rule triple_if, rule triple_throw, simp)
   apply (rule io_step, blast, rule io_step, blast, rule triple_modify, force simp: fs_defs update_conv')
  apply (rule gets_step[where x = "vw_revocation v h \<noteq> None"], force simp: fs_defs)
  apply (rule triple_if, rule triple_throw, simp)
  apply (rule io_step, blast, rule io_step, blast, rule triple_modify, force simp: fs_defs update_conv')
  done

lemma fs_put_pointer_triple:
  "triple (fs_stands b v) (fs_put_pointer env tag h ref)
    (\<lambda>_. fs_stands b (with_pointer env tag h ref v)) (\<lambda>_ s. \<not> b \<and> fs_stands b v s)"
  unfolding fs_put_pointer_def
  by (rule io_step, blast, rule io_step, blast, rule triple_modify) (auto simp: fs_defs update_conv')

text \<open>Every entry of a directory is read, in any order; the results are collected.\<close>

lemma each_io:
  assumes "\<And>s bs. C s \<Longrightarrow> C (s\<lparr>st_io := bs\<rparr>)"
  shows "triple (\<lambda>s. fs_stands b v s \<and> C s) (each (\<lambda>x. abind (io what) (\<lambda>_. ret (g x))) xs)
    (\<lambda>ys s. (fs_stands b v s \<and> C s) \<and> ys = map g xs) (\<lambda>_ s. \<not> b \<and> fs_stands b v s)"
  by (rule triple_each, rule io_bind[where C = C, OF assms], assumption, blast) (rule triple_ret, simp)

lemma fs_read_events_triple:
  "triple (fs_stands b v) (fs_read_events h) (\<lambda>es s. es = vw_log v h \<and> fs_stands b v s)
    (\<lambda>_ s. \<not> b \<and> fs_stands b v s)"
proof -
  have split: "(\<lambda>(_, e). abind (io ''read event'') (\<lambda>_. ret e))
      = (\<lambda>f :: string \<times> lifecycle_event. abind (io ''read event'') (\<lambda>_. ret (snd f)))"
    by (simp add: fun_eq_iff split: prod.splits)
  have absent: "vw_log v h = []" if "fs_stands b v s" "h \<notin> set (st_event_dirs s)" for s
  proof -
    have inv: "fs_invar s" and v: "v = fs_view s" using that(1) by (simp_all add: fs_stands_def)
    have "event_files s h = []"
      using inv that(2) by (auto simp: fs_invar_def event_files_def filter_empty_conv)
    then show ?thesis by (simp add: v fs_view_def)
  qed
  have rest: "triple (fs_stands b v) (abind (gets (\<lambda>s. event_files s h)) (\<lambda>files.
     abind (each (\<lambda>f. abind (io ''read event entry'') (\<lambda>_. ret f)) files) (\<lambda>files.
     abind (each (\<lambda>f. abind (io ''read event'') (\<lambda>_. ret (snd f))) (sort_key fst files)) (\<lambda>events.
       ret (sort_key ev_seq events))))) (\<lambda>es s. es = vw_log v h \<and> fs_stands b v s)
    (\<lambda>_ s. \<not> b \<and> fs_stands b v s)"
  proof (rule gets_keep)
    fix fs
    let ?P = "\<lambda>s. fs_stands b v s \<and> event_files s h = fs"
    show "triple ?P (abind (each (\<lambda>f. abind (io ''read event entry'') (\<lambda>_. ret f)) fs) (\<lambda>files.
       abind (each (\<lambda>f. abind (io ''read event'') (\<lambda>_. ret (snd f))) (sort_key fst files)) (\<lambda>events.
         ret (sort_key ev_seq events)))) (\<lambda>es s. es = vw_log v h \<and> fs_stands b v s)
      (\<lambda>_ s. \<not> b \<and> fs_stands b v s)"
    proof (rule triple_bind)
      show "triple ?P (each (\<lambda>f. abind (io ''read event entry'') (\<lambda>_. ret f)) fs)
        (\<lambda>files s. ?P s \<and> files = fs) (\<lambda>_ s. \<not> b \<and> fs_stands b v s)"
        by (rule triple_weaken[OF each_io[where g = "\<lambda>f. f" and C = "\<lambda>s. event_files s h = fs"]]) auto
    next
      fix files
      show "triple (\<lambda>s. ?P s \<and> files = fs)
        (abind (each (\<lambda>f. abind (io ''read event'') (\<lambda>_. ret (snd f))) (sort_key fst files))
          (\<lambda>events. ret (sort_key ev_seq events))) (\<lambda>es s. es = vw_log v h \<and> fs_stands b v s)
        (\<lambda>_ s. \<not> b \<and> fs_stands b v s)"
      proof (rule triple_bind)
        show "triple (\<lambda>s. ?P s \<and> files = fs)
          (each (\<lambda>f. abind (io ''read event'') (\<lambda>_. ret (snd f))) (sort_key fst files))
          (\<lambda>events s. ?P s \<and> events = map snd (sort_key fst fs)) (\<lambda>_ s. \<not> b \<and> fs_stands b v s)"
          by (rule triple_weaken[OF each_io[where C = "\<lambda>s. event_files s h = fs \<and> files = fs"]]) auto
        show "triple (\<lambda>s. ?P s \<and> events = map snd (sort_key fst fs)) (ret (sort_key ev_seq events))
          (\<lambda>es s. es = vw_log v h \<and> fs_stands b v s) (\<lambda>_ s. \<not> b \<and> fs_stands b v s)" for events
          by (rule triple_ret) (auto simp: fs_stands_def fs_view_def)
      qed
    qed
  qed
  show ?thesis
    unfolding fs_read_events_def split
    apply (rule gets_keep)
    apply (rule triple_if)
     apply (rule triple_ret, use absent in force)
    apply (rule io_bind, simp, blast)
    apply (rule triple_weaken[OF rest], blast+)
    done
qed

lemma view_kew: "fs_stands b v s \<Longrightarrow> vw_kew v = map_of (st_kew s)"
  by (auto simp: fs_stands_def fs_view_def)

lemma view_kew_dir: "fs_stands b v s \<Longrightarrow> \<not> st_artifacts_dir s \<Longrightarrow> st_kew s = []"
  by (auto simp: fs_stands_def fs_invar_def)

lemma fs_list_addresses_triple:
  "triple (fs_stands b v) fs_list_addresses
    (\<lambda>hs s. set hs = dom (vw_kew v) \<and> sorted hs \<and> fs_stands b v s) (\<lambda>_ s. \<not> b \<and> fs_stands b v s)"
proof -
  have split: "(\<lambda>(h, _). abind (io ''read artifact entry'') (\<lambda>_. ret h))
      = (\<lambda>f :: hash32 \<times> bytes. abind (io ''read artifact entry'') (\<lambda>_. ret (fst f)))"
    by (simp add: fun_eq_iff split: prod.splits)
  show ?thesis
    unfolding fs_list_addresses_def split
    apply (rule gets_keep)
    apply (rename_tac x, case_tac x, simp only: prod.case)
    apply (rule triple_if)
     apply (rule triple_ret, use view_kew view_kew_dir in force)
    apply (rule io_bind, simp, blast)
    apply (rule triple_bind[OF each_io], simp)
    apply (rule triple_ret, clarsimp simp: view_kew dom_map_of_conv_image_fst)
    done
qed

lemma fs_list_manifests_triple:
  "triple (fs_stands b v) (fs_list_manifests L A)
    (\<lambda>ms s. set ms = stored_manifests L A v \<and> sorted (map fst ms) \<and> length ms = card (dom (vw_kew v))
       \<and> fs_stands b v s)
    (\<lambda>_ s. (b \<longrightarrow> undecodable L A v) \<and> fs_stands b v s)"
proof -
  define rel where "rel = (\<lambda>(f :: hash32 \<times> bytes) y. \<exists>a n. decode_artifact L A (snd f) = Inr (a, n)
      \<and> y = (artifact_hash (art_manifest a), art_manifest a))"
  let ?read = "\<lambda>(_, kew). abind (io ''read artifact entry'') (\<lambda>_.
         abind (io ''read artifact.kew'') (\<lambda>_.
         abind (lift (map_err ArtifactDecode (decode_artifact L A kew))) (\<lambda>(a, _).
           ret (artifact_hash (art_manifest a), art_manifest a))))"
  have broken: "undecodable L A v"
    if "(h, kew) \<in> set (st_kew s)" "fs_stands b v s" "decode_artifact L A kew = Inl e" for h kew s e
    using that by (auto simp: undecodable_def view_kew fs_stands_def fs_invar_def)
  have one: "triple (\<lambda>s. fs_stands b v s \<and> st_kew s = entries) (?read f)
      (\<lambda>y s. (fs_stands b v s \<and> st_kew s = entries) \<and> rel f y)
      (\<lambda>_ s. (b \<longrightarrow> undecodable L A v) \<and> fs_stands b v s)"
    if "f \<in> set entries" for entries f
    apply (cases f, simp only: prod.case)
    apply (rule io_bind, simp, blast)
    apply (rule io_bind, simp, blast)
    apply (cases "decode_artifact L A (snd f)")
     apply (use that in \<open>auto simp: triple_iff abind_cases action_cases intro: broken\<close>)[1]
    apply (auto simp: triple_iff abind_cases action_cases rel_def)
    done
  have all: "set ys = stored_manifests L A v"
    if "list_all2 rel (st_kew s) ys" "fs_stands b v s" for ys s
  proof -
    have "distinct (map fst (st_kew s))" using that(2) by (simp add: fs_stands_def fs_invar_def)
    then have kew: "vw_kew v h = Some kew \<longleftrightarrow> (h, kew) \<in> set (st_kew s)" for h kew
      using that(2) by (simp add: view_kew)
    have "set ys = {y. \<exists>f\<in>set (st_kew s). rel f y}"
    proof (rule set_eqI, rule iffI)
      fix y assume "y \<in> {y. \<exists>f\<in>set (st_kew s). rel f y}"
      then obtain i where "i < length (st_kew s)" "rel (st_kew s ! i) y"
        by (auto simp: in_set_conv_nth)
      moreover have "rel (st_kew s ! i) (ys ! i)" "length ys = length (st_kew s)"
        using that(1) \<open>i < length (st_kew s)\<close> by (auto simp: list_all2_conv_all_nth)
      ultimately show "y \<in> set ys" by (auto simp: rel_def in_set_conv_nth)
    next
      fix y assume "y \<in> set ys"
      then obtain i where "i < length ys" "y = ys ! i" by (auto simp: in_set_conv_nth)
      then show "y \<in> {y. \<exists>f\<in>set (st_kew s). rel f y}"
        using that(1) by (auto simp: list_all2_conv_all_nth intro!: bexI[of _ "st_kew s ! i"])
    qed
    also have "\<dots> = stored_manifests L A v"
      unfolding stored_manifests_def Bex_def split_paired_Ex rel_def kew prod.case snd_conv by blast
    finally show ?thesis .
  qed
  have count: "length ys = card (dom (vw_kew v))" if "list_all2 rel (st_kew s) ys" "fs_stands b v s" for ys s
  proof -
    have "distinct (map fst (st_kew s))" using that(2) by (simp add: fs_stands_def fs_invar_def)
    then have "card (dom (map_of (st_kew s))) = length (st_kew s)"
      unfolding dom_map_of_conv_image_fst by (metis distinct_card length_map list.set_map)
    then show ?thesis using that by (simp add: view_kew list_all2_lengthD)
  qed
  have walk: "triple (\<lambda>s. fs_stands b v s \<and> st_kew s = entries)
      (abind (each ?read entries) (\<lambda>out. ret (sort_key fst out)))
      (\<lambda>ms s. set ms = stored_manifests L A v \<and> sorted (map fst ms) \<and> length ms = card (dom (vw_kew v))
         \<and> fs_stands b v s)
      (\<lambda>_ s. (b \<longrightarrow> undecodable L A v) \<and> fs_stands b v s)" for entries
  proof (rule triple_bind)
    show "triple (\<lambda>s. fs_stands b v s \<and> st_kew s = entries) (each ?read entries)
        (\<lambda>ys s. (fs_stands b v s \<and> st_kew s = entries) \<and> list_all2 rel entries ys)
        (\<lambda>_ s. (b \<longrightarrow> undecodable L A v) \<and> fs_stands b v s)"
      by (rule triple_each_rel, rule one)
    show "triple (\<lambda>s. (fs_stands b v s \<and> st_kew s = entries) \<and> list_all2 rel entries ys)
        (ret (sort_key fst ys))
        (\<lambda>ms s. set ms = stored_manifests L A v \<and> sorted (map fst ms) \<and> length ms = card (dom (vw_kew v))
           \<and> fs_stands b v s)
        (\<lambda>_ s. (b \<longrightarrow> undecodable L A v) \<and> fs_stands b v s)" for ys
      by (rule triple_ret) (use all count in force)
  qed
  have absent: "dom (vw_kew v) = {}" if "fs_stands b v s" "\<not> st_artifacts_dir s" for s
    using view_kew[OF that(1)] view_kew_dir[OF that] by simp
  have absent': "{} = stored_manifests L A v" if "fs_stands b v s" "\<not> st_artifacts_dir s" for s
    using view_kew[OF that(1)] view_kew_dir[OF that] by (simp add: stored_manifests_def)
  show ?thesis
    unfolding fs_list_manifests_def
    apply (rule gets_keep)
    apply (rename_tac x, case_tac x, simp only: prod.case)
    apply (rule triple_if)
     apply (rule triple_ret, use absent absent' in force)
    apply (rule io_bind, simp, blast)
    apply (rule triple_weaken[OF walk], auto)
    done
qed

section \<open>Interpretation\<close>

interpretation fs: registry_backend "local_fs L A" L A fs_view fs_invar fs_reliable fs_stands
  for L A
proof (unfold_locales, goal_cases)
  case (1 b v s)
  then show ?case by (rule fs_stands_def)
next
  case (8 b v env tag)
  have "fs_stands b v s \<Longrightarrow> map_of (st_pointers s) (env, tag) = vw_pointer v (env, tag)" for s
    by (auto simp: fs_defs)
  then show ?case
    by (simp add: local_fs_def fs_read_pointer_def fs_read_optional_triple)
next
  case (12 b v h)
  have "fs_stands b v s \<Longrightarrow> map_of (st_consistency s) h = vw_consistency v h" for s
    by (auto simp: fs_defs)
  then show ?case
    by (simp add: local_fs_def fs_read_consistency_def fs_read_optional_triple)
next
  case (14 b v h)
  have "fs_stands b v s \<Longrightarrow> map_of (st_revocations s) h = vw_revocation v h" for s
    by (auto simp: fs_defs)
  then show ?case
    by (simp add: local_fs_def fs_read_revocation_def fs_read_optional_triple)
qed (simp_all add: local_fs_def fs_put_artifact_triple fs_append_event_triple fs_append_existing_triple
    fs_read_artifact_kew_triple fs_read_events_triple fs_put_pointer_triple fs_list_manifests_triple
    fs_list_addresses_triple fs_put_sidecar_triples del: not_None_eq)

end
