(* ===== verification/Lifecycle.thy ===== *)
theory Lifecycle
  imports Registry_Backend Verify "HOL-Library.Sublist"
begin

text \<open>
  What the registry commands may do to the stored objects, as a step relation on the view of a
  backend, and what every registry built by such steps satisfies. A step stores a genuine
  artifact, appends one event whose edge the transition table permits on evidence that is
  present, moves a tag, or adds a sidecar. The commands are shown to take only such steps in
  \<open>Commands\<close>.
\<close>

section \<open>The fixed keys\<close>

text \<open>\<open>ke_artifact::sign::test_keys\<close>.\<close>

definition TEST_KEY_ID :: string where
  "TEST_KEY_ID = ''test-fixed-seed-1''"

definition FIXED_SEED :: hash32 where
  "FIXED_SEED = bytes_hash (map of_char ''ke-workbench-test-fixed-seed-1!!'')"

definition TEST_EXPERT_KEY_ID :: string where
  "TEST_EXPERT_KEY_ID = ''test-expert-fixed-seed-1''"

definition EXPERT_FIXED_SEED :: hash32 where
  "EXPERT_FIXED_SEED = bytes_hash (map of_char ''ke-workbench-test-expert-seed-1!'')"

section \<open>The verification context of the commands\<close>

definition ATTESTATION_POLICY_VERSION :: string where
  "ATTESTATION_POLICY_VERSION = ''ap-1''"

definition test_expert_key_directory :: "crypto \<Rightarrow> key_directory" where
  "test_expert_key_directory K =
     [\<lparr>kd_key_id = TEST_EXPERT_KEY_ID, kd_public_key = ed_public K EXPERT_FIXED_SEED,
       kd_signer_roles = [DomainExpert, PublicationApprover],
       kd_authorized_types = [SourceFidelity, Interpretation, ScenarioCoverage, EquivalenceClaim,
         PublicationApproval],
       kd_valid_from_unix = 0, kd_valid_to_unix = - 1, kd_status = KeyActive,
       kd_revoked_at_unix = None, kd_revocation_reason = None, kd_revocation_event_hash = None\<rparr>]"

definition local_policy_context :: "64 word \<Rightarrow> policy_context" where
  "local_policy_context now =
     \<lparr>ctx_environment = ''local'', ctx_now_unix = now,
      ctx_supported_policy_versions = [ATTESTATION_POLICY_VERSION],
      ctx_current_legal_source_hash = None\<rparr>"

definition permissive_policy :: verification_policy where
  "permissive_policy = \<lparr>t2_t3_mode = Advisory, required_attestation_types = [],
     minimum_attestation_count_per_type = []\<rparr>"

text \<open>The third-party functions a command uses.\<close>

record toolchain =
  tc_lib :: canon_lib
  tc_crypto :: crypto
  tc_artifacts :: artifact_codecs
  tc_events :: event_codecs
  tc_manifest_json :: "manifest \<Rightarrow> string + string"
  tc_payload_json :: "artifact_payload \<Rightarrow> string + string"
  tc_load_policy :: "string \<Rightarrow> string + policy_bundle"
  tc_rules_bytes :: "rule_ir list \<Rightarrow> postcard_error + bytes"
  tc_intent_bytes :: "intent_spec_ir \<Rightarrow> postcard_error + bytes"

definition toolchain_law :: "toolchain \<Rightarrow> bool" where
  "toolchain_law T \<longleftrightarrow> artifact_codec_law (tc_artifacts T) \<and> event_codec_law (tc_events T)
     \<and> registry_keys (tc_crypto T) \<and> ed_public (tc_crypto T) MOCK_TSA_SEED = MOCK_TSA_PUBLIC_KEY"

lemma toolchain_laws:
  assumes "toolchain_law T"
  shows "artifact_codec_law (tc_artifacts T)" "event_codec_law (tc_events T)" "registry_keys (tc_crypto T)"
    "crypto_law (tc_crypto T)" "ed_public (tc_crypto T) MOCK_TSA_SEED = MOCK_TSA_PUBLIC_KEY"
  using assms by (simp_all add: toolchain_law_def registry_keys_def)

section \<open>Evidence\<close>

definition decodes :: "toolchain \<Rightarrow> bytes \<Rightarrow> artifact \<Rightarrow> bool" where
  "decodes T kew a \<longleftrightarrow> (\<exists>n. decode_artifact (tc_lib T) (tc_artifacts T) kew = Inr (a, n))"

text \<open>Bytes that belong at the address \<open>h\<close>: they are the encoding of a
  record that carries \<open>h\<close>, decode to it, re-hash to it, are signed
  with the compiler key and index the spans of their own payload.\<close>

definition genuine :: "toolchain \<Rightarrow> hash32 \<Rightarrow> bytes \<Rightarrow> bool" where
  "genuine T h kew \<longleftrightarrow>
     (\<exists>a n. decode_artifact (tc_lib T) (tc_artifacts T) kew = Inr (a, n)
       \<and> enc_artifact (tc_artifacts T) a = Inr kew \<and> artifact_hash (art_manifest a) = h
       \<and> verify_hash (tc_lib T) (tc_crypto T) (tc_artifacts T) kew = Inr h
       \<and> cs_key_id (art_compiler_signature a) = TEST_KEY_ID
       \<and> verify_signature (tc_crypto T) (take n kew) (art_compiler_signature a)
           (ed_public (tc_crypto T) FIXED_SEED) = Inr () \<and> indexed a)"

definition attested :: "toolchain \<Rightarrow> registry_view \<Rightarrow> hash32 \<Rightarrow> verification_policy \<Rightarrow> bool" where
  "attested T v h policy \<longleftrightarrow>
     (\<exists>kew a now. vw_kew v h = Some kew \<and> decodes T kew a
       \<and> verify_attestation_set (tc_crypto T) (tc_artifacts T) a policy
           (test_expert_key_directory (tc_crypto T)) (local_policy_context now) = Inr ())"

text \<open>The bits of \<open>Preconditions\<close> that stored objects must back.\<close>

definition justified :: "toolchain \<Rightarrow> registry_view \<Rightarrow> hash32 \<Rightarrow> preconditions \<Rightarrow> bool" where
  "justified T v h pre \<longleftrightarrow>
     (compiler_signature_valid pre \<longrightarrow> (\<exists>kew. vw_kew v h = Some kew \<and> genuine T h kew))
     \<and> (consistency_block_present pre \<longrightarrow> vw_consistency v h \<noteq> None)
     \<and> (attestation_set_valid pre \<longrightarrow> attested T v h permissive_policy)
     \<and> (prior_is_expert_attested pre \<longrightarrow> (\<exists>policy. attested T v h policy))"

section \<open>Steps\<close>

inductive lifecycle_step :: "toolchain \<Rightarrow> registry_view \<Rightarrow> registry_view \<Rightarrow> bool" for T v where
  store: "genuine T h kew \<Longrightarrow> lifecycle_step T v (with_kew h kew v)"
| draft: "\<lbrakk>vw_log v h = []; vw_kew v h \<noteq> None;
    build_draft_event (tc_crypto T) (tc_events T) h kid ts = Inr e\<rbrakk>
    \<Longrightarrow> lifecycle_step T v (with_log h e v)"
| advance: "\<lbrakk>last_state (vw_log v h) = Some from; can_transition from to pre; justified T v h pre;
    build_transition_event (tc_crypto T) (tc_events T) (last (vw_log v h)) to kid role ts = Inr e\<rbrakk>
    \<Longrightarrow> lifecycle_step T v (with_log h e v)"
| tag_moved: "\<lbrakk>last_state (vw_log v h) = Some Published;
    build_tag_moved_event (tc_crypto T) (tc_events T) (last (vw_log v h)) kid role ts = Inr e\<rbrakk>
    \<Longrightarrow> lifecycle_step T v (with_log h e v)"
| pointer: "last_state (vw_log v h) = Some Published \<Longrightarrow> lifecycle_step T v (with_pointer env tag h ref v)"
| consistency: "\<lbrakk>last_state (vw_log v h) = Some StructurallyVerified; vw_consistency v h = None\<rbrakk>
    \<Longrightarrow> lifecycle_step T v (with_consistency h c v)"
| revocation: "\<lbrakk>last_state (vw_log v h) = Some Revoked; vw_revocation v h = None\<rbrakk>
    \<Longrightarrow> lifecycle_step T v (with_revocation h r v)"

inductive_cases lifecycle_stepE: "lifecycle_step T v v'"

abbreviation lifecycle_steps :: "toolchain \<Rightarrow> registry_view \<Rightarrow> registry_view \<Rightarrow> bool" where
  "lifecycle_steps T \<equiv> (lifecycle_step T)\<^sup>*\<^sup>*"

section \<open>Hexadecimal addresses\<close>

lemma hex_digit_not_plus: "0 \<le> n \<Longrightarrow> n < 16 \<Longrightarrow> hex_digit n \<noteq> CHR ''+''"
proof -
  assume n: "0 \<le> n" "n < 16"
  then have "hex_value (hex_digit n) = Some n" by (rule hex_value_digit)
  moreover have "hex_value (CHR ''+'') = None" by (simp add: hex_value_def)
  ultimately show ?thesis by auto
qed

lemma radix16_hex_byte: "radix16_pair (hex_digit (uint b div 16)) (hex_digit (uint b mod 16)) = Some b"
  for b :: "8 word"
proof -
  define n where "n = uint b"
  have "0 \<le> n" "n < 256" using uint_bounded[of b] by (simp_all add: n_def)
  then have "0 \<le> n div 16" "n div 16 < 16" "0 \<le> n mod 16" "n mod 16 < 16"
    by (simp_all add: pos_imp_zdiv_nonneg_iff)
  then have "0 \<le> uint b div 16" "uint b div 16 < 16" "0 \<le> uint b mod 16" "uint b mod 16 < 16"
    by (simp_all add: n_def)
  moreover have "16 * (uint b div 16) + uint b mod 16 = uint b" by simp
  ultimately show ?thesis
    by (simp add: radix16_pair_def hex_digit_not_plus hex_value_digit)
qed

lemma hex_byte_ascii: "\<not> continuation_byte (hex_digit n)"  if "0 \<le> n" "n < 16"
  using that by (auto simp: continuation_byte_def hex_digit_def of_char_of take_bit_eq_mod)

lemma hex_pairs_hex_bytes: "hex_pairs hex (concat (map hex_byte bs)) = Inr bs"
proof (induction bs)
  case (Cons b bs)
  have digits: "0 \<le> uint w div 16" "uint w div 16 < 16" "0 \<le> uint w mod 16" "uint w mod 16 < 16" for w :: "8 word"
    using uint_bounded[of w] by (simp_all add: pos_imp_zdiv_nonneg_iff)
  have "\<not> continuation_byte (hd (concat (map hex_byte bs)))" if "concat (map hex_byte bs) \<noteq> []"
    using that hex_byte_ascii digits by (cases bs) (simp_all add: hex_byte_def)
  moreover have "concat (map hex_byte (b # bs))
      = hex_digit (uint b div 16) # hex_digit (uint b mod 16) # concat (map hex_byte bs)"
    by (simp add: hex_byte_def)
  moreover have "\<not> continuation_byte (hex_digit (uint b div 16))" by (rule hex_byte_ascii) (rule digits)+
  ultimately show ?case
    using Cons.IH by (auto simp only: hex_pairs.simps radix16_hex_byte option.case rmap_simps simp_thms split: if_splits)
qed simp

lemma length_hex_bytes: "length (concat (map hex_byte bs)) = 2 * length bs"
  by (induction bs) (simp_all add: hex_byte_def)

lemma hex_to_hash_hex32 [simp]: "hex_to_hash (hex32 h) = Inr h"
  by (simp add: hex_to_hash_def hex32_def length_hex_bytes hex_pairs_hex_bytes)

section \<open>The shape of a history\<close>

definition edge :: "lifecycle_state \<Rightarrow> lifecycle_state \<Rightarrow> bool" where
  "edge a b \<longleftrightarrow> (\<exists>pre. can_transition a b pre) \<or> (a = Published \<and> b = Published)"

definition history :: "lifecycle_state list \<Rightarrow> bool" where
  "history ss \<longleftrightarrow> (ss \<noteq> [] \<longrightarrow> hd ss = Draft) \<and> successively edge ss"

definition published_spine :: "nat \<Rightarrow> lifecycle_state list" where
  "published_spine n = [Draft, StructurallyVerified, MlChecked, ExpertAttested] @ replicate n Published"

lemma can_transition_edges:
  "(\<exists>pre. can_transition a b pre) \<longleftrightarrow>
     (a, b) \<in> {(Draft, StructurallyVerified), (StructurallyVerified, MlChecked), (MlChecked, ExpertAttested),
       (ExpertAttested, Published), (Published, Deprecated), (Published, Revoked), (Deprecated, Revoked)}"
  using exI[of "can_transition a b" "\<lparr>structural_clean = True, compiler_signature_valid = True,
    consistency_block_present = True, attestation_set_valid = True, prior_is_expert_attested = True\<rparr>"]
  by (cases a; cases b) auto

lemma history_snoc:
  "history (ss @ [s]) \<longleftrightarrow> history ss \<and> (if ss = [] then s = Draft else edge (last ss) s)"
  by (cases "ss = []") (auto simp: history_def successively_append_iff)

text \<open>A history is determined by its last state, up to the number of tag moves and to whether it
  was deprecated before it was revoked.\<close>

lemma history_shapes:
  assumes "history ss" "ss \<noteq> []"
  shows "case last ss of
      Draft \<Rightarrow> ss = [Draft]
    | StructurallyVerified \<Rightarrow> ss = [Draft, StructurallyVerified]
    | MlChecked \<Rightarrow> ss = [Draft, StructurallyVerified, MlChecked]
    | ExpertAttested \<Rightarrow> ss = published_spine 0
    | Published \<Rightarrow> (\<exists>n. ss = published_spine (Suc n))
    | Deprecated \<Rightarrow> (\<exists>n. ss = published_spine (Suc n) @ [Deprecated])
    | Revoked \<Rightarrow> (\<exists>n. ss = published_spine (Suc n) @ [Revoked]
        \<or> ss = published_spine (Suc n) @ [Deprecated, Revoked])"
  using assms
proof (induction ss rule: rev_induct)
  case (snoc s ss)
  have grow: "published_spine n @ [Published] = published_spine (Suc n)" for n
    by (simp add: published_spine_def replicate_append_same)
  show ?case
  proof (cases "ss = []")
    case True
    then show ?thesis using snoc.prems by (simp add: history_def)
  next
    case False
    then have ih: "history ss" "edge (last ss) s" using snoc.prems by (simp_all add: history_snoc)
    note shape = snoc.IH[OF ih(1) False]
    show ?thesis
    proof (cases "last ss = Published \<and> s = Published")
      case True
      then obtain n where "ss = published_spine (Suc n)" using shape by auto
      then have "ss @ [s] = published_spine (Suc (Suc n))" using True grow by simp
      moreover have "last (ss @ [s]) = Published" using True by simp
      ultimately show ?thesis by (simp only: lifecycle_state.case) blast
    next
      case other: False
      show ?thesis
        using ih(2) shape other unfolding edge_def can_transition_edges
        by (auto simp: published_spine_def)
    qed
  qed
qed simp

section \<open>Sound registries\<close>

definition states_of :: "lifecycle_event list \<Rightarrow> lifecycle_state list" where
  "states_of es = map ev_new_state es"

text \<open>One log: accepted by the walk, short enough for its 32-bit numbers, about its own artifact,
  started by a draft event and following the transition table.\<close>

definition sound_log :: "toolchain \<Rightarrow> hash32 \<Rightarrow> lifecycle_event list \<Rightarrow> bool" where
  "sound_log T h es \<longleftrightarrow>
     valid_log (tc_crypto T) (tc_events T) es \<and> length es \<le> 2 ^ 32
     \<and> (\<forall>e\<in>set es. ev_artifact_hash e = h) \<and> history (states_of es)
     \<and> (es \<noteq> [] \<longrightarrow> ev_kind (hd es) = ''draft'')"

text \<open>The log against the other objects.\<close>

definition sound_objects :: "toolchain \<Rightarrow> registry_view \<Rightarrow> hash32 \<Rightarrow> bool" where
  "sound_objects T v h \<longleftrightarrow>
     (\<forall>kew. vw_kew v h = Some kew \<longrightarrow> genuine T h kew)
     \<and> (vw_log v h \<noteq> [] \<longrightarrow> vw_kew v h \<noteq> None)
     \<and> (MlChecked \<in> set (states_of (vw_log v h)) \<longrightarrow> vw_consistency v h \<noteq> None)
     \<and> (vw_consistency v h \<noteq> None \<longrightarrow> StructurallyVerified \<in> set (states_of (vw_log v h)))
     \<and> (vw_revocation v h \<noteq> None \<longrightarrow> Revoked \<in> set (states_of (vw_log v h)))"

definition sound_pointers :: "registry_view \<Rightarrow> bool" where
  "sound_pointers v \<longleftrightarrow>
     (\<forall>env tag p. vw_pointer v (env, tag) = Some p \<longrightarrow>
        (\<exists>h. target_hash p = Inr h \<and> Published \<in> set (states_of (vw_log v h))))"

definition sound :: "toolchain \<Rightarrow> registry_view \<Rightarrow> bool" where
  "sound T v \<longleftrightarrow> (\<forall>h. sound_log T h (vw_log v h) \<and> sound_objects T v h) \<and> sound_pointers v"

lemma states_of_simps [simp]:
  "states_of [] = []" "states_of (es @ [e]) = states_of es @ [ev_new_state e]"
  "states_of es = [] \<longleftrightarrow> es = []"
  by (simp_all add: states_of_def)

lemma last_state_Some: "last_state es = Some st \<longleftrightarrow> es \<noteq> [] \<and> last (states_of es) = st"
  by (auto simp: last_state_def states_of_def last_map)

lemma last_state_in: "last_state es = Some st \<Longrightarrow> st \<in> set (states_of es)"
  using last_in_set[of "states_of es"] by (auto simp: last_state_Some)

lemma next_seq_bound:
  assumes "event_codec_law E" "valid_log K E es" "es \<noteq> []" "length es \<le> 2 ^ 32"
    and "next_seq (ev_seq (last es)) = Inr q"
  shows "length es < 2 ^ 32"
proof (rule ccontr)
  assume "\<not> ?thesis"
  then have len: "length es = 2 ^ 32" using assms(4) by simp
  then have "ev_seq (last es) = of_nat (2 ^ 32 - 1)"
    using valid_log_seq[OF assms(1,2), of "length es - 1"] assms(3) by (simp add: last_conv_nth)
  also have "\<dots> = - 1" by (simp add: of_nat_diff)
  finally show False using assms(5) by (simp add: next_seq_def)
qed

text \<open>What is known of an event built onto an accepted log.\<close>

lemma built_onto:
  assumes "event_codec_law E" "registry_keys K" "valid_log K E es" "es \<noteq> []" "length es \<le> 2 ^ 32"
    and "build_chained_event K E (last es) ns kind kid role ts = Inr e"
  shows "length es < 2 ^ 32" "valid_log K E (es @ [e])" "ev_new_state e = ns" "ev_kind e = kind"
    "ev_artifact_hash e = ev_artifact_hash (last es)" "ev_seq e = of_nat (length es)"
    "ev_prior_state e = last_state es"
proof -
  have "\<exists>q. next_seq (ev_seq (last es)) = Inr q" using assms(6) by (auto simp: build_chained_event_def rbind_eq_Inr)
  then show len: "length es < 2 ^ 32" using next_seq_bound[OF assms(1,3-5)] by blast
  obtain e' where "build_chained_event K E (last es) ns kind kid role ts = Inr e'"
    "valid_log K E (es @ [e'])" "ev_new_state e' = ns" "ev_kind e' = kind"
    "ev_prior_state e' = last_state es" "ev_artifact_hash e' = ev_artifact_hash (last es)"
    "ev_seq e' = of_nat (length es)"
    by (rule chained_event_extends[OF assms(1-4) len])
  then show "valid_log K E (es @ [e])" "ev_new_state e = ns" "ev_kind e = kind"
    "ev_artifact_hash e = ev_artifact_hash (last es)" "ev_seq e = of_nat (length es)"
    "ev_prior_state e = last_state es"
    using assms(6) by simp_all
qed

lemma sound_log_snoc:
  assumes "toolchain_law T" "sound_log T h es" "es \<noteq> []" "edge (last (states_of es)) ns"
    and "build_chained_event (tc_crypto T) (tc_events T) (last es) ns kind kid role ts = Inr e"
  shows "sound_log T h (es @ [e])" "ev_new_state e = ns"
proof -
  have log: "valid_log (tc_crypto T) (tc_events T) es" "length es \<le> 2 ^ 32" "history (states_of es)"
    "\<forall>e\<in>set es. ev_artifact_hash e = h" "ev_kind (hd es) = ''draft''"
    using assms(2,3) by (simp_all add: sound_log_def)
  note built = built_onto[OF toolchain_laws(2,3)[OF assms(1)] log(1) assms(3) log(2) assms(5)]
  show "ev_new_state e = ns" by (rule built(3))
  have "ev_artifact_hash (last es) = h" using log(4) assms(3) by simp
  then show "sound_log T h (es @ [e])"
    using built log assms(3,4) by (simp add: sound_log_def history_snoc)
qed

lemma sound_log_draft:
  assumes "toolchain_law T" "build_draft_event (tc_crypto T) (tc_events T) h kid ts = Inr e"
  shows "sound_log T h [e]" "ev_new_state e = Draft" "ev_seq e = 0" "ev_kind e = ''draft''"
proof -
  obtain e' where e': "build_draft_event (tc_crypto T) (tc_events T) h kid ts = Inr e'"
    "valid_log (tc_crypto T) (tc_events T) [e']" "ev_new_state e' = Draft" "ev_artifact_hash e' = h"
    "ev_seq e' = 0" "ev_kind e' = ''draft''"
    by (rule draft_starts_log[OF toolchain_laws(2,3)[OF assms(1)]])
  then show "ev_new_state e = Draft" "ev_seq e = 0" "ev_kind e = ''draft''" using assms(2) by simp_all
  show "sound_log T h [e]"
    using e' assms(2) by (simp add: sound_log_def states_of_def history_def)
qed

section \<open>Steps keep a registry sound\<close>

lemma view_selectors [simp]:
  "vw_log (with_log h e v) = (vw_log v)(h := vw_log v h @ [e])" "vw_log (with_kew h kew v) = vw_log v"
  "vw_log (with_pointer env tag h ref v) = vw_log v" "vw_log (with_consistency h c v) = vw_log v"
  "vw_log (with_revocation h r v) = vw_log v"
  "vw_kew (with_log h e v) = vw_kew v" "vw_kew (with_kew h kew v) = (vw_kew v)(h \<mapsto> kew)"
  "vw_kew (with_pointer env tag h ref v) = vw_kew v" "vw_kew (with_consistency h c v) = vw_kew v"
  "vw_kew (with_revocation h r v) = vw_kew v"
  "vw_pointer (with_log h e v) = vw_pointer v" "vw_pointer (with_kew h kew v) = vw_pointer v"
  "vw_pointer (with_consistency h c v) = vw_pointer v" "vw_pointer (with_revocation h r v) = vw_pointer v"
  "vw_consistency (with_log h e v) = vw_consistency v" "vw_consistency (with_kew h kew v) = vw_consistency v"
  "vw_consistency (with_pointer env tag h ref v) = vw_consistency v"
  "vw_consistency (with_consistency h c v) = (vw_consistency v)(h \<mapsto> c)"
  "vw_consistency (with_revocation h r v) = vw_consistency v"
  "vw_revocation (with_log h e v) = vw_revocation v" "vw_revocation (with_kew h kew v) = vw_revocation v"
  "vw_revocation (with_pointer env tag h ref v) = vw_revocation v"
  "vw_revocation (with_consistency h c v) = vw_revocation v"
  "vw_revocation (with_revocation h r v) = (vw_revocation v)(h \<mapsto> r)"
  by (simp_all add: view_updates)

lemma sound_with_log:
  assumes "sound T v" "sound_log T h (vw_log v h @ [e])" "vw_kew v h \<noteq> None"
    and "ev_new_state e = MlChecked \<Longrightarrow> vw_consistency v h \<noteq> None"
  shows "sound T (with_log h e v)"
proof -
  have "sound_pointers (with_log h e v)"
  proof -
    have "set (states_of (vw_log v g)) \<subseteq> set (states_of (vw_log (with_log h e v) g))" for g by auto
    moreover have "sound_pointers v" using assms(1) by (simp add: sound_def)
    ultimately show ?thesis unfolding sound_pointers_def view_selectors by (meson subsetD)
  qed
  then show ?thesis using assms unfolding sound_def sound_objects_def by auto
qed

lemma sound_chained:
  assumes "toolchain_law T" "sound T v" "last_state (vw_log v h) = Some st" "edge st ns"
    and "build_chained_event (tc_crypto T) (tc_events T) (last (vw_log v h)) ns kind kid role ts = Inr e"
    and "ns = MlChecked \<Longrightarrow> vw_consistency v h \<noteq> None"
  shows "sound T (with_log h e v)"
proof -
  have log: "sound_log T h (vw_log v h)" "vw_log v h \<noteq> []" "last (states_of (vw_log v h)) = st"
    using assms(2,3) by (auto simp: sound_def last_state_Some)
  note new = sound_log_snoc[OF assms(1) log(1,2) assms(4)[folded log(3)] assms(5)]
  show ?thesis
    by (rule sound_with_log[OF assms(2) new(1)])
      (use assms(2,6) log(2) new(2) in \<open>auto simp: sound_def sound_objects_def\<close>)
qed

lemma step_sound:
  assumes "lifecycle_step T v v'" "toolchain_law T" "sound T v"
  shows "sound T v'"
  using assms(1)
proof (cases rule: lifecycle_step.cases)
  case (store h kew)
  then show ?thesis using assms(3) by (auto simp: sound_def sound_objects_def sound_pointers_def)
next
  case (draft h kid ts e)
  note new = sound_log_draft[OF assms(2) draft(4)]
  show ?thesis
    unfolding draft(1) by (rule sound_with_log[OF assms(3)]) (use draft new in simp_all)
next
  case (advance h "from" to pre e kid role ts)
  have "edge from to" using advance(3) by (auto simp: edge_def)
  moreover have "to = MlChecked \<Longrightarrow> consistency_block_present pre"
    using advance(3) by (cases "from") auto
  ultimately show ?thesis
    unfolding advance(1)
    using sound_chained[OF assms(2,3) advance(2) _ advance(5)[unfolded build_transition_event_def]]
      advance(4) by (auto simp: justified_def)
next
  case (tag_moved h kid role ts e)
  have "ev_new_state (last (vw_log v h)) = Published"
    using tag_moved(2) by (simp add: last_state_def split: if_splits)
  then show ?thesis
    unfolding tag_moved(1)
    using sound_chained[OF assms(2,3) tag_moved(2) _ tag_moved(3)[unfolded build_tag_moved_event_def]]
    by (simp add: edge_def)
next
  case (pointer h env tag ref)
  show ?thesis
    using assms(3) last_state_in[OF pointer(2)] unfolding pointer(1)
    by (auto simp: sound_def sound_objects_def sound_pointers_def with_pointer_def target_hash_def)
next
  case (consistency h c)
  then show ?thesis
    using assms(3) last_state_in[OF consistency(2)] by (auto simp: sound_def sound_objects_def sound_pointers_def)
next
  case (revocation h r)
  then show ?thesis
    using assms(3) last_state_in[OF revocation(2)] by (auto simp: sound_def sound_objects_def sound_pointers_def)
qed

lemma steps_sound: "lifecycle_steps T v v' \<Longrightarrow> toolchain_law T \<Longrightarrow> sound T v \<Longrightarrow> sound T v'"
  by (induction rule: rtranclp_induct) (auto intro: step_sound)

lemma empty_sound: "sound T (fs_view (empty_store outcomes))"
  by (simp add: sound_def sound_log_def sound_objects_def sound_pointers_def fs_view_def empty_store_def
      event_files_def history_def)

text \<open>Nothing recorded is lost: logs grow at the end, sidecars stay.\<close>

definition grows :: "registry_view \<Rightarrow> registry_view \<Rightarrow> bool" where
  "grows v v' \<longleftrightarrow> (\<forall>h. prefix (vw_log v h) (vw_log v' h)
     \<and> (vw_kew v h \<noteq> None \<longrightarrow> vw_kew v' h \<noteq> None))
     \<and> vw_consistency v \<subseteq>\<^sub>m vw_consistency v' \<and> vw_revocation v \<subseteq>\<^sub>m vw_revocation v'"

lemma grows_refl [simp]: "grows v v"
  by (simp add: grows_def)

lemma grows_trans: "grows v w \<Longrightarrow> grows w u \<Longrightarrow> grows v u"
  unfolding grows_def by (meson prefix_order.trans map_le_trans)

lemma step_grows: "lifecycle_step T v v' \<Longrightarrow> grows v v'"
  by (induction rule: lifecycle_step.induct) (auto simp: grows_def map_le_def)

lemma steps_grow: "lifecycle_steps T v v' \<Longrightarrow> grows v v'"
  by (induction rule: rtranclp_induct) (auto intro: grows_trans step_grows)

end
