(* ===== verification/Commands.thy ===== *)
theory Commands
  imports Lifecycle
begin

text \<open>
  The state-changing commands (\<open>src/crates/ke-cli/src/commands\<close>), over any backend: storing a
  compiled artifact, \<open>ml-check\<close>, \<open>attest\<close>, \<open>publish\<close>, \<open>deprecate\<close>, \<open>revoke\<close> and \<open>rollback\<close>,
  with every early return. A command keeps what it wrote before it failed. Their triples are
  proved once in the context of \<open>registry_backend\<close>; \<open>Registry\<close> draws the consequences for the
  local file system.
\<close>

datatype command_error =
    RegistryFailure registry_error
  | AttestNeedsType
  | WrongPriorState lifecycle_state
  | PreconditionFailed
  | PolicyChoice policy_error
  | SignFailed artifact_error
  | AppendFailed artifact_error
  | AssembleFailed artifact_error
  | SeedEncodeFailed postcard_error
  | ContentAddressMoved hash32 hash32
  | CompilerSignatureAltered
  | JsonFailed string
  | ConsistencyInvalid consistency_error
  | BlockingFindings

type_synonym ('s, 'a) command = "('s, command_error, 'a) action"

abbreviation registry :: "('s, 'a) registry_action \<Rightarrow> ('s, 'a) command" where
  "registry \<equiv> with_error RegistryFailure"

section \<open>Reading the state\<close>

definition head_event :: "toolchain \<Rightarrow> 's backend \<Rightarrow> hash32 \<Rightarrow> ('s, lifecycle_event) registry_action" where
  "head_event T B h =
     abind (be_read_events B h) (\<lambda>events.
     abind (lift (current_state (tc_crypto T) (tc_events T) events)) (\<lambda>_.
     if events = [] then throw NoState else ret (last events)))"

definition require_current_state ::
    "toolchain \<Rightarrow> 's backend \<Rightarrow> hash32 \<Rightarrow> ('s, lifecycle_state) registry_action" where
  "require_current_state T B h =
     abind (be_read_events B h) (\<lambda>events.
     abind (lift (current_state (tc_crypto T) (tc_events T) events)) (\<lambda>st.
     case st of None \<Rightarrow> throw NoState | Some st \<Rightarrow> ret st))"

text \<open>The tail of every transition command: chain an event onto the validated head and append it.\<close>

definition append_transition ::
    "toolchain \<Rightarrow> 's backend \<Rightarrow> hash32 \<Rightarrow> lifecycle_state \<Rightarrow> 64 word \<Rightarrow> ('s, lifecycle_event) registry_action"
  where
  "append_transition T B h ns now =
     abind (head_event T B h) (\<lambda>prior.
     abind (lift (build_transition_event (tc_crypto T) (tc_events T) prior ns REGISTRY_ROOT_KEY_ID
       RegistryRole (stamp (tc_crypto T) h now))) (\<lambda>event.
     abind (be_append_event B h event) (\<lambda>_. ret event)))"

definition decode_stored ::
    "toolchain \<Rightarrow> 's backend \<Rightarrow> hash32 \<Rightarrow> ('s, artifact) registry_action" where
  "decode_stored T B h =
     abind (be_read_artifact_kew B h) (\<lambda>kew.
     abind (lift (map_err ArtifactDecode (decode_artifact (tc_lib T) (tc_artifacts T) kew))) (\<lambda>(a, _).
       ret a))"

text \<open>\<open>{kind}@seq{n}\<close>\<close>

definition event_ref :: "string \<Rightarrow> lifecycle_event \<Rightarrow> string" where
  "event_ref kind e = kind @ ''@seq'' @ nat_digits (uint (ev_seq e))"

section \<open>Deprecate\<close>

definition deprecate :: "toolchain \<Rightarrow> 's backend \<Rightarrow> hash32 \<Rightarrow> 64 word \<Rightarrow> ('s, lifecycle_state) command" where
  "deprecate T B h now =
     abind (registry (require_current_state T B h)) (\<lambda>prior_state.
     abind (guard (prior_state = Published) (WrongPriorState prior_state)) (\<lambda>_.
     abind (guard (can_transition Published Deprecated no_preconditions) PreconditionFailed) (\<lambda>_.
     abind (registry (append_transition T B h Deprecated now)) (\<lambda>_.
       registry (require_current_state T B h)))))"

section \<open>ML check\<close>

definition DEV_STANDIN_ENV :: string where
  "DEV_STANDIN_ENV = ''local-dev-standin''"

definition dev_standin_block :: "64 word \<Rightarrow> consistency_block" where
  "dev_standin_block now =
     \<lparr>cb_tier_result = ''dev_standin_pass'', cb_policy_mode = Advisory, cb_model_name = ''dev-standin'',
      cb_model_version = ''0.0.0'', cb_scoring_profile_version = None, cb_evidence_references = [],
      cb_reviewer_overrides = [],
      cb_reviewer_rationale = Some (''DEV STAND-IN: non-authoritative local ml-check; real T2/T3 is ''
        @ ''platform-owned (ADR 0011)''),
      cb_timestamp = nat_digits (uint now), cb_execution_environment = DEV_STANDIN_ENV\<rparr>"

definition ml_check :: "toolchain \<Rightarrow> 's backend \<Rightarrow> hash32 \<Rightarrow> 64 word \<Rightarrow> ('s, lifecycle_state) command" where
  "ml_check T B h now =
     abind (registry (require_current_state T B h)) (\<lambda>prior_state.
     abind (guard (prior_state = StructurallyVerified) (WrongPriorState prior_state)) (\<lambda>_.
     abind (lift (map_err ConsistencyInvalid (build_consistency_block (dev_standin_block now)))) (\<lambda>block.
     abind (registry (be_put_consistency B h block)) (\<lambda>_.
     abind (registry (be_read_consistency B h)) (\<lambda>present.
     abind (guard (can_transition StructurallyVerified MlChecked
         (no_preconditions\<lparr>consistency_block_present := present \<noteq> None\<rparr>)) PreconditionFailed) (\<lambda>_.
     abind (registry (append_transition T B h MlChecked now)) (\<lambda>_.
       registry (require_current_state T B h))))))))"

section \<open>Attest\<close>

fun signer_role_for :: "attestation_type \<Rightarrow> signer_role" where
  "signer_role_for PublicationApproval = PublicationApprover"
| "signer_role_for _ = DomainExpert"

definition attestation_draft :: "toolchain \<Rightarrow> manifest \<Rightarrow> 64 word \<Rightarrow> attestation_type \<Rightarrow> attestation" where
  "attestation_draft T m now ty =
     \<lparr>att_artifact_hash = artifact_hash m, att_scope = ScopeWholeArtifact, att_type = ty,
      att_signer_identity = ''Test Expert'', att_key_id = TEST_EXPERT_KEY_ID,
      att_signer_role = signer_role_for ty, att_regime_id = regime_id m,
      att_effective_from = man_effective_from m, att_effective_to = man_effective_to m,
      att_legal_source_hash = source_corpus_hash m, att_ir_schema_version = ir_schema_version m,
      att_compiler_version = compiler_version m, att_policy_version = ATTESTATION_POLICY_VERSION,
      att_test_corpus_hash = None, att_timestamp = stamp (tc_crypto T) (artifact_hash m) now,
      att_expiration = None, att_reviewer_comments = None, att_signature = 0\<rparr>"

definition sign_all ::
    "toolchain \<Rightarrow> manifest \<Rightarrow> 64 word \<Rightarrow> attestation_type list \<Rightarrow> artifact_error + attestation list" where
  "sign_all T m now =
     mapR (\<lambda>ty. sign_attestation (tc_crypto T) (tc_artifacts T) (attestation_draft T m now ty) EXPERT_FIXED_SEED)"

definition attest ::
    "toolchain \<Rightarrow> 's backend \<Rightarrow> hash32 \<Rightarrow> attestation_type list \<Rightarrow> 64 word
     \<Rightarrow> ('s, lifecycle_state \<times> nat) command" where
  "attest T B h types now =
     abind (guard (types \<noteq> []) AttestNeedsType) (\<lambda>_.
     abind (registry (require_current_state T B h)) (\<lambda>prior_state.
     abind (guard (prior_state = MlChecked) (WrongPriorState prior_state)) (\<lambda>_.
     abind (registry (decode_stored T B h)) (\<lambda>artifact.
     let pre_hash = artifact_hash (art_manifest artifact) in
     abind (lift (map_err SignFailed (sign_all T (art_manifest artifact) now types))) (\<lambda>attestations.
     abind (lift (map_err AppendFailed (with_attestations (tc_artifacts T) artifact attestations)))
       (\<lambda>(attested, attested_kew).
     abind (guard (artifact_hash (art_manifest attested) = pre_hash)
       (ContentAddressMoved pre_hash (artifact_hash (art_manifest attested)))) (\<lambda>_.
     abind (guard (art_compiler_signature attested = art_compiler_signature artifact)
       CompilerSignatureAltered) (\<lambda>_.
     abind (lift (map_err JsonFailed (tc_manifest_json T (art_manifest attested)))) (\<lambda>manifest_json.
     abind (lift (map_err JsonFailed (tc_payload_json T (art_payload attested)))) (\<lambda>schema_json.
     abind (registry (be_put_artifact B pre_hash attested_kew manifest_json schema_json)) (\<lambda>_.
     abind (lift (map_err (RegistryFailure \<circ> AttestationSetRejected)
       (verify_attestation_set (tc_crypto T) (tc_artifacts T) attested permissive_policy
         (test_expert_key_directory (tc_crypto T)) (local_policy_context now)))) (\<lambda>_.
     abind (guard (can_transition MlChecked ExpertAttested
       (no_preconditions\<lparr>attestation_set_valid := True\<rparr>)) PreconditionFailed) (\<lambda>_.
     abind (registry (append_transition T B h ExpertAttested now)) (\<lambda>_.
     abind (registry (require_current_state T B h)) (\<lambda>final_state.
       ret (final_state, length attestations))))))))))))))))"

section \<open>Publish\<close>

definition publish ::
    "toolchain \<Rightarrow> 's backend \<Rightarrow> hash32 \<Rightarrow> string \<Rightarrow> string \<Rightarrow> string option \<Rightarrow> 64 word
     \<Rightarrow> ('s, lifecycle_state \<times> string) command" where
  "publish T B h env tag policy_path now =
     abind (registry (require_current_state T B h)) (\<lambda>prior_state.
     abind (guard (prior_state = ExpertAttested) (WrongPriorState prior_state)) (\<lambda>_.
     abind (registry (decode_stored T B h)) (\<lambda>artifact.
     abind (lift (map_err (RegistryFailure \<circ> PolicyLoad)
       (resolve_policy (tc_load_policy T) policy_path (artifact_kind (art_manifest artifact))))) (\<lambda>policy.
     abind (lift (map_err (RegistryFailure \<circ> AttestationSetRejected)
       (verify_attestation_set (tc_crypto T) (tc_artifacts T) artifact policy
         (test_expert_key_directory (tc_crypto T)) (local_policy_context now)))) (\<lambda>_.
     abind (guard (can_transition ExpertAttested Published
       (no_preconditions\<lparr>prior_is_expert_attested := True\<rparr>)) PreconditionFailed) (\<lambda>_.
     abind (registry (append_transition T B h Published now)) (\<lambda>event.
     abind (registry (be_put_pointer B env tag h (event_ref ''published'' event))) (\<lambda>_.
     abind (registry (require_current_state T B h)) (\<lambda>final_state.
       ret (final_state, env @ ''/'' @ tag))))))))))"

section \<open>Revoke\<close>

definition revoke ::
    "toolchain \<Rightarrow> 's backend \<Rightarrow> hash32 \<Rightarrow> revocation_policy option \<Rightarrow> revocation_reason_class option
     \<Rightarrow> string option \<Rightarrow> 64 word \<Rightarrow> ('s, lifecycle_state \<times> revocation_policy \<times> string) command" where
  "revoke T B h policy reason_class reason now =
     abind (lift (map_err PolicyChoice (recorded_policy policy reason_class))) (\<lambda>policy.
     abind (registry (require_current_state T B h)) (\<lambda>prior_state.
     abind (guard (prior_state = Published \<or> prior_state = Deprecated) (WrongPriorState prior_state)) (\<lambda>_.
     abind (guard (can_transition prior_state Revoked no_preconditions) PreconditionFailed) (\<lambda>_.
     abind (registry (append_transition T B h Revoked now)) (\<lambda>event.
     abind (registry (be_put_revocation B h
       \<lparr>rr_policy = policy, rr_reason = reason, rr_event_ref = event_ref ''revoked'' event,
        rr_severity = severity_for policy, rr_reason_class = reason_class\<rparr>)) (\<lambda>_.
     abind (registry (require_current_state T B h)) (\<lambda>final_state.
       ret (final_state, policy, severity_for policy))))))))"

section \<open>Rollback\<close>

definition rollback ::
    "toolchain \<Rightarrow> 's backend \<Rightarrow> string \<Rightarrow> string \<Rightarrow> hash32 \<Rightarrow> 64 word
     \<Rightarrow> ('s, lifecycle_state \<times> string) command" where
  "rollback T B env tag h now =
     abind (registry (require_current_state T B h)) (\<lambda>state.
     abind (guard (is_rollback_eligible state) (RegistryFailure (RollbackIneligible state))) (\<lambda>_.
     abind (registry (head_event T B h)) (\<lambda>prior.
     abind (registry (lift (build_tag_moved_event (tc_crypto T) (tc_events T) prior REGISTRY_ROOT_KEY_ID
       RegistryRole (stamp (tc_crypto T) h now)))) (\<lambda>event.
     abind (registry (be_append_event B h event)) (\<lambda>_.
     abind (registry (be_put_pointer B env tag h (event_ref ''tag_moved'' event))) (\<lambda>_.
     abind (registry (require_current_state T B h)) (\<lambda>target_state.
       ret (target_state, env @ ''/'' @ tag))))))))"

section \<open>Compile\<close>

definition synthetic_manifest ::
    "crypto \<Rightarrow> artifact_kind \<Rightarrow> string \<Rightarrow> jurisdiction_date \<Rightarrow> bytes \<Rightarrow> manifest" where
  "synthetic_manifest K kind regime effective seed =
     (let h = blake3 K seed in
      \<lparr>artifact_kind = kind, artifact_hash = h, regime_id = regime, man_effective_from = effective,
       man_effective_to = None,
       compiler_version = \<lparr>semver_major = 0, semver_minor = 1, semver_patch = 0\<rparr>,
       compiler_build_hash = 0, ir_schema_version = IR_SCHEMA_VERSION, codec_version = CODEC_VERSION,
       canonicalization_version = CANONICALIZATION_VERSION, corpus_root_hash = h,
       source_corpus_hash = h, attestation_policy_version = ''ap-1''\<rparr>)"

definition no_audit_versions :: audit_versions where
  "no_audit_versions = \<lparr>jurisdiction_resolver_version = None, scenario_corpus_version = None\<rparr>"

definition compiler_signed :: "toolchain \<Rightarrow> bytes \<Rightarrow> bool" where
  "compiler_signed T kew =
     (case decode_artifact (tc_lib T) (tc_artifacts T) kew of
        Inl _ \<Rightarrow> False
      | Inr (a, n) \<Rightarrow> is_ok (verify_signature (tc_crypto T) (take n kew) (art_compiler_signature a)
          (ed_public (tc_crypto T) FIXED_SEED)))"

text \<open>Steps 6 and 7: the structural transition onto the draft, and the state read back.\<close>

definition record_structural ::
    "toolchain \<Rightarrow> 's backend \<Rightarrow> hash32 \<Rightarrow> lifecycle_event \<Rightarrow> preconditions \<Rightarrow> 64 word \<Rightarrow> ('s, unit) command"
  where
  "record_structural T B h draft pre now =
     (if can_transition Draft StructurallyVerified pre then
        abind (registry (lift (build_transition_event (tc_crypto T) (tc_events T) draft
          StructurallyVerified TEST_KEY_ID RegistryRole (stamp (tc_crypto T) h now)))) (\<lambda>sv.
          registry (be_append_event B h sv))
      else ret ())"

definition derived_state :: "toolchain \<Rightarrow> 's backend \<Rightarrow> hash32 \<Rightarrow> ('s, hash32 \<times> lifecycle_state) command" where
  "derived_state T B h =
     abind (registry (be_read_events B h)) (\<lambda>events.
     abind (registry (lift (current_state (tc_crypto T) (tc_events T) events))) (\<lambda>st.
     case st of
       None \<Rightarrow> throw (RegistryFailure (NotFound ''post-compile state''))
     | Some st \<Rightarrow> ret (h, st)))"

definition store_and_record ::
    "toolchain \<Rightarrow> 's backend \<Rightarrow> artifact \<Rightarrow> bytes \<Rightarrow> bool \<Rightarrow> 64 word
     \<Rightarrow> ('s, hash32 \<times> lifecycle_state) command" where
  "store_and_record T B a kew clean now =
     (let h = artifact_hash (art_manifest a) in
     abind (lift (map_err JsonFailed (tc_manifest_json T (art_manifest a)))) (\<lambda>manifest_json.
     abind (lift (map_err JsonFailed (tc_payload_json T (art_payload a)))) (\<lambda>schema_json.
     abind (registry (be_put_artifact B h kew manifest_json schema_json)) (\<lambda>_.
     abind (registry (lift (build_draft_event (tc_crypto T) (tc_events T) h REGISTRY_ROOT_KEY_ID
       (stamp (tc_crypto T) h now)))) (\<lambda>draft.
     abind (registry (be_append_event B h draft)) (\<lambda>_.
     let hash_ok = is_ok (verify_hash (tc_lib T) (tc_crypto T) (tc_artifacts T) kew);
         pre = no_preconditions\<lparr>structural_clean := clean,
           compiler_signature_valid := hash_ok \<and> compiler_signed T kew\<rparr> in
     abind (record_structural T B h draft pre now) (\<lambda>_.
       derived_state T B h)))))))"

text \<open>Assembly under the test compiler key: of a rule set, and of an IntentSpec.\<close>

definition floor_date :: jurisdiction_date where
  "floor_date = \<lparr>year = 1900, month = 1, day = 1\<rparr>"

definition first_effective :: "rule_ir list \<Rightarrow> jurisdiction_date" where
  "first_effective rules =
     (case rules of
        [] \<Rightarrow> floor_date
      | r # _ \<Rightarrow> (case rule_effective_window r of None \<Rightarrow> floor_date | Some w \<Rightarrow> effective_from w))"

definition assemble_rules ::
    "toolchain \<Rightarrow> rule_ir list \<Rightarrow> string \<Rightarrow> command_error + artifact \<times> bytes" where
  "assemble_rules T rules regime =
     rbind (map_err SeedEncodeFailed (tc_rules_bytes T rules)) (\<lambda>seed.
       map_err AssembleFailed (assemble (tc_lib T) (tc_crypto T) (tc_artifacts T)
         (synthetic_manifest (tc_crypto T) RegimePack regime (first_effective rules) seed) rules
         no_audit_versions FIXED_SEED TEST_KEY_ID))"

definition assemble_intent ::
    "toolchain \<Rightarrow> intent_spec_ir \<Rightarrow> string \<Rightarrow> command_error + artifact \<times> bytes" where
  "assemble_intent T ir regime =
     rbind (map_err SeedEncodeFailed (tc_intent_bytes T ir)) (\<lambda>seed.
       map_err AssembleFailed (assemble_payload (tc_lib T) (tc_crypto T) (tc_artifacts T)
         (synthetic_manifest (tc_crypto T) IntentSpec regime floor_date seed) (PayloadIntentSpec ir)
         no_audit_versions FIXED_SEED TEST_KEY_ID))"

text \<open>\<open>compile\<close> after parsing and verification, and \<open>compile-intent\<close> after parsing.\<close>

definition compile_rules_into ::
    "toolchain \<Rightarrow> 's backend \<Rightarrow> rule_ir list \<Rightarrow> bool \<Rightarrow> string \<Rightarrow> 64 word
     \<Rightarrow> ('s, hash32 \<times> lifecycle_state) command" where
  "compile_rules_into T B rules has_blocking regime now =
     abind (guard (\<not> has_blocking) BlockingFindings) (\<lambda>_.
     abind (lift (assemble_rules T rules regime)) (\<lambda>(a, kew).
       store_and_record T B a kew (\<not> has_blocking) now))"

definition compile_intent_into ::
    "toolchain \<Rightarrow> 's backend \<Rightarrow> intent_spec_ir \<Rightarrow> string \<Rightarrow> 64 word
     \<Rightarrow> ('s, hash32 \<times> lifecycle_state) command" where
  "compile_intent_into T B ir regime now =
     abind (lift (assemble_intent T ir regime)) (\<lambda>(a, kew). store_and_record T B a kew True now)"

end
