(* ===== verification/Command_Triples.thy ===== *)
theory Command_Triples
  imports Commands
begin

text \<open>
  What the commands do on any backend that keeps the contract, as triples over its view: the
  exact effect of a success, and on a failure, that the view was reached by lifecycle steps and
  that, with no failing system call, the command was not enabled.
\<close>

section \<open>Composition\<close>

lemma bind_step:
  assumes "triple P m R E" "\<And>e s. E e s \<Longrightarrow> F e s" "\<And>x. triple (R x) (f x) Q F"
  shows "triple P (abind m f) Q F"
  using assms unfolding triple_iff abind_cases by blast

lemma bind_registry:
  assumes "triple P m R E" "\<And>e s. E e s \<Longrightarrow> F (RegistryFailure e) s" "\<And>x. triple (R x) (f x) Q F"
  shows "triple P (abind (registry m) f) Q F"
proof (rule bind_step[where R = R and E = F])
  show "triple P (registry m) R F"
    by (rule triple_with_error, rule triple_weaken[OF assms(1)]) (use assms(2) in auto)
qed (use assms(3) in auto)

lemma last_registry:
  assumes "triple P m R E" "\<And>x s. R x s \<Longrightarrow> Q x s" "\<And>e s. E e s \<Longrightarrow> F (RegistryFailure e) s"
  shows "triple P (registry m) Q F"
  by (rule triple_with_error, rule triple_weaken[OF assms(1)]) (use assms in auto)

lemma bind_lift:
  assumes "\<And>e s. r = Inl e \<Longrightarrow> P s \<Longrightarrow> F e s" "\<And>x. r = Inr x \<Longrightarrow> triple P (f x) Q F"
  shows "triple P (abind (lift r) f) Q F"
  using assms by (cases r) (auto simp: triple_iff abind_cases)

lemma lift_ok: "abind (lift (Inr x)) f = f x"
  by (simp add: fun_eq_iff abind_def)

lemma bind_map_err:
  assumes "\<And>e s. r = Inl e \<Longrightarrow> P s \<Longrightarrow> F (g e) s" "\<And>x. r = Inr x \<Longrightarrow> triple P (f x) Q F"
  shows "triple P (abind (lift (map_err g r)) f) Q F"
  using assms by (cases r) (auto simp: triple_iff abind_cases)

lemma bind_registry_lift:
  assumes "\<And>e s. r = Inl e \<Longrightarrow> P s \<Longrightarrow> F (RegistryFailure e) s" "\<And>x. r = Inr x \<Longrightarrow> triple P (f x) Q F"
  shows "triple P (abind (registry (lift r)) f) Q F"
  using assms by (cases r) (auto simp: triple_iff abind_cases with_error_cases)

lemma bind_guard:
  assumes "\<And>s. \<not> c \<Longrightarrow> P s \<Longrightarrow> F e s" "c \<Longrightarrow> triple P (f ()) Q F"
  shows "triple P (abind (guard c e) f) Q F"
  using assms by (cases c) (auto simp: guard_def triple_iff abind_cases)

section \<open>Enabled transitions\<close>

text \<open>The event a transition command appends for \<open>h\<close> in the view \<open>v\<close>.\<close>

definition follows ::
    "toolchain \<Rightarrow> registry_view \<Rightarrow> hash32 \<Rightarrow> lifecycle_state \<Rightarrow> 64 word \<Rightarrow> lifecycle_event \<Rightarrow> bool" where
  "follows T v h ns now e \<longleftrightarrow>
     build_transition_event (tc_crypto T) (tc_events T) (last (vw_log v h)) ns REGISTRY_ROOT_KEY_ID
       RegistryRole (stamp (tc_crypto T) h now) = Inr e"

text \<open>There is room for one more 32-bit sequence number.\<close>

definition room :: "registry_view \<Rightarrow> hash32 \<Rightarrow> bool" where
  "room v h \<longleftrightarrow> length (vw_log v h) < 2 ^ 32"

lemma chained_total:
  assumes "toolchain_law T" "sound_log T h es" "es \<noteq> []" "length es < 2 ^ 32"
  shows "\<exists>e. build_chained_event (tc_crypto T) (tc_events T) (last es) ns kind kid role ts = Inr e"
proof -
  obtain e where "build_chained_event (tc_crypto T) (tc_events T) (last es) ns kind kid role ts = Inr e"
    by (rule chained_event_extends[OF toolchain_laws(2,3)[OF assms(1)], where es = es and ns = ns
        and kind = kind and kid = kid and role = role and ts = ts])
      (use assms in \<open>simp_all add: sound_log_def\<close>)
  then show ?thesis ..
qed

lemma valid_increasing:
  assumes "event_codec_law E" "valid_log K E es" "length es \<le> 2 ^ 32"
  shows "increasing es"
  unfolding increasing_def sorted_wrt_map
proof (rule sorted_wrt_iff_nth_less[THEN iffD2], intro allI impI)
  fix i j assume "i < j" "j < length es"
  moreover have "j < 2 ^ 32" using calculation(2) assms(3) by simp
  ultimately show "ev_seq (es ! i) < ev_seq (es ! j)"
    using valid_log_seq[OF assms(1,2)] by (simp add: word_less_nat_alt unat_of_nat)
qed

lemma sound_logD:
  assumes "toolchain_law T" "sound T v"
  shows "sound_log T h (vw_log v h)" "valid_log (tc_crypto T) (tc_events T) (vw_log v h)"
    "length (vw_log v h) \<le> 2 ^ 32"
    "current_state (tc_crypto T) (tc_events T) (vw_log v h) = Inr (last_state (vw_log v h))"
  using assms by (simp_all add: sound_def sound_log_def current_state_valid)

lemma follows_facts:
  assumes "toolchain_law T" "sound T v" "last_state (vw_log v h) = Some st"
    and "build_chained_event (tc_crypto T) (tc_events T) (last (vw_log v h)) ns kind kid role ts = Inr e"
  shows "room v h" "increasing (vw_log v h @ [e])" "last_state (vw_log v h @ [e]) = Some ns"
    "ev_seq e = of_nat (length (vw_log v h))" "ev_prior_state e = Some st"
    "valid_log (tc_crypto T) (tc_events T) (vw_log v h @ [e])"
proof -
  have ne: "vw_log v h \<noteq> []" using assms(3) by (auto simp: last_state_def)
  note log = sound_logD[OF assms(1,2), of h]
  note built = built_onto[OF toolchain_laws(2,3)[OF assms(1)] log(2) ne log(3) assms(4)]
  show "room v h" "last_state (vw_log v h @ [e]) = Some ns" "ev_seq e = of_nat (length (vw_log v h))"
    "ev_prior_state e = Some st" "valid_log (tc_crypto T) (tc_events T) (vw_log v h @ [e])"
    using built assms(3) by (simp_all add: room_def)
  show "increasing (vw_log v h @ [e])"
    by (rule valid_increasing[OF toolchain_laws(2)[OF assms(1)] built(2)]) (use built(1) in simp)
qed

text \<open>The state shows a view that lifecycle steps lead to.\<close>

definition reaches ::
    "(bool \<Rightarrow> registry_view \<Rightarrow> 's \<Rightarrow> bool) \<Rightarrow> toolchain \<Rightarrow> bool \<Rightarrow> registry_view \<Rightarrow> 's \<Rightarrow> bool" where
  "reaches shows_view T b v s \<longleftrightarrow> (\<exists>v'. lifecycle_steps T v v' \<and> shows_view b v' s)"

lemma reaches_same: "shows_view b v s \<Longrightarrow> reaches shows_view T b v s"
  by (auto simp: reaches_def)

lemma reaches_step: "lifecycle_step T v v' \<Longrightarrow> shows_view b v' s \<Longrightarrow> reaches shows_view T b v s"
  by (auto simp: reaches_def)

lemma reaches_trans: "lifecycle_step T v v' \<Longrightarrow> reaches shows_view T b v' s \<Longrightarrow> reaches shows_view T b v s"
  by (auto simp: reaches_def intro: converse_rtranclp_into_rtranclp)

lemma follow_step:
  assumes "toolchain_law T" "sound T v" "last_state (vw_log v h) = Some st"
    and "can_transition st ns pre" "justified T v h pre" "follows T v h ns now e"
  shows "lifecycle_step T v (with_log h e v)" "sound T (with_log h e v)"
    "last_state (vw_log (with_log h e v) h) = Some ns"
proof -
  note built = assms(6)[unfolded follows_def]
  show step: "lifecycle_step T v (with_log h e v)"
    by (rule lifecycle_step.advance[OF assms(3-5) built])
  show "sound T (with_log h e v)" by (rule step_sound[OF step assms(1,2)])
  show "last_state (vw_log (with_log h e v) h) = Some ns"
    using follows_facts(3)[OF assms(1-3) built[unfolded build_transition_event_def]] by simp
qed

lemma no_preconditions_justified [simp]: "justified T v h no_preconditions"
  by (simp add: justified_def no_preconditions_def)

lemma no_preconditions_sel [simp]:
  "\<not> structural_clean no_preconditions" "\<not> compiler_signature_valid no_preconditions"
  "\<not> consistency_block_present no_preconditions" "\<not> attestation_set_valid no_preconditions"
  "\<not> prior_is_expert_attested no_preconditions"
  by (simp_all add: no_preconditions_def)

lemma early_room:
  assumes "toolchain_law T" "sound T v" "last_state (vw_log v h) = Some st"
    and "st \<in> {Draft, StructurallyVerified, MlChecked, ExpertAttested}"
  shows "room v h"
proof -
  have "history (states_of (vw_log v h))" "states_of (vw_log v h) \<noteq> []" "last (states_of (vw_log v h)) = st"
    using sound_logD(1)[OF assms(1,2), of h] assms(3) by (auto simp: sound_log_def last_state_Some)
  then have "length (states_of (vw_log v h)) \<le> 4"
    using history_shapes assms(4) by (fastforce simp: published_spine_def)
  then show ?thesis by (simp add: room_def states_of_def)
qed

lemma nat_digits_ne: "nat_digits n \<noteq> []"
  by (subst nat_digits.simps) simp

lemma dev_block: "build_consistency_block (dev_standin_block now) = Inr (dev_standin_block now)"
  by (simp add: build_consistency_block_def dev_standin_block_def DEV_STANDIN_ENV_def nat_digits_ne ensure_def)

section \<open>Signed attestations\<close>

lemma genuine_reattested:
  assumes "toolchain_law T" "genuine T h kew" "decode_artifact (tc_lib T) (tc_artifacts T) kew = Inr (a, n)"
  obtains kew' n' where "with_attestations (tc_artifacts T) a atts = Inr (a\<lparr>art_attestations := atts\<rparr>, kew')"
    "genuine T h kew'" "decode_artifact (tc_lib T) (tc_artifacts T) kew' = Inr (a\<lparr>art_attestations := atts\<rparr>, n')"
    "artifact_hash (art_manifest a) = h"
proof -
  have g: "enc_artifact (tc_artifacts T) a = Inr kew" "artifact_hash (art_manifest a) = h"
    "verify_hash (tc_lib T) (tc_crypto T) (tc_artifacts T) kew = Inr h"
    "cs_key_id (art_compiler_signature a) = TEST_KEY_ID"
    "verify_signature (tc_crypto T) (take n kew) (art_compiler_signature a) (ed_public (tc_crypto T) FIXED_SEED) = Inr ()"
    "indexed a"
    using assms(2,3) by (auto simp: genuine_def)
  show ?thesis
    by (rule with_attestations_core[OF toolchain_laws(1)[OF assms(1)] assms(3) g(1), where atts = atts
          and K = "tc_crypto T"])
      (rule that, use g in \<open>auto simp: genuine_def\<close>)
qed

text \<open>A directory that has the expert test key as the commands know it.\<close>

definition knows_expert :: "crypto \<Rightarrow> key_directory \<Rightarrow> bool" where
  "knows_expert K kd \<longleftrightarrow>
     keydir_lookup kd TEST_EXPERT_KEY_ID = Some (hd (test_expert_key_directory K))"

lemma test_directory_knows_expert [simp]: "knows_expert K (test_expert_key_directory K)"
  by (simp add: knows_expert_def keydir_lookup_def test_expert_key_directory_def)

lemma attestation_draft_accepted:
  assumes "toolchain_law T" "knows_expert (tc_crypto T) kd"
  shows "\<exists>t. sign_attestation (tc_crypto T) (tc_artifacts T) (attestation_draft T m now ty) EXPERT_FIXED_SEED = Inr t
    \<and> att_type t = ty
    \<and> (\<forall>later. later \<noteq> - 1 \<longrightarrow> verify_attestation (tc_crypto T) (tc_artifacts T) t (artifact_hash m) m kd
         (local_policy_context later) = Inr ())"
proof -
  let ?t = "attestation_draft T m now ty"
  let ?e = "hd (test_expert_key_directory (tc_crypto T))"
  obtain bs where "to_stdvec (pc_attestation_payload (tc_artifacts T)) (attestation_payload.truncate ?t) = Inr bs"
    using artifact_codec_laws(6)[OF toolchain_laws(1)[OF assms(1)], THEN codec_law_enc] by blast
  then obtain t where t: "sign_attestation (tc_crypto T) (tc_artifacts T) ?t EXPERT_FIXED_SEED = Inr t"
    "t = ?t\<lparr>att_signature := ed_sign (tc_crypto T) EXPERT_FIXED_SEED bs\<rparr>"
    by (simp add: sign_attestation_def payload_prefix_payload[OF toolchain_laws(1)[OF assms(1)]])
  have "verify_attestation (tc_crypto T) (tc_artifacts T) t (artifact_hash m) m kd
      (local_policy_context later) = Inr ()" if "later \<noteq> - 1" for later
  proof -
    have facts: "keydir_lookup kd (att_key_id ?t) = Some ?e"
      "kd_public_key ?e = ed_public (tc_crypto T) EXPERT_FIXED_SEED"
      "att_timestamp ?t = stamp (tc_crypto T) (att_artifact_hash ?t) now"
      "is_local (local_policy_context later)" "bound_to ?t (artifact_hash m) m"
      "still_current ?t (local_policy_context later)"
      using assms(2)
      by (simp_all add: knows_expert_def attestation_draft_def test_expert_key_directory_def
          local_policy_context_def is_local_def acceptance_defs)
    have "later < - 1" using that by (simp add: word_order.not_eq_extremum)
    then have "key_may_sign ?e ?t (ctx_now_unix (local_policy_context later))"
      by (cases ty) (simp_all add: attestation_draft_def test_expert_key_directory_def
          local_policy_context_def key_may_sign_def)
    from sign_then_verify[OF toolchain_laws(1,4,5)[OF assms(1)] facts(1-4) this facts(5,6)] t(1)
    show ?thesis by auto
  qed
  then show ?thesis using t by (auto simp: attestation_draft_def)
qed

lemma sign_all_accepted:
  assumes "toolchain_law T" "knows_expert (tc_crypto T) kd"
  shows "\<exists>ts. sign_all T m now types = Inr ts \<and> map att_type ts = types
    \<and> (\<forall>later. later \<noteq> - 1 \<longrightarrow> (\<forall>t\<in>set ts. verify_attestation (tc_crypto T) (tc_artifacts T) t
         (artifact_hash m) m kd (local_policy_context later) = Inr ()))"
proof (induction types)
  case Nil
  show ?case by (simp add: sign_all_def)
next
  case (Cons ty types)
  then show ?case
    using attestation_draft_accepted[OF assms, of m now ty] by (auto simp: sign_all_def)
qed

lemma signed_set_accepted:
  assumes "toolchain_law T" "knows_expert (tc_crypto T) kd" "later \<noteq> - 1"
    and "sign_all T (art_manifest a) now types = Inr ts"
    and "PublicationApproval \<in> set types \<Longrightarrow> set (co_attestation_types (artifact_kind (art_manifest a))) \<subseteq> set types"
    and "\<forall>ty\<in>set (required_attestation_types policy). required_count policy ty \<le> count_list types ty"
  shows "verify_attestation_set (tc_crypto T) (tc_artifacts T) (a\<lparr>art_attestations := ts\<rparr>) policy kd
    (local_policy_context later) = Inr ()"
proof -
  have ts: "map att_type ts = types"
    "\<forall>t\<in>set ts. verify_attestation (tc_crypto T) (tc_artifacts T) t (artifact_hash (art_manifest a))
       (art_manifest a) kd (local_policy_context later) = Inr ()"
    using sign_all_accepted[OF assms(1,2), of "art_manifest a" now types] assms(3,4) by auto
  have types: "(\<exists>t\<in>set ts. att_type t = ty) \<longleftrightarrow> ty \<in> set types" for ty
    using ts(1) by auto
  have "count_of_type ty ts = count_list types ty" for ty
    unfolding ts(1)[symmetric] by (induction ts) (simp_all add: count_of_type_def)
  then show ?thesis
    unfolding attestation_set_accepted[OF toolchain_laws(1)[OF assms(1)]]
    using ts(2) assms(5,6) by (auto simp: types)
qed

text \<open>The set \<open>attest\<close> builds passes its own check unless the clock is the last second or an
  approval comes without its co-attestations.\<close>

definition json_total :: "toolchain \<Rightarrow> bool" where
  "json_total T \<longleftrightarrow> (\<forall>m. is_ok (tc_manifest_json T m)) \<and> (\<forall>p. is_ok (tc_payload_json T p))"

lemma json_fails:
  "tc_manifest_json T m = Inl e \<Longrightarrow> \<not> json_total T" "tc_payload_json T p = Inl e \<Longrightarrow> \<not> json_total T"
  unfolding json_total_def by (metis is_ok_simps(2))+

definition attestable :: "attestation_type list \<Rightarrow> artifact_kind \<Rightarrow> 64 word \<Rightarrow> bool" where
  "attestable types kind now \<longleftrightarrow> types \<noteq> [] \<and> now \<noteq> - 1
     \<and> (PublicationApproval \<in> set types \<longrightarrow> set (co_attestation_types kind) \<subseteq> set types)"

lemma attestable_accepted:
  assumes "toolchain_law T" "attestable types (artifact_kind (art_manifest a)) now"
    and "sign_all T (art_manifest a) now types = Inr ts"
  shows "verify_attestation_set (tc_crypto T) (tc_artifacts T) (a\<lparr>art_attestations := ts\<rparr>) permissive_policy
    (test_expert_key_directory (tc_crypto T)) (local_policy_context now) = Inr ()"
  by (rule signed_set_accepted[OF assms(1) test_directory_knows_expert _ assms(3)])
    (use assms(2) in \<open>simp_all add: attestable_def permissive_policy_def\<close>)

section \<open>Assembled artifacts\<close>

lemma genuine_assembled:
  assumes "toolchain_law T" "kind_agrees (artifact_kind m) p"
    and "assemble_payload (tc_lib T) (tc_crypto T) (tc_artifacts T) m p audit FIXED_SEED TEST_KEY_ID = Inr (a, kew)"
  shows "genuine T (artifact_hash (art_manifest a)) kew" "decodes T kew a"
proof -
  note law = toolchain_laws(1)[OF assms(1)]
  obtain env where
    env: "to_stdvec (pc_envelope (tc_artifacts T)) (envelope.truncate a) = Inr env" and
    address: "content_address (tc_crypto T) (tc_artifacts T) (envelope.truncate a) = Some (artifact_hash (art_manifest a))" and
    sig: "art_compiler_signature a = sign_envelope (tc_crypto T) env FIXED_SEED TEST_KEY_ID" and
    enc: "enc_artifact (tc_artifacts T) a = Inr kew"
    by (rule assemble_payload_result[OF law assms(3)])
  have valid: "artifact_valid (tc_lib T) a" by (rule assemble_payload_valid[OF law assms(3,2)])
  have "verify_signature (tc_crypto T) env (art_compiler_signature a) (ed_public (tc_crypto T) FIXED_SEED) = Inr ()"
    using toolchain_laws(4)[OF assms(1)] by (simp add: verify_signature_def sig sign_envelope_def crypto_law_def)
  then show "genuine T (artifact_hash (art_manifest a)) kew" "decodes T kew a"
    using decode_enc_artifact[OF law enc env valid] enc verify_hash_enc_artifact[OF law enc valid address]
    using assembled_indexed[OF assms(3)]
    by (auto simp: genuine_def decodes_def sig sign_envelope_def)
qed

lemma genuine_signed: "genuine T h kew \<Longrightarrow> compiler_signed T kew"
  "genuine T h kew \<Longrightarrow> is_ok (verify_hash (tc_lib T) (tc_crypto T) (tc_artifacts T) kew)"
  by (auto simp: genuine_def compiler_signed_def)

lemma assembled_genuine:
  assumes "toolchain_law T"
  shows "assemble_rules T rules regime = Inr (a, kew) \<Longrightarrow> genuine T (artifact_hash (art_manifest a)) kew"
    "assemble_intent T ir regime = Inr (a, kew) \<Longrightarrow> genuine T (artifact_hash (art_manifest a)) kew"
  by (auto simp: assemble_rules_def assemble_intent_def assemble_def rbind_eq_Inr map_err_eq_Inr
      synthetic_manifest_def Let_def kind_agrees_def
      intro!: genuine_assembled(1)[OF assms, rotated])

lemma assembled_decodes:
  assumes "toolchain_law T"
  shows "assemble_rules T rules regime = Inr (a, kew) \<Longrightarrow> decodes T kew a"
    "assemble_intent T ir regime = Inr (a, kew) \<Longrightarrow> decodes T kew a"
  by (auto simp: assemble_rules_def assemble_intent_def assemble_def rbind_eq_Inr map_err_eq_Inr
      synthetic_manifest_def Let_def kind_agrees_def
      intro!: genuine_assembled(2)[OF assms, rotated])

text \<open>What storing an assembled artifact does, with its draft and structural events.\<close>

definition recorded ::
    "toolchain \<Rightarrow> registry_view \<Rightarrow> artifact \<Rightarrow> bytes \<Rightarrow> 64 word \<Rightarrow> registry_view \<Rightarrow> bool" where
  "recorded T v a kew now v' \<longleftrightarrow>
     (let h = artifact_hash (art_manifest a); K = tc_crypto T; E = tc_events T in
      vw_log v h = []
      \<and> (\<exists>d e. build_draft_event K E h REGISTRY_ROOT_KEY_ID (stamp K h now) = Inr d
           \<and> build_transition_event K E d StructurallyVerified TEST_KEY_ID RegistryRole (stamp K h now) = Inr e
           \<and> v' = with_log h e (with_log h d (with_kew h kew v))))"

section \<open>On any backend\<close>

context registry_backend begin

lemma current_state_triple:
  assumes "toolchain_law T" "sound T v"
  shows "triple (stands b v) (require_current_state T B h)
    (\<lambda>st s. last_state (vw_log v h) = Some st \<and> stands b v s)
    (\<lambda>e s. (b \<longrightarrow> last_state (vw_log v h) = None) \<and> stands b v s)"
  unfolding require_current_state_def
  apply (rule bind_step[OF read_events], blast)
  apply (rule triple_pure, hypsubst)
  apply (rule bind_lift, simp add: sound_logD[OF assms])
  apply (simp add: sound_logD[OF assms])
  apply (cases "last_state (vw_log v h)")
   apply (auto intro: triple_throw triple_ret)
  done

lemma head_event_triple:
  assumes "toolchain_law T" "sound T v"
  shows "triple (stands b v) (head_event T B h)
    (\<lambda>e s. (vw_log v h \<noteq> [] \<and> e = last (vw_log v h)) \<and> stands b v s)
    (\<lambda>e s. (b \<longrightarrow> last_state (vw_log v h) = None) \<and> stands b v s)"
  unfolding head_event_def
  apply (rule bind_step[OF read_events], blast)
  apply (rule triple_pure, hypsubst)
  apply (rule bind_lift, simp add: sound_logD[OF assms])
  apply (auto intro!: triple_throw triple_ret simp: last_state_def)
  done

lemma append_built_triple:
  assumes "toolchain_law T" "sound T v" "last_state (vw_log v h) = Some st"
    and "build_chained_event (tc_crypto T) (tc_events T) (last (vw_log v h)) ns kind kid role ts = Inr e"
  shows "triple (stands b v) (be_append_event B h e) (\<lambda>_. stands b (with_log h e v)) (\<lambda>_ s. \<not> b \<and> stands b v s)"
  by (rule append_event[OF follows_facts(2)[OF assms]])

lemma append_transition_triple:
  assumes "toolchain_law T" "sound T v" "last_state (vw_log v h) = Some st"
  shows "triple (stands b v) (append_transition T B h ns now)
    (\<lambda>e s. follows T v h ns now e \<and> stands b (with_log h e v) s)
    (\<lambda>_ s. (b \<longrightarrow> \<not> room v h) \<and> stands b v s)"
  unfolding append_transition_def
proof (rule triple_bind)
  show "triple (stands b v) (head_event T B h)
      (\<lambda>e s. (vw_log v h \<noteq> [] \<and> e = last (vw_log v h)) \<and> stands b v s)
      (\<lambda>_ s. (b \<longrightarrow> \<not> room v h) \<and> stands b v s)"
    by (rule triple_weaken[OF head_event_triple[OF assms(1,2)]]) (use assms(3) in auto)
  fix e
  show "triple (\<lambda>s. (vw_log v h \<noteq> [] \<and> e = last (vw_log v h)) \<and> stands b v s)
      (abind (lift (build_transition_event (tc_crypto T) (tc_events T) e ns REGISTRY_ROOT_KEY_ID
         RegistryRole (stamp (tc_crypto T) h now))) (\<lambda>event.
       abind (be_append_event B h event) (\<lambda>_. ret event)))
      (\<lambda>e s. follows T v h ns now e \<and> stands b (with_log h e v) s)
      (\<lambda>_ s. (b \<longrightarrow> \<not> room v h) \<and> stands b v s)"
  proof (rule triple_pure, elim conjE, hypsubst, rule bind_lift)
    fix err s
    assume "vw_log v h \<noteq> []" and "build_transition_event (tc_crypto T) (tc_events T) (last (vw_log v h)) ns
      REGISTRY_ROOT_KEY_ID RegistryRole (stamp (tc_crypto T) h now) = Inl err" and "stands b v s"
    then show "(b \<longrightarrow> \<not> room v h) \<and> stands b v s"
      using chained_total[OF assms(1) sound_logD(1)[OF assms(1,2)]]
      unfolding room_def build_transition_event_def by (metis Inl_Inr_False)
  next
    fix event
    assume built: "build_transition_event (tc_crypto T) (tc_events T) (last (vw_log v h)) ns
      REGISTRY_ROOT_KEY_ID RegistryRole (stamp (tc_crypto T) h now) = Inr event"
    show "triple (stands b v) (abind (be_append_event B h event) (\<lambda>_. ret event))
      (\<lambda>e s. follows T v h ns now e \<and> stands b (with_log h e v) s)
      (\<lambda>_ s. (b \<longrightarrow> \<not> room v h) \<and> stands b v s)"
      by (rule bind_step[OF append_built_triple[OF assms built[unfolded build_transition_event_def]]])
        (auto intro: triple_ret simp: follows_def built)
  qed
qed

text \<open>Reading the state back after a step never fails without a failing system call.\<close>

lemma state_after:
  assumes "toolchain_law T" "sound T v" "lifecycle_step T v v'" "last_state (vw_log v' h) = Some st"
  shows "triple (stands b v') (require_current_state T B h) (\<lambda>x s. x = st \<and> stands b v' s \<and> reaches stands T b v s)
    (\<lambda>_ s. \<not> b \<and> reaches stands T b v s)"
  by (rule triple_weaken[OF current_state_triple[OF assms(1) step_sound[OF assms(3,1,2)]]])
    (use assms(4) reaches_step[OF assms(3)] in auto)

lemma deprecate_triple:
  assumes "toolchain_law T" "sound T v"
  shows "triple (stands b v) (deprecate T B h now)
    (\<lambda>st s. st = Deprecated \<and> last_state (vw_log v h) = Some Published
       \<and> (\<exists>e. follows T v h Deprecated now e \<and> stands b (with_log h e v) s) \<and> reaches stands T b v s)
    (\<lambda>_ s. (b \<longrightarrow> \<not> (last_state (vw_log v h) = Some Published \<and> room v h)) \<and> reaches stands T b v s)"
  unfolding deprecate_def
  apply (rule bind_registry[OF current_state_triple[OF assms]], force intro: reaches_same)
  apply (rule triple_pure)
  apply (rule bind_guard, force intro: reaches_same)
  apply (rule bind_guard, simp)
  apply hypsubst
  apply (rule bind_registry[OF append_transition_triple[OF assms]], assumption, force intro: reaches_same)
  apply (rule triple_pure)
  apply (rule last_registry[OF state_after[OF assms]])
     apply (erule (1) follow_step(1)[OF assms, where pre = no_preconditions, rotated -1]; simp)
    apply (rule follow_step(3)[OF assms, where pre = no_preconditions], assumption+, simp+)
   apply auto
  done

lemma ml_check_triple:
  assumes "toolchain_law T" "sound T v"
  shows "triple (stands b v) (ml_check T B h now)
    (\<lambda>st s. st = MlChecked \<and> last_state (vw_log v h) = Some StructurallyVerified \<and> vw_consistency v h = None
       \<and> (\<exists>e. follows T v h MlChecked now e
            \<and> stands b (with_log h e (with_consistency h (dev_standin_block now) v)) s)
       \<and> reaches stands T b v s)
    (\<lambda>_ s. (b \<longrightarrow> \<not> (last_state (vw_log v h) = Some StructurallyVerified \<and> vw_consistency v h = None))
       \<and> reaches stands T b v s)"
  unfolding ml_check_def dev_block map_err_simps lift_ok
  apply (rule bind_registry[OF current_state_triple[OF assms]], force intro: reaches_same)
  apply (rule triple_pure)
  apply (rule bind_guard, force intro: reaches_same)
  apply hypsubst
  apply (rule bind_registry[OF put_consistency], force intro: reaches_same)
  apply (rule triple_pure)
  subgoal premises prems for _
  proof -
    let ?v = "with_consistency h (dev_standin_block now) v"
    let ?pre = "no_preconditions\<lparr>consistency_block_present := True\<rparr>"
    have step: "lifecycle_step T v ?v" by (rule lifecycle_step.consistency[OF prems])
    note later = assms(1) step_sound[OF step assms]
    have state: "last_state (vw_log ?v h) = Some StructurallyVerified" using prems(1) by simp
    have bits: "can_transition StructurallyVerified MlChecked ?pre" "justified T ?v h ?pre"
      by (simp_all add: justified_def)
    have room: "room ?v h" using early_room[OF later state] by simp
    show ?thesis
      apply (rule bind_registry[OF read_consistency], force intro: reaches_step[OF step])
      apply (rule triple_pure, simp only: view_selectors fun_upd_same)
      apply (rule bind_guard, simp)
      apply (rule bind_registry[OF append_transition_triple[OF later state]])
       apply (use room in \<open>force intro: reaches_step[OF step]\<close>)
      apply (rule triple_pure)
      apply (rule last_registry[OF state_after[OF later]])
         apply (rule follow_step(1)[OF later state bits], assumption)
        apply (rule follow_step(3)[OF later state bits], assumption)
       apply (use prems in \<open>force simp: follows_def intro: reaches_trans[OF step]\<close>)
      apply (auto intro: reaches_trans[OF step])
      done
  qed
  done

lemma revoke_triple:
  assumes "toolchain_law T" "sound T v"
  shows "triple (stands b v) (revoke T B h policy class reason now)
    (\<lambda>(st, p, severity) s. st = Revoked \<and> recorded_policy policy class = Inr p \<and> severity = severity_for p
       \<and> last_state (vw_log v h) \<in> {Some Published, Some Deprecated}
       \<and> (\<exists>e. follows T v h Revoked now e
            \<and> stands b (with_revocation h \<lparr>rr_policy = p, rr_reason = reason,
                 rr_event_ref = event_ref ''revoked'' e, rr_severity = severity_for p,
                 rr_reason_class = class\<rparr> (with_log h e v)) s)
       \<and> reaches stands T b v s)
    (\<lambda>_ s. (b \<longrightarrow> \<not> ((\<exists>p. recorded_policy policy class = Inr p)
         \<and> last_state (vw_log v h) \<in> {Some Published, Some Deprecated} \<and> room v h))
       \<and> reaches stands T b v s)"
  unfolding revoke_def
  apply (rule bind_map_err, force intro: reaches_same)
  apply (rule bind_registry[OF current_state_triple[OF assms]], force intro: reaches_same)
  apply (rule triple_pure)
  apply (rule bind_guard, force intro: reaches_same)
  apply (rule bind_guard, force)
  apply (rule bind_registry[OF append_transition_triple[OF assms]], assumption, force intro: reaches_same)
  apply (rule triple_pure)
  subgoal premises prems for p st e
  proof -
    let ?v = "with_log h e v"
    note state = prems(2) and follows = prems(5)
    note now = follow_step[OF assms state prems(4) no_preconditions_justified follows]
    have fresh: "vw_revocation ?v h = None"
    proof (rule ccontr)
      assume "\<not> ?thesis"
      then have "Revoked \<in> set (states_of (vw_log v h))"
        using assms(2) by (auto simp: sound_def sound_objects_def)
      moreover have "history (states_of (vw_log v h))" "states_of (vw_log v h) \<noteq> []"
        "last (states_of (vw_log v h)) = st"
        using sound_logD(1)[OF assms, of h] state by (auto simp: sound_log_def last_state_Some)
      ultimately show False using history_shapes prems(3) by (fastforce simp: published_spine_def)
    qed
    note step = lifecycle_step.revocation[OF now(3) fresh]
    show ?thesis
      apply (rule bind_registry[OF put_revocation], use fresh in \<open>force intro: reaches_step[OF now(1)]\<close>)
      apply (rule triple_pure)
      apply (rule bind_registry[OF state_after[OF assms(1) now(2) step]])
        apply (use now(3) in simp)
       apply (force intro: reaches_trans[OF now(1)])
      apply (rule triple_pure)
      apply (rule triple_ret)
      apply (use prems in \<open>auto intro: reaches_trans[OF now(1)]\<close>)
      done
  qed
  done

lemma rollback_triple:
  assumes "toolchain_law T" "sound T v"
  shows "triple (stands b v) (rollback T B env tag h now)
    (\<lambda>(st, ref) s. st = Published \<and> ref = env @ ''/'' @ tag \<and> last_state (vw_log v h) = Some Published
       \<and> (\<exists>e. build_tag_moved_event (tc_crypto T) (tc_events T) (last (vw_log v h)) REGISTRY_ROOT_KEY_ID
              RegistryRole (stamp (tc_crypto T) h now) = Inr e
            \<and> stands b (with_pointer env tag h (event_ref ''tag_moved'' e) (with_log h e v)) s)
       \<and> reaches stands T b v s)
    (\<lambda>_ s. (b \<longrightarrow> \<not> (last_state (vw_log v h) = Some Published \<and> room v h)) \<and> reaches stands T b v s)"
  unfolding rollback_def is_rollback_eligible_def
  apply (rule bind_registry[OF current_state_triple[OF assms]], force intro: reaches_same)
  apply (rule triple_pure)
  apply (rule bind_guard, force intro: reaches_same)
  apply (rule bind_registry[OF head_event_triple[OF assms]], force intro: reaches_same)
  apply (rule triple_pure, elim conjE, hypsubst)
  apply (rule bind_registry_lift)
  subgoal premises prems for _ _ err s
    using chained_total[OF assms(1) sound_logD(1)[OF assms] prems(2)] prems(3,4)
    unfolding room_def build_tag_moved_event_def by (metis Inl_Inr_False reaches_same)
  subgoal premises prems for _ _ e
  proof -
    let ?v = "with_log h e v"
    note state = prems(1) and built = prems(3)
    have same: "ev_new_state (last (vw_log v h)) = Published"
      using state by (simp add: last_state_def split: if_splits)
    note facts = follows_facts[OF assms state built[unfolded build_tag_moved_event_def same]]
    note step = lifecycle_step.tag_moved[OF state built]
    note sound' = step_sound[OF step assms]
    have state': "last_state (vw_log ?v h) = Some Published" using facts(3) by simp
    note step' = lifecycle_step.pointer[OF state']
    show ?thesis
      apply (rule bind_registry[OF append_event[OF facts(2)]], force intro: reaches_same)
      apply (rule bind_registry[OF put_pointer], force intro: reaches_step[OF step])
      apply (rule bind_registry[OF state_after[OF assms(1) sound' step']])
        apply (use state' in simp)
       apply (force intro: reaches_trans[OF step])
      apply (rule triple_pure)
      apply (rule triple_ret)
      apply (use prems in \<open>auto intro: reaches_trans[OF step]\<close>)
      done
  qed
  done

lemma decode_stored_triple:
  assumes "sound T v"
  shows "triple (stands b v) (decode_stored T B h)
    (\<lambda>a s. (\<exists>kew n. vw_kew v h = Some kew \<and> genuine T h kew
        \<and> decode_artifact (tc_lib T) (tc_artifacts T) kew = Inr (a, n)) \<and> stands b v s)
    (\<lambda>_ s. (b \<longrightarrow> vw_kew v h = None) \<and> stands b v s)"
  unfolding decode_stored_def
  apply (rule bind_step[OF read_artifact_kew], blast)
  apply (rule triple_pure)
  subgoal premises prems for kew
  proof -
    have gen: "genuine T h kew" using prems assms by (auto simp: sound_def sound_objects_def)
    then obtain a n where dec: "decode_artifact (tc_lib T) (tc_artifacts T) kew = Inr (a, n)"
      by (auto simp: genuine_def)
    show ?thesis
      by (simp add: dec) (rule bind_lift, simp, use prems gen dec in \<open>auto intro!: triple_ret\<close>)
  qed
  done

text \<open>The artifact at an address of a sound view.\<close>

lemma publish_triple:
  assumes "toolchain_law T" "sound T v"
  shows "triple (stands b v) (publish T B h env tag path now)
    (\<lambda>(st, ref) s. st = Published \<and> ref = env @ ''/'' @ tag \<and> last_state (vw_log v h) = Some ExpertAttested
       \<and> (\<exists>kew a policy e. vw_kew v h = Some kew \<and> decodes T kew a
            \<and> resolve_policy (tc_load_policy T) path (artifact_kind (art_manifest a)) = Inr policy
            \<and> verify_attestation_set (tc_crypto T) (tc_artifacts T) a policy
                (test_expert_key_directory (tc_crypto T)) (local_policy_context now) = Inr ()
            \<and> follows T v h Published now e
            \<and> stands b (with_pointer env tag h (event_ref ''published'' e) (with_log h e v)) s)
       \<and> reaches stands T b v s)
    (\<lambda>_ s. (b \<longrightarrow> \<not> (last_state (vw_log v h) = Some ExpertAttested
         \<and> (\<exists>kew a policy. vw_kew v h = Some kew \<and> decodes T kew a
              \<and> resolve_policy (tc_load_policy T) path (artifact_kind (art_manifest a)) = Inr policy
              \<and> verify_attestation_set (tc_crypto T) (tc_artifacts T) a policy
                  (test_expert_key_directory (tc_crypto T)) (local_policy_context now) = Inr ())))
       \<and> reaches stands T b v s)"
  unfolding publish_def
  apply (rule bind_registry[OF current_state_triple[OF assms]], force intro: reaches_same)
  apply (rule triple_pure)
  apply (rule bind_guard, force intro: reaches_same)
  apply (rule bind_registry[OF decode_stored_triple[OF assms(2)]], force intro: reaches_same)
  apply (rule triple_pure, elim exE conjE, hypsubst)
  apply (rule bind_map_err, force intro: reaches_same simp: decodes_def)
  apply (rule bind_map_err, force intro: reaches_same simp: decodes_def)
  apply (rule bind_guard, simp)
  subgoal premises prems for _ a kew n policy
  proof -
    let ?pre = "no_preconditions\<lparr>prior_is_expert_attested := True\<rparr>"
    note state = prems(1)
    have set: "verify_attestation_set (tc_crypto T) (tc_artifacts T) a policy
        (test_expert_key_directory (tc_crypto T)) (local_policy_context now) = Inr ()"
      using prems by simp
    have dec: "decodes T kew a" using prems by (auto simp: decodes_def)
    have just: "justified T v h ?pre"
      using dec set prems(2) by (auto simp: justified_def attested_def)
    have edge: "can_transition ExpertAttested Published ?pre" by simp
    have room: "room v h" using early_room[OF assms state] by simp
    show ?thesis
      apply (rule bind_registry[OF append_transition_triple[OF assms state]])
       apply (use room in \<open>force intro: reaches_same\<close>)
      apply (rule triple_pure)
      subgoal premises follows for e
      proof -
        note now = follow_step[OF assms state edge just follows]
        note step = lifecycle_step.pointer[OF now(3)]
        show ?thesis
          apply (rule bind_registry[OF put_pointer], force intro: reaches_step[OF now(1)])
          apply (rule bind_registry[OF state_after[OF assms(1) now(2) step]])
            apply (use now(3) in simp)
           apply (force intro: reaches_trans[OF now(1)])
          apply (rule triple_pure)
          apply (rule triple_ret)
          apply (use prems(2) dec set state follows prems(5) in \<open>auto intro: reaches_trans[OF now(1)]\<close>)
          done
      qed
      done
  qed
  done

lemma attest_triple:
  assumes "toolchain_law T" "sound T v"
  shows "triple (stands b v) (attest T B h types now)
    (\<lambda>(st, n) s. st = ExpertAttested \<and> n = length types \<and> last_state (vw_log v h) = Some MlChecked
       \<and> (\<exists>kew a ts kew' e. vw_kew v h = Some kew \<and> decodes T kew a
            \<and> sign_all T (art_manifest a) now types = Inr ts
            \<and> with_attestations (tc_artifacts T) a ts = Inr (a\<lparr>art_attestations := ts\<rparr>, kew')
            \<and> follows T v h ExpertAttested now e
            \<and> stands b (with_log h e (with_kew h kew' v)) s)
       \<and> reaches stands T b v s)
    (\<lambda>_ s. (b \<longrightarrow> \<not> (last_state (vw_log v h) = Some MlChecked \<and> json_total T
         \<and> (\<exists>kew a. vw_kew v h = Some kew \<and> decodes T kew a
              \<and> attestable types (artifact_kind (art_manifest a)) now)))
       \<and> reaches stands T b v s)"
  unfolding attest_def Let_def
  apply (rule bind_guard, force intro: reaches_same simp: attestable_def)
  apply (rule bind_registry[OF current_state_triple[OF assms]], force intro: reaches_same)
  apply (rule triple_pure)
  apply (rule bind_guard, force intro: reaches_same)
  apply (rule bind_registry[OF decode_stored_triple[OF assms(2)]], force intro: reaches_same)
  apply (rule triple_pure, elim exE conjE, hypsubst)
  subgoal premises prems for _ a kew n
  proof -
    note state = prems(2)
    obtain ts where ts: "sign_all T (art_manifest a) now types = Inr ts" "map att_type ts = types"
      using sign_all_accepted[OF assms(1) test_directory_knows_expert] by blast
    have len: "length ts = length types" using ts(2) by (metis length_map)
    obtain kew' n' where kew': "with_attestations (tc_artifacts T) a ts = Inr (a\<lparr>art_attestations := ts\<rparr>, kew')"
      "genuine T h kew'" "decode_artifact (tc_lib T) (tc_artifacts T) kew' = Inr (a\<lparr>art_attestations := ts\<rparr>, n')"
      "artifact_hash (art_manifest a) = h"
      by (rule genuine_reattested[OF assms(1) prems(4,5)])
    let ?v = "with_kew h kew' v"
    let ?pre = "no_preconditions\<lparr>attestation_set_valid := True\<rparr>"
    have dec: "decodes T kew a" using prems(5) by (auto simp: decodes_def)
    have step: "lifecycle_step T v ?v" by (rule lifecycle_step.store[OF kew'(2)])
    note later = assms(1) step_sound[OF step assms]
    have state': "last_state (vw_log ?v h) = Some MlChecked" using state by simp
    have room: "room ?v h" using early_room[OF later state'] by simp
    have kew'': "\<not> b \<and> (stands b v s \<or> stands b ?v s) \<Longrightarrow> \<not> b \<and> reaches stands T b v s" for s
      using reaches_same reaches_step[OF step] by metis
    have rejected: "\<not> (\<exists>kew a. vw_kew v h = Some kew \<and> decodes T kew a
        \<and> attestable types (artifact_kind (art_manifest a)) now)"
      if "verify_attestation_set (tc_crypto T) (tc_artifacts T) (a\<lparr>art_attestations := ts\<rparr>)
        permissive_policy (test_expert_key_directory (tc_crypto T)) (local_policy_context now) = Inl e" for e
      using attestable_accepted[OF assms(1) _ ts(1)] prems(3,5) that by (fastforce simp: decodes_def)
    show ?thesis
      unfolding ts(1) kew'(1) map_err_simps lift_ok prod.case
      apply (rule bind_guard, simp)
      apply (rule bind_guard, simp)
      apply (rule bind_map_err, force intro: reaches_same dest: json_fails)
      apply (rule bind_map_err, force intro: reaches_same dest: json_fails)
      apply (simp only: kew'(4))
      apply (rule bind_registry[OF put_artifact], use kew'' in blast)
      apply (rule bind_map_err)
       apply (use rejected in \<open>auto intro: reaches_step[OF step]\<close>)[1]
      apply (rule bind_guard, simp)
      subgoal premises accepted
      proof -
        have set: "verify_attestation_set (tc_crypto T) (tc_artifacts T) (a\<lparr>art_attestations := ts\<rparr>)
            permissive_policy (test_expert_key_directory (tc_crypto T)) (local_policy_context now) = Inr ()"
          using accepted by simp
        have just: "justified T ?v h ?pre"
          using set kew'(3) by (auto simp: justified_def attested_def decodes_def)
        have edge: "can_transition MlChecked ExpertAttested ?pre" by simp
        show ?thesis
          apply (rule bind_registry[OF append_transition_triple[OF later state']])
           apply (use room in \<open>force intro: reaches_step[OF step]\<close>)
          apply (rule triple_pure)
          apply (rule bind_registry[OF state_after[OF later]])
             apply (rule follow_step(1)[OF later state' edge just], assumption)
            apply (rule follow_step(3)[OF later state' edge just], assumption)
           apply (force intro: reaches_trans[OF step])
          apply (rule triple_pure)
          apply (rule triple_ret)
          apply (use prems(3) dec ts(1) kew'(1) state len in \<open>auto simp: follows_def intro: reaches_trans[OF step]\<close>)
          done
      qed
      done
  qed
  done

lemma derived_state_triple:
  assumes "toolchain_law T" "sound T v" "last_state (vw_log v h) = Some st"
  shows "triple (stands b v) (derived_state T B h)
    (\<lambda>r s. r = (h, st) \<and> stands b v s) (\<lambda>_ s. \<not> b \<and> stands b v s)"
  unfolding derived_state_def
  apply (rule bind_registry[OF read_events], blast)
  apply (rule triple_pure, hypsubst)
  apply (rule bind_registry_lift, simp add: sound_logD[OF assms(1,2)])
  apply (simp add: sound_logD[OF assms(1,2)] assms(3))
  apply (auto intro: triple_ret)
  done

lemma record_structural_triple:
  assumes "toolchain_law T" "sound T v" "last_state (vw_log v h) = Some Draft" "justified T v h pre"
  shows "triple (stands b v) (abind (record_structural T B h (last (vw_log v h)) pre now) (\<lambda>_. derived_state T B h))
    (\<lambda>(h', st) s. h' = h \<and> (if can_transition Draft StructurallyVerified pre
       then st = StructurallyVerified \<and> (\<exists>e. build_transition_event (tc_crypto T) (tc_events T) (last (vw_log v h))
              StructurallyVerified TEST_KEY_ID RegistryRole (stamp (tc_crypto T) h now) = Inr e
            \<and> stands b (with_log h e v) s)
       else st = Draft \<and> stands b v s) \<and> reaches stands T b v s)
    (\<lambda>_ s. \<not> b \<and> reaches stands T b v s)"
proof (cases "can_transition Draft StructurallyVerified pre")
  case True
  obtain e where e: "build_transition_event (tc_crypto T) (tc_events T) (last (vw_log v h)) StructurallyVerified
      TEST_KEY_ID RegistryRole (stamp (tc_crypto T) h now) = Inr e"
    using chained_total[OF assms(1) sound_logD(1)[OF assms(1,2)]] early_room[OF assms(1-3)] assms(3)
    unfolding room_def build_transition_event_def last_state_Some by blast
  note step = lifecycle_step.advance[OF assms(3) True assms(4) e]
  note facts = follows_facts[OF assms(1-3) e[unfolded build_transition_event_def]]
  have state: "last_state (vw_log (with_log h e v) h) = Some StructurallyVerified" using facts(3) by simp
  have recorded: "triple (stands b v) (record_structural T B h (last (vw_log v h)) pre now)
      (\<lambda>_. stands b (with_log h e v)) (\<lambda>_ s. \<not> b \<and> stands b v s)"
    unfolding record_structural_def if_P[OF True] e
    by (rule bind_registry_lift, simp, drule Inr_inject, hypsubst,
        rule last_registry[OF append_event[OF facts(2)]])
  show ?thesis
    unfolding if_P[OF True]
    by (rule bind_step[OF recorded], blast intro: reaches_same,
        rule triple_weaken[OF derived_state_triple[OF assms(1) step_sound[OF step assms(1,2)] state]])
      (auto simp: e intro: reaches_step[OF step])
next
  case False
  show ?thesis
    unfolding record_structural_def if_not_P[OF False]
    by (rule bind_step[where R = "\<lambda>_. stands b v" and E = "\<lambda>_ _. False"], rule triple_ret, assumption, blast,
        rule triple_weaken[OF derived_state_triple[OF assms(1-3)]])
      (auto intro: reaches_same)
qed

lemma store_and_record_triple:
  assumes "toolchain_law T" "sound T v" "genuine T h kew" "artifact_hash (art_manifest a) = h"
  shows "triple (stands b v) (store_and_record T B a kew clean now)
    (\<lambda>(h', st) s. h' = h \<and> st = (if clean then StructurallyVerified else Draft) \<and> vw_log v h = []
       \<and> (\<exists>d. build_draft_event (tc_crypto T) (tc_events T) h REGISTRY_ROOT_KEY_ID (stamp (tc_crypto T) h now) = Inr d
            \<and> (if clean then \<exists>e. build_transition_event (tc_crypto T) (tc_events T) d StructurallyVerified
                    TEST_KEY_ID RegistryRole (stamp (tc_crypto T) h now) = Inr e
                  \<and> stands b (with_log h e (with_log h d (with_kew h kew v))) s
               else stands b (with_log h d (with_kew h kew v)) s))
       \<and> reaches stands T b v s)
    (\<lambda>err s. (b \<longrightarrow> \<not> (vw_log v h = [] \<and> json_total T)
         \<and> (json_total T \<longrightarrow> err = RegistryFailure (EventExists 0) \<and> stands b (with_kew h kew v) s))
       \<and> reaches stands T b v s)" (is "triple _ _ ?Q ?F")
proof -
  let ?v = "with_kew h kew v"
  let ?pre = "no_preconditions\<lparr>structural_clean := clean, compiler_signature_valid := True\<rparr>"
  have step: "lifecycle_step T v ?v" by (rule lifecycle_step.store[OF assms(3)])
  note later = assms(1) step_sound[OF step assms(1,2)]
  have put: "\<not> b \<and> (stands b v s \<or> stands b ?v s) \<Longrightarrow> \<not> b \<and> reaches stands T b v s" for s
    using reaches_same reaches_step[OF step] by metis
  obtain d where d: "build_draft_event (tc_crypto T) (tc_events T) h REGISTRY_ROOT_KEY_ID
      (stamp (tc_crypto T) h now) = Inr d"
    using draft_starts_log[OF toolchain_laws(2,3)[OF assms(1)]] by metis
  note draft = sound_log_draft[OF assms(1) d]
  have rest: "triple (stands b ?v) (abind (registry (be_append_event B h d)) (\<lambda>_.
      abind (record_structural T B h d ?pre now) (\<lambda>_. derived_state T B h))) ?Q ?F"
  proof (cases "vw_log v h = []")
    case False
    then have "hd (vw_log ?v h) \<in> set (vw_log ?v h)" "ev_seq (hd (vw_log ?v h)) = ev_seq d"
      "ev_kind (hd (vw_log ?v h)) = ev_kind d"
      using sound_logD(1,2)[OF assms(1,2), of h] draft
        valid_log_seq[OF toolchain_laws(2)[OF assms(1)], of "tc_crypto T" "vw_log v h" 0]
      by (simp_all add: sound_log_def hd_conv_nth)
    from append_existing[OF this] show ?thesis
      by (rule bind_registry) (use False draft(3) reaches_step[OF step] in \<open>auto simp: triple_iff\<close>)
  next
    case True
    let ?w = "with_log h d ?v"
    have step': "lifecycle_step T ?v ?w" by (rule lifecycle_step.draft[OF _ _ d]) (simp_all add: True)
    note later' = assms(1) step_sound[OF step' later]
    have state: "last_state (vw_log ?w h) = Some Draft" "last (vw_log ?w h) = d"
      using draft(2) by (simp_all add: True last_state_def)
    have inc: "increasing (vw_log ?v h @ [d])" by (simp add: True increasing_def)
    have just: "justified T ?w h ?pre" using assms(3) by (simp add: justified_def)
    note tail = record_structural_triple[OF later' state(1) just, unfolded state(2)]
    have "can_transition Draft StructurallyVerified ?pre = clean" by simp
    then show ?thesis
      by (intro bind_registry[OF append_event[OF inc]] triple_weaken[OF tail])
        (auto simp: True d intro: reaches_step[OF step] reaches_trans[OF step] reaches_trans[OF step']
          split: if_splits)
  qed
  show ?thesis
    unfolding store_and_record_def Let_def assms(4) d
    apply (rule bind_map_err, force intro: reaches_same dest: json_fails)
    apply (rule bind_map_err, force intro: reaches_same dest: json_fails)
    apply (rule bind_registry[OF put_artifact], use put in blast)
    apply (rule bind_registry_lift, simp, drule Inr_inject, hypsubst)
    apply (simp only: genuine_signed[OF assms(3)] simp_thms)
    apply (rule rest[unfolded d])
    done
qed

lemma compiled_triple:
  assumes "toolchain_law T" "sound T v" "\<And>a kew. r = Inr (a, kew) \<Longrightarrow> genuine T (artifact_hash (art_manifest a)) kew"
  shows "triple (stands b v) (abind (lift r) (\<lambda>(a, kew). store_and_record T B a kew True now))
    (\<lambda>(h, st) s. st = StructurallyVerified \<and> (\<exists>a kew v'. r = Inr (a, kew)
       \<and> h = artifact_hash (art_manifest a) \<and> recorded T v a kew now v' \<and> stands b v' s)
       \<and> reaches stands T b v s)
    (\<lambda>err s. (b \<longrightarrow> \<not> (json_total T \<and> (\<exists>a kew. r = Inr (a, kew) \<and> vw_log v (artifact_hash (art_manifest a)) = []))
         \<and> (\<forall>a kew. json_total T \<and> r = Inr (a, kew) \<longrightarrow> err = RegistryFailure (EventExists 0)
               \<and> stands b (with_kew (artifact_hash (art_manifest a)) kew v) s))
       \<and> reaches stands T b v s)"
proof (cases r)
  case (Inr x)
  obtain a kew where x: "x = (a, kew)" by (cases x)
  show ?thesis
    unfolding Inr x lift_ok prod.case
    by (rule triple_weaken[OF store_and_record_triple[OF assms(1,2) assms(3)[OF Inr[unfolded x]] refl]])
      (auto simp: recorded_def Let_def)
qed (auto simp: triple_iff abind_cases intro: reaches_same)

lemma compile_rules_triple:
  assumes "toolchain_law T" "sound T v"
  shows "triple (stands b v) (compile_rules_into T B rules blocking regime now)
    (\<lambda>(h, st) s. \<not> blocking \<and> st = StructurallyVerified \<and> (\<exists>a kew v'. assemble_rules T rules regime = Inr (a, kew)
       \<and> h = artifact_hash (art_manifest a) \<and> recorded T v a kew now v' \<and> stands b v' s)
       \<and> reaches stands T b v s)
    (\<lambda>err s. (b \<longrightarrow> \<not> (\<not> blocking \<and> json_total T \<and> (\<exists>a kew. assemble_rules T rules regime = Inr (a, kew)
            \<and> vw_log v (artifact_hash (art_manifest a)) = []))
         \<and> (\<forall>a kew. \<not> blocking \<and> json_total T \<and> assemble_rules T rules regime = Inr (a, kew)
             \<longrightarrow> err = RegistryFailure (EventExists 0)
               \<and> stands b (with_kew (artifact_hash (art_manifest a)) kew v) s))
       \<and> reaches stands T b v s)"
proof (cases blocking)
  case False
  show ?thesis
    unfolding compile_rules_into_def
    by (rule bind_guard, simp add: False, simp only: False simp_thms,
        rule triple_weaken[OF compiled_triple[OF assms assembled_genuine(1)[OF assms(1)]]])
      auto
qed (auto simp: compile_rules_into_def guard_def triple_iff abind_cases intro: reaches_same)

lemma compile_intent_triple:
  assumes "toolchain_law T" "sound T v"
  shows "triple (stands b v) (compile_intent_into T B ir regime now)
    (\<lambda>(h, st) s. st = StructurallyVerified \<and> (\<exists>a kew v'. assemble_intent T ir regime = Inr (a, kew)
       \<and> h = artifact_hash (art_manifest a) \<and> recorded T v a kew now v' \<and> stands b v' s)
       \<and> reaches stands T b v s)
    (\<lambda>err s. (b \<longrightarrow> \<not> (json_total T \<and> (\<exists>a kew. assemble_intent T ir regime = Inr (a, kew)
            \<and> vw_log v (artifact_hash (art_manifest a)) = []))
         \<and> (\<forall>a kew. json_total T \<and> assemble_intent T ir regime = Inr (a, kew)
             \<longrightarrow> err = RegistryFailure (EventExists 0)
               \<and> stands b (with_kew (artifact_hash (art_manifest a)) kew v) s))
       \<and> reaches stands T b v s)"
  unfolding compile_intent_into_def
  by (rule compiled_triple[OF assms assembled_genuine(2)[OF assms(1)]])

end

end
