(* ===== verification/Registry_Query.thy ===== *)
theory Registry_Query
  imports Command_Triples
begin

text \<open>
  The read-only side of the registry: selector resolution (\<open>resolve\<close> in \<open>registry/mod.rs\<close>, used
  by \<open>ke query\<close>) and the evidence and provenance export (\<open>commands/export_provenance.rs\<close>).
\<close>

section \<open>Selectors\<close>

datatype selector = ByHash hash32 | ByTag string string | ByRegime string jurisdiction_date string

text \<open>\<open>{:0w}\<close> of a signed integer pads after the sign.\<close>

definition pad_int :: "nat \<Rightarrow> int \<Rightarrow> string" where
  "pad_int w n = (if n < 0 then ''-'' @ pad_left (w - 1) (nat_digits (- n)) else pad_left w (nat_digits n))"

fun describe :: "selector \<Rightarrow> string" where
  "describe (ByHash h) = ''by-hash:'' @ hex32 h"
| "describe (ByTag env tag) = ''by-tag:'' @ env @ ''/'' @ tag"
| "describe (ByRegime regime d env) =
     ''by-regime:'' @ regime @ ''@'' @ pad_int 4 (year d) @ ''-'' @ pad_int 2 (int (month d)) @ ''-''
       @ pad_int 2 (int (day d)) @ '':'' @ env"

definition date_lt :: "jurisdiction_date \<Rightarrow> jurisdiction_date \<Rightarrow> bool" where
  "date_lt a b \<longleftrightarrow> year a < year b
     \<or> year a = year b \<and> (month a < month b \<or> month a = month b \<and> day a < day b)"

definition window_contains ::
    "jurisdiction_date \<Rightarrow> jurisdiction_date option \<Rightarrow> jurisdiction_date \<Rightarrow> bool" where
  "window_contains from_date to_date point =
     (if date_lt point from_date then False
      else case to_date of None \<Rightarrow> True | Some to_date \<Rightarrow> date_lt point to_date)"

record resolution_record =
  res_artifact_hash :: hash32
  res_state :: lifecycle_state
  res_event_key :: string
  res_selector_desc :: string
  res_policy_version :: string
  res_timestamp :: "64 word"
  res_revocation :: "revocation_record option"

section \<open>Resolution\<close>

fun regime_matches ::
    "toolchain \<Rightarrow> 's backend \<Rightarrow> string \<Rightarrow> jurisdiction_date \<Rightarrow> (hash32 \<times> manifest) list
     \<Rightarrow> ('s, hash32 list) registry_action" where
  "regime_matches T B regime effective [] = ret []"
| "regime_matches T B regime effective ((h, m) # ms) =
     (if regime_id m \<noteq> regime then regime_matches T B regime effective ms
      else if \<not> window_contains (man_effective_from m) (man_effective_to m) effective
      then regime_matches T B regime effective ms
      else
        abind (be_read_events B h) (\<lambda>events.
        abind (lift (current_state (tc_crypto T) (tc_events T) events)) (\<lambda>st.
        abind (regime_matches T B regime effective ms) (\<lambda>rest.
          ret (if st = Some Published then h # rest else rest)))))"

fun select_hash :: "toolchain \<Rightarrow> 's backend \<Rightarrow> selector \<Rightarrow> ('s, hash32) registry_action" where
  "select_hash T B (ByHash h) = ret h"
| "select_hash T B (ByTag env tag) =
     abind (be_read_pointer B env tag) (\<lambda>pointer.
     case pointer of
       None \<Rightarrow> throw (NotFound (describe (ByTag env tag)))
     | Some p \<Rightarrow> lift (target_hash p))"
| "select_hash T B (ByRegime regime effective env) =
     abind (be_list_manifests B) (\<lambda>manifests.
     abind (regime_matches T B regime effective manifests) (\<lambda>matches.
     case matches of
       [] \<Rightarrow> throw (NotFound (describe (ByRegime regime effective env)))
     | [h] \<Rightarrow> ret h
     | _ \<Rightarrow> throw (Ambiguous (describe (ByRegime regime effective env)) (length matches))))"

definition verify_resolved_artifact ::
    "'s backend \<Rightarrow> hash32 \<Rightarrow> string \<Rightarrow> ('s, manifest) registry_action" where
  "verify_resolved_artifact B h desc =
     abind (be_list_manifests B) (\<lambda>manifests.
     case find (\<lambda>(g, _). g = h) manifests of
       None \<Rightarrow> throw (NotFound desc)
     | Some (_, m) \<Rightarrow>
         if artifact_hash m \<noteq> h then throw (ResolvedHashMismatch desc) else ret m)"

definition resolve ::
    "toolchain \<Rightarrow> 's backend \<Rightarrow> selector \<Rightarrow> 64 word \<Rightarrow> ('s, hash32 \<times> resolution_record) registry_action"
  where
  "resolve T B sel now =
     abind (select_hash T B sel) (\<lambda>h.
     abind (be_read_events B h) (\<lambda>events.
     abind (lift (current_state (tc_crypto T) (tc_events T) events)) (\<lambda>st.
     case st of
       None \<Rightarrow> throw (NotFound (describe sel))
     | Some state \<Rightarrow>
         let key = (if events = [] then [] else ev_kind (last events)) in
         abind (verify_resolved_artifact B h (describe sel)) (\<lambda>m.
         abind (if state = Revoked then be_read_revocation B h else ret None) (\<lambda>revocation.
           ret (h, \<lparr>res_artifact_hash = h, res_state = state, res_event_key = key,
             res_selector_desc = describe sel,
             res_policy_version = attestation_policy_version m, res_timestamp = now,
             res_revocation = revocation\<rparr>))))))"

section \<open>Evidence\<close>

fun status_for :: "lifecycle_state \<Rightarrow> registry_status" where
  "status_for Published = StatusPublished"
| "status_for Deprecated = StatusDeprecated"
| "status_for Revoked = StatusRevoked"
| "status_for _ = StatusUnknown"

definition read_registry_evidence ::
    "toolchain \<Rightarrow> 's backend \<Rightarrow> hash32 \<Rightarrow> ('s, registry_evidence) registry_action" where
  "read_registry_evidence T B h =
     abind (be_read_events B h) (\<lambda>events.
     abind (lift (current_state (tc_crypto T) (tc_events T) events)) (\<lambda>st.
     let status = (case st of Some s \<Rightarrow> status_for s | None \<Rightarrow> StatusUnknown) in
     abind (if events = [] then ret 0
            else abind (head_event T B h) (\<lambda>e. lift (chain_hash (tc_crypto T) (tc_events T) e))) (\<lambda>head.
       ret \<lparr>ev_status = status, ev_event_head_hash = head, ev_live_event_head = None\<rparr>)))"

definition export_provenance ::
    "toolchain \<Rightarrow> 's backend \<Rightarrow> hash32 \<Rightarrow> 64 word
     \<Rightarrow> ('s, artifact_provenance) registry_action" where
  "export_provenance T B h exported_at =
     abind (decode_stored T B h) (\<lambda>artifact.
     abind (read_registry_evidence T B h) (\<lambda>evidence.
       ret (provenance_of artifact evidence exported_at)))"

section \<open>What a selector means\<close>

text \<open>A published artifact of the regime whose closed-open window contains the date.\<close>

definition candidate :: "toolchain \<Rightarrow> registry_view \<Rightarrow> string \<Rightarrow> jurisdiction_date \<Rightarrow> hash32 \<Rightarrow> bool" where
  "candidate T v regime d h \<longleftrightarrow>
     (\<exists>kew a. vw_kew v h = Some kew \<and> decodes T kew a \<and> regime_id (art_manifest a) = regime
       \<and> \<not> date_lt d (man_effective_from (art_manifest a))
       \<and> (\<forall>u. man_effective_to (art_manifest a) = Some u \<longrightarrow> date_lt d u))
     \<and> last_state (vw_log v h) = Some Published"

fun selects :: "toolchain \<Rightarrow> registry_view \<Rightarrow> selector \<Rightarrow> hash32 \<Rightarrow> bool" where
  "selects T v (ByHash g) h = (h = g)"
| "selects T v (ByTag env tag) h = (\<exists>p. vw_pointer v (env, tag) = Some p \<and> target_hash p = Inr h)"
| "selects T v (ByRegime regime d env) h = (\<forall>g. candidate T v regime d g \<longleftrightarrow> g = h)"

definition resolution :: "toolchain \<Rightarrow> registry_view \<Rightarrow> selector \<Rightarrow> 64 word \<Rightarrow> hash32 \<Rightarrow> resolution_record \<Rightarrow> bool"
  where
  "resolution T v sel now h r \<longleftrightarrow> selects T v sel h \<and> last_state (vw_log v h) = Some (res_state r)
     \<and> res_artifact_hash r = h \<and> res_event_key r = ev_kind (last (vw_log v h))
     \<and> res_selector_desc r = describe sel \<and> res_timestamp r = now
     \<and> (\<exists>kew a. vw_kew v h = Some kew \<and> decodes T kew a
          \<and> res_policy_version r = attestation_policy_version (art_manifest a))
     \<and> res_revocation r = (if res_state r = Revoked then vw_revocation v h else None)"

lemma selects_unique: "selects T v sel h \<Longrightarrow> selects T v sel h' \<Longrightarrow> h' = h"
  by (cases sel) auto

lemma genuine_decodes: "genuine T h kew \<Longrightarrow> \<exists>a. decodes T kew a \<and> artifact_hash (art_manifest a) = h"
  by (auto simp: genuine_def decodes_def)

lemma decodes_unique: "decodes T kew a \<Longrightarrow> decodes T kew a' \<Longrightarrow> a' = a"
  by (auto simp: decodes_def)

lemma sound_kew:
  assumes "sound T v" "vw_kew v h = Some kew"
  obtains a where "decodes T kew a" "artifact_hash (art_manifest a) = h"
  using assms genuine_decodes unfolding sound_def sound_objects_def by metis

lemma sound_decodable: "sound T v \<Longrightarrow> \<not> undecodable (tc_lib T) (tc_artifacts T) v"
  by (auto simp: undecodable_def decodes_def elim: sound_kew)

lemma stored_sound:
  assumes "sound T v"
  shows "(h, m) \<in> stored_manifests (tc_lib T) (tc_artifacts T) v \<longleftrightarrow>
    (\<exists>kew a. vw_kew v h = Some kew \<and> decodes T kew a \<and> m = art_manifest a)"
proof
  assume "(h, m) \<in> stored_manifests (tc_lib T) (tc_artifacts T) v"
  then obtain a g kew where k: "h = artifact_hash (art_manifest a)" "m = art_manifest a"
    "vw_kew v g = Some kew" "decodes T kew a"
    by (auto simp: stored_manifests_def decodes_def)
  moreover have "g = h" using sound_kew[OF assms k(3)] decodes_unique k by metis
  ultimately show "\<exists>kew a. vw_kew v h = Some kew \<and> decodes T kew a \<and> m = art_manifest a" by blast
next
  assume "\<exists>kew a. vw_kew v h = Some kew \<and> decodes T kew a \<and> m = art_manifest a"
  then obtain kew a where k: "vw_kew v h = Some kew" "decodes T kew a" "m = art_manifest a" by blast
  then have "artifact_hash m = h" using sound_kew[OF assms k(1)] decodes_unique by metis
  then show "(h, m) \<in> stored_manifests (tc_lib T) (tc_artifacts T) v"
    using k unfolding stored_manifests_def decodes_def by blast
qed

lemma manifests_distinct:
  assumes "sound T v" "set ms = stored_manifests (tc_lib T) (tc_artifacts T) v"
    and "length ms = card (dom (vw_kew v))"
  shows "distinct (map fst ms)"
proof -
  have "set (map fst ms) = dom (vw_kew v)"
  proof (rule set_eqI)
    fix h
    have "h \<in> set (map fst ms) \<longleftrightarrow> (\<exists>m. (h, m) \<in> stored_manifests (tc_lib T) (tc_artifacts T) v)"
      by (force simp: assms(2)[symmetric])
    also have "\<dots> \<longleftrightarrow> h \<in> dom (vw_kew v)"
      unfolding stored_sound[OF assms(1)] using sound_kew[OF assms(1)] by (metis domD domI)
    finally show "h \<in> set (map fst ms) \<longleftrightarrow> h \<in> dom (vw_kew v)" .
  qed
  then show ?thesis using assms(3) by (intro card_distinct) simp
qed

definition regime_filter :: "registry_view \<Rightarrow> string \<Rightarrow> jurisdiction_date \<Rightarrow> hash32 \<times> manifest \<Rightarrow> bool" where
  "regime_filter v regime d = (\<lambda>(h, m). regime_id m = regime
     \<and> window_contains (man_effective_from m) (man_effective_to m) d
     \<and> last_state (vw_log v h) = Some Published)"

lemma window_contains_iff:
  "window_contains a b d \<longleftrightarrow> \<not> date_lt d a \<and> (\<forall>u. b = Some u \<longrightarrow> date_lt d u)"
  by (auto simp: window_contains_def split: option.splits)

lemma candidates:
  assumes "sound T v" "set ms = stored_manifests (tc_lib T) (tc_artifacts T) v"
  shows "set (map fst (filter (regime_filter v regime d) ms)) = {h. candidate T v regime d h}"
proof (rule set_eqI)
  fix h
  have "h \<in> set (map fst (filter (regime_filter v regime d) ms)) \<longleftrightarrow>
      (\<exists>m. (h, m) \<in> stored_manifests (tc_lib T) (tc_artifacts T) v \<and> regime_filter v regime d (h, m))"
    by (force simp: assms(2)[symmetric])
  also have "\<dots> \<longleftrightarrow> candidate T v regime d h"
    unfolding stored_sound[OF assms(1)] by (auto simp: candidate_def regime_filter_def window_contains_iff)
  finally show "h \<in> set (map fst (filter (regime_filter v regime d) ms))
      \<longleftrightarrow> h \<in> {h. candidate T v regime d h}" by simp
qed

section \<open>On any backend\<close>

context registry_backend begin

lemma regime_matches_triple:
  assumes "toolchain_law T" "sound T v"
  shows "triple (stands b v) (regime_matches T B regime d ms)
    (\<lambda>hs s. hs = map fst (filter (regime_filter v regime d) ms) \<and> stands b v s) (\<lambda>_ s. \<not> b \<and> stands b v s)"
proof (induction ms)
  case Nil
  show ?case unfolding regime_matches.simps by (rule triple_ret) simp
next
  case (Cons x ms)
  obtain h m where x: "x = (h, m)" by (cases x)
  show ?case
    unfolding x regime_matches.simps
    apply (intro triple_if)
      apply (rule triple_weaken[OF Cons.IH], (auto simp: regime_filter_def)[3])
     apply (rule triple_weaken[OF Cons.IH], (auto simp: regime_filter_def)[3])
    apply (rule bind_step[OF read_events], blast)
    apply (rule triple_pure, hypsubst)
    apply (rule bind_lift, simp add: sound_logD[OF assms])
    apply (rule bind_step[OF Cons.IH], blast)
    apply (rule triple_pure)
    apply (rule triple_ret, simp add: sound_logD[OF assms] regime_filter_def)
    done
qed

lemma select_triple:
  assumes "toolchain_law T" "sound T v" "L = tc_lib T" "A = tc_artifacts T"
  shows "triple (stands b v) (select_hash T B sel) (\<lambda>h s. selects T v sel h \<and> stands b v s)
    (\<lambda>_ s. (b \<longrightarrow> \<not> (\<exists>h. selects T v sel h)) \<and> stands b v s)"
proof (cases sel)
  case (ByHash h)
  show ?thesis unfolding ByHash select_hash.simps by (rule triple_ret) simp
next
  case (ByTag env tag)
  show ?thesis
    unfolding ByTag select_hash.simps
    apply (rule bind_step[OF read_pointer], blast)
    apply (rule triple_pure, hypsubst)
    apply (cases "vw_pointer v (env, tag)")
     apply (simp, rule triple_throw, simp)
    apply (simp, rule triple_lift; simp)
    done
next
  case (ByRegime regime d env)
  have step: "triple (stands b v) (case hs of [] \<Rightarrow> throw e | [h] \<Rightarrow> ret h | _ \<Rightarrow> throw e')
      (\<lambda>h s. selects T v sel h \<and> stands b v s) (\<lambda>_ s. (b \<longrightarrow> \<not> (\<exists>h. selects T v sel h)) \<and> stands b v s)"
    if hs: "set hs = {h. candidate T v regime d h}" "distinct hs" for hs e e'
  proof -
    have select: "selects T v sel h \<longleftrightarrow> hs = [h]" for h
    proof -
      have "selects T v sel h \<longleftrightarrow> set hs = {h}" unfolding ByRegime hs(1) by auto
      also have "\<dots> \<longleftrightarrow> hs = [h]"
      proof
        assume "set hs = {h}"
        then have "length hs = 1" using distinct_card[OF hs(2)] by simp
        then obtain x where "hs = [x]" by (metis One_nat_def length_0_conv length_Suc_conv)
        then show "hs = [h]" using \<open>set hs = {h}\<close> by simp
      qed simp
      finally show ?thesis .
    qed
    show ?thesis
    proof (cases hs)
      case Nil
      then show ?thesis unfolding select by (simp add: triple_iff)
    next
      case (Cons h r)
      then show ?thesis unfolding select by (cases r) (simp_all add: triple_iff)
    qed
  qed
  show ?thesis
    unfolding ByRegime select_hash.simps
    apply (rule bind_step[OF list_manifests])
     apply (use sound_decodable[OF assms(2)] in \<open>auto simp: assms(3,4)\<close>)[1]
    apply (rule triple_assume)
    apply (elim conjE)
    apply (rule triple_weaken[where P = "stands b v" and Q = "\<lambda>h s. selects T v sel h \<and> stands b v s"
          and F = "\<lambda>_ s. (b \<longrightarrow> \<not> (\<exists>h. selects T v sel h)) \<and> stands b v s"])
       apply (rule bind_step[OF regime_matches_triple[OF assms(1,2)]], blast)
       apply (rule triple_pure, hypsubst)
       apply (rule step)
        apply (rule candidates[OF assms(2)], simp add: assms(3,4))
       apply (rule distinct_map_filter, rule manifests_distinct[OF assms(2)]; simp add: assms(3,4))
      apply (simp_all add: ByRegime)
    done
qed

lemma verify_resolved_triple:
  assumes "sound T v" "L = tc_lib T" "A = tc_artifacts T"
  shows "triple (stands b v) (verify_resolved_artifact B h desc)
    (\<lambda>m s. (\<exists>kew a. vw_kew v h = Some kew \<and> decodes T kew a \<and> m = art_manifest a) \<and> stands b v s)
    (\<lambda>_ s. (b \<longrightarrow> vw_kew v h = None) \<and> stands b v s)"
  unfolding verify_resolved_artifact_def
  apply (rule bind_step[OF list_manifests])
   apply (use sound_decodable[OF assms(1)] in \<open>auto simp: assms(2,3)\<close>)[1]
  subgoal for ms
  proof (cases "find (\<lambda>(g, _). g = h) ms")
    case None
    have "vw_kew v h = None" if "set ms = stored_manifests L A v"
    proof (rule ccontr)
      assume "vw_kew v h \<noteq> None"
      then obtain kew where kew: "vw_kew v h = Some kew" by blast
      obtain a where "decodes T kew a" by (rule sound_kew[OF assms(1) kew])
      then have "(h, art_manifest a) \<in> set ms"
        unfolding that assms(2,3) stored_sound[OF assms(1)] using kew by blast
      then show False using None by (auto simp: find_None_iff)
    qed
    then show ?thesis unfolding None by (auto simp: triple_iff)
  next
    case (Some x)
    then obtain m where x: "x = (h, m)" "(h, m) \<in> set ms" by (auto simp: find_Some_iff in_set_conv_nth)
    have stored: "\<exists>kew a. vw_kew v h = Some kew \<and> decodes T kew a \<and> m = art_manifest a"
      if "set ms = stored_manifests L A v"
      using x(2) unfolding that assms(2,3) stored_sound[OF assms(1)] .
    moreover have "artifact_hash m = h" if "set ms = stored_manifests L A v"
      using stored[OF that] sound_kew[OF assms(1)] decodes_unique by metis
    ultimately show ?thesis unfolding Some x(1) by (auto simp: triple_iff)
  qed
  done

lemma resolve_triple:
  assumes "toolchain_law T" "sound T v" "L = tc_lib T" "A = tc_artifacts T"
  shows "triple (stands b v) (resolve T B sel now)
    (\<lambda>(h, r) s. resolution T v sel now h r \<and> stands b v s)
    (\<lambda>_ s. (b \<longrightarrow> \<not> (\<exists>h. selects T v sel h \<and> vw_log v h \<noteq> [])) \<and> stands b v s)"
  unfolding resolve_def
  apply (rule bind_step[OF select_triple[OF assms]], blast)
  apply (rule triple_pure)
  apply (rule bind_step[OF read_events], blast)
  apply (rule triple_pure, hypsubst)
  apply (rule bind_lift, simp add: sound_logD[OF assms(1,2)])
  apply (simp only: sound_logD[OF assms(1,2)] sum.inject)
  apply hypsubst
  subgoal premises prems for h
  proof (cases "vw_log v h = []")
    case True
    then have "last_state (vw_log v h) = None" by (simp add: last_state_def)
    then show ?thesis
      using True selects_unique[OF prems] by (auto simp: triple_iff)
  next
    case False
    then obtain st where st: "last_state (vw_log v h) = Some st" by (auto simp: last_state_def)
    have kew: "vw_kew v h \<noteq> None" using assms(2) False by (auto simp: sound_def sound_objects_def)
    show ?thesis
      unfolding st option.case Let_def if_not_P[OF False]
      apply (rule bind_step[OF verify_resolved_triple[OF assms(2-4)]], use kew in force)
      apply (rule triple_pure)
      apply (rule bind_step[where R = "\<lambda>x s. x = (if st = Revoked then vw_revocation v h else None) \<and> stands b v s"
            and E = "\<lambda>_ s. \<not> b \<and> stands b v s"])
        apply (rule triple_if)
         apply (rule triple_weaken[OF read_revocation]; simp)
        apply (rule triple_ret, simp)
       apply blast
      apply (rule triple_ret)
      apply (use prems st in \<open>auto simp: resolution_def\<close>)
      done
  qed
  done

lemma log_head_triple:
  assumes "toolchain_law T" "sound T v"
  shows "triple (stands b v)
    (if vw_log v h = [] then ret 0
     else abind (head_event T B h) (\<lambda>e. lift (chain_hash (tc_crypto T) (tc_events T) e)))
    (\<lambda>x s. head_link (tc_crypto T) (tc_events T) (vw_log v h) = (if vw_log v h = [] then None else Some x)
       \<and> stands b v s)
    (\<lambda>_ s. \<not> b \<and> stands b v s)"
proof (cases "vw_log v h = []")
  case True
  then show ?thesis by (simp add: head_link_def triple_ret)
next
  case False
  obtain d where d: "chain_hash (tc_crypto T) (tc_events T) (last (vw_log v h)) = Inr d"
    using chain_hash_total[OF toolchain_laws(2)[OF assms(1)]] by blast
  have st: "last_state (vw_log v h) \<noteq> None" using False by (simp add: last_state_def)
  show ?thesis
    unfolding if_not_P[OF False]
    apply (rule bind_step[OF head_event_triple[OF assms]], use st in blast)
    apply (rule triple_pure, elim conjE, hypsubst)
    apply (rule triple_lift; simp add: False d head_link_def)
    done
qed

lemma evidence_triple:
  assumes "toolchain_law T" "sound T v"
  shows "triple (stands b v) (read_registry_evidence T B h)
    (\<lambda>ev s. (ev_status ev = (case last_state (vw_log v h) of Some st \<Rightarrow> status_for st | None \<Rightarrow> StatusUnknown)
        \<and> head_link (tc_crypto T) (tc_events T) (vw_log v h) = (if vw_log v h = [] then None else Some (ev_event_head_hash ev))
        \<and> ev_live_event_head ev = None) \<and> stands b v s)
    (\<lambda>_ s. \<not> b \<and> stands b v s)"
  unfolding read_registry_evidence_def Let_def
  apply (rule bind_step[OF read_events], blast)
  apply (rule triple_pure, hypsubst)
  apply (rule bind_lift, simp add: sound_logD[OF assms])
  apply (simp only: sound_logD[OF assms] sum.inject)
  apply hypsubst
  apply (rule bind_step[OF log_head_triple[OF assms]], blast)
  apply (rule triple_pure)
  apply (rule triple_ret, simp)
  done

end

end
