(* ===== verification/Registry.thy ===== *)
theory Registry
  imports Registry_Query
begin

text \<open>
  The registry as a whole: any sequence of commands against a backend, each of which may fail at
  any system call. Shown: the commands refine the lifecycle steps, so every registry they build
  is sound and nothing recorded is lost; what a published state implies; the release pipeline
  from assembly to a consumer's verdict; what a selector resolves to; and two places where a
  repeated command cannot recover.
\<close>

section \<open>Sequences of commands\<close>

datatype request =
    CompileRules "rule_ir list" bool string
  | CompileIntent intent_spec_ir string
  | MlCheck hash32
  | Attest hash32 "attestation_type list"
  | Publish hash32 string string "string option"
  | Deprecate hash32
  | Revoke hash32 "revocation_policy option" "revocation_reason_class option" "string option"
  | Rollback string string hash32

definition ignore :: "('s, 'a) command \<Rightarrow> ('s, unit) command" where
  "ignore m = abind m (\<lambda>_. ret ())"

fun execute :: "toolchain \<Rightarrow> 's backend \<Rightarrow> 64 word \<Rightarrow> request \<Rightarrow> ('s, unit) command" where
  "execute T B now (CompileRules rules blocking regime) = ignore (compile_rules_into T B rules blocking regime now)"
| "execute T B now (CompileIntent ir regime) = ignore (compile_intent_into T B ir regime now)"
| "execute T B now (MlCheck h) = ignore (ml_check T B h now)"
| "execute T B now (Attest h types) = ignore (attest T B h types now)"
| "execute T B now (Publish h env tag path) = ignore (publish T B h env tag path now)"
| "execute T B now (Deprecate h) = ignore (deprecate T B h now)"
| "execute T B now (Revoke h policy class reason) = ignore (revoke T B h policy class reason now)"
| "execute T B now (Rollback env tag h) = ignore (rollback T B env tag h now)"

text \<open>One process after another: each leaves the store as its last system call left it.\<close>

fun run_all :: "toolchain \<Rightarrow> 's backend \<Rightarrow> (64 word \<times> request) list \<Rightarrow> 's \<Rightarrow> 's" where
  "run_all T B [] s = s"
| "run_all T B ((now, r) # rs) s = run_all T B rs (snd (execute T B now r s))"

lemma triple_ignore: "triple P m (\<lambda>_. R) F \<Longrightarrow> triple P (ignore m) (\<lambda>_. R) F"
  unfolding ignore_def triple_iff abind_cases by auto

lemma snd_ignore: "snd (ignore m s) = snd (m s)"
  by (cases "m s"; cases "fst (m s)") (auto simp: ignore_def abind_def)

lemma triple_both: "triple P m (\<lambda>_. R) (\<lambda>_. R) \<Longrightarrow> P s \<Longrightarrow> R (snd (m s))"
  unfolding triple_iff by (cases "m s"; cases "fst (m s)") auto

lemma triple_success:
  assumes "triple P m Q F" "P s" "\<And>e t. \<not> F e t"
  obtains x t where "m s = (Inr x, t)" "Q x t"
  using assms unfolding triple_iff by (cases "m s"; cases "fst (m s)") auto

context registry_backend begin

lemma execute_reaches:
  assumes "toolchain_law T" "sound T v"
  shows "triple (stands b v) (execute T B now r) (\<lambda>_. reaches stands T b v) (\<lambda>_. reaches stands T b v)"
proof -
  note triples = compile_rules_triple[OF assms] compile_intent_triple[OF assms] ml_check_triple[OF assms]
    attest_triple[OF assms] publish_triple[OF assms] deprecate_triple[OF assms] revoke_triple[OF assms]
    rollback_triple[OF assms]
  show ?thesis
    by (cases r; simp only: execute.simps; rule triple_ignore; rule triples[THEN triple_weaken];
        (assumption | (clarsimp split: prod.splits)))
qed

lemma run_all_reaches:
  assumes "toolchain_law T"
  shows "sound T v \<Longrightarrow> stands b v s \<Longrightarrow> reaches stands T b v (run_all T B rs s)"
proof (induction rs arbitrary: v s)
  case Nil
  then show ?case by (simp add: reaches_same)
next
  case (Cons x rs)
  obtain now r where x: "x = (now, r)" by (cases x)
  obtain v' where v': "lifecycle_steps T v v'" "stands b v' (snd (execute T B now r s))"
    using triple_both[OF execute_reaches[OF assms Cons.prems(1)] Cons.prems(2)] by (auto simp: reaches_def)
  show ?case
    using Cons.IH[OF steps_sound[OF v'(1) assms Cons.prems(1)] v'(2)] v'(1)
    by (auto simp: x reaches_def intro: rtranclp_trans)
qed

end

abbreviation local_registry :: "toolchain \<Rightarrow> fs_store backend" where
  "local_registry T \<equiv> local_fs (tc_lib T) (tc_artifacts T)"

lemma local_run:
  assumes "toolchain_law T" "fs_invar s" "sound T (fs_view s)"
  shows "lifecycle_steps T (fs_view s) (fs_view (run_all T (local_registry T) rs s))"
    "fs_invar (run_all T (local_registry T) rs s)"
  using fs.run_all_reaches[OF assms(1,3), where b = False and s = s and L = "tc_lib T" and A = "tc_artifacts T"]
    assms(2)
  by (auto simp: reaches_def fs_stands_def)

lemma empty_invar: "fs_invar (empty_store outcomes)"
  by (simp add: fs_invar_def empty_store_def)

lemma local_sound:
  assumes "toolchain_law T"
  shows "sound T (fs_view (run_all T (local_registry T) rs (empty_store outcomes)))"
  by (rule steps_sound[OF local_run(1)[OF assms empty_invar empty_sound] assms empty_sound])

section \<open>The release of a verified artifact\<close>

text \<open>The commands from \<open>structurally_verified\<close> to \<open>published\<close>, then what a consumer is handed.\<close>

definition release ::
    "toolchain \<Rightarrow> 's backend \<Rightarrow> hash32 \<Rightarrow> attestation_type list \<Rightarrow> string \<Rightarrow> string \<Rightarrow> 64 word \<Rightarrow> 64 word
     \<Rightarrow> 64 word \<Rightarrow> ('s, bytes \<times> registry_evidence) command" where
  "release T B h types env tag t1 t2 t3 =
     abind (ml_check T B h t1) (\<lambda>_.
     abind (attest T B h types t2) (\<lambda>_.
     abind (publish T B h env tag None t3) (\<lambda>_.
     abind (registry (be_read_artifact_kew B h)) (\<lambda>kew.
     abind (registry (read_registry_evidence T B h)) (\<lambda>evidence. ret (kew, evidence))))))"

lemma built_state: "build_chained_event K E p ns kind kid role ts = Inr e \<Longrightarrow> ev_new_state e = ns"
  by (auto simp: build_chained_event_def sign_event_def rbind_eq_Inr)

lemma followed_state: "follows T v h ns now e \<Longrightarrow> ev_new_state e = ns"
  by (simp add: follows_def build_transition_event_def built_state)

text \<open>A directory that also has the compiler key.\<close>

definition knows_compiler :: "crypto \<Rightarrow> key_directory \<Rightarrow> bool" where
  "knows_compiler K kd \<longleftrightarrow>
     (\<exists>entry. keydir_lookup kd TEST_KEY_ID = Some entry \<and> kd_public_key entry = ed_public K FIXED_SEED)"

lemma required_by_kind:
  assumes "set (required_attestation_types (policy_for_kind k)) \<subseteq> set types"
  shows "\<forall>ty\<in>set (required_attestation_types (policy_for_kind k)).
      required_count (policy_for_kind k) ty \<le> count_list types ty"
    "set (co_attestation_types k) \<subseteq> set types"
proof -
  have "0 < count_list types ty" if "ty \<in> set types" for ty
    using that count_list_0_iff[of types ty] by (metis gr0I)
  then show "\<forall>ty\<in>set (required_attestation_types (policy_for_kind k)).
      required_count (policy_for_kind k) ty \<le> count_list types ty"
    using assms policy_for_kind_count by fastforce
  show "set (co_attestation_types k) \<subseteq> set types" using assms co_types_required by blast
qed

lemma released_verifies:
  assumes "toolchain_law T" "genuine T h kew" "decodes T kew (a\<lparr>art_attestations := ts\<rparr>)"
    and "sign_all T (art_manifest a) t types = Inr ts"
    and "set (required_attestation_types (policy_for_kind (artifact_kind (art_manifest a)))) \<subseteq> set types"
    and "knows_expert (tc_crypto T) kd" "knows_compiler (tc_crypto T) kd" "now \<noteq> - 1"
    and "ev_status ev = StatusPublished" "ev_live_event_head ev = None"
  shows "out_verdict (verify_artifact (tc_lib T) (tc_crypto T) (tc_artifacts T) kew kd (local_policy_context now)
      (policy_for_kind (artifact_kind (art_manifest a))) ev exported) = Verified"
proof -
  obtain n where g: "decode_artifact (tc_lib T) (tc_artifacts T) kew = Inr (a\<lparr>art_attestations := ts\<rparr>, n)"
    "verify_hash (tc_lib T) (tc_crypto T) (tc_artifacts T) kew = Inr h"
    "cs_key_id (art_compiler_signature a) = TEST_KEY_ID"
    "verify_signature (tc_crypto T) (take n kew) (art_compiler_signature a) (ed_public (tc_crypto T) FIXED_SEED) = Inr ()"
    using assms(2,3) by (auto simp: genuine_def decodes_def)
  have "content_hash (tc_crypto T) (tc_artifacts T) (take n kew) = Inr (artifact_hash (art_manifest a))"
    using verify_hash_decoded[OF g(1)] g(2) by auto
  moreover have "ed_point (tc_crypto T) (ed_public (tc_crypto T) FIXED_SEED)"
    using toolchain_laws(4)[OF assms(1)] by (simp add: crypto_law_def)
  moreover have "verify_attestation_set (tc_crypto T) (tc_artifacts T) (a\<lparr>art_attestations := ts\<rparr>)
      (policy_for_kind (artifact_kind (art_manifest a))) kd (local_policy_context now) = Inr ()"
    by (rule signed_set_accepted[OF assms(1,6,8,4)]) (use required_by_kind[OF assms(5)] in auto)
  ultimately show ?thesis
    unfolding verified_artifact using g assms(7,9,10)
    by (auto simp: knows_compiler_def evidence_live_def verify_signature_def split: if_splits)
qed

context registry_backend begin

lemma reaches_view: "stands b v' s \<Longrightarrow> reaches stands T b v s \<Longrightarrow> lifecycle_steps T v v'"
  unfolding reaches_def stands_def by blast

lemma reached_sound:
  "toolchain_law T \<Longrightarrow> sound T v \<Longrightarrow> stands b v' s \<Longrightarrow> reaches stands T b v s \<Longrightarrow> sound T v'"
  by (rule steps_sound[OF reaches_view])

lemma release_commands:
  assumes "toolchain_law T" "sound T v" "stands True v s" "json_total T"
    and "last_state (vw_log v h) = Some StructurallyVerified" "vw_consistency v h = None"
    and "vw_kew v h = Some kew" "decodes T kew a"
    and "set (required_attestation_types (policy_for_kind (artifact_kind (art_manifest a)))) \<subseteq> set types"
    and "t2 \<noteq> - 1" "t3 \<noteq> - 1"
  obtains s1 s2 s3 x y z v3 kew' ts where "ml_check T B h t1 s = (Inr x, s1)"
    "attest T B h types t2 s1 = (Inr y, s2)" "publish T B h env tag None t3 s2 = (Inr z, s3)"
    "stands True v3 s3" "last_state (vw_log v3 h) = Some Published" "sound T v3" "vw_kew v3 h = Some kew'"
    "genuine T h kew'" "decodes T kew' (a\<lparr>art_attestations := ts\<rparr>)" "sign_all T (art_manifest a) t2 types = Inr ts"
proof -
  have gen: "genuine T h kew" using assms(2,7) by (auto simp: sound_def sound_objects_def)
  obtain s1 e1 where r1: "ml_check T B h t1 s = (Inr MlChecked, s1)" "follows T v h MlChecked t1 e1"
    "stands True (with_log h e1 (with_consistency h (dev_standin_block t1) v)) s1" "reaches stands T True v s1"
    by (rule triple_success[OF ml_check_triple[OF assms(1,2), where h = h and now = t1] assms(3)])
      (use assms(5,6) in auto)
  define v1 where "v1 = with_log h e1 (with_consistency h (dev_standin_block t1) v)"
  have s1: "stands True v1 s1" "last_state (vw_log v1 h) = Some MlChecked" "vw_kew v1 = vw_kew v" "sound T v1"
    using r1 reached_sound[OF assms(1,2) r1(3,4)] by (simp_all add: v1_def followed_state)
  have types: "attestable types (artifact_kind (art_manifest a)) t2"
    using required_by_kind(2)[OF assms(9)] assms(9,10)
    by (auto simp: attestable_def policy_for_kind_types split: if_splits)
  obtain s2 a' ts kew' e2 where r2: "attest T B h types t2 s1 = (Inr (ExpertAttested, length types), s2)"
    "follows T v1 h ExpertAttested t2 e2" "stands True (with_log h e2 (with_kew h kew' v1)) s2"
    "reaches stands T True v1 s2" "decodes T kew a'" "sign_all T (art_manifest a') t2 types = Inr ts"
    "with_attestations (tc_artifacts T) a' ts = Inr (a'\<lparr>art_attestations := ts\<rparr>, kew')"
    by (rule triple_success[OF attest_triple[OF assms(1) s1(4), where h = h and types = types and now = t2] s1(1)])
      (use assms(4,7,8) types s1(2,3) in auto)
  define v2 where "v2 = with_log h e2 (with_kew h kew' v1)"
  have s2: "stands True v2 s2" "last_state (vw_log v2 h) = Some ExpertAttested" "vw_kew v2 h = Some kew'" "sound T v2"
    using r2 reached_sound[OF assms(1) s1(4) r2(3,4)] by (simp_all add: v2_def followed_state)
  have a': "a' = a" by (rule decodes_unique[OF assms(8) r2(5)])
  obtain m where dec: "decode_artifact (tc_lib T) (tc_artifacts T) kew = Inr (a, m)"
    using assms(8) by (auto simp: decodes_def)
  have kew': "genuine T h kew'" "decodes T kew' (a\<lparr>art_attestations := ts\<rparr>)"
    by (rule genuine_reattested[OF assms(1) gen dec, where atts = ts],
        use r2(7) in \<open>auto simp: a' decodes_def\<close>)+
  have set: "verify_attestation_set (tc_crypto T) (tc_artifacts T) (a\<lparr>art_attestations := ts\<rparr>)
      (policy_for_kind (artifact_kind (art_manifest a))) (test_expert_key_directory (tc_crypto T))
      (local_policy_context t3) = Inr ()"
    by (rule signed_set_accepted[OF assms(1) test_directory_knows_expert assms(11) r2(6)[unfolded a']])
      (use required_by_kind[OF assms(9)] in auto)
  obtain s3 p e3 where r3: "publish T B h env tag None t3 s2 = (Inr p, s3)" "follows T v2 h Published t3 e3"
    "stands True (with_pointer env tag h (event_ref ''published'' e3) (with_log h e3 v2)) s3"
    "reaches stands T True v2 s3"
    by (rule triple_success[OF publish_triple[OF assms(1) s2(4), where h = h and env = env and tag = tag
          and path = None and now = t3] s2(1)])
      (use s2(2,3) kew' set in \<open>auto simp: resolve_policy_def\<close>)
  define v3 where "v3 = with_pointer env tag h (event_ref ''published'' e3) (with_log h e3 v2)"
  have s3: "stands True v3 s3" "last_state (vw_log v3 h) = Some Published" "vw_kew v3 h = Some kew'" "sound T v3"
    using r3 s2(3) reached_sound[OF assms(1) s2(4) r3(3,4)] by (simp_all add: v3_def followed_state)
  show ?thesis
    by (rule that[OF r1(1) r2(1) r3(1) s3(1,2,4,3) kew' r2(6)[unfolded a']])
qed

lemma release_verifies:
  assumes "toolchain_law T" "sound T v" "stands True v s" "json_total T"
    and "last_state (vw_log v h) = Some StructurallyVerified" "vw_consistency v h = None"
    and "vw_kew v h = Some kew" "decodes T kew a"
    and "set (required_attestation_types (policy_for_kind (artifact_kind (art_manifest a)))) \<subseteq> set types"
    and "t2 \<noteq> - 1" "t3 \<noteq> - 1" "now \<noteq> - 1"
    and "knows_expert (tc_crypto T) kd" "knows_compiler (tc_crypto T) kd"
  shows "\<exists>kew' ev t. release T B h types env tag t1 t2 t3 s = (Inr (kew', ev), t)
    \<and> out_verdict (verify_artifact (tc_lib T) (tc_crypto T) (tc_artifacts T) kew' kd (local_policy_context now)
        (policy_for_kind (artifact_kind (art_manifest a))) ev exported) = Verified"
proof -
  obtain s1 s2 s3 x y z v3 kew' ts where r: "ml_check T B h t1 s = (Inr x, s1)"
    "attest T B h types t2 s1 = (Inr y, s2)" "publish T B h env tag None t3 s2 = (Inr z, s3)"
    and s3: "stands True v3 s3" "last_state (vw_log v3 h) = Some Published" "sound T v3" "vw_kew v3 h = Some kew'"
    and kew': "genuine T h kew'" "decodes T kew' (a\<lparr>art_attestations := ts\<rparr>)"
      "sign_all T (art_manifest a) t2 types = Inr ts"
    by (rule release_commands[OF assms(1-11)])
  obtain s4 where s4: "be_read_artifact_kew B h s3 = (Inr kew', s4)" "stands True v3 s4"
    by (rule triple_success[OF read_artifact_kew[where h = h] s3(1)]) (use s3(4) in auto)
  obtain s5 ev where s5: "read_registry_evidence T B h s4 = (Inr ev, s5)" "ev_status ev = StatusPublished"
    "ev_live_event_head ev = None"
    by (rule triple_success[OF evidence_triple[OF assms(1) s3(3), where h = h] s4(2)]) (use s3(2) in auto)
  have "release T B h types env tag t1 t2 t3 s = (Inr (kew', ev), s5)"
    by (simp add: release_def abind_def r s4(1) s5(1) with_error_def)
  then show ?thesis
    using released_verifies[OF assms(1) kew' assms(9,13,14,12) s5(2,3)] by blast
qed

lemma release_run:
  assumes "toolchain_law T" "sound T v" "stands True v s" "json_total T"
    and "last_state (vw_log v h) = Some StructurallyVerified" "vw_consistency v h = None"
    and "vw_kew v h = Some kew" "decodes T kew a"
    and "set (required_attestation_types (policy_for_kind (artifact_kind (art_manifest a)))) \<subseteq> set types"
    and "t2 \<noteq> - 1" "t3 \<noteq> - 1"
  shows "\<exists>v'. stands True v' (run_all T B [(t1, MlCheck h), (t2, Attest h types), (t3, Publish h env tag None)] s)
    \<and> last_state (vw_log v' h) = Some Published"
  by (rule release_commands[OF assms, where ?t1.0 = t1 and env = env and tag = tag]) (auto simp: snd_ignore)

end

section \<open>A concrete registry\<close>

definition sample_toolchain :: toolchain where
  "sample_toolchain =
     \<lparr>tc_lib = ascii_lib, tc_crypto = root_crypto, tc_artifacts = sample_codecs, tc_events = sample_event_codecs,
      tc_manifest_json = (\<lambda>_. Inr []), tc_payload_json = (\<lambda>_. Inr []), tc_load_policy = (\<lambda>_. Inl []),
      tc_rules_bytes = (\<lambda>_. Inr []), tc_intent_bytes = (\<lambda>_. Inr [])\<rparr>"

definition sample_rules :: "rule_ir list" where
  "sample_rules = [sample_rule_with [''b'', ''a''] 90 2]"

lemma sample_toolchain_law: "toolchain_law sample_toolchain" "json_total sample_toolchain"
  using sample_codecs_law sample_event_law root_crypto_keys
  by (simp_all add: toolchain_law_def sample_toolchain_def json_total_def)

lemma sample_assembled:
  "\<exists>a kew. assemble_rules sample_toolchain sample_rules ''mica'' = Inr (a, kew)
     \<and> artifact_kind (art_manifest a) = RegimePack"
proof -
  let ?m = "synthetic_manifest root_crypto RegimePack ''mica'' (first_effective sample_rules) []"
  have m: "canonicalize_manifest ascii_lib ?m = Inr ()"
    by (simp add: canonicalize_manifest_def synthetic_manifest_def Let_def first_effective_def sample_rules_def
        sample_rule_with_def floor_date_def ascii_lib_def ensure_nfc_def ensure_date_def MIN_YEAR_def
        CODEC_VERSION_def CANONICALIZATION_VERSION_def results del: walkers_agree)
  obtain index where p: "canonicalize_payload ascii_lib (PayloadRules sample_rules)
      = Inr (PayloadRules [sample_rule_with [''a'', ''b''] 9 1], index)"
    using sample_payload_canonical by (auto simp: sample_payload_def sample_rules_def)
  obtain a kew where ok: "assemble_payload ascii_lib root_crypto sample_codecs ?m (PayloadRules sample_rules)
      no_audit_versions FIXED_SEED TEST_KEY_ID = Inr (a, kew)"
    using assemble_payload_total[OF sample_codecs_law m p] by blast
  have "art_manifest a = ?m\<lparr>artifact_hash := artifact_hash (art_manifest a)\<rparr>"
    by (rule assemble_payload_result[OF sample_codecs_law ok])
  then have "artifact_kind (art_manifest a) = artifact_kind ?m" by (metis manifest.select_convs(1) manifest.update_convs(2) manifest.surjective)
  then show ?thesis
    using ok by (auto simp: assemble_rules_def assemble_def sample_toolchain_def synthetic_manifest_def Let_def)
qed

lemma recorded_facts:
  assumes "recorded T v a kew now v'" "h = artifact_hash (art_manifest a)"
  shows "last_state (vw_log v' h) = Some StructurallyVerified" "vw_kew v' h = Some kew"
    "vw_consistency v' = vw_consistency v"
  using assms by (auto simp: recorded_def Let_def build_transition_event_def built_state last_state_def)

lemma sample_registry:
  obtains s h kew a where "fs_invar s" "st_io s = []" "sound sample_toolchain (fs_view s)"
    "last_state (vw_log (fs_view s) h) = Some StructurallyVerified" "vw_consistency (fs_view s) h = None"
    "vw_kew (fs_view s) h = Some kew" "decodes sample_toolchain kew a"
    "artifact_kind (art_manifest a) = RegimePack"
    "assemble_rules sample_toolchain sample_rules ''mica'' = Inr (a, kew)" "h = artifact_hash (art_manifest a)"
    "s = snd (compile_rules_into sample_toolchain (local_registry sample_toolchain) sample_rules False ''mica'' 7
       (empty_store []))"
proof -
  let ?T = sample_toolchain
  let ?v = "fs_view (empty_store [])"
  obtain a kew where a: "assemble_rules ?T sample_rules ''mica'' = Inr (a, kew)" "artifact_kind (art_manifest a) = RegimePack"
    using sample_assembled by blast
  have stands: "fs_stands True ?v (empty_store [])"
  proof -
    have "st_io (empty_store []) = []" by (simp add: empty_store_def)
    then show ?thesis by (simp add: fs_stands_def empty_invar fs_reliable_def)
  qed
  note sound = empty_sound[of ?T "[]"]
  have view: "vw_log ?v h = []" "vw_consistency ?v h = None" for h
    by (simp_all add: fs_view_def empty_store_def event_files_def)
  obtain x s where r: "compile_rules_into ?T (local_registry ?T) sample_rules False ''mica'' 7 (empty_store []) = (Inr x, s)"
    and q: "\<exists>v'. recorded ?T ?v a kew 7 v' \<and> fs_stands True v' s \<and> reaches fs_stands ?T True ?v s"
    by (rule triple_success[OF fs.compile_rules_triple[OF sample_toolchain_law(1) sound, where rules = sample_rules
        and blocking = False and regime = "''mica''" and now = 7 and L = "tc_lib ?T" and A = "tc_artifacts ?T"] stands])
      (use a view sample_toolchain_law(2) in auto)
  obtain v' where v': "recorded ?T ?v a kew 7 v'" "fs_stands True v' s" "reaches fs_stands ?T True ?v s" using q by blast
  have now: "fs_view s = v'" "fs_invar s" "st_io s = []" using v'(2) by (simp_all add: fs_stands_def fs_reliable_def)
  have "decodes ?T kew a"
    by (rule assembled_decodes(1)[OF sample_toolchain_law(1) a(1)])
  note decodes = this
  have "sound ?T (fs_view s)"
    unfolding now(1) by (rule fs.reached_sound[OF sample_toolchain_law(1) sound v'(2,3)])
  then show ?thesis
  proof (rule that[OF now(2,3) _ _ _ _ decodes a(2,1) refl])
    show "last_state (vw_log (fs_view s) (artifact_hash (art_manifest a))) = Some StructurallyVerified"
      "vw_kew (fs_view s) (artifact_hash (art_manifest a)) = Some kew"
      unfolding now(1) by (rule recorded_facts[OF v'(1) refl])+
    show "vw_consistency (fs_view s) (artifact_hash (art_manifest a)) = None"
      unfolding now(1) recorded_facts(3)[OF v'(1) refl] by (rule view(2))
    show "s = snd (compile_rules_into ?T (local_registry ?T) sample_rules False ''mica'' 7 (empty_store []))"
      unfolding r by (rule snd_conv[symmetric])
  qed
qed

section \<open>When an artifact may be published\<close>

definition publishable ::
    "toolchain \<Rightarrow> registry_view \<Rightarrow> hash32 \<Rightarrow> string option \<Rightarrow> 64 word \<Rightarrow> bool" where
  "publishable T v h path now \<longleftrightarrow> last_state (vw_log v h) = Some ExpertAttested
     \<and> (\<exists>kew a policy. vw_kew v h = Some kew \<and> decodes T kew a
          \<and> resolve_policy (tc_load_policy T) path (artifact_kind (art_manifest a)) = Inr policy
          \<and> verify_attestation_set (tc_crypto T) (tc_artifacts T) a policy
              (test_expert_key_directory (tc_crypto T)) (local_policy_context now) = Inr ())"

lemma fs_stands_now: "fs_invar s \<Longrightarrow> st_io s = [] \<Longrightarrow> fs_stands True (fs_view s) s"
  by (simp add: fs_stands_def fs_reliable_def)

lemma unattested_not_publishable:
  assumes "toolchain_law T" "decodes T kew a" "art_attestations a = []" "vw_kew v h = Some kew"
  shows "\<not> publishable T v h None now"
proof
  assume "publishable T v h None now"
  then obtain kew' a' where p: "vw_kew v h = Some kew'" "decodes T kew' a'"
    "verify_attestation_set (tc_crypto T) (tc_artifacts T) a' (policy_for_kind (artifact_kind (art_manifest a')))
       (test_expert_key_directory (tc_crypto T)) (local_policy_context now) = Inr ()"
    unfolding publishable_def resolve_policy_def option.case by blast
  have "kew' = kew" using p(1) assms(4) by simp
  then have "a' = a" using decodes_unique[OF assms(2)] p(2) by simp
  note p(3)[unfolded this]
  then have none: "\<forall>ty\<in>set (required_attestation_types (policy_for_kind (artifact_kind (art_manifest a)))).
      required_count (policy_for_kind (artifact_kind (art_manifest a))) ty \<le> count_of_type ty []"
    unfolding attestation_set_accepted[OF toolchain_laws(1)[OF assms(1)]] assms(3) by blast
  have "SourceFidelity \<in> set (required_attestation_types (policy_for_kind (artifact_kind (art_manifest a))))"
    unfolding policy_for_kind_types by simp
  with none policy_for_kind_count[OF this] show False by (auto simp: count_of_type_def)
qed

lemma published_reviewed:
  assumes "toolchain_law T" "sound T v" "last_state (vw_log v h) = Some Published"
  shows "(\<exists>n. states_of (vw_log v h) = published_spine (Suc n))
    \<and> vw_consistency v h \<noteq> None \<and> (\<exists>kew. vw_kew v h = Some kew \<and> genuine T h kew)"
proof -
  have "history (states_of (vw_log v h))" "states_of (vw_log v h) \<noteq> []" "last (states_of (vw_log v h)) = Published"
    using sound_logD(1)[OF assms(1,2), of h] assms(3) by (auto simp: sound_log_def last_state_Some)
  then obtain n where n: "states_of (vw_log v h) = published_spine (Suc n)"
    using history_shapes by fastforce
  then have "MlChecked \<in> set (states_of (vw_log v h))" by (simp add: published_spine_def)
  then show ?thesis
    using assms(2,3) n unfolding sound_def sound_objects_def
    by (metis last_state_Some not_None_eq)
qed

section \<open>Properties\<close>



text \<open>in every registry that commands build from an empty store, with failing system calls
  anywhere: each log is accepted by the walk and its states follow the transition table, each of
  its events is about the artifact it is filed under, and the bytes stored at an address decode,
  hash to that address and carry the compiler's signature.\<close>

theorem every_registry_sound:
  assumes "toolchain_law T"
    and "v = fs_view (run_all T (local_registry T) rs (empty_store outcomes))"
  shows "current_state (tc_crypto T) (tc_events T) (vw_log v h) = Inr (last_state (vw_log v h))
    \<and> history (states_of (vw_log v h))
    \<and> (\<forall>e\<in>set (vw_log v h). ev_artifact_hash e = h)
    \<and> (\<forall>kew. vw_kew v h = Some kew \<longrightarrow> genuine T h kew)"
proof -
  have s: "sound T v" unfolding assms(2) by (rule local_sound[OF assms(1)])
  then show ?thesis
    using sound_logD(4)[OF assms(1) s] by (simp add: sound_def sound_log_def sound_objects_def)
qed

lemma every_registry_sound_witness:
  "\<exists>v. v = fs_view (run_all sample_toolchain (local_registry sample_toolchain)
        [(7, CompileRules sample_rules False ''mica'')] (empty_store [True, False]))
    \<and> current_state (tc_crypto sample_toolchain) (tc_events sample_toolchain) (vw_log v 5)
        = Inr (last_state (vw_log v 5))"
  using every_registry_sound[OF sample_toolchain_law(1) refl] by blast


definition sample_session :: "hash32 \<Rightarrow> (64 word \<times> request) list" where
  "sample_session h =
     [(7, CompileRules sample_rules False ''mica''), (8, MlCheck h),
      (9, Attest h [SourceFidelity, ScenarioCoverage, PublicationApproval]),
      (10, Publish h ''local'' ''current'' None)]"


text \<open>C4: release liveness and its meaning for a consumer: from a structurally verified artifact
  of a sound registry whose system calls succeed, \<open>ml-check\<close>, \<open>attest\<close> with at least the types
  the built-in policy of its kind requires, and \<open>publish\<close> all succeed, and the bytes and the
  evidence then read from the registry are Verified under that policy by any consumer whose key
  directory holds the compiler and expert keys.\<close>

theorem release_then_verified:
  assumes "toolchain_law T" "json_total T" "fs_invar s" "st_io s = []" "sound T (fs_view s)"
    and "last_state (vw_log (fs_view s) h) = Some StructurallyVerified" "vw_consistency (fs_view s) h = None"
    and "vw_kew (fs_view s) h = Some kew" "decodes T kew a"
    and "set (required_attestation_types (policy_for_kind (artifact_kind (art_manifest a)))) \<subseteq> set types"
    and "t2 \<noteq> - 1" "t3 \<noteq> - 1" "now \<noteq> - 1"
    and "knows_expert (tc_crypto T) kd" "knows_compiler (tc_crypto T) kd"
  shows "\<exists>kew' ev t. release T (local_registry T) h types env tag t1 t2 t3 s = (Inr (kew', ev), t)
    \<and> out_verdict (verify_artifact (tc_lib T) (tc_crypto T) (tc_artifacts T) kew' kd (local_policy_context now)
        (policy_for_kind (artifact_kind (art_manifest a))) ev exported) = Verified"
  by (rule fs.release_verifies[OF assms(1,5) _ assms(2,6-15)])
    (simp add: fs_stands_def fs_reliable_def assms(3,4))

definition sample_consumer :: "crypto \<Rightarrow> key_directory" where
  "sample_consumer K = sample_key TEST_KEY_ID (ed_public K FIXED_SEED) # test_expert_key_directory K"

lemma release_then_verified_witness:
  "\<exists>s h kew' ev t. release sample_toolchain (local_registry sample_toolchain) h
      [SourceFidelity, ScenarioCoverage, PublicationApproval] ''local'' ''current'' 8 9 10 s = (Inr (kew', ev), t)
    \<and> out_verdict (verify_artifact ascii_lib root_crypto sample_codecs kew' (sample_consumer root_crypto)
        (local_policy_context 11) default_verification_policy ev 12) = Verified"
proof -
  obtain s h kew a where r: "fs_invar s" "st_io s = []" "sound sample_toolchain (fs_view s)"
    "last_state (vw_log (fs_view s) h) = Some StructurallyVerified" "vw_consistency (fs_view s) h = None"
    "vw_kew (fs_view s) h = Some kew" "decodes sample_toolchain kew a"
    "artifact_kind (art_manifest a) = RegimePack"
    by (rule sample_registry)
  have types: "set (required_attestation_types (policy_for_kind (artifact_kind (art_manifest a))))
      \<subseteq> set [SourceFidelity, ScenarioCoverage, PublicationApproval]"
    unfolding r(8) policy_for_kind_types by simp
  have dir: "knows_expert (tc_crypto sample_toolchain) (sample_consumer (tc_crypto sample_toolchain))"
    "knows_compiler (tc_crypto sample_toolchain) (sample_consumer (tc_crypto sample_toolchain))"
    by (simp_all add: knows_expert_def knows_compiler_def sample_consumer_def keydir_lookup_def sample_key_def
        test_expert_key_directory_def TEST_KEY_ID_def TEST_EXPERT_KEY_ID_def)
  have clock: "9 \<noteq> (- 1 :: 64 word)" "10 \<noteq> (- 1 :: 64 word)" "11 \<noteq> (- 1 :: 64 word)" by simp_all
  show ?thesis
    using release_then_verified[OF sample_toolchain_law r(1-7) types clock dir]
    by (fastforce simp: sample_toolchain_def r(8))
qed



text \<open>C10: a selector resolves to at most one artifact, and with no failing system call \<open>resolve\<close>
  succeeds exactly when that artifact has a log: a hash resolves to itself, a tag to its
  pointer's target, a regime and date to the only published artifact of the regime whose
  closed-open window contains the date. The record carries the state, the event that set it, the
  manifest's policy version and, for a revoked artifact only, the revocation record; the
  store is unchanged.\<close>

theorem resolve_exactly:
  assumes "toolchain_law T" "fs_invar s" "st_io s = []" "sound T (fs_view s)"
    and "resolve T (local_registry T) sel now s = (r, t)"
  shows "fs_view t = fs_view s \<and> (case r of
      Inr (h, rec) \<Rightarrow> resolution T (fs_view s) sel now h rec
    | Inl _ \<Rightarrow> \<not> (\<exists>h. selects T (fs_view s) sel h \<and> vw_log (fs_view s) h \<noteq> []))"
proof -
  note spec = fs.resolve_triple[OF assms(1,4) refl refl, where b = True and sel = sel and now = now]
  note start = fs_stands_now[OF assms(2,3)]
  show ?thesis
  proof (cases r)
    case (Inl e)
    show ?thesis
      using tripleD_err[OF spec start assms(5)[unfolded Inl]] unfolding Inl sum.case fs_stands_def by blast
  next
    case (Inr x)
    show ?thesis
      using tripleD_ok[OF spec start assms(5)[unfolded Inr]] unfolding Inr sum.case fs_stands_def
      by (auto split: prod.splits)
  qed
qed

lemma resolve_exactly_witness:
  "\<exists>s h rec t. resolve sample_toolchain (local_registry sample_toolchain) (ByHash h) 9 s = (Inr (h, rec), t)
    \<and> res_state rec = StructurallyVerified \<and> res_revocation rec = None"
proof -
  obtain s h kew a where s: "fs_invar s" "st_io s = []" "sound sample_toolchain (fs_view s)"
    "last_state (vw_log (fs_view s) h) = Some StructurallyVerified"
    by (rule sample_registry)
  obtain r t where rt: "resolve sample_toolchain (local_registry sample_toolchain) (ByHash h) 9 s = (r, t)" by fastforce
  have log: "vw_log (fs_view s) h \<noteq> []" using s(4) by (auto simp: last_state_def)
  note spec = resolve_exactly[OF sample_toolchain_law(1) s(1-3) rt]
  obtain g rec where r: "r = Inr (g, rec)" "resolution sample_toolchain (fs_view s) (ByHash h) 9 g rec"
    using spec log by (cases r) auto
  then have "g = h" "res_state rec = StructurallyVerified" "res_revocation rec = None"
    using s(4) by (auto simp: resolution_def)
  then show ?thesis using rt r(1) by blast
qed

text \<open>C40: compiling the same rules again does not merely fail: the artifact bytes are overwritten
  before the existing draft event is noticed, so the call ends in \<open>EventExists\<close> with the log
  unchanged and every attestation of the stored artifact gone, and the artifact can then not be
  published under the built-in policy of its kind.\<close>

theorem recompile_drops_attestations:
  assumes "toolchain_law T" "json_total T" "fs_invar s" "st_io s = []" "sound T (fs_view s)"
    and "assemble_rules T rules regime = Inr (a, kew)" "vw_log (fs_view s) (artifact_hash (art_manifest a)) \<noteq> []"
  shows "\<exists>t. compile_rules_into T (local_registry T) rules False regime now s
      = (Inl (RegistryFailure (EventExists 0)), t)
    \<and> fs_view t = with_kew (artifact_hash (art_manifest a)) kew (fs_view s)
    \<and> decodes T kew a \<and> art_attestations a = []
    \<and> (\<forall>later. \<not> publishable T (fs_view t) (artifact_hash (art_manifest a)) None later)"
proof -
  note spec = fs.compile_rules_triple[OF assms(1,5), where b = True and rules = rules and blocking = False
      and regime = regime and now = now and L = "tc_lib T" and A = "tc_artifacts T"]
  note start = fs_stands_now[OF assms(3,4)]
  have dec: "decodes T kew a" by (rule assembled_decodes(1)[OF assms(1,6)])
  obtain m p audit where "assemble_payload (tc_lib T) (tc_crypto T) (tc_artifacts T) m p audit FIXED_SEED TEST_KEY_ID
      = Inr (a, kew)"
    using assms(6) by (auto simp: assemble_rules_def assemble_def rbind_eq_Inr map_err_eq_Inr)
  then have none: "art_attestations a = []"
    by (rule assemble_payload_result[OF toolchain_laws(1)[OF assms(1)]])
  obtain r t where rt: "compile_rules_into T (local_registry T) rules False regime now s = (r, t)" by fastforce
  show ?thesis
  proof (cases r)
    case (Inl e)
    have "e = RegistryFailure (EventExists 0)" "fs_stands True (with_kew (artifact_hash (art_manifest a)) kew (fs_view s)) t"
      using tripleD_err[OF spec start rt[unfolded Inl]] assms(2,6) by blast+
    moreover from this have "fs_view t = with_kew (artifact_hash (art_manifest a)) kew (fs_view s)"
      by (simp add: fs_stands_def)
    moreover from this have "\<not> publishable T (fs_view t) (artifact_hash (art_manifest a)) None later" for later
      by (intro unattested_not_publishable[OF assms(1) dec none]) simp
    ultimately show ?thesis using rt Inl dec none by blast
  next
    case (Inr x)
    have "False"
      using tripleD_ok[OF spec start rt[unfolded Inr]] assms(6,7) by (auto simp: recorded_def Let_def split: prod.splits)
    then show ?thesis ..
  qed
qed

lemma recompile_drops_attestations_witness:
  "\<exists>s t. vw_log (fs_view s) \<noteq> (\<lambda>_. [])
    \<and> compile_rules_into sample_toolchain (local_registry sample_toolchain) sample_rules False ''mica'' 8 s
        = (Inl (RegistryFailure (EventExists 0)), t)"
proof -
  obtain s h kew a where s: "fs_invar s" "st_io s = []" "sound sample_toolchain (fs_view s)"
    "last_state (vw_log (fs_view s) h) = Some StructurallyVerified"
    "assemble_rules sample_toolchain sample_rules ''mica'' = Inr (a, kew)" "h = artifact_hash (art_manifest a)"
    by (rule sample_registry)
  then have log: "vw_log (fs_view s) (artifact_hash (art_manifest a)) \<noteq> []" by (auto simp: last_state_def)
  then have "vw_log (fs_view s) \<noteq> (\<lambda>_. [])" by metis
  then show ?thesis
    using recompile_drops_attestations[OF sample_toolchain_law s(1-3,5) log, of 8] by blast
qed

text \<open>\<open>ml-check\<close> cannot be repeated after it stopped between its two writes: once the
  consistency sidecar of a structurally verified artifact exists, every further \<open>ml-check\<close>
  fails, at any time and with every system call succeeding.\<close>

theorem ml_check_not_retryable:
  assumes "toolchain_law T" "fs_invar s" "st_io s = []" "sound T (fs_view s)"
    and "vw_consistency (fs_view s) h \<noteq> None"
  shows "\<exists>e t. ml_check T (local_registry T) h now s = (Inl e, t)"
proof -
  note spec = fs.ml_check_triple[OF assms(1,4), where b = True and h = h and now = now and L = "tc_lib T"
      and A = "tc_artifacts T"]
  obtain r t where rt: "ml_check T (local_registry T) h now s = (r, t)" by fastforce
  show ?thesis
    using tripleD_ok[OF spec fs_stands_now[OF assms(2,3)]] rt assms(5) by (cases r) auto
qed

lemma ml_check_not_retryable_witness:
  "\<exists>s h. last_state (vw_log (fs_view s) h) = Some StructurallyVerified
    \<and> (\<exists>e t. ml_check sample_toolchain (local_registry sample_toolchain) h 9 s = (Inl e, t))"
proof -
  let ?T = sample_toolchain
  obtain s h kew a where s: "fs_invar s" "st_io s = []" "sound ?T (fs_view s)"
    "last_state (vw_log (fs_view s) h) = Some StructurallyVerified" "vw_consistency (fs_view s) h = None"
    by (rule sample_registry)
  obtain t where t: "fs_stands True (with_consistency h (dev_standin_block 8) (fs_view s)) t"
    by (rule triple_success[OF fs.put_consistency[where h = h and c = "dev_standin_block 8" and L = ascii_lib
          and A = sample_codecs] fs_stands_now[OF s(1,2)]]) (use s(5) in auto)
  then have now: "fs_view t = with_consistency h (dev_standin_block 8) (fs_view s)" "fs_invar t" "st_io t = []"
    by (simp_all add: fs_stands_def fs_reliable_def)
  have "sound ?T (fs_view t)"
    unfolding now(1) by (rule step_sound[OF lifecycle_step.consistency[OF s(4,5)] sample_toolchain_law(1) s(3)])
  then have "\<exists>e u. ml_check ?T (local_registry ?T) h 9 t = (Inl e, u)"
    by (rule ml_check_not_retryable[OF sample_toolchain_law(1) now(2,3)]) (simp add: now(1))
  then show ?thesis using s(4) now(1) by (intro exI[of _ t] exI[of _ h]) simp
qed

end
