(* ===== verification/Yaml_Ast.thy ===== *)
theory Yaml_Ast
  imports IR
begin

text \<open>
  The spanned AST between the YAML parser and lowering
  (\<open>src/crates/ke-compiler/src/ast\<close>) and the compiler's error
  (\<open>src/crates/ke-compiler/src/error.rs\<close>). Spans are positions in the authoring file; a
  marked-yaml span or marker is third-party data, seen through the accessors the code calls.
\<close>

section \<open>Spans\<close>

text \<open>\<open>marked_yaml::Marker\<close> and \<open>marked_yaml::Span\<close>\<close>

record marker =
  marker_line :: nat
  marker_column :: nat

record marked_span =
  marked_start :: "marker option"
  marked_end :: "marker option"

record position =
  pos_line :: nat
  pos_column :: nat

record yaml_span =
  ys_start :: "position option"
  ys_end :: "position option"

definition default_span :: yaml_span where
  "default_span = \<lparr>ys_start = None, ys_end = None\<rparr>"

definition to_pos :: "marker \<Rightarrow> position" where
  "to_pos m = \<lparr>pos_line = marker_line m, pos_column = marker_column m\<rparr>"

definition from_marked :: "marked_span \<Rightarrow> yaml_span" where
  "from_marked sp =
     \<lparr>ys_start = map_option to_pos (marked_start sp), ys_end = map_option to_pos (marked_end sp)\<rparr>"

definition is_known :: "yaml_span \<Rightarrow> bool" where
  "is_known sp = (ys_start sp \<noteq> None)"

section \<open>Errors\<close>

record compile_error =
  err_message :: string
  err_span :: yaml_span

definition error_at :: "string \<Rightarrow> yaml_span \<Rightarrow> compile_error" where
  "error_at message sp = \<lparr>err_message = message, err_span = sp\<rparr>"

definition unlocated :: "string \<Rightarrow> compile_error" where
  "unlocated message = \<lparr>err_message = message, err_span = default_span\<rparr>"

section \<open>Nodes\<close>

datatype 'a spanned = Spanned (spanned_value: 'a) (spanned_span: yaml_span)

datatype group_kind = GroupAll | GroupAny

record ast_condition =
  ast_field :: "string spanned"
  ast_operator :: "string spanned"
  ast_value :: scalar_value
  ast_cond_description :: "string option"

datatype ast_group = AstGroup (ast_kind: group_kind) (ast_items: "ast_group_item spanned list")
  and ast_group_item = AstItemCondition ast_condition | AstItemGroup ast_group

record ast_obligation =
  ast_obl_id :: "string spanned"
  ast_obl_description :: "string option"
  ast_obl_deadline :: "string option"

record ast_leaf =
  ast_result :: "string spanned"
  ast_leaf_obligations :: "ast_obligation spanned list"
  ast_leaf_notes :: "string option"

datatype ast_decision = AstDecisionNode ast_node | AstDecisionLeaf ast_leaf
  and ast_node = AstNode
    (ast_node_id: "string option")
    (ast_node_condition: "ast_condition spanned option")
    (ast_true_branch: "ast_decision spanned option")
    (ast_false_branch: "ast_decision spanned option")

record ast_source =
  ast_document_id :: string
  ast_article :: "string option"
  ast_section :: "string option"
  ast_paragraphs :: "string list"
  ast_pages :: "32 word list"

record ast_rule =
  ast_span :: yaml_span
  ast_rule_id :: "string spanned"
  ast_version :: "string option"
  ast_description :: "string option"
  ast_tags :: "string list"
  ast_effective_from :: "string option"
  ast_effective_to :: "string option"
  ast_jurisdiction :: "string option"
  ast_applies_if :: "ast_group spanned option"
  ast_decision_tree :: "ast_decision spanned"
  ast_obligations :: "ast_obligation spanned list"
  ast_rule_source :: "ast_source spanned"
  ast_interpretation_notes :: "string option"

end
