(* ===== verification/Rust_Text.thy ===== *)
theory Rust_Text
  imports Decimal_Text
begin

text \<open>
  The operations of \<open>str\<close> the compiler uses on UTF-8 text: \<open>trim\<close> and \<open>split_whitespace\<close> over
  Unicode's \<open>White_Space\<close> characters, \<open>split\<close> on an ASCII character, and integer parsing.
  No white-space character's encoding overlaps another character's, so working on bytes is
  exact for well-formed text.
\<close>

section \<open>White space\<close>

definition utf8 :: "nat list \<Rightarrow> string" where
  "utf8 bs = map char_of bs"

text \<open>The 25 characters with the property \<open>White_Space\<close>, as UTF-8.\<close>

definition white_chars :: "string list" where
  "white_chars = map utf8
     ([[9], [10], [11], [12], [13], [32], [0xC2, 0x85], [0xC2, 0xA0], [0xE1, 0x9A, 0x80]]
      @ map (\<lambda>b. [0xE2, 0x80, b])
          [0x80, 0x81, 0x82, 0x83, 0x84, 0x85, 0x86, 0x87, 0x88, 0x89, 0x8A, 0xA8, 0xA9, 0xAF]
      @ [[0xE2, 0x81, 0x9F], [0xE3, 0x80, 0x80]])"

definition starts_with :: "string \<Rightarrow> string \<Rightarrow> bool" where
  "starts_with s w = (take (length w) s = w)"

lemma white_chars_nonempty: "w \<in> set white_chars \<Longrightarrow> w \<noteq> []"
  by (auto simp: white_chars_def utf8_def)

lemma drop_prefix_shorter:
  "find (\<lambda>w. w \<noteq> [] \<and> starts_with s w) ws = Some w \<Longrightarrow> length (drop (length w) s) < length s"
  by (cases s) (auto simp: find_Some_iff starts_with_def)

text \<open>Removing leading members of \<open>ws\<close>; an empty member never matches.\<close>

function strip :: "string list \<Rightarrow> string \<Rightarrow> string" where
  "strip ws s =
     (case find (\<lambda>w. w \<noteq> [] \<and> starts_with s w) ws of
        None \<Rightarrow> s
      | Some w \<Rightarrow> strip ws (drop (length w) s))"
  by pat_completeness auto
termination
  by (relation "measure (length \<circ> snd)") (auto dest: drop_prefix_shorter)

declare strip.simps [simp del]

definition trim :: "string \<Rightarrow> string" where
  "trim s = rev (strip (map rev white_chars) (rev (strip white_chars s)))"

text \<open>\<open>s.split_whitespace()\<close>: the maximal runs without white space.\<close>

function white_pieces :: "string \<Rightarrow> string list" where
  "white_pieces s =
     (case s of
        [] \<Rightarrow> [[]]
      | c # cs \<Rightarrow>
          (case find (\<lambda>w. w \<noteq> [] \<and> starts_with s w) white_chars of
             Some w \<Rightarrow> [] # white_pieces (drop (length w) s)
           | None \<Rightarrow> (case white_pieces cs of
               [] \<Rightarrow> [[c]]
             | p # ps \<Rightarrow> (c # p) # ps)))"
  by pat_completeness auto
termination
  by (relation "measure length") (auto dest: drop_prefix_shorter)

declare white_pieces.simps [simp del]

definition split_whitespace :: "string \<Rightarrow> string list" where
  "split_whitespace s = filter (\<lambda>p. p \<noteq> []) (white_pieces s)"

text \<open>\<open>s.split(c)\<close> keeps empty pieces and has always one piece.\<close>

fun split_on :: "char \<Rightarrow> string \<Rightarrow> string list" where
  "split_on c [] = [[]]"
| "split_on c (x # xs) =
     (if x = c then [] # split_on c xs
      else (case split_on c xs of [] \<Rightarrow> [[x]] | p # ps \<Rightarrow> (x # p) # ps))"

text \<open>\<open>s.split_once(c)\<close>\<close>

definition split_once :: "char \<Rightarrow> string \<Rightarrow> (string \<times> string) option" where
  "split_once c s =
     (if c \<in> set s
      then Some (takeWhile (\<lambda>x. x \<noteq> c) s, drop 1 (dropWhile (\<lambda>x. x \<noteq> c) s)) else None)"

definition strip_prefix :: "char \<Rightarrow> string \<Rightarrow> string option" where
  "strip_prefix c s = (case s of [] \<Rightarrow> None | x # xs \<Rightarrow> if x = c then Some xs else None)"

section \<open>Integers\<close>

text \<open>\<open>s.parse::<T>()\<close> for an integer type with the given range: an optional sign (a minus
  only for signed types), at least one digit, and a value in range.\<close>

definition parse_int :: "bool \<Rightarrow> int \<Rightarrow> int \<Rightarrow> string \<Rightarrow> int option" where
  "parse_int sg lo hi s =
     (let (neg, ds) =
        (case s of
           [] \<Rightarrow> (False, [])
         | c # cs \<Rightarrow> if c = CHR ''+'' then (False, cs)
             else if c = CHR ''-'' \<and> sg then (True, cs) else (False, s))
      in if ds = [] \<or> \<not> list_all is_digit ds then None
         else let v = (if neg then - digits_value ds else digits_value ds)
              in if lo \<le> v \<and> v \<le> hi then Some v else None)"

definition parse_i16 :: "string \<Rightarrow> int option" where
  "parse_i16 = parse_int True (- (2 ^ 15)) (2 ^ 15 - 1)"

definition parse_u8 :: "string \<Rightarrow> nat option" where
  "parse_u8 s = map_option nat (parse_int False 0 255 s)"

definition parse_u32 :: "string \<Rightarrow> 32 word option" where
  "parse_u32 s = map_option of_int (parse_int False 0 (2 ^ 32 - 1) s)"

definition parse_i128 :: "string \<Rightarrow> int option" where
  "parse_i128 = parse_int True (- (2 ^ 127)) (2 ^ 127 - 1)"

section \<open>Facts\<close>

text \<open>Text whose first and last byte are printable ASCII is its own trimming.\<close>

definition ascii_graphic :: "char \<Rightarrow> bool" where
  "ascii_graphic c = (33 \<le> (of_char c :: int) \<and> (of_char c :: int) \<le> 126)"

lemma white_ends:
  "list_all (\<lambda>w. w \<noteq> [] \<and> \<not> ascii_graphic (hd w) \<and> \<not> ascii_graphic (last w)) white_chars"
  by code_simp

lemma strip_graphic:
  assumes "list_all (\<lambda>w. w \<noteq> [] \<and> \<not> ascii_graphic (hd w)) ws" and "ascii_graphic c"
  shows "strip ws (c # s) = c # s"
proof -
  have "\<not> starts_with (c # s) w" if "w \<in> set ws" for w
    using assms that by (cases w) (auto simp: starts_with_def list_all_iff)
  then have "find (\<lambda>w. w \<noteq> [] \<and> starts_with (c # s) w) ws = None"
    by (auto simp: find_None_iff)
  then show ?thesis by (subst strip.simps) simp
qed

lemma strip_Nil [simp]: "strip ws [] = []"
  by (subst strip.simps) (auto simp: starts_with_def find_Some_iff split: option.splits)

lemma trim_Nil [simp]: "trim [] = []"
  by (simp add: trim_def)

lemma trim_graphic:
  assumes "list_all ascii_graphic s"
  shows "trim s = s"
proof (cases s)
  case (Cons c cs)
  have front: "strip white_chars s = s"
    using assms white_ends Cons by (auto intro!: strip_graphic simp: list_all_iff)
  obtain d ds where ends: "rev s = d # ds" using Cons by (cases "rev s") auto
  then have "d \<in> set s" by (metis list.set_intros(1) set_rev)
  then have "strip (map rev white_chars) (d # ds) = d # ds"
    using assms white_ends by (intro strip_graphic) (auto simp: list_all_iff hd_rev)
  with ends have "strip (map rev white_chars) (rev s) = rev s" by simp
  with front show ?thesis by (simp add: trim_def)
qed simp

lemma digit_graphic: "is_digit c \<Longrightarrow> ascii_graphic c"
  by (auto simp: is_digit_def ascii_graphic_def)

lemma ascii_graphic_simps [simp]:
  "ascii_graphic CHR ''-''" "ascii_graphic CHR ''.''" "ascii_graphic CHR ''+''"
  by (simp_all add: ascii_graphic_def)

lemma not_digit_simps [simp]:
  "\<not> is_digit CHR ''-''" "\<not> is_digit CHR ''.''" "\<not> is_digit CHR ''+''"
  by (simp_all add: is_digit_def)

lemma split_on_nonempty: "split_on c s \<noteq> []"
  by (induction s) (auto split: list.splits)

lemma split_on_plain: "c \<notin> set s \<Longrightarrow> split_on c s = [s]"
  by (induction s) auto

lemma split_on_append: "c \<notin> set s \<Longrightarrow> split_on c (s @ c # t) = s # split_on c t"
  by (induction s) auto

lemma split_once_plain: "c \<notin> set s \<Longrightarrow> split_once c s = None"
  by (simp add: split_once_def)

lemma split_once_append: "c \<notin> set s \<Longrightarrow> split_once c (s @ c # t) = Some (s, t)"
  by (auto simp: split_once_def takeWhile_append dropWhile_append)

lemma digits_not_member: "list_all is_digit s \<Longrightarrow> \<not> is_digit c \<Longrightarrow> c \<notin> set s"
  by (auto simp: list_all_iff)

lemma digits_value_nonneg: "list_all is_digit s \<Longrightarrow> 0 \<le> digits_value s"
proof (induction s rule: rev_induct)
  case (snoc c s)
  then show ?case by (simp add: digits_value_append digit_value_nonneg)
qed simp

lemma parse_int_digits:
  assumes "list_all is_digit s" and "s \<noteq> []"
  shows "parse_int sg lo hi s =
     (if lo \<le> digits_value s \<and> digits_value s \<le> hi then Some (digits_value s) else None)"
proof -
  obtain c cs where s: "s = c # cs" using assms(2) by (cases s) auto
  with assms(1) have "c \<noteq> CHR ''+''" "c \<noteq> CHR ''-''" by auto
  with s assms show ?thesis by (auto simp: parse_int_def)
qed

lemma parse_int_neg_digits:
  assumes "list_all is_digit s" and "s \<noteq> []"
  shows "parse_int True lo hi (CHR ''-'' # s) =
     (if lo \<le> - digits_value s \<and> - digits_value s \<le> hi then Some (- digits_value s) else None)"
  using assms by (auto simp: parse_int_def)

lemma parse_int_range: "parse_int sg lo hi s = Some v \<Longrightarrow> lo \<le> v \<and> v \<le> hi"
  by (auto simp: parse_int_def Let_def split: if_splits prod.splits)

text \<open>Printing an integer and parsing it returns it.\<close>

lemma parse_int_print:
  assumes "lo \<le> v" and "v \<le> hi" and "v < 0 \<longrightarrow> sg"
  shows "parse_int sg lo hi (int_digits v) = Some v"
  using assms parse_int_digits[OF nat_digits_digits nat_digits_nonempty, of v sg lo hi]
    parse_int_neg_digits[OF nat_digits_digits nat_digits_nonempty, of "- v" lo hi]
  by (auto simp: int_digits_def)

lemma parse_i16_print: "- (2 ^ 15) \<le> v \<Longrightarrow> v < 2 ^ 15 \<Longrightarrow> parse_i16 (int_digits v) = Some v"
  by (simp add: parse_i16_def parse_int_print)

lemma parse_u8_print: "n < 256 \<Longrightarrow> parse_u8 (int_digits (int n)) = Some n"
  by (simp add: parse_u8_def parse_int_print)

lemma parse_u32_print: "parse_u32 (int_digits (uint w)) = Some w"
  using uint_lt2p[of w] by (simp add: parse_u32_def parse_int_print)

end
