(* ===== verification/Yaml_Parser.thy ===== *)
theory Yaml_Parser
  imports Yaml_Ast Rust_Text
begin

text \<open>
  From YAML to the spanned AST (\<open>src/crates/ke-compiler/src/parser.rs\<close>, \<open>value.rs\<close>). Reading
  text into a node tree is marked-yaml's; the tree is modelled by what its accessors show
  (a scalar's text and whether it may be coerced, the nodes of a sequence, the entries of a
  mapping), the two load calls and \<open>as_bool\<close> are the parameter \<open>yaml_lib\<close>.
\<close>

section \<open>marked-yaml\<close>

record scalar_node =
  scalar_text :: string
  may_coerce :: bool
  scalar_span :: marked_span

datatype yaml_node =
    ScalarNode scalar_node
  | SequenceNode sequence_node
  | MappingNode mapping_node
and sequence_node = Sequence (seq_span: marked_span) (seq_nodes: "yaml_node list")
and mapping_node = Mapping_Node (map_span: marked_span) (map_entries: "(string \<times> yaml_node) list")

datatype load_error = TopLevelMustBeMapping marker | OtherLoadError string

record yaml_lib =
  parse_yaml :: "string \<Rightarrow> load_error + yaml_node"
  parse_yaml_sequence :: "string \<Rightarrow> load_error + yaml_node"
  load_error_text :: "load_error \<Rightarrow> string"
  as_bool :: "scalar_node \<Rightarrow> bool option"

definition get_node :: "mapping_node \<Rightarrow> string \<Rightarrow> yaml_node option" where
  "get_node m key = map_of (map_entries m) key"

fun as_scalar :: "yaml_node \<Rightarrow> scalar_node option" where
  "as_scalar (ScalarNode s) = Some s"
| "as_scalar _ = None"

fun as_sequence :: "yaml_node \<Rightarrow> sequence_node option" where
  "as_sequence (SequenceNode s) = Some s"
| "as_sequence _ = None"

fun as_mapping :: "yaml_node \<Rightarrow> mapping_node option" where
  "as_mapping (MappingNode m) = Some m"
| "as_mapping _ = None"

fun node_span :: "yaml_node \<Rightarrow> marked_span" where
  "node_span (ScalarNode s) = scalar_span s"
| "node_span (SequenceNode s) = seq_span s"
| "node_span (MappingNode m) = map_span m"

definition get_scalar :: "mapping_node \<Rightarrow> string \<Rightarrow> scalar_node option" where
  "get_scalar m key = Option.bind (get_node m key) as_scalar"

definition get_sequence :: "mapping_node \<Rightarrow> string \<Rightarrow> sequence_node option" where
  "get_sequence m key = Option.bind (get_node m key) as_sequence"

definition get_mapping :: "mapping_node \<Rightarrow> string \<Rightarrow> mapping_node option" where
  "get_mapping m key = Option.bind (get_node m key) as_mapping"

lemma get_node_size: "get_node m key = Some n \<Longrightarrow> size n < size m"
proof (cases m)
  case (Mapping_Node sp es)
  have "map_of es key = Some n \<Longrightarrow> size n < Suc (size_list (size_prod (\<lambda>_. 0) size) es)"
    by (induction es) (auto split: if_splits)
  then show "get_node m key = Some n \<Longrightarrow> size n < size m"
    using Mapping_Node by (simp add: get_node_def)
qed

lemma as_mapping_size: "as_mapping n = Some m \<Longrightarrow> size m < size n"
  by (cases n) auto

lemma as_sequence_size: "as_sequence n = Some q \<Longrightarrow> size q < size n"
  by (cases n) auto

lemma get_mapping_size: "get_mapping m key = Some m' \<Longrightarrow> size m' < size m"
  by (auto simp: get_mapping_def bind_eq_Some_conv dest!: get_node_size as_mapping_size)

lemma get_sequence_size: "get_sequence m key = Some q \<Longrightarrow> size q < size m"
  by (auto simp: get_sequence_def bind_eq_Some_conv dest!: get_node_size as_sequence_size)

lemma seq_nodes_size: "n \<in> set (seq_nodes q) \<Longrightarrow> size n < size q"
  by (cases q) (auto simp: less_Suc_eq_le intro: size_list_estimation')

section \<open>Condition values\<close>

definition option_or :: "'a option \<Rightarrow> 'a \<Rightarrow> 'a" where
  "option_or x d = (case x of Some a \<Rightarrow> a | None \<Rightarrow> d)"

definition ok_or :: "'e \<Rightarrow> 'a option \<Rightarrow> 'e + 'a" where
  "ok_or e x = (case x of Some a \<Rightarrow> Inr a | None \<Rightarrow> Inl e)"

definition parse_decimal :: "string \<Rightarrow> scalar_value option" where
  "parse_decimal s =
     (let t = trim s in
      if t = [] then None
      else let (neg, body) =
             (case strip_prefix CHR ''-'' t of
                Some rest \<Rightarrow> (True, rest)
              | None \<Rightarrow> (False, option_or (strip_prefix CHR ''+'' t) t));
             (int_part, frac_part) = option_or (split_once CHR ''.'' body) (body, [])
           in if int_part = [] \<and> frac_part = [] then None
              else if \<not> list_all is_digit int_part \<or> \<not> list_all is_digit frac_part then None
              else case parse_i128 (int_part @ frac_part) of
                None \<Rightarrow> None
              | Some mantissa_abs \<Rightarrow>
                  if length frac_part \<le> 127
                  then Some (ScalarDecimal (if neg then - mantissa_abs else mantissa_abs)
                         (int (length frac_part)))
                  else None)"

definition scalar_to_value :: "yaml_lib \<Rightarrow> scalar_node \<Rightarrow> scalar_value" where
  "scalar_to_value Y n =
     (if \<not> may_coerce n then ScalarStr (scalar_text n)
      else case as_bool Y n of
        Some b \<Rightarrow> ScalarBool b
      | None \<Rightarrow> option_or (parse_decimal (scalar_text n)) (ScalarStr (scalar_text n)))"

fun node_to_value :: "yaml_lib \<Rightarrow> yaml_node \<Rightarrow> compile_error + scalar_value"
  and sequence_to_value :: "yaml_lib \<Rightarrow> sequence_node \<Rightarrow> compile_error + scalar_value"
where
  "node_to_value Y (ScalarNode s) = Inr (scalar_to_value Y s)"
| "node_to_value Y (SequenceNode q) = sequence_to_value Y q"
| "node_to_value Y (MappingNode m) =
     Inl (error_at ''a condition value must be a scalar or list, not a mapping''
       (from_marked (map_span m)))"
| "sequence_to_value Y (Sequence sp els) = rmap ScalarList (mapR (node_to_value Y) els)"

section \<open>Small helpers\<close>

definition opt_scalar :: "mapping_node \<Rightarrow> string \<Rightarrow> string option" where
  "opt_scalar m key = map_option scalar_text (get_scalar m key)"

definition req_scalar :: "mapping_node \<Rightarrow> string \<Rightarrow> yaml_span \<Rightarrow> compile_error + string spanned" where
  "req_scalar m key ctx =
     (case get_scalar m key of
        Some s \<Rightarrow> Inr (Spanned (scalar_text s) (from_marked (scalar_span s)))
      | None \<Rightarrow> Inl (error_at (''missing required `'' @ key @ ''`'') ctx))"

definition scalar_items :: "sequence_node \<Rightarrow> string list" where
  "scalar_items q = List.map_filter (\<lambda>n. map_option scalar_text (as_scalar n)) (seq_nodes q)"

section \<open>Parts of a rule\<close>

definition parse_value :: "yaml_lib \<Rightarrow> mapping_node \<Rightarrow> string \<Rightarrow> yaml_span
    \<Rightarrow> compile_error + scalar_value" where
  "parse_value Y m key ctx =
     (case get_scalar m key of
        Some s \<Rightarrow> Inr (scalar_to_value Y s)
      | None \<Rightarrow> (case get_sequence m key of
          Some q \<Rightarrow> rmap ScalarList (mapR (node_to_value Y) (seq_nodes q))
        | None \<Rightarrow> Inl (error_at (''condition is missing a `'' @ key @ ''`'') ctx)))"

definition parse_condition :: "yaml_lib \<Rightarrow> mapping_node \<Rightarrow> compile_error + ast_condition" where
  "parse_condition Y m =
     (let sp = from_marked (map_span m) in
      rbind (req_scalar m ''field'' sp) (\<lambda>field.
      let operator =
        (case get_scalar m ''operator'' of
           Some op \<Rightarrow> Spanned (scalar_text op) (from_marked (scalar_span op))
         | None \<Rightarrow> Spanned ''=='' sp) in
      rbind (parse_value Y m ''value'' sp) (\<lambda>val.
      Inr \<lparr>ast_field = field, ast_operator = operator, ast_value = val,
        ast_cond_description = opt_scalar m ''description''\<rparr>)))"

function parse_group :: "yaml_lib \<Rightarrow> mapping_node \<Rightarrow> compile_error + ast_group" where
  "parse_group Y m =
     rbind
       (case get_sequence m ''all'' of
          Some q \<Rightarrow> Inr (GroupAll, q)
        | None \<Rightarrow> (case get_sequence m ''any'' of
            Some q \<Rightarrow> Inr (GroupAny, q)
          | None \<Rightarrow> Inl (error_at ''a condition group must have an `all` or `any` list''
              (from_marked (map_span m)))))
       (\<lambda>(kind, q). rmap (AstGroup kind)
         (mapR (\<lambda>el.
            (case as_mapping el of
               None \<Rightarrow> Inl (error_at ''each `all`/`any` entry must be a mapping''
                 (from_marked (node_span el)))
             | Some item_map \<Rightarrow>
                 rmap (\<lambda>item. Spanned item (from_marked (map_span item_map)))
                   (if get_scalar item_map ''field'' \<noteq> None
                    then rmap AstItemCondition (parse_condition Y item_map)
                    else rmap AstItemGroup (parse_group Y item_map))))
            (seq_nodes q)))"
  by pat_completeness auto
termination
  by (relation "measure (\<lambda>(Y, m). size m)")
     (fastforce split: option.splits
       dest: get_sequence_size seq_nodes_size as_mapping_size)+

declare parse_group.simps [simp del]

definition parse_obligations :: "sequence_node \<Rightarrow> compile_error + ast_obligation spanned list" where
  "parse_obligations q =
     mapR (\<lambda>el.
       (case as_mapping el of
          None \<Rightarrow> Inl (error_at ''each obligation must be a mapping'' (from_marked (node_span el)))
        | Some m \<Rightarrow>
            let sp = from_marked (map_span m) in
            rbind (req_scalar m ''id'' sp) (\<lambda>oid.
            Inr (Spanned \<lparr>ast_obl_id = oid, ast_obl_description = opt_scalar m ''description'',
              ast_obl_deadline = opt_scalar m ''deadline''\<rparr> sp))))
       (seq_nodes q)"

definition parse_leaf :: "mapping_node \<Rightarrow> compile_error + ast_leaf" where
  "parse_leaf m =
     (let sp = from_marked (map_span m) in
      rbind (req_scalar m ''result'' sp) (\<lambda>result.
      rbind (case get_sequence m ''obligations'' of Some q \<Rightarrow> parse_obligations q | None \<Rightarrow> Inr [])
        (\<lambda>obligations.
      Inr \<lparr>ast_result = result, ast_leaf_obligations = obligations,
        ast_leaf_notes = opt_scalar m ''notes''\<rparr>)))"

text \<open>\<open>parse_decision\<close> with \<open>parse_node\<close> and \<open>parse_branch\<close>, which call each other.\<close>

definition parse_node_condition :: "yaml_lib \<Rightarrow> mapping_node
    \<Rightarrow> compile_error + ast_condition spanned option" where
  "parse_node_condition Y m =
     opt_mapR (\<lambda>c. rmap (\<lambda>cond. Spanned cond (from_marked (map_span c))) (parse_condition Y c))
       (get_mapping m ''condition'')"

function parse_decision :: "yaml_lib \<Rightarrow> mapping_node \<Rightarrow> compile_error + ast_decision"
  and parse_node :: "yaml_lib \<Rightarrow> mapping_node \<Rightarrow> compile_error + ast_node"
  and parse_branch :: "yaml_lib \<Rightarrow> mapping_node \<Rightarrow> string
    \<Rightarrow> compile_error + ast_decision spanned option"
where
  "parse_decision Y m =
     (if get_scalar m ''result'' \<noteq> None then rmap AstDecisionLeaf (parse_leaf m)
      else rmap AstDecisionNode (parse_node Y m))"
| "parse_node Y m =
     rbind (parse_node_condition Y m) (\<lambda>condition.
     rbind (parse_branch Y m ''true_branch'') (\<lambda>on_true.
     rbind (parse_branch Y m ''false_branch'') (\<lambda>on_false.
     Inr (AstNode (opt_scalar m ''node_id'') condition on_true on_false))))"
| "parse_branch Y m key =
     opt_mapR (\<lambda>b. rmap (\<lambda>d. Spanned d (from_marked (map_span b))) (parse_decision Y b))
       (get_mapping m key)"
  by pat_completeness auto
termination
  by (relation "measure (\<lambda>x. case x of Inl (Y, m) \<Rightarrow> 3 * size m + 2
        | Inr (Inl (Y, m)) \<Rightarrow> 3 * size m + 1 | Inr (Inr (Y, m, key)) \<Rightarrow> 3 * size m)")
     (auto dest: get_mapping_size)

declare parse_decision.simps [simp del] parse_node.simps [simp del] parse_branch.simps [simp del]

definition parse_pages :: "sequence_node \<Rightarrow> compile_error + 32 word list" where
  "parse_pages q =
     mapR (\<lambda>el.
       (case as_scalar el of
          None \<Rightarrow> Inl (error_at ''`pages` entries must be integers'' (from_marked (node_span el)))
        | Some s \<Rightarrow>
            ok_or (error_at (''page `'' @ scalar_text s @ ''` is not an integer'')
                (from_marked (scalar_span s)))
              (parse_u32 (trim (scalar_text s)))))
       (seq_nodes q)"

definition parse_source :: "mapping_node \<Rightarrow> compile_error + ast_source" where
  "parse_source m =
     rbind (ok_or (error_at ''`source` is missing a `document_id`'' (from_marked (map_span m)))
         (map_option scalar_text (get_scalar m ''document_id''))) (\<lambda>document.
     rbind (case get_sequence m ''pages'' of Some q \<Rightarrow> parse_pages q | None \<Rightarrow> Inr []) (\<lambda>pages.
     Inr \<lparr>ast_document_id = document,
       ast_article = opt_scalar m ''article'',
       ast_section = opt_scalar m ''section'',
       ast_paragraphs = (case get_sequence m ''paragraphs'' of
          Some q \<Rightarrow> scalar_items q | None \<Rightarrow> []),
       ast_pages = pages\<rparr>))"

section \<open>Rules and documents\<close>

definition parse_rule :: "yaml_lib \<Rightarrow> mapping_node \<Rightarrow> compile_error + ast_rule" where
  "parse_rule Y m =
     (let sp = from_marked (map_span m) in
      rbind (req_scalar m ''rule_id'' sp) (\<lambda>rid.
      rbind (ok_or (error_at ''rule is missing a `decision_tree`'' sp) (get_mapping m ''decision_tree''))
        (\<lambda>tree_map.
      rbind (parse_decision Y tree_map) (\<lambda>tree.
      rbind (ok_or (error_at ''rule is missing a `source`'' sp) (get_mapping m ''source''))
        (\<lambda>source_map.
      rbind (parse_source source_map) (\<lambda>source.
      rbind (opt_mapR (\<lambda>g. rmap (\<lambda>group. Spanned group (from_marked (map_span g))) (parse_group Y g))
          (get_mapping m ''applies_if'')) (\<lambda>applies.
      rbind (case get_sequence m ''obligations'' of Some q \<Rightarrow> parse_obligations q | None \<Rightarrow> Inr [])
        (\<lambda>obligations.
      Inr \<lparr>ast_span = sp,
        ast_rule_id = rid,
        ast_version = opt_scalar m ''version'',
        ast_description = opt_scalar m ''description'',
        ast_tags = (case get_sequence m ''tags'' of Some q \<Rightarrow> scalar_items q | None \<Rightarrow> []),
        ast_effective_from = opt_scalar m ''effective_from'',
        ast_effective_to = opt_scalar m ''effective_to'',
        ast_jurisdiction = opt_scalar m ''jurisdiction'',
        ast_applies_if = applies,
        ast_decision_tree = Spanned tree (from_marked (map_span tree_map)),
        ast_obligations = obligations,
        ast_rule_source = Spanned source (from_marked (map_span source_map)),
        ast_interpretation_notes = opt_scalar m ''interpretation_notes''\<rparr>))))))))"

definition parse_root :: "yaml_lib \<Rightarrow> string \<Rightarrow> compile_error + yaml_node" where
  "parse_root Y source =
     (let failure = (\<lambda>e. unlocated (''YAML parse error: '' @ load_error_text Y e)) in
      case parse_yaml Y source of
        Inr node \<Rightarrow> Inr node
      | Inl (TopLevelMustBeMapping _) \<Rightarrow> map_err failure (parse_yaml_sequence Y source)
      | Inl e \<Rightarrow> Inl (failure e))"

definition parse_root_node :: "yaml_lib \<Rightarrow> yaml_node \<Rightarrow> compile_error + ast_rule list" where
  "parse_root_node Y root =
     (case root of
        MappingNode m \<Rightarrow> rmap (\<lambda>r. [r]) (parse_rule Y m)
      | SequenceNode q \<Rightarrow>
          mapR (\<lambda>el. rbind (ok_or (error_at ''each rule in a list must be a mapping''
              (from_marked (node_span el))) (as_mapping el)) (parse_rule Y)) (seq_nodes q)
      | ScalarNode s \<Rightarrow> Inl (error_at ''expected a rule mapping or a list of rules''
          (from_marked (scalar_span s))))"

definition parse_rules :: "yaml_lib \<Rightarrow> string \<Rightarrow> compile_error + ast_rule list" where
  "parse_rules Y source = rbind (parse_root Y source) (parse_root_node Y)"

end
