(* ===== verification/Lowering.thy ===== *)
theory Lowering
  imports Yaml_Parser
begin

text \<open>
  AST to rule IR (\<open>src/crates/ke-compiler/src/lower.rs\<close>) and the compiler's entry point
  (\<open>src/crates/ke-compiler/src/lib.rs\<close>). Spans are dropped, except where they locate an error.
\<close>

definition operator_from_str :: "string \<Rightarrow> operator option" where
  "operator_from_str s =
     (if s = ''=='' \<or> s = ''='' then Some OpEq
      else if s = ''!='' \<or> s = ''<>'' then Some OpNotEq
      else if s = ''in'' then Some OpIn
      else if s = ''not in'' \<or> s = ''not_in'' then Some OpNotIn
      else if s = ''>'' then Some OpGt
      else if s = ''<'' then Some OpLt
      else if s = ''>='' then Some OpGte
      else if s = ''<='' then Some OpLte
      else if s = ''exists'' then Some OpExists
      else None)"

definition lower_operator :: "string spanned \<Rightarrow> compile_error + operator" where
  "lower_operator opr =
     ok_or (error_at (''unknown operator `'' @ spanned_value opr @ ''`'') (spanned_span opr))
       (operator_from_str (spanned_value opr))"

definition lower_condition :: "ast_condition \<Rightarrow> compile_error + condition" where
  "lower_condition c =
     rbind (lower_operator (ast_operator c)) (\<lambda>opr.
     Inr \<lparr>cond_field = spanned_value (ast_field c), cond_operator = opr,
       cond_value = ast_value c, cond_description = ast_cond_description c\<rparr>)"

lemma spanned_item_size [termination_simp]:
  "x \<in> set items \<Longrightarrow> size (spanned_value x) < Suc (size_list (size_spanned size) items)"
proof (induction items)
  case (Cons a items)
  then show ?case by (cases a) auto
qed simp

fun lower_group :: "ast_group \<Rightarrow> compile_error + condition_group"
  and lower_group_item :: "ast_group_item \<Rightarrow> compile_error + condition_or_group"
where
  "lower_group (AstGroup kind items) =
     rbind (mapR (\<lambda>it. lower_group_item (spanned_value it)) items) (\<lambda>items.
     Inr (case kind of
        GroupAll \<Rightarrow> ConditionGroupSpec (Some items) None
      | GroupAny \<Rightarrow> ConditionGroupSpec None (Some items)))"
| "lower_group_item (AstItemCondition c) = rmap CondItem (lower_condition c)"
| "lower_group_item (AstItemGroup g) = rmap GroupItem (lower_group g)"

definition lower_obligation :: "ast_obligation spanned \<Rightarrow> compile_error + obligation_spec" where
  "lower_obligation ob =
     Inr \<lparr>obl_id = spanned_value (ast_obl_id (spanned_value ob)),
       obl_description = ast_obl_description (spanned_value ob),
       obl_deadline = ast_obl_deadline (spanned_value ob),
       obl_source_span = None\<rparr>"

definition lower_leaf :: "ast_leaf \<Rightarrow> compile_error + decision_leaf" where
  "lower_leaf l =
     rbind (mapR lower_obligation (ast_leaf_obligations l)) (\<lambda>obligations.
     Inr \<lparr>leaf_result = spanned_value (ast_result l),
       leaf_obligations = (if obligations = [] then None else Some obligations),
       leaf_notes = ast_leaf_notes l,
       leaf_source_span = None\<rparr>)"

text \<open>A node is lowered in the order of the source: the three presence checks, the
  condition, the true branch, the false branch.\<close>

definition missing_part :: "string \<Rightarrow> yaml_span \<Rightarrow> compile_error" where
  "missing_part part sp = error_at (''decision node has no `'' @ part @ ''`'') sp"

lemma spanned_value_size: "size (spanned_value x) < size_spanned size x"
  by (cases x) simp

function lower_decision :: "yaml_span \<Rightarrow> ast_decision \<Rightarrow> compile_error + decision_entry"
  and lower_node :: "yaml_span \<Rightarrow> ast_node \<Rightarrow> compile_error + decision_node"
where
  "lower_decision sp (AstDecisionLeaf l) = rmap LeafEntry (lower_leaf l)"
| "lower_decision sp (AstDecisionNode n) = rmap NodeEntry (lower_node sp n)"
| "lower_node sp (AstNode nid condition on_true on_false) =
     rbind (ok_or (missing_part ''condition'' sp) condition) (\<lambda>condition.
     rbind (ok_or (missing_part ''true_branch'' sp) on_true) (\<lambda>_.
     rbind (ok_or (missing_part ''false_branch'' sp) on_false) (\<lambda>_.
     rbind (lower_condition (spanned_value condition)) (\<lambda>cond.
     rbind (case on_true of Some t \<Rightarrow> lower_decision (spanned_span t) (spanned_value t) | None \<Rightarrow> Inl (missing_part ''true_branch'' sp)) (\<lambda>t.
     rbind (case on_false of Some f \<Rightarrow> lower_decision (spanned_span f) (spanned_value f) | None \<Rightarrow> Inl (missing_part ''false_branch'' sp)) (\<lambda>f.
     Inr (DecisionNode (option_or nid ''unnamed'') cond t f None)))))))"
  by pat_completeness auto
termination
  by (relation "measure (\<lambda>x. case x of Inl (sp, d) \<Rightarrow> size d | Inr (sp, n) \<Rightarrow> size n)")
     (auto intro: trans_less_add1 trans_less_add2 less_SucI spanned_value_size)

definition lower_source :: "ast_source \<Rightarrow> document_ref" where
  "lower_source s =
     \<lparr>doc_document_id = ast_document_id s, doc_article = ast_article s,
      doc_section = ast_section s, doc_paragraphs = ast_paragraphs s, doc_pages = ast_pages s,
      doc_url = None\<rparr>"

definition bad_date :: "string \<Rightarrow> yaml_span \<Rightarrow> compile_error" where
  "bad_date s sp = error_at (''invalid ISO date `'' @ s @ ''` (want YYYY-MM-DD)'') sp"

definition parse_date :: "string \<Rightarrow> yaml_span \<Rightarrow> compile_error + jurisdiction_date" where
  "parse_date s sp =
     (let parts = split_on CHR ''-'' (trim s) in
      rbind (ensure (length parts = 3) (bad_date s sp)) (\<lambda>_.
      rbind (ok_or (bad_date s sp) (parse_i16 (parts ! 0))) (\<lambda>y.
      rbind (ok_or (bad_date s sp) (parse_u8 (parts ! 1))) (\<lambda>m.
      rbind (ok_or (bad_date s sp) (parse_u8 (parts ! 2))) (\<lambda>d.
      let date = \<lparr>year = y, month = m, day = d\<rparr> in
      rbind (ensure (is_structurally_valid date) (bad_date s sp)) (\<lambda>_.
      Inr date))))))"

definition lower_window :: "ast_rule \<Rightarrow> compile_error + effective_window option" where
  "lower_window ast =
     opt_mapR (\<lambda>s.
       rbind (parse_date s (ast_span ast)) (\<lambda>from_date.
       rbind (opt_mapR (\<lambda>t. parse_date t (ast_span ast)) (ast_effective_to ast)) (\<lambda>to_date.
       Inr \<lparr>effective_from = from_date, effective_to = to_date, jurisdiction_time_zone = None,
         effective_time_policy = None\<rparr>)))
     (ast_effective_from ast)"

definition lower_rule :: "ast_rule \<Rightarrow> compile_error + rule_ir" where
  "lower_rule ast =
     rbind (opt_mapR (\<lambda>g. lower_group (spanned_value g)) (ast_applies_if ast)) (\<lambda>applies.
     rbind (lower_decision (spanned_span (ast_decision_tree ast))
         (spanned_value (ast_decision_tree ast))) (\<lambda>tree.
     rbind (mapR lower_obligation (ast_obligations ast)) (\<lambda>obligations.
     rbind (lower_window ast) (\<lambda>window.
     Inr \<lparr>rule_id = spanned_value (ast_rule_id ast),
       rule_version = option_or (ast_version ast) ''1.0'',
       rule_description = ast_description ast,
       rule_tags = (if ast_tags ast = [] then None else Some (ast_tags ast)),
       applies_if = applies,
       decision_tree = tree,
       rule_obligations = obligations,
       rule_source = lower_source (spanned_value (ast_rule_source ast)),
       interpretation_notes = ast_interpretation_notes ast,
       rule_effective_window = window,
       rule_provenance = ProvCandidate None\<rparr>))))"

definition compile_rules :: "yaml_lib \<Rightarrow> string \<Rightarrow> compile_error + rule_ir list" where
  "compile_rules Y source = rbind (parse_rules Y source) (mapR lower_rule)"

end
