(* ===== verification/Compiler.thy ===== *)
theory Compiler
  imports Lowering Semantic
begin

text \<open>
  What the compiler accepts and what it produces. \<open>authorable\<close> describes the rules that can
  come out of lowering, \<open>render_rule\<close> writes such a rule as a YAML node tree. Shown: a rule is
  the result of compiling some node tree exactly when it is authorable, and compiling the
  rendered tree gives the rule back; decimal literals are read exactly.
\<close>

definition compile_to_semantic :: "yaml_lib \<Rightarrow> string \<Rightarrow> compile_error + semantic_rule list" where
  "compile_to_semantic Y source = rmap (map from_rule) (compile_rules Y source)"

section \<open>Authorable rules\<close>

fun plain_value :: "scalar_value \<Rightarrow> bool" where
  "plain_value (ScalarDecimal m s) = (\<bar>m\<bar> < 2 ^ 127 \<and> 0 \<le> s \<and> s \<le> 127)"
| "plain_value (ScalarList vs) = list_all plain_value vs"
| "plain_value _ = True"

fun plain_group :: "condition_group \<Rightarrow> bool"
  and plain_item :: "condition_or_group \<Rightarrow> bool"
where
  "plain_group (ConditionGroupSpec as ns) =
     (case as of
        Some items \<Rightarrow> ns = None \<and> list_all plain_item items
      | None \<Rightarrow> (case ns of Some items \<Rightarrow> list_all plain_item items | None \<Rightarrow> False))"
| "plain_item (CondItem c) = plain_value (cond_value c)"
| "plain_item (GroupItem g) = plain_group g"

definition plain_obligation :: "obligation_spec \<Rightarrow> bool" where
  "plain_obligation ob = (obl_source_span ob = None)"

definition plain_leaf :: "decision_leaf \<Rightarrow> bool" where
  "plain_leaf l =
     (leaf_source_span l = None \<and> leaf_obligations l \<noteq> Some []
      \<and> (case leaf_obligations l of None \<Rightarrow> True | Some obs \<Rightarrow> list_all plain_obligation obs))"

fun plain_tree :: "decision_entry \<Rightarrow> bool"
  and plain_node :: "decision_node \<Rightarrow> bool"
where
  "plain_tree (LeafEntry l) = plain_leaf l"
| "plain_tree (NodeEntry n) = plain_node n"
| "plain_node (DecisionNode i c t f sp) =
     (plain_value (cond_value c) \<and> plain_tree t \<and> plain_tree f \<and> sp = None)"

definition plain_date :: "jurisdiction_date \<Rightarrow> bool" where
  "plain_date d = (is_structurally_valid d \<and> year d < 2 ^ 15)"

definition plain_window :: "effective_window \<Rightarrow> bool" where
  "plain_window w =
     (plain_date (effective_from w)
      \<and> (case effective_to w of None \<Rightarrow> True | Some d \<Rightarrow> plain_date d)
      \<and> jurisdiction_time_zone w = None \<and> effective_time_policy w = None)"

definition authorable :: "rule_ir \<Rightarrow> bool" where
  "authorable r =
     (rule_provenance r = ProvCandidate None \<and> rule_tags r \<noteq> Some []
      \<and> doc_url (rule_source r) = None
      \<and> (case applies_if r of None \<Rightarrow> True | Some g \<Rightarrow> plain_group g)
      \<and> plain_tree (decision_tree r) \<and> list_all plain_obligation (rule_obligations r)
      \<and> (case rule_effective_window r of None \<Rightarrow> True | Some w \<Rightarrow> plain_window w))"

section \<open>Rendering\<close>

definition no_span :: marked_span where
  "no_span = \<lparr>marked_start = None, marked_end = None\<rparr>"

definition quoted_node :: "string \<Rightarrow> yaml_node" where
  "quoted_node s = ScalarNode \<lparr>scalar_text = s, may_coerce = False, scalar_span = no_span\<rparr>"

definition plain_scalar :: "string \<Rightarrow> yaml_node" where
  "plain_scalar s = ScalarNode \<lparr>scalar_text = s, may_coerce = True, scalar_span = no_span\<rparr>"

definition sequence_of :: "yaml_node list \<Rightarrow> yaml_node" where
  "sequence_of ns = SequenceNode (Sequence no_span ns)"

definition mapping_of :: "(string \<times> yaml_node option) list \<Rightarrow> mapping_node" where
  "mapping_of es = Mapping_Node no_span (List.map_filter (\<lambda>(k, n). map_option (Pair k) n) es)"

definition render_decimal :: "int \<Rightarrow> int \<Rightarrow> string" where
  "render_decimal m s =
     (let ds = nat_digits \<bar>m\<bar>; n = nat s; ds = replicate (n + 1 - length ds) CHR ''0'' @ ds;
          p = length ds - n
      in (if m < 0 then ''-'' else []) @ take p ds @ (if n = 0 then [] else ''.'' @ drop p ds))"

fun render_value :: "scalar_value \<Rightarrow> yaml_node" where
  "render_value (ScalarStr s) = quoted_node s"
| "render_value (ScalarBool b) = plain_scalar (if b then ''true'' else ''false'')"
| "render_value (ScalarDecimal m s) = plain_scalar (render_decimal m s)"
| "render_value (ScalarList vs) = sequence_of (map render_value vs)"

definition opt_text :: "string option \<Rightarrow> yaml_node option" where
  "opt_text = map_option quoted_node"

definition render_condition :: "condition \<Rightarrow> mapping_node" where
  "render_condition c = mapping_of
     [(''field'', Some (quoted_node (cond_field c))),
      (''operator'', Some (quoted_node (op_token (cond_operator c)))),
      (''value'', Some (render_value (cond_value c))),
      (''description'', opt_text (cond_description c))]"

fun render_group :: "condition_group \<Rightarrow> mapping_node"
  and render_item :: "condition_or_group \<Rightarrow> yaml_node"
where
  "render_group (ConditionGroupSpec as ns) = mapping_of
     [(''all'', map_option (\<lambda>is. sequence_of (map render_item is)) as),
      (''any'', map_option (\<lambda>is. sequence_of (map render_item is)) ns)]"
| "render_item (CondItem c) = MappingNode (render_condition c)"
| "render_item (GroupItem g) = MappingNode (render_group g)"

definition render_obligation :: "obligation_spec \<Rightarrow> yaml_node" where
  "render_obligation ob = MappingNode (mapping_of
     [(''id'', Some (quoted_node (obl_id ob))),
      (''description'', opt_text (obl_description ob)),
      (''deadline'', opt_text (obl_deadline ob))])"

definition render_leaf :: "decision_leaf \<Rightarrow> mapping_node" where
  "render_leaf l = mapping_of
     [(''result'', Some (quoted_node (leaf_result l))),
      (''obligations'', map_option (\<lambda>obs. sequence_of (map render_obligation obs)) (leaf_obligations l)),
      (''notes'', opt_text (leaf_notes l))]"

fun render_tree :: "decision_entry \<Rightarrow> mapping_node"
  and render_node :: "decision_node \<Rightarrow> mapping_node"
where
  "render_tree (LeafEntry l) = render_leaf l"
| "render_tree (NodeEntry n) = render_node n"
| "render_node (DecisionNode i c t f sp) = mapping_of
     [(''node_id'', Some (quoted_node i)),
      (''condition'', Some (MappingNode (render_condition c))),
      (''true_branch'', Some (MappingNode (render_tree t))),
      (''false_branch'', Some (MappingNode (render_tree f)))]"

definition render_source :: "document_ref \<Rightarrow> mapping_node" where
  "render_source d = mapping_of
     [(''document_id'', Some (quoted_node (doc_document_id d))),
      (''article'', opt_text (doc_article d)),
      (''section'', opt_text (doc_section d)),
      (''paragraphs'', Some (sequence_of (map quoted_node (doc_paragraphs d)))),
      (''pages'', Some (sequence_of (map (\<lambda>w. plain_scalar (int_digits (uint w))) (doc_pages d))))]"

definition render_date :: "jurisdiction_date \<Rightarrow> string" where
  "render_date d =
     int_digits (year d) @ ''-'' @ int_digits (int (month d)) @ ''-'' @ int_digits (int (day d))"

definition render_rule :: "rule_ir \<Rightarrow> mapping_node" where
  "render_rule r = mapping_of
     [(''rule_id'', Some (quoted_node (rule_id r))),
      (''version'', Some (quoted_node (rule_version r))),
      (''description'', opt_text (rule_description r)),
      (''tags'', map_option (\<lambda>ts. sequence_of (map quoted_node ts)) (rule_tags r)),
      (''effective_from'', map_option (\<lambda>w. quoted_node (render_date (effective_from w)))
         (rule_effective_window r)),
      (''effective_to'', map_option (\<lambda>d. quoted_node (render_date d))
         (Option.bind (rule_effective_window r) effective_to)),
      (''applies_if'', map_option (\<lambda>g. MappingNode (render_group g)) (applies_if r)),
      (''decision_tree'', Some (MappingNode (render_tree (decision_tree r)))),
      (''obligations'', Some (sequence_of (map render_obligation (rule_obligations r)))),
      (''source'', Some (MappingNode (render_source (rule_source r)))),
      (''interpretation_notes'', opt_text (interpretation_notes r))]"

definition compile_node :: "yaml_lib \<Rightarrow> yaml_node \<Rightarrow> compile_error + rule_ir list" where
  "compile_node Y docm = rbind (parse_root_node Y docm) (mapR lower_rule)"

text \<open>What marked-yaml documents of \<open>as_bool\<close>: the two literals, and no number is one.\<close>

definition yaml_bools :: "yaml_lib \<Rightarrow> bool" where
  "yaml_bools Y =
     (\<forall>n. may_coerce n \<longrightarrow>
        (scalar_text n = ''true'' \<longrightarrow> as_bool Y n = Some True)
        \<and> (scalar_text n = ''false'' \<longrightarrow> as_bool Y n = Some False)
        \<and> (list_all (\<lambda>c. is_digit c \<or> c = CHR ''-'' \<or> c = CHR ''.'') (scalar_text n)
            \<longrightarrow> as_bool Y n = None))"

section \<open>Decimal literals\<close>

lemma digits_value_zeros: "digits_value (replicate n CHR ''0'' @ ds) = digits_value ds"
  by (simp add: digits_value_append)

lemma zero_is_digit [simp]: "is_digit CHR ''0''"
  by (simp add: is_digit_def)

lemma parse_decimal_literal:
  assumes "list_all is_digit xs" "list_all is_digit ys" "xs \<noteq> []"
  shows "parse_decimal ((if neg then ''-'' else []) @ xs @ (if ys = [] then [] else ''.'' @ ys))
    = (if digits_value (xs @ ys) < 2 ^ 127 \<and> length ys \<le> 127
       then Some (ScalarDecimal (if neg then - digits_value (xs @ ys) else digits_value (xs @ ys))
         (int (length ys)))
       else None)"
proof -
  let ?body = "xs @ (if ys = [] then [] else ''.'' @ ys)"
  let ?t = "(if neg then ''-'' else []) @ ?body"
  obtain c cs where xs: "xs = c # cs" and c: "is_digit c" using assms(1,3) by (cases xs) auto
  have "list_all ascii_graphic xs" "list_all ascii_graphic ys"
    using assms(1,2) by (auto simp: list_all_iff digit_graphic)
  then have trim: "trim ?t = ?t" by (intro trim_graphic) auto
  have sign: "(case strip_prefix CHR ''-'' ?t of Some rest \<Rightarrow> (True, rest)
      | None \<Rightarrow> (False, option_or (strip_prefix CHR ''+'' ?t) ?t)) = (neg, ?body)"
    using xs c by (cases neg) (auto simp: strip_prefix_def option_or_def)
  have point: "CHR ''.'' \<notin> set xs" using assms(1) by (rule digits_not_member) simp
  have parts: "option_or (split_once CHR ''.'' ?body) (?body, []) = (xs, ys)"
    using split_once_append[OF point, of ys] split_once_plain[OF point]
    by (auto simp: option_or_def)
  have "list_all is_digit (xs @ ys)" using assms by simp
  then have "0 \<le> digits_value (xs @ ys)" and
    "parse_i128 (xs @ ys)
      = (if digits_value (xs @ ys) < 2 ^ 127 then Some (digits_value (xs @ ys)) else None)"
    using assms(3) digits_value_nonneg[of "xs @ ys"]
    by (auto simp: parse_i128_def parse_int_digits)
  moreover have "?t \<noteq> []" using assms(3) by simp
  ultimately show ?thesis
    unfolding parse_decimal_def Let_def trim sign prod.case parts using assms by simp
qed

lemma parse_render_decimal:
  assumes "plain_value (ScalarDecimal m s)"
  shows "parse_decimal (render_decimal m s) = Some (ScalarDecimal m s)"
proof -
  define n where "n = nat s"
  define ds where "ds = replicate (n + 1 - length (nat_digits \<bar>m\<bar>)) CHR ''0'' @ nat_digits \<bar>m\<bar>"
  define p where "p = length ds - n"
  have digits: "list_all is_digit ds" by (simp add: ds_def nat_digits_digits list_all_iff[of _ "replicate _ _"])
  have len: "n < length ds" by (simp add: ds_def)
  have val: "digits_value ds = \<bar>m\<bar>" by (simp add: ds_def digits_value_zeros)
  have td: "take p ds @ drop p ds = ds" by simp
  have "parse_decimal ((if m < 0 then ''-'' else []) @ take p ds
      @ (if drop p ds = [] then [] else ''.'' @ drop p ds))
    = Some (ScalarDecimal (if m < 0 then - digits_value (take p ds @ drop p ds)
        else digits_value (take p ds @ drop p ds)) (int (length (drop p ds))))"
    using digits len assms val
    by (subst parse_decimal_literal)
       (auto simp: p_def n_def list_all_iff dest: in_set_takeD in_set_dropD)
  moreover have "length (drop p ds) = n" using len by (simp add: p_def)
  moreover from this have "drop p ds = [] \<longleftrightarrow> n = 0" by (metis length_0_conv)
  moreover have "(if m < 0 then - \<bar>m\<bar> else \<bar>m\<bar>) = m" by simp
  moreover have "int n = s" using assms by (simp add: n_def)
  moreover have "render_decimal m s = (if m < 0 then ''-'' else []) @ take p ds
      @ (if n = 0 then [] else ''.'' @ drop p ds)"
    by (simp add: render_decimal_def Let_def n_def ds_def p_def)
  ultimately show ?thesis using td val by simp
qed

lemma parse_i128_digits:
  assumes "list_all is_digit s" and "parse_i128 s = Some a"
  shows "0 \<le> a \<and> a < 2 ^ 127"
proof -
  have "s \<noteq> []" using assms(2) by (auto simp: parse_i128_def parse_int_def)
  with assms have "a = digits_value s" "a \<le> 2 ^ 127 - 1"
    by (auto simp: parse_i128_def parse_int_digits split: if_splits)
  with digits_value_nonneg[OF assms(1)] show ?thesis by simp
qed

lemma parse_decimal_plain: "parse_decimal t = Some v \<Longrightarrow> plain_value v"
  by (auto simp: parse_decimal_def Let_def split: if_splits option.splits prod.splits
      dest!: parse_i128_digits[rotated])

section \<open>Reading back rendered parts\<close>

definition or_else :: "'a option \<Rightarrow> 'a option \<Rightarrow> 'a option" where
  "or_else x y = (case x of Some a \<Rightarrow> Some a | None \<Rightarrow> y)"

lemma or_else_simps [simp]:
  "or_else None y = y" "or_else (Some a) y = Some a" "or_else x None = x"
  by (simp_all add: or_else_def split: option.splits)

lemma get_node_mapping_of [simp]:
  "get_node (mapping_of []) k = None"
  "get_node (mapping_of ((k', n) # es)) k =
     (if k' = k then or_else n (get_node (mapping_of es) k) else get_node (mapping_of es) k)"
  by (auto simp: or_else_def get_node_def mapping_of_def List.map_filter_def split: option.splits)

lemma render_node_simps [simp]:
  "as_scalar (quoted_node s) = Some \<lparr>scalar_text = s, may_coerce = False, scalar_span = no_span\<rparr>"
  "as_scalar (plain_scalar s) = Some \<lparr>scalar_text = s, may_coerce = True, scalar_span = no_span\<rparr>"
  "as_scalar (sequence_of ns) = None" "as_sequence (sequence_of ns) = Some (Sequence no_span ns)"
  "as_sequence (quoted_node s) = None" "as_sequence (plain_scalar s) = None"
  "as_mapping (sequence_of ns) = None" "as_mapping (quoted_node s) = None"
  by (simp_all add: quoted_node_def plain_scalar_def sequence_of_def)

lemma opt_text_simps [simp]:
  "Option.bind (opt_text x) as_scalar
     = map_option (\<lambda>s. \<lparr>scalar_text = s, may_coerce = False, scalar_span = no_span\<rparr>) x"
  by (cases x) (simp_all add: opt_text_def)

lemmas lookups = get_scalar_def get_sequence_def get_mapping_def opt_scalar_def req_scalar_def

lemma mapR_map_arg: "mapR f (map g xs) = mapR (\<lambda>x. f (g x)) xs"
  by (induction xs) auto

lemma mapR_roundtrip:
  assumes "\<And>x. x \<in> set xs \<Longrightarrow> \<exists>a. f (g x) = Inr a \<and> h a = Inr x"
  shows "\<exists>as. mapR f (map g xs) = Inr as \<and> mapR h as = Inr xs"
  using assms
proof (induction xs)
  case (Cons x xs)
  then obtain a as where "f (g x) = Inr a" "h a = Inr x"
      "mapR f (map g xs) = Inr as" "mapR h as = Inr xs"
    by (meson list.set_intros)
  then show ?case by (intro exI[of _ "a # as"]) simp
qed simp

lemma render_decimal_chars:
  "list_all (\<lambda>c. is_digit c \<or> c = CHR ''-'' \<or> c = CHR ''.'') (render_decimal m s)"
proof -
  have "list_all is_digit (nat_digits \<bar>m\<bar>)" by (simp add: nat_digits_digits)
  then show ?thesis
    by (auto simp: render_decimal_def Let_def list_all_iff dest!: in_set_takeD in_set_dropD)
qed

lemma node_to_value_render:
  "yaml_bools Y \<Longrightarrow> plain_value v \<Longrightarrow> node_to_value Y (render_value v) = Inr v"
proof (induction v)
  case (ScalarBool b)
  then show ?case by (simp add: plain_scalar_def scalar_to_value_def yaml_bools_def)
next
  case (ScalarDecimal m s)
  then have "as_bool Y \<lparr>scalar_text = render_decimal m s, may_coerce = True, scalar_span = no_span\<rparr> = None"
    using render_decimal_chars[of m s] by (simp add: yaml_bools_def)
  then show ?case
    using parse_render_decimal[OF ScalarDecimal(2)]
    by (simp add: plain_scalar_def scalar_to_value_def option_or_def)
next
  case (ScalarList vs)
  then have "mapR (node_to_value Y) (map render_value vs) = Inr vs"
    unfolding mapR_map_arg by (intro mapR_id) (auto simp: list_all_iff)
  then show ?case by (simp add: sequence_of_def)
qed (simp add: quoted_node_def scalar_to_value_def)

lemma parse_value_render:
  assumes "yaml_bools Y" "plain_value v" "get_node m key = Some (render_value v)"
  shows "parse_value Y m key ctx = Inr v"
  using node_to_value_render[OF assms(1,2)] assms(3)
  by (cases v) (auto simp: parse_value_def lookups quoted_node_def plain_scalar_def sequence_of_def)

lemma operator_of_token: "operator_from_str (op_token opr) = Some opr"
  by (cases opr) (simp_all add: operator_from_str_def)

lemma parse_render_condition:
  assumes "yaml_bools Y" "plain_value (cond_value c)"
  shows "\<exists>a. parse_condition Y (render_condition c) = Inr a \<and> lower_condition a = Inr c"
proof -
  have "parse_value Y (render_condition c) ''value'' ctx = Inr (cond_value c)" for ctx
    using assms by (intro parse_value_render) (simp_all add: render_condition_def)
  then show ?thesis
    by (simp add: parse_condition_def Let_def)
       (simp add: render_condition_def lookups lower_condition_def lower_operator_def
         operator_of_token ok_or_def option.map_comp comp_def option.map_ident)
qed

definition parse_group_item :: "yaml_lib \<Rightarrow> yaml_node \<Rightarrow> compile_error + ast_group_item spanned" where
  "parse_group_item Y el =
     (case as_mapping el of
        None \<Rightarrow> Inl (error_at ''each `all`/`any` entry must be a mapping''
          (from_marked (node_span el)))
      | Some item_map \<Rightarrow>
          rmap (\<lambda>item. Spanned item (from_marked (map_span item_map)))
            (if get_scalar item_map ''field'' \<noteq> None
             then rmap AstItemCondition (parse_condition Y item_map)
             else rmap AstItemGroup (parse_group Y item_map)))"

lemmas parse_group_unfold = parse_group.simps[folded parse_group_item_def]

lemma render_condition_field: "get_scalar (render_condition c) ''field'' \<noteq> None"
  by (simp add: render_condition_def lookups)

lemma render_group_field: "get_scalar (render_group g) ''field'' = None"
  by (cases g) (simp add: lookups)

lemma parse_render_group:
  assumes "yaml_bools Y"
  shows "plain_group g \<Longrightarrow> \<exists>a. parse_group Y (render_group g) = Inr a \<and> lower_group a = Inr g"
    and "plain_item i \<Longrightarrow> \<exists>a. parse_group_item Y (render_item i) = Inr a
      \<and> lower_group_item (spanned_value a) = Inr i"
proof (induction g and i rule: plain_group_plain_item.induct)
  case (1 as ns)
  have items: "\<exists>a. parse_group_item Y (render_item i) = Inr a
      \<and> lower_group_item (spanned_value a) = Inr i"
    if "as = Some is \<or> as = None \<and> ns = Some is" "i \<in> set is" for i "is"
    using 1 that by (auto simp: list_all_iff)
  show ?case
  proof (cases as)
    case (Some "is")
    with items obtain bs where "mapR (parse_group_item Y) (map render_item is) = Inr bs"
        "mapR (\<lambda>it. lower_group_item (spanned_value it)) bs = Inr is"
      using mapR_roundtrip[of "is" "parse_group_item Y" render_item
          "\<lambda>it. lower_group_item (spanned_value it)"] by blast
    with Some 1(3) show ?thesis by (simp add: parse_group_unfold lookups)
  next
    case None
    with 1(3) obtain "is" where ns: "ns = Some is" by (cases ns) auto
    with items None obtain bs where "mapR (parse_group_item Y) (map render_item is) = Inr bs"
        "mapR (\<lambda>it. lower_group_item (spanned_value it)) bs = Inr is"
      using mapR_roundtrip[of "is" "parse_group_item Y" render_item
          "\<lambda>it. lower_group_item (spanned_value it)"] by blast
    with None ns show ?thesis by (simp add: parse_group_unfold lookups)
  qed
next
  case (2 c)
  with parse_render_condition[OF assms] obtain a
    where "parse_condition Y (render_condition c) = Inr a" "lower_condition a = Inr c" by auto
  then show ?case using render_condition_field[of c] by (simp add: parse_group_item_def)
next
  case (3 g)
  then show ?case using render_group_field[of g] by (auto simp: parse_group_item_def)
qed

lemma parse_render_obligations:
  assumes "list_all plain_obligation obs"
  shows "\<exists>as. parse_obligations (Sequence no_span (map render_obligation obs)) = Inr as
    \<and> mapR lower_obligation as = Inr obs"
  unfolding parse_obligations_def sequence_node.sel
  by (rule mapR_roundtrip)
     (use assms in \<open>auto simp: list_all_iff plain_obligation_def render_obligation_def lookups
       lower_obligation_def option.map_comp comp_def option.map_ident\<close>)

lemma parse_render_leaf:
  assumes "plain_leaf l"
  shows "\<exists>a. parse_leaf (render_leaf l) = Inr a \<and> lower_leaf a = Inr l"
proof (cases "leaf_obligations l")
  case None
  with assms show ?thesis
    by (simp add: parse_leaf_def Let_def render_leaf_def lookups lower_leaf_def plain_leaf_def
      option.map_comp comp_def option.map_ident)
next
  case (Some obs)
  with assms obtain as where
      "parse_obligations (Sequence no_span (map render_obligation obs)) = Inr as"
      "mapR lower_obligation as = Inr obs" "obs \<noteq> []"
    using parse_render_obligations[of obs] by (auto simp: plain_leaf_def)
  with assms Some show ?thesis
    by (simp add: parse_leaf_def Let_def render_leaf_def lookups lower_leaf_def plain_leaf_def
      option.map_comp comp_def option.map_ident)
qed

lemma render_leaf_result: "get_scalar (render_leaf l) ''result'' \<noteq> None"
  by (simp add: render_leaf_def lookups)

lemma render_node_result: "get_scalar (render_node n) ''result'' = None"
  by (cases n) (simp add: lookups)

lemma as_mapping_simps [simp]: "as_scalar (MappingNode m) = None" "as_sequence (MappingNode m) = None"
  by simp_all

lemma parse_render_tree:
  assumes "yaml_bools Y"
  shows "plain_tree e \<Longrightarrow> \<exists>a. parse_decision Y (render_tree e) = Inr a \<and> (\<forall>sp. lower_decision sp a = Inr e)"
    and "plain_node n \<Longrightarrow> \<exists>a. parse_node Y (render_node n) = Inr a \<and> (\<forall>sp. lower_node sp a = Inr n)"
proof (induction e and n rule: plain_tree_plain_node.induct)
  case (1 l)
  with parse_render_leaf[of l] render_leaf_result[of l] show ?case
    by (auto simp: parse_decision.simps)
next
  case (2 n)
  then obtain a where "parse_node Y (render_node n) = Inr a" "\<And>sp. lower_node sp a = Inr n" by auto
  with render_node_result[of n] show ?case by (simp add: parse_decision.simps[of Y "render_node n"])
next
  case (3 i c t f s)
  obtain b where b: "parse_condition Y (render_condition c) = Inr b" "lower_condition b = Inr c"
    using parse_render_condition[OF assms] 3(3) by auto
  obtain x y where "parse_decision Y (render_tree t) = Inr x" "parse_decision Y (render_tree f) = Inr y"
    and "\<And>sp. lower_decision sp x = Inr t" "\<And>sp. lower_decision sp y = Inr f"
    using 3 by auto
  with b 3(3) show ?case
    by (simp add: parse_node.simps parse_branch.simps parse_node_condition_def lookups ok_or_def option_or_def)
qed

lemma parse_render_source:
  assumes "doc_url d = None"
  shows "\<exists>a. parse_source (render_source d) = Inr a \<and> lower_source a = d"
proof -
  have "list_all ascii_graphic (int_digits (uint w))" for w :: "32 word"
    by (auto simp: int_digits_def list_all_iff digit_graphic
        dest: nat_digits_digits[unfolded list_all_iff, rule_format, rotated])
  then have "parse_u32 (trim (int_digits (uint w))) = Some w" for w :: "32 word"
    by (simp add: trim_graphic parse_u32_print)
  then have "parse_pages (Sequence no_span (map (\<lambda>w. plain_scalar (int_digits (uint w))) ws)) = Inr ws" for ws
    unfolding parse_pages_def sequence_node.sel mapR_map_arg by (intro mapR_id) (simp add: ok_or_def)
  moreover have "scalar_items (Sequence no_span (map quoted_node ss)) = ss" for ss
    by (induction ss) (simp_all add: scalar_items_def List.map_filter_def)
  ultimately show ?thesis
    using assms
    by (simp add: parse_source_def render_source_def lookups lower_source_def ok_or_def
      option.map_comp comp_def option.map_ident)
qed

lemma parse_render_date:
  assumes "plain_date d"
  shows "parse_date (render_date d) sp = Inr d"
proof -
  have bounds: "0 \<le> year d" "year d < 2 ^ 15" "month d < 256" "day d < 256" "is_structurally_valid d"
    using assms by (auto simp: plain_date_def is_structurally_valid_def MIN_YEAR_def)
  then have digits: "list_all is_digit (int_digits (year d))" "list_all is_digit (int_digits (int (month d)))"
      "list_all is_digit (int_digits (int (day d)))"
    by (simp_all add: int_digits_def nat_digits_digits)
  then have "list_all ascii_graphic (render_date d)"
    by (auto simp: render_date_def list_all_iff digit_graphic)
  moreover have "CHR ''-'' \<notin> set (int_digits (year d))" "CHR ''-'' \<notin> set (int_digits (int (month d)))"
      "CHR ''-'' \<notin> set (int_digits (int (day d)))"
    using digits by (auto dest: digits_not_member[of _ "CHR ''-''"])
  ultimately have "split_on CHR ''-'' (trim (render_date d))
      = [int_digits (year d), int_digits (int (month d)), int_digits (int (day d))]"
    by (simp add: trim_graphic) (simp add: render_date_def split_on_append split_on_plain)
  then show ?thesis
    using bounds by (cases d) (simp add: parse_date_def Let_def ok_or_def parse_i16_print parse_u8_print)
qed

lemma scalar_items_quoted: "scalar_items (Sequence no_span (map quoted_node ss)) = ss"
  by (induction ss) (simp_all add: scalar_items_def List.map_filter_def)

lemma render_rule_entries:
  "get_scalar (render_rule r) ''rule_id''
     = Some \<lparr>scalar_text = rule_id r, may_coerce = False, scalar_span = no_span\<rparr>"
  "opt_scalar (render_rule r) ''version'' = Some (rule_version r)"
  "opt_scalar (render_rule r) ''description'' = rule_description r"
  "get_sequence (render_rule r) ''tags''
     = map_option (\<lambda>ts. Sequence no_span (map quoted_node ts)) (rule_tags r)"
  "opt_scalar (render_rule r) ''effective_from''
     = map_option (\<lambda>w. render_date (effective_from w)) (rule_effective_window r)"
  "opt_scalar (render_rule r) ''effective_to''
     = map_option render_date (Option.bind (rule_effective_window r) effective_to)"
  "get_mapping (render_rule r) ''applies_if'' = map_option render_group (applies_if r)"
  "get_mapping (render_rule r) ''decision_tree'' = Some (render_tree (decision_tree r))"
  "get_sequence (render_rule r) ''obligations''
     = Some (Sequence no_span (map render_obligation (rule_obligations r)))"
  "get_mapping (render_rule r) ''source'' = Some (render_source (rule_source r))"
  "opt_scalar (render_rule r) ''interpretation_notes'' = interpretation_notes r"
  by (auto simp: render_rule_def lookups option.map_comp comp_def option.map_ident
      bind_map_option split: option.splits bind_split)

lemma lower_rendered_window:
  assumes "case rule_effective_window r of None \<Rightarrow> True | Some w \<Rightarrow> plain_window w"
    and "ast_effective_from a = map_option (\<lambda>w. render_date (effective_from w)) (rule_effective_window r)"
    and "ast_effective_to a = map_option render_date (Option.bind (rule_effective_window r) effective_to)"
  shows "lower_window a = Inr (rule_effective_window r)"
proof (cases "rule_effective_window r")
  case (Some w)
  with assms show ?thesis
    by (cases "effective_to w"; cases w) (auto simp: lower_window_def plain_window_def parse_render_date)
qed (use assms in \<open>simp add: lower_window_def\<close>)

lemma parse_rendered_scope:
  assumes "yaml_bools Y" "case x of None \<Rightarrow> True | Some g \<Rightarrow> plain_group g"
  shows "\<exists>a. opt_mapR (\<lambda>g. rmap (\<lambda>group. Spanned group (from_marked (map_span g))) (parse_group Y g))
      (map_option render_group x) = Inr a \<and> opt_mapR (\<lambda>g. lower_group (spanned_value g)) a = Inr x"
proof (cases x)
  case (Some g)
  with parse_render_group(1)[OF assms(1), of g] assms(2) obtain a
    where "parse_group Y (render_group g) = Inr a" "lower_group a = Inr g" by auto
  with Some show ?thesis by simp
qed simp

lemma parse_render_rule:
  assumes "yaml_bools Y" "authorable r"
  shows "\<exists>a. parse_rule Y (render_rule r) = Inr a \<and> lower_rule a = Inr r"
proof -
  note ok = assms(2)[unfolded authorable_def]
  obtain tr where tr: "parse_decision Y (render_tree (decision_tree r)) = Inr tr"
      "\<And>sp. lower_decision sp tr = Inr (decision_tree r)"
    using parse_render_tree(1)[OF assms(1)] ok by blast
  obtain src where src: "parse_source (render_source (rule_source r)) = Inr src"
      "lower_source src = rule_source r"
    using parse_render_source ok by blast
  obtain obs where obs: "parse_obligations (Sequence no_span (map render_obligation (rule_obligations r))) = Inr obs"
      "mapR lower_obligation obs = Inr (rule_obligations r)"
    using parse_render_obligations ok by blast
  obtain ap where ap: "opt_mapR (\<lambda>g. rmap (\<lambda>group. Spanned group (from_marked (map_span g))) (parse_group Y g))
      (map_option render_group (applies_if r)) = Inr ap"
      "opt_mapR (\<lambda>g. lower_group (spanned_value g)) ap = Inr (applies_if r)"
    using parse_rendered_scope[OF assms(1)] ok by blast
  obtain a where a: "parse_rule Y (render_rule r) = Inr a"
    and fields: "spanned_value (ast_rule_id a) = rule_id r" "ast_version a = Some (rule_version r)"
      "ast_description a = rule_description r" "ast_tags a = option_or (rule_tags r) []"
      "ast_effective_from a = map_option (\<lambda>w. render_date (effective_from w)) (rule_effective_window r)"
      "ast_effective_to a = map_option render_date (Option.bind (rule_effective_window r) effective_to)"
      "ast_applies_if a = ap" "spanned_value (ast_decision_tree a) = tr" "ast_obligations a = obs"
      "spanned_value (ast_rule_source a) = src" "ast_interpretation_notes a = interpretation_notes r"
    by (simp add: parse_rule_def Let_def req_scalar_def render_rule_entries tr src obs ap ok_or_def
        option_or_def scalar_items_quoted split: option.splits)
  have tags: "(if ast_tags a = [] then None else Some (ast_tags a)) = rule_tags r"
    using ok fields(4) by (auto simp: option_or_def split: option.splits)
  have window: "lower_window a = Inr (rule_effective_window r)"
    using lower_rendered_window[OF _ fields(5,6)] ok by blast
  have "lower_rule a = Inr r"
    using ok by (cases r) (simp add: lower_rule_def fields(1-3,5-11) tags window tr src obs ap option_or_def)
  with a show ?thesis by blast
qed

section \<open>What compilation can produce\<close>

text \<open>The parser only builds conditions whose operand came from a scalar or a list.\<close>

lemma list_all_mapR: "mapR f xs = Inr ys \<Longrightarrow> (\<And>x y. x \<in> set xs \<Longrightarrow> f x = Inr y \<Longrightarrow> P y) \<Longrightarrow> list_all P ys"
  unfolding list_all_iff by (rule mapR_all)

lemma scalar_to_value_plain: "plain_value (scalar_to_value Y n)"
  by (auto simp: scalar_to_value_def option_or_def parse_decimal_plain split: option.splits)

lemma node_to_value_plain:
  "node_to_value Y n = Inr v \<Longrightarrow> plain_value v"
  "sequence_to_value Y q = Inr v \<Longrightarrow> plain_value v"
  by (induction Y n and Y q arbitrary: v and v rule: node_to_value_sequence_to_value.induct)
     (auto simp: scalar_to_value_plain results(3) rmap_eq_Inr elim!: list_all_mapR)

lemma parse_condition_plain: "parse_condition Y m = Inr c \<Longrightarrow> plain_value (ast_value c)"
  by (auto simp: parse_condition_def Let_def rbind_eq_Inr parse_value_def scalar_to_value_plain rmap_eq_Inr
      split: option.splits elim!: list_all_mapR dest: node_to_value_plain(1))

fun ast_plain_group :: "ast_group \<Rightarrow> bool"
  and ast_plain_item :: "ast_group_item \<Rightarrow> bool"
where
  "ast_plain_group (AstGroup kind items) = list_all (\<lambda>it. ast_plain_item (spanned_value it)) items"
| "ast_plain_item (AstItemCondition c) = plain_value (ast_value c)"
| "ast_plain_item (AstItemGroup g) = ast_plain_group g"

lemma parse_group_plain: "parse_group Y m = Inr a \<Longrightarrow> ast_plain_group a"
proof (induction Y m arbitrary: a rule: parse_group.induct)
  case (1 Y m)
  from 1(2) obtain kind q items where
      sel: "(case get_sequence m ''all'' of
          Some q \<Rightarrow> Inr (GroupAll, q)
        | None \<Rightarrow> (case get_sequence m ''any'' of
            Some q \<Rightarrow> Inr (GroupAny, q)
          | None \<Rightarrow> Inl (error_at ''a condition group must have an `all` or `any` list''
              (from_marked (map_span m))))) = Inr (kind, q)"
    and items: "mapR (parse_group_item Y) (seq_nodes q) = Inr items" and a: "a = AstGroup kind items"
    by (subst (asm) parse_group_unfold) (auto simp: rbind_eq_Inr rmap_eq_Inr)
  have "ast_plain_item (spanned_value it)"
    if el: "el \<in> set (seq_nodes q)" and it: "parse_group_item Y el = Inr it" for el it
    using it 1(1)[OF sel refl el]
    by (auto simp: parse_group_item_def rmap_eq_Inr parse_condition_plain split: option.splits if_splits)
  then show ?case unfolding a ast_plain_group.simps by (rule list_all_mapR[OF items])
qed

lemma lower_group_plain:
  "lower_group a = Inr g \<Longrightarrow> ast_plain_group a \<Longrightarrow> plain_group g"
  "lower_group_item i = Inr it \<Longrightarrow> ast_plain_item i \<Longrightarrow> plain_item it"
proof (induction a and i arbitrary: g and it rule: lower_group_lower_group_item.induct)
  case (1 kind items)
  from 1(2) obtain xs where xs: "mapR (\<lambda>it. lower_group_item (spanned_value it)) items = Inr xs"
    and g: "g = (case kind of GroupAll \<Rightarrow> ConditionGroupSpec (Some xs) None
      | GroupAny \<Rightarrow> ConditionGroupSpec None (Some xs))"
    by (auto simp: rbind_eq_Inr)
  have "list_all plain_item xs"
    using 1(1,3) by (intro list_all_mapR[OF xs]) (auto simp: list_all_iff)
  then show ?case unfolding g by (cases kind) auto
qed (auto simp: rmap_eq_Inr lower_condition_def rbind_eq_Inr)

text \<open>Conditions of a parsed decision tree, where the node has them.\<close>

lemma spanned_value_bounds [termination_simp]:
  "size (spanned_value z) < Suc (Suc (size_spanned size z + k))"
  "size (spanned_value z) < Suc (Suc (k + size_spanned size z))"
  using spanned_value_size[of z] by simp_all

fun ast_plain_decision :: "ast_decision \<Rightarrow> bool"
  and ast_plain_node :: "ast_node \<Rightarrow> bool"
where
  "ast_plain_decision (AstDecisionLeaf l) = True"
| "ast_plain_decision (AstDecisionNode n) = ast_plain_node n"
| "ast_plain_node (AstNode i c t f) =
     (pred_option (\<lambda>c. plain_value (ast_value (spanned_value c))) c
      \<and> pred_option (\<lambda>d. ast_plain_decision (spanned_value d)) t
      \<and> pred_option (\<lambda>d. ast_plain_decision (spanned_value d)) f)"

lemma parse_node_condition_plain:
  "parse_node_condition Y m = Inr c \<Longrightarrow> pred_option (\<lambda>c. plain_value (ast_value (spanned_value c))) c"
  by (auto simp: parse_node_condition_def opt_mapR_Inr rmap_eq_Inr parse_condition_plain
      elim!: option.rel_cases)

lemma parse_decision_plain:
  "parse_decision Y m = Inr d \<Longrightarrow> ast_plain_decision d"
  "parse_node Y m = Inr n \<Longrightarrow> ast_plain_node n"
  "parse_branch Y m key = Inr b \<Longrightarrow> pred_option (\<lambda>d. ast_plain_decision (spanned_value d)) b"
proof (induction Y m and Y m and Y m key arbitrary: d and n and b
    rule: parse_decision_parse_node_parse_branch.induct)
  case (1 Y m)
  from 1(2)[unfolded parse_decision.simps[of Y m]] 1(1) show ?case
    by (auto simp: rmap_eq_Inr split: if_splits)
next
  case (2 Y m)
  from 2(3)[unfolded parse_node.simps[of Y m]] 2(1,2) show ?case
    by (auto simp: rbind_eq_Inr parse_node_condition_plain)
next
  case (3 Y m key)
  from 3(2)[unfolded parse_branch.simps[of Y m key]] 3(1) show ?case
    by (auto simp: opt_mapR_Inr rmap_eq_Inr elim!: option.rel_cases)
qed

lemma ok_or_Inr [results]: "ok_or e x = Inr y \<longleftrightarrow> x = Some y"
  by (auto simp: ok_or_def split: option.splits)

lemma lower_leaf_plain: "lower_leaf l = Inr l' \<Longrightarrow> plain_leaf l'"
  by (auto simp: lower_leaf_def rbind_eq_Inr plain_leaf_def lower_obligation_def plain_obligation_def
      split: if_splits elim!: list_all_mapR)

lemma lower_decision_plain:
  "lower_decision sp d = Inr e \<Longrightarrow> ast_plain_decision d \<Longrightarrow> plain_tree e"
  "lower_node sp n = Inr m \<Longrightarrow> ast_plain_node n \<Longrightarrow> plain_node m"
  by (induction sp d and sp n arbitrary: e and m rule: lower_decision_lower_node.induct)
     (auto simp: rmap_eq_Inr rbind_eq_Inr ok_or_Inr lower_leaf_plain lower_condition_def)

lemma parse_date_plain: "parse_date s sp = Inr d \<Longrightarrow> plain_date d"
  by (auto simp: parse_date_def Let_def rbind_eq_Inr ok_or_Inr ensure_eq plain_date_def parse_i16_def
      dest!: parse_int_range)

lemma lower_window_plain:
  "lower_window a = Inr w \<Longrightarrow> (case w of None \<Rightarrow> True | Some v \<Rightarrow> plain_window v)"
  by (auto simp: lower_window_def opt_mapR_Inr rbind_eq_Inr plain_window_def parse_date_plain
      elim!: option.rel_cases split: option.splits)

lemma compiled_authorable:
  assumes "parse_rule Y m = Inr a" and "lower_rule a = Inr r"
  shows "authorable r"
proof -
  have tree: "ast_plain_decision (spanned_value (ast_decision_tree a))"
    and scope: "pred_option (\<lambda>g. ast_plain_group (spanned_value g)) (ast_applies_if a)"
    using assms(1)
    by (auto simp: parse_rule_def Let_def rbind_eq_Inr opt_mapR_Inr rmap_eq_Inr
        dest: parse_decision_plain(1) parse_group_plain elim!: option.rel_cases)
  from assms(2) obtain ap t obs w where
      ap: "opt_mapR (\<lambda>g. lower_group (spanned_value g)) (ast_applies_if a) = Inr ap"
    and t: "lower_decision (spanned_span (ast_decision_tree a)) (spanned_value (ast_decision_tree a)) = Inr t"
    and obs: "mapR lower_obligation (ast_obligations a) = Inr obs"
    and w: "lower_window a = Inr w"
    and r: "applies_if r = ap" "decision_tree r = t" "rule_obligations r = obs"
      "rule_effective_window r = w" "rule_provenance r = ProvCandidate None"
      "rule_tags r = (if ast_tags a = [] then None else Some (ast_tags a))"
      "rule_source r = lower_source (spanned_value (ast_rule_source a))"
    by (auto simp: lower_rule_def rbind_eq_Inr)
  have "case ap of None \<Rightarrow> True | Some g \<Rightarrow> plain_group g"
    using ap scope by (cases "ast_applies_if a") (auto simp: rmap_eq_Inr lower_group_plain)
  moreover have "list_all plain_obligation obs"
    by (rule list_all_mapR[OF obs]) (auto simp: lower_obligation_def plain_obligation_def)
  ultimately show ?thesis
    unfolding authorable_def r using lower_decision_plain(1)[OF t tree] lower_window_plain[OF w]
    by (simp add: lower_source_def)
qed

lemma compile_node_authorable:
  assumes "compile_node Y docm = Inr rs"
  shows "list_all authorable rs"
proof -
  from assms obtain as where as: "parse_root_node Y docm = Inr as" and rs: "mapR lower_rule as = Inr rs"
    by (auto simp: compile_node_def rbind_eq_Inr)
  have "\<exists>m. parse_rule Y m = Inr a" if "a \<in> set as" for a
  proof (cases docm)
    case (MappingNode m)
    with as that show ?thesis by (auto simp: parse_root_node_def rmap_eq_Inr)
  next
    case (SequenceNode q)
    with as have "list_all (\<lambda>a. \<exists>m. parse_rule Y m = Inr a) as"
      by (auto simp: parse_root_node_def rbind_eq_Inr elim!: list_all_mapR)
    with that show ?thesis by (simp add: list_all_iff)
  qed (use as in \<open>simp add: parse_root_node_def\<close>)
  then show ?thesis using compiled_authorable by (intro list_all_mapR[OF rs]) blast
qed

definition render_document :: "rule_ir list \<Rightarrow> yaml_node" where
  "render_document rs = sequence_of (map (\<lambda>r. MappingNode (render_rule r)) rs)"

lemma compile_render_document:
  assumes "yaml_bools Y" and "list_all authorable rs"
  shows "compile_node Y (render_document rs) = Inr rs"
proof -
  obtain as where "mapR (parse_rule Y) (map render_rule rs) = Inr as" "mapR lower_rule as = Inr rs"
    using mapR_roundtrip[of rs "parse_rule Y" render_rule lower_rule] parse_render_rule[OF assms(1)] assms(2)
    by (auto simp: list_all_iff)
  then show ?thesis
    by (simp add: compile_node_def render_document_def sequence_of_def parse_root_node_def mapR_map_arg
      ok_or_def)
qed

text \<open>An instance of the YAML library, whose booleans are the two literals.\<close>

definition sample_yaml :: yaml_lib where
  "sample_yaml =
     \<lparr>parse_yaml = (\<lambda>_. Inl (OtherLoadError ''unread'')),
      parse_yaml_sequence = (\<lambda>_. Inl (OtherLoadError ''unread'')),
      load_error_text = (\<lambda>_. ''unread''),
      as_bool = (\<lambda>n. if \<not> may_coerce n then None else if scalar_text n = ''true'' then Some True
        else if scalar_text n = ''false'' then Some False else None)\<rparr>"

lemma sample_yaml_bools: "yaml_bools sample_yaml"
  by (auto simp: yaml_bools_def sample_yaml_def is_digit_def)

text \<open>An expiry date without a start date does not survive lowering.\<close>

lemma lower_window_needs_start: "ast_effective_from a = None \<Longrightarrow> lower_window a = Inr None"
  by (simp add: lower_window_def)

section \<open>Properties\<close>

text \<open>C25: the compiler's image. A list of rules is the result of compiling some node tree
  exactly when every rule is authorable: candidate provenance, no source spans or invented
  zone, one of \<open>all\<close> and \<open>any\<close> per group, decimals within \<open>i128\<close> at scale 0 to 127, dates with
  plausible fields. For such rules the rendered document is one that compiles to them.\<close>

theorem compile_exactly_authorable:
  assumes "yaml_bools Y"
  shows "((\<exists>docm. compile_node Y docm = Inr rs) \<longleftrightarrow> list_all authorable rs)
    \<and> (list_all authorable rs \<longleftrightarrow> compile_node Y (render_document rs) = Inr rs)"
  using compile_node_authorable compile_render_document[OF assms] by blast

lemma compile_exactly_authorable_witness:
  "compile_node sample_yaml (render_document [sample_rule_with [''a'', ''b''] 90 2])
     = Inr [sample_rule_with [''a'', ''b''] 90 2]"
proof -
  have "list_all authorable [sample_rule_with [''a'', ''b''] 90 2]"
    by code_simp
  then show ?thesis using compile_exactly_authorable[OF sample_yaml_bools] by blast
qed

text \<open>a decimal literal is read exactly or not at all: sign, digits and fraction digits give
  the mantissa and the scale, and the literal stays text when the mantissa exceeds \<open>i128\<close> (also
  for the most negative \<open>i128\<close>, whose magnitude does not fit) or there are over 127
  fraction digits.\<close>

theorem decimal_literal_read:
  assumes "list_all is_digit xs" "list_all is_digit ys" "xs \<noteq> []"
  shows "parse_decimal ((if neg then ''-'' else []) @ xs @ (if ys = [] then [] else ''.'' @ ys))
    = (if digits_value (xs @ ys) < 2 ^ 127 \<and> length ys \<le> 127
       then Some (ScalarDecimal (if neg then - digits_value (xs @ ys) else digits_value (xs @ ys))
         (int (length ys)))
       else None)"
  using parse_decimal_literal[OF assms] .

lemma decimal_literal_read_witness:
  "parse_decimal ''-170141183460469231731687303715884105728'' = None
   \<and> parse_decimal ''-17014118346046923173168730371588410572.7''
       = Some (ScalarDecimal (- (2 ^ 127 - 1)) 1)"
  using decimal_literal_read[of "''170141183460469231731687303715884105728''" "[]" True]
    decimal_literal_read[of "''17014118346046923173168730371588410572''" "''7''" True]
  by (simp add: is_digit_def digits_value_def digit_value_def)

end
