(* ===== verification/Structural.thy ===== *)
theory Structural
  imports Semantic Rust_Text Exec "HOL-Library.AList"
begin

text \<open>
  The verification tiers of the compiler (\<open>src/crates/ke-compiler/src/verify\<close>): T0 required
  structure, T1 source coverage and interpretation notes, T5 authoring lint per rule, and T4,
  the pairwise conflicts over the semantic forms. Shown: what blocks, what a reported
  contradiction means, which overlaps cannot go unreported.
\<close>

section \<open>Findings and conflicts\<close>

datatype tier = T0 | T1 | T5

record finding =
  finding_tier :: tier
  finding_rule_id :: string
  finding_code :: string
  finding_message :: string
  finding_blocking :: bool

datatype conflict_class = ContradictoryOutcome | OverlappingScope | TemporalOverlap | DuplicateRule

datatype severity = SevBlocking | SevReviewRequired | SevAdvisory

fun default_severity :: "conflict_class \<Rightarrow> severity" where
  "default_severity ContradictoryOutcome = SevBlocking"
| "default_severity OverlappingScope = SevReviewRequired"
| "default_severity TemporalOverlap = SevReviewRequired"
| "default_severity DuplicateRule = SevAdvisory"

fun suggested_resolution :: "conflict_class \<Rightarrow> string" where
  "suggested_resolution ContradictoryOutcome = ''reconcile outcomes or add precedence''"
| "suggested_resolution OverlappingScope = ''encode precedence between the rules''"
| "suggested_resolution TemporalOverlap = ''narrow the effective windows or add precedence''"
| "suggested_resolution DuplicateRule = ''merge the rules or differentiate their scope''"

record conflict =
  conflict_class :: conflict_class
  conflict_severity :: severity
  conflict_rule_ids :: "string list"
  conflict_documents :: "string list"
  conflict_detail :: string
  conflict_resolution :: string

definition dedup :: "string list \<Rightarrow> string list" where
  "dedup v = remdups_adj (sort v)"

definition between :: "conflict_class \<Rightarrow> semantic_rule \<Rightarrow> semantic_rule \<Rightarrow> string \<Rightarrow> conflict" where
  "between class a b detail =
     \<lparr>conflict_class = class,
      conflict_severity = default_severity class,
      conflict_rule_ids = [sem_rule_id a, sem_rule_id b],
      conflict_documents = dedup [sem_source_document a, sem_source_document b],
      conflict_detail = detail,
      conflict_resolution = suggested_resolution class\<rparr>"

section \<open>T0: required structure\<close>

definition blocking_finding :: "tier \<Rightarrow> rule_ir \<Rightarrow> string \<times> string \<Rightarrow> finding" where
  "blocking_finding t r = (\<lambda>(code, message).
     \<lparr>finding_tier = t, finding_rule_id = rule_id r, finding_code = code,
      finding_message = message, finding_blocking = True\<rparr>)"

definition blank :: "string \<Rightarrow> bool" where
  "blank s = (trim s = [])"

definition group_is_empty :: "condition_group \<Rightarrow> bool" where
  "group_is_empty g =
     ((case group_all g of None \<Rightarrow> True | Some v \<Rightarrow> v = [])
      \<and> (case group_any g of None \<Rightarrow> True | Some v \<Rightarrow> v = []))"

fun check_leaves :: "decision_entry \<Rightarrow> (string \<times> string) list"
  and check_node_leaves :: "decision_node \<Rightarrow> (string \<times> string) list"
where
  "check_leaves (LeafEntry l) =
     (if blank (leaf_result l)
      then [(''T0_empty_result'', ''a decision leaf has an empty result'')] else [])"
| "check_leaves (NodeEntry n) = check_node_leaves n"
| "check_node_leaves (DecisionNode i c t f sp) = check_leaves t @ check_leaves f"

definition t0_check :: "rule_ir \<Rightarrow> finding list" where
  "t0_check r = map (blocking_finding T0 r)
     ((if blank (rule_id r) then [(''T0_empty_rule_id'', ''rule_id is empty'')] else [])
      @ (if blank (rule_version r) then [(''T0_empty_version'', ''rule_version is empty'')] else [])
      @ (if blank (doc_document_id (rule_source r))
         then [(''T0_empty_source_document'', ''source.document_id is empty'')] else [])
      @ (case applies_if r of
           Some g \<Rightarrow> if group_is_empty g
             then [(''T0_empty_applies_if'', ''applies_if has an empty all/any group'')] else []
         | None \<Rightarrow> [])
      @ check_leaves (decision_tree r))"

section \<open>T1: coverage and interpretation notes\<close>

fun fully_self_covered :: "decision_entry \<Rightarrow> bool"
  and node_self_covered :: "decision_node \<Rightarrow> bool"
where
  "fully_self_covered (LeafEntry l) = (leaf_source_span l \<noteq> None)"
| "fully_self_covered (NodeEntry n) = node_self_covered n"
| "node_self_covered (DecisionNode i c t f sp) =
     (sp \<noteq> None \<and> fully_self_covered t \<and> fully_self_covered f)"

definition is_threshold :: "condition \<Rightarrow> bool" where
  "is_threshold c =
     (case cond_operator c of
        OpGt \<Rightarrow> is_ScalarDecimal (cond_value c)
      | OpLt \<Rightarrow> is_ScalarDecimal (cond_value c)
      | OpGte \<Rightarrow> is_ScalarDecimal (cond_value c)
      | OpLte \<Rightarrow> is_ScalarDecimal (cond_value c)
      | OpNotIn \<Rightarrow> True
      | _ \<Rightarrow> False)"

fun group_has_threshold :: "condition_group \<Rightarrow> bool"
  and item_has_threshold :: "condition_or_group \<Rightarrow> bool"
where
  "group_has_threshold (ConditionGroupSpec as ns) =
     ((case as of None \<Rightarrow> False | Some items \<Rightarrow> list_ex item_has_threshold items)
      \<or> (case ns of None \<Rightarrow> False | Some items \<Rightarrow> list_ex item_has_threshold items))"
| "item_has_threshold (CondItem c) = is_threshold c"
| "item_has_threshold (GroupItem g) = group_has_threshold g"

fun tree_has_threshold :: "decision_entry \<Rightarrow> bool"
  and node_has_threshold :: "decision_node \<Rightarrow> bool"
where
  "tree_has_threshold (LeafEntry l) = False"
| "tree_has_threshold (NodeEntry n) = node_has_threshold n"
| "node_has_threshold (DecisionNode i c t f sp) =
     (is_threshold c \<or> tree_has_threshold t \<or> tree_has_threshold f)"

definition rule_has_threshold_or_exception :: "rule_ir \<Rightarrow> bool" where
  "rule_has_threshold_or_exception r =
     ((case applies_if r of None \<Rightarrow> False | Some g \<Rightarrow> group_has_threshold g)
      \<or> tree_has_threshold (decision_tree r))"

definition t1_check :: "rule_ir \<Rightarrow> finding list" where
  "t1_check r =
     (let rule_has_source = \<not> blank (doc_document_id (rule_source r)) in
      map (blocking_finding T1 r)
        ((if \<not> rule_has_source \<and> \<not> fully_self_covered (decision_tree r)
          then [(''T1_source_coverage'',
            ''decision nodes lack legal source coverage and the rule has no `source:`'')] else [])
         @ (if interpretation_notes r = None \<and> rule_has_threshold_or_exception r
            then [(''T1_missing_interpretation_notes'',
              ''rule uses a numeric threshold or `not_in` exception but has no interpretation_notes'')]
            else [])))"

section \<open>T5: authoring lint\<close>

fun has_unannotated_terminal_leaf :: "decision_entry \<Rightarrow> bool"
  and node_has_unannotated_leaf :: "decision_node \<Rightarrow> bool"
where
  "has_unannotated_terminal_leaf (LeafEntry l) =
     ((case leaf_obligations l of None \<Rightarrow> True | Some obs \<Rightarrow> obs = [])
      \<and> (case leaf_notes l of None \<Rightarrow> True | Some n \<Rightarrow> blank n))"
| "has_unannotated_terminal_leaf (NodeEntry n) = node_has_unannotated_leaf n"
| "node_has_unannotated_leaf (DecisionNode i c t f sp) =
     (has_unannotated_terminal_leaf t \<or> has_unannotated_terminal_leaf f)"

definition advisory :: "rule_ir \<Rightarrow> string \<Rightarrow> string \<Rightarrow> finding" where
  "advisory r code message =
     \<lparr>finding_tier = T5, finding_rule_id = rule_id r, finding_code = code,
      finding_message = message, finding_blocking = False\<rparr>"

definition t5_check :: "rule_ir \<Rightarrow> finding list" where
  "t5_check r =
     (if (case rule_description r of None \<Rightarrow> True | Some d \<Rightarrow> blank d)
      then [advisory r ''T5-missing-description''
        ''rule has no human-readable `description` (advisory)''] else [])
     @ (if (case rule_tags r of None \<Rightarrow> True | Some t \<Rightarrow> t = [])
        then [advisory r ''T5-missing-tags'' ''rule carries no classification `tags` (advisory)'']
        else [])
     @ (if has_unannotated_terminal_leaf (decision_tree r)
        then [advisory r ''T5-unannotated-leaf''
          ''a decision leaf has neither obligations nor explanatory `notes` (advisory)''] else [])
     @ (if \<not> blank (rule_id r) \<and> length (split_whitespace (rule_id r)) > 1
        then [blocking_finding T5 r (''T5-rule-id-whitespace'',
          ''rule_id contains internal whitespace; use a single dotted/snake identifier'')] else [])"

section \<open>T4: scope premises\<close>

type_synonym premise_map = "(string \<times> string set) list"

fun stringify :: "scalar_value \<Rightarrow> string" where
  "stringify (ScalarStr s) = s"
| "stringify (ScalarBool b) = (if b then ''true'' else ''false'')"
| "stringify (ScalarDecimal m s) = int_digits m @ '':'' @ int_digits s"
| "stringify (ScalarList items) = ''['' @ join_with '','' (map stringify items) @ '']''"

definition add_premise :: "condition_or_group \<Rightarrow> premise_map \<Rightarrow> premise_map" where
  "add_premise item fs =
     (case item of
        CondItem c \<Rightarrow>
          (case cond_operator c of
             OpEq \<Rightarrow> AList.map_default (cond_field c) {stringify (cond_value c)}
               (insert (stringify (cond_value c))) fs
           | OpIn \<Rightarrow> (case cond_value c of
               ScalarList vs \<Rightarrow> AList.map_default (cond_field c) (set (map stringify vs))
                 (\<lambda>s. s \<union> set (map stringify vs)) fs
             | _ \<Rightarrow> fs)
           | _ \<Rightarrow> fs)
      | GroupItem g \<Rightarrow> fs)"

definition extract_premises :: "rule_ir \<Rightarrow> premise_map" where
  "extract_premises r =
     (case applies_if r of
        None \<Rightarrow> []
      | Some g \<Rightarrow> (case group_all g of None \<Rightarrow> [] | Some items \<Rightarrow> fold add_premise items []))"

fun overlap_loop :: "bool \<Rightarrow> premise_map \<Rightarrow> premise_map \<Rightarrow> bool" where
  "overlap_loop shared [] b = shared"
| "overlap_loop shared ((field, av) # rest) b =
     (case map_of b field of
        None \<Rightarrow> overlap_loop shared rest b
      | Some bv \<Rightarrow> if av \<inter> bv = {} then False else overlap_loop True rest b)"

definition scopes_overlap :: "premise_map \<Rightarrow> premise_map \<Rightarrow> bool" where
  "scopes_overlap a b = overlap_loop False a b"

section \<open>T4: contradictions\<close>

definition paths_consistent :: "sem_path \<Rightarrow> sem_path \<Rightarrow> bool" where
  "paths_consistent pa pb =
     (let assign = foldl (\<lambda>m br. m(branch_cond br \<mapsto> branch_taken br)) Map.empty (path_branches pa)
      in list_all (\<lambda>br. case assign (branch_cond br) of
           None \<Rightarrow> True
         | Some taken \<Rightarrow> taken = branch_taken br) (path_branches pb))"

definition branch_fields :: "sem_path \<Rightarrow> string set" where
  "branch_fields p = set (map (\<lambda>br. sem_field (branch_cond br)) (path_branches p))"

definition shared_scenario :: "sem_path \<Rightarrow> sem_path \<Rightarrow> bool" where
  "shared_scenario pa pb =
     (if branch_fields pa \<inter> branch_fields pb \<noteq> {} then True
      else branch_fields pa = {} \<and> branch_fields pb = {})"

definition contradiction :: "semantic_rule \<Rightarrow> semantic_rule \<Rightarrow> (string \<times> string) option" where
  "contradiction a b =
     map_option (\<lambda>(pa, pb). (outcome_result (path_outcome pa), outcome_result (path_outcome pb)))
       (find (\<lambda>(pa, pb).
            outcome_result (path_outcome pa) \<noteq> outcome_result (path_outcome pb)
            \<and> paths_consistent pa pb \<and> shared_scenario pa pb)
          (List.product (sem_decision_paths a) (sem_decision_paths b)))"

section \<open>T4: windows and the pairwise scan\<close>

definition open_end :: date_triple where
  "open_end = (2 ^ 15 - 1, 12, 31)"

definition windows_overlap :: "sem_window option \<Rightarrow> sem_window option \<Rightarrow> bool" where
  "windows_overlap a b =
     (case (a, b) of
        (Some a, Some b) \<Rightarrow>
          (let a_end = (case win_to a of Some t \<Rightarrow> t | None \<Rightarrow> open_end);
               b_end = (case win_to b of Some t \<Rightarrow> t | None \<Rightarrow> open_end)
           in win_from a < b_end \<and> win_from b < a_end)
      | _ \<Rightarrow> False)"

definition pair_conflicts :: "semantic_rule \<times> premise_map \<Rightarrow> semantic_rule \<times> premise_map \<Rightarrow> conflict list" where
  "pair_conflicts = (\<lambda>(a, pa) (b, pb).
     (if sem_applicability a = sem_applicability b \<and> sem_decision_paths a = sem_decision_paths b
      then [between DuplicateRule a b
        ''rules are semantically identical but differ in id/metadata'']
      else if scopes_overlap pa pb
      then (case contradiction a b of
              Some (ra, rb) \<Rightarrow> between ContradictoryOutcome a b
                (''a shared scenario yields `'' @ ra @ ''` vs `'' @ rb @ ''`'')
            | None \<Rightarrow> between OverlappingScope a b
                ''applicability scopes overlap with no encoded precedence'')
        # (if windows_overlap (sem_effective a) (sem_effective b)
           then [between TemporalOverlap a b ''overlapping effective windows over an overlapping scope'']
           else [])
      else []))"

definition detect_conflicts :: "rule_ir list \<Rightarrow> conflict list" where
  "detect_conflicts rules =
     (let forms = map from_rule rules; premises = map extract_premises rules; n = length rules
      in concat (map (\<lambda>i. concat (map (\<lambda>j.
           pair_conflicts (forms ! i, premises ! i) (forms ! j, premises ! j)) [Suc i..<n])) [0..<n]))"

section \<open>The report\<close>

record verification_report =
  report_findings :: "finding list"
  report_conflicts :: "conflict list"

definition has_blocking :: "verification_report \<Rightarrow> bool" where
  "has_blocking rep =
     (list_ex finding_blocking (report_findings rep)
      \<or> list_ex (\<lambda>c. conflict_severity c = SevBlocking) (report_conflicts rep))"

definition verify_rules :: "rule_ir list \<Rightarrow> verification_report" where
  "verify_rules rules =
     \<lparr>report_findings = concat (map (\<lambda>r. t0_check r @ t1_check r @ t5_check r) rules),
      report_conflicts = detect_conflicts rules\<rparr>"

section \<open>What blocks\<close>

fun tree_leaves :: "decision_entry \<Rightarrow> decision_leaf set"
  and node_leaves :: "decision_node \<Rightarrow> decision_leaf set"
where
  "tree_leaves (LeafEntry l) = {l}"
| "tree_leaves (NodeEntry n) = node_leaves n"
| "node_leaves (DecisionNode i c t f sp) = tree_leaves t \<union> tree_leaves f"

fun tree_conditions :: "decision_entry \<Rightarrow> condition set"
  and node_conditions :: "decision_node \<Rightarrow> condition set"
where
  "tree_conditions (LeafEntry l) = {}"
| "tree_conditions (NodeEntry n) = node_conditions n"
| "node_conditions (DecisionNode i c t f sp) = insert c (tree_conditions t \<union> tree_conditions f)"

fun group_conditions :: "condition_group \<Rightarrow> condition set"
  and item_conditions :: "condition_or_group \<Rightarrow> condition set"
where
  "group_conditions (ConditionGroupSpec as ns) =
     (\<Union>i\<in>set (case as of None \<Rightarrow> [] | Some items \<Rightarrow> items). item_conditions i)
     \<union> (\<Union>i\<in>set (case ns of None \<Rightarrow> [] | Some items \<Rightarrow> items). item_conditions i)"
| "item_conditions (CondItem c) = {c}"
| "item_conditions (GroupItem g) = group_conditions g"

definition rule_conditions :: "rule_ir \<Rightarrow> condition set" where
  "rule_conditions r =
     (case applies_if r of None \<Rightarrow> {} | Some g \<Rightarrow> group_conditions g) \<union> tree_conditions (decision_tree r)"

text \<open>The faults of a single rule that block, without the order of the tiers.\<close>

definition faulty :: "rule_ir \<Rightarrow> bool" where
  "faulty r =
     (blank (rule_id r) \<or> blank (rule_version r) \<or> blank (doc_document_id (rule_source r))
      \<or> (\<exists>g. applies_if r = Some g \<and> group_is_empty g)
      \<or> (\<exists>l\<in>tree_leaves (decision_tree r). blank (leaf_result l))
      \<or> interpretation_notes r = None \<and> (\<exists>c\<in>rule_conditions r. is_threshold c)
      \<or> length (split_whitespace (rule_id r)) > 1)"

definition same_logic :: "rule_ir \<Rightarrow> rule_ir \<Rightarrow> bool" where
  "same_logic r r' =
     (sem_applicability (from_rule r) = sem_applicability (from_rule r')
      \<and> sem_decision_paths (from_rule r) = sem_decision_paths (from_rule r'))"

definition paths_clash :: "rule_ir \<Rightarrow> rule_ir \<Rightarrow> bool" where
  "paths_clash r r' =
     (\<exists>pa\<in>set (sem_decision_paths (from_rule r)). \<exists>pb\<in>set (sem_decision_paths (from_rule r')).
        outcome_result (path_outcome pa) \<noteq> outcome_result (path_outcome pb)
        \<and> paths_consistent pa pb \<and> shared_scenario pa pb)"

lemma check_leaves_nonempty:
  "check_leaves e \<noteq> [] \<longleftrightarrow> (\<exists>l\<in>tree_leaves e. blank (leaf_result l))"
  "check_node_leaves n \<noteq> [] \<longleftrightarrow> (\<exists>l\<in>node_leaves n. blank (leaf_result l))"
  by (induction e and n rule: check_leaves_check_node_leaves.induct) auto

lemma tree_threshold:
  "tree_has_threshold e \<longleftrightarrow> (\<exists>c\<in>tree_conditions e. is_threshold c)"
  "node_has_threshold n \<longleftrightarrow> (\<exists>c\<in>node_conditions n. is_threshold c)"
  by (induction e and n rule: tree_has_threshold_node_has_threshold.induct) auto

lemma group_threshold:
  "group_has_threshold g \<longleftrightarrow> (\<exists>c\<in>group_conditions g. is_threshold c)"
  "item_has_threshold i \<longleftrightarrow> (\<exists>c\<in>item_conditions i. is_threshold c)"
  by (induction g and i rule: group_has_threshold_item_has_threshold.induct)
     (auto simp: list_ex_iff split: option.splits)

lemma rule_threshold:
  "rule_has_threshold_or_exception r \<longleftrightarrow> (\<exists>c\<in>rule_conditions r. is_threshold c)"
  by (auto simp: rule_has_threshold_or_exception_def rule_conditions_def tree_threshold group_threshold
      split: option.splits)

lemma list_ex_blocking [simp]:
  "list_ex finding_blocking (map (blocking_finding t r) fs) \<longleftrightarrow> fs \<noteq> []"
  by (cases fs) (auto simp: blocking_finding_def split: prod.splits)

lemma single_blocking [simp]:
  "finding_blocking (blocking_finding t r x)" "\<not> finding_blocking (advisory r a b)"
  by (simp_all add: blocking_finding_def advisory_def split: prod.splits)

lemma rule_findings_block:
  "list_ex finding_blocking (t0_check r @ t1_check r @ t5_check r) \<longleftrightarrow> faulty r"
proof -
  have t0: "list_ex finding_blocking (t0_check r) \<longleftrightarrow>
      blank (rule_id r) \<or> blank (rule_version r) \<or> blank (doc_document_id (rule_source r))
      \<or> (\<exists>g. applies_if r = Some g \<and> group_is_empty g)
      \<or> (\<exists>l\<in>tree_leaves (decision_tree r). blank (leaf_result l))"
    by (simp add: t0_check_def flip: check_leaves_nonempty split: option.splits)
  have t1: "list_ex finding_blocking (t1_check r) \<longleftrightarrow>
      blank (doc_document_id (rule_source r)) \<and> \<not> fully_self_covered (decision_tree r)
      \<or> interpretation_notes r = None \<and> (\<exists>c\<in>rule_conditions r. is_threshold c)"
    by (simp add: t1_check_def Let_def flip: rule_threshold)
  have t5: "list_ex finding_blocking (t5_check r) \<longleftrightarrow>
      \<not> blank (rule_id r) \<and> length (split_whitespace (rule_id r)) > 1"
    by (simp add: t5_check_def)
  show ?thesis unfolding list_ex_append t0 t1 t5 faulty_def by blast
qed

lemma contradiction_iff: "contradiction (from_rule r) (from_rule r') \<noteq> None \<longleftrightarrow> paths_clash r r'"
  by (auto simp: contradiction_def paths_clash_def find_None_iff)

lemma pairs_scan:
  "c \<in> set (concat (map (\<lambda>i. concat (map (F i) [Suc i..<n])) [0..<n]))
     \<longleftrightarrow> (\<exists>i j. i < j \<and> j < n \<and> c \<in> set (F i j))"
proof -
  have "c \<in> set (concat (map (\<lambda>i. concat (map (F i) [Suc i..<n])) [0..<n]))
      \<longleftrightarrow> (\<exists>i<n. \<exists>j. Suc i \<le> j \<and> j < n \<and> c \<in> set (F i j))"
    by (auto simp: Bex_def)
  also have "\<dots> \<longleftrightarrow> (\<exists>i j. i < j \<and> j < n \<and> c \<in> set (F i j))"
    unfolding Suc_le_eq using less_trans by blast
  finally show ?thesis .
qed

lemma detect_conflicts_member:
  "c \<in> set (detect_conflicts rules) \<longleftrightarrow>
     (\<exists>i j. i < j \<and> j < length rules
        \<and> c \<in> set (pair_conflicts (from_rule (rules ! i), extract_premises (rules ! i))
                     (from_rule (rules ! j), extract_premises (rules ! j))))"
  unfolding detect_conflicts_def Let_def pairs_scan by (intro ex_cong1 conj_cong refl) simp

lemma between_severity [simp]: "conflict_severity (between cl a b d) = default_severity cl"
  by (simp add: between_def)

lemma pair_blocking:
  "list_ex (\<lambda>c. conflict_severity c = SevBlocking)
      (pair_conflicts (from_rule r, extract_premises r) (from_rule r', extract_premises r'))
   \<longleftrightarrow> \<not> same_logic r r' \<and> scopes_overlap (extract_premises r) (extract_premises r') \<and> paths_clash r r'"
proof (cases "same_logic r r'")
  case True
  then show ?thesis by (simp add: pair_conflicts_def same_logic_def)
next
  case False
  then have logic: "\<not> (sem_applicability (from_rule r) = sem_applicability (from_rule r')
      \<and> sem_decision_paths (from_rule r) = sem_decision_paths (from_rule r'))"
    by (simp add: same_logic_def)
  show ?thesis
    unfolding pair_conflicts_def prod.case if_not_P[OF logic] contradiction_iff[symmetric]
    using False
    by (cases "contradiction (from_rule r) (from_rule r')"; cases "windows_overlap (sem_effective (from_rule r)) (sem_effective (from_rule r'))")
       (simp_all split: prod.splits)
qed

lemma from_rule_id [simp]: "sem_rule_id (from_rule r) = rule_id r"
  by (simp add: from_rule_def)

text \<open>Rules with overlapping scopes are always reported, as one class or another.\<close>

lemma pair_reported:
  assumes "scopes_overlap pa pb"
  shows "\<exists>c\<in>set (pair_conflicts (from_rule r, pa) (from_rule r', pb)).
     conflict_rule_ids c = [rule_id r, rule_id r']"
proof (cases "same_logic r r'")
  case True
  then show ?thesis by (simp add: pair_conflicts_def same_logic_def between_def)
next
  case False
  then show ?thesis using assms
    by (cases "contradiction (from_rule r) (from_rule r')")
       (auto simp: pair_conflicts_def same_logic_def between_def)
qed

section \<open>What a contradiction means\<close>

text \<open>No path of the rule tests one condition both ways.\<close>

definition tests_once :: "rule_ir \<Rightarrow> bool" where
  "tests_once r =
     (\<forall>p\<in>set (sem_decision_paths (from_rule r)). \<forall>b\<in>set (path_branches p). \<forall>b'\<in>set (path_branches p).
        branch_cond b = branch_cond b' \<longrightarrow> branch_taken b = branch_taken b')"

definition takes :: "(sem_cond \<Rightarrow> bool) \<Rightarrow> rule_ir \<Rightarrow> sem_path \<Rightarrow> bool" where
  "takes v r p = (p \<in> set (sem_decision_paths (from_rule r)) \<and> path_agrees v p)"

lemma takes_outcome:
  assumes "takes v r p"
  shows "path_outcome p = tree_outcome v (decision_tree r)"
proof -
  have "path_outcome p \<in># mset (map path_outcome (filter (path_agrees v) (sort (collect_paths (decision_tree r) []))))"
    using assms by (auto simp: takes_def from_rule_def)
  then show ?thesis unfolding sorted_paths_outcome by simp
qed

lemma some_path_taken: "\<exists>p. takes v r p"
proof -
  have "mset (map path_outcome (filter (path_agrees v) (sort (collect_paths (decision_tree r) [])))) \<noteq> {#}"
    unfolding sorted_paths_outcome by simp
  then show ?thesis by (auto simp: takes_def from_rule_def filter_empty_conv)
qed

text \<open>The map of the assignments of a path, the last one of a condition winning.\<close>

lemma assignments:
  "foldl (\<lambda>m br. m(branch_cond br \<mapsto> branch_taken br)) m bs c
     = (case find (\<lambda>br. branch_cond br = c) (rev bs) of Some br \<Rightarrow> Some (branch_taken br) | None \<Rightarrow> m c)"
  by (induction bs arbitrary: m rule: rev_induct) auto

lemma find_SomeD: "find P xs = Some x \<Longrightarrow> x \<in> set xs \<and> P x"
  by (induction xs) (auto split: if_splits)

lemma paths_consistent_iff:
  assumes "\<forall>b\<in>set (path_branches pa). \<forall>b'\<in>set (path_branches pa).
      branch_cond b = branch_cond b' \<longrightarrow> branch_taken b = branch_taken b'"
  shows "paths_consistent pa pb \<longleftrightarrow>
     (\<forall>a\<in>set (path_branches pa). \<forall>b\<in>set (path_branches pb).
        branch_cond a = branch_cond b \<longrightarrow> branch_taken a = branch_taken b)"
proof -
  let ?last = "\<lambda>c. find (\<lambda>br. branch_cond br = c) (rev (path_branches pa))"
  have "(case ?last c of None \<Rightarrow> True | Some br \<Rightarrow> branch_taken br = t)
      \<longleftrightarrow> (\<forall>a\<in>set (path_branches pa). branch_cond a = c \<longrightarrow> branch_taken a = t)" for c t
  proof (cases "?last c")
    case None
    then have "\<forall>a\<in>set (path_branches pa). branch_cond a \<noteq> c" by (simp add: find_None_iff)
    with None show ?thesis by simp
  next
    case (Some x)
    then have "x \<in> set (path_branches pa)" "branch_cond x = c" by (auto dest: find_SomeD)
    then have "(\<forall>a\<in>set (path_branches pa). branch_cond a = c \<longrightarrow> branch_taken a = t) \<longleftrightarrow> branch_taken x = t"
      using assms by blast
    with Some show ?thesis by simp
  qed
  moreover have "(case foldl (\<lambda>m br. m(branch_cond br \<mapsto> branch_taken br)) Map.empty (path_branches pa) c of
        None \<Rightarrow> True | Some taken \<Rightarrow> taken = t)
      \<longleftrightarrow> (case ?last c of None \<Rightarrow> True | Some br \<Rightarrow> branch_taken br = t)" for c t
    unfolding assignments by (cases "?last c") simp_all
  ultimately have "paths_consistent pa pb \<longleftrightarrow> (\<forall>b\<in>set (path_branches pb).
      \<forall>a\<in>set (path_branches pa). branch_cond a = branch_cond b \<longrightarrow> branch_taken a = branch_taken b)"
    unfolding paths_consistent_def Let_def list_all_iff by simp
  then show ?thesis by blast
qed

lemma agreeing_valuation:
  assumes "\<forall>b\<in>set bs. \<forall>b'\<in>set bs. branch_cond b = branch_cond b' \<longrightarrow> branch_taken b = branch_taken b'"
  shows "\<exists>v. list_all (branch_agrees v) bs"
proof
  let ?v = "\<lambda>c. \<exists>b\<in>set bs. branch_cond b = c \<and> branch_taken b"
  have "?v (branch_cond b) = branch_taken b" if "b \<in> set bs" for b
    using assms that by blast
  then show "list_all (branch_agrees ?v) bs" by (simp add: list_all_iff branch_agrees_def)
qed

lemma paths_clash_valuation:
  assumes "tests_once r" and "tests_once r'"
  shows "paths_clash r r' \<longleftrightarrow>
     (\<exists>v pa pb. takes v r pa \<and> takes v r' pb \<and> shared_scenario pa pb
        \<and> outcome_result (tree_outcome v (decision_tree r)) \<noteq> outcome_result (tree_outcome v (decision_tree r')))"
proof
  assume "paths_clash r r'"
  then obtain pa pb where p: "pa \<in> set (sem_decision_paths (from_rule r))"
      "pb \<in> set (sem_decision_paths (from_rule r'))"
      "outcome_result (path_outcome pa) \<noteq> outcome_result (path_outcome pb)"
      "paths_consistent pa pb" "shared_scenario pa pb"
    by (auto simp: paths_clash_def)
  have once: "\<forall>b\<in>set (path_branches q). \<forall>b'\<in>set (path_branches q).
      branch_cond b = branch_cond b' \<longrightarrow> branch_taken b = branch_taken b'" if "q \<in> {pa, pb}" for q
    using that p(1,2) assms unfolding tests_once_def by blast
  have cross: "\<forall>a\<in>set (path_branches pa). \<forall>b\<in>set (path_branches pb).
      branch_cond a = branch_cond b \<longrightarrow> branch_taken a = branch_taken b"
    using p(4) paths_consistent_iff[OF once] by blast
  have "\<exists>v. list_all (branch_agrees v) (path_branches pa @ path_branches pb)"
  proof (rule agreeing_valuation, intro ballI impI)
    fix b b'
    assume "b \<in> set (path_branches pa @ path_branches pb)" "b' \<in> set (path_branches pa @ path_branches pb)"
      and same: "branch_cond b = branch_cond b'"
    then consider "b \<in> set (path_branches pa)" "b' \<in> set (path_branches pa)"
      | "b \<in> set (path_branches pa)" "b' \<in> set (path_branches pb)"
      | "b \<in> set (path_branches pb)" "b' \<in> set (path_branches pa)"
      | "b \<in> set (path_branches pb)" "b' \<in> set (path_branches pb)"
      by auto
    then show "branch_taken b = branch_taken b'"
    proof cases
      case 1 then show ?thesis using once[of pa] same by blast
    next
      case 2 then show ?thesis using cross same by blast
    next
      case 3 then show ?thesis using cross same[symmetric] by (metis (no_types))
    next
      case 4 then show ?thesis using once[of pb] same by blast
    qed
  qed
  then obtain v where "takes v r pa" "takes v r' pb"
    using p by (auto simp: takes_def path_agrees_def)
  with p show "\<exists>v pa pb. takes v r pa \<and> takes v r' pb \<and> shared_scenario pa pb
      \<and> outcome_result (tree_outcome v (decision_tree r)) \<noteq> outcome_result (tree_outcome v (decision_tree r'))"
    by (metis takes_outcome)
next
  assume "\<exists>v pa pb. takes v r pa \<and> takes v r' pb \<and> shared_scenario pa pb
      \<and> outcome_result (tree_outcome v (decision_tree r)) \<noteq> outcome_result (tree_outcome v (decision_tree r'))"
  then obtain v pa pb where t: "takes v r pa" "takes v r' pb" "shared_scenario pa pb"
      "outcome_result (path_outcome pa) \<noteq> outcome_result (path_outcome pb)"
    by (metis takes_outcome)
  have once: "\<forall>b\<in>set (path_branches pa). \<forall>b'\<in>set (path_branches pa).
      branch_cond b = branch_cond b' \<longrightarrow> branch_taken b = branch_taken b'"
    using t(1) assms(1) unfolding tests_once_def takes_def by blast
  have agree: "b \<in> set (path_branches pa) \<Longrightarrow> v (branch_cond b) = branch_taken b"
    "b \<in> set (path_branches pb) \<Longrightarrow> v (branch_cond b) = branch_taken b" for b
    using t(1,2) by (simp_all add: takes_def path_agrees_def list_all_iff branch_agrees_def)
  have "paths_consistent pa pb"
    unfolding paths_consistent_iff[OF once]
  proof (intro ballI impI)
    fix a b
    assume "a \<in> set (path_branches pa)" "b \<in> set (path_branches pb)" "branch_cond a = branch_cond b"
    then show "branch_taken a = branch_taken b" using agree(1)[of a] agree(2)[of b] by simp
  qed
  with t show "paths_clash r r'" by (auto simp: paths_clash_def takes_def)
qed

section \<open>What scope premises mean\<close>

definition scope_items :: "rule_ir \<Rightarrow> condition_or_group list" where
  "scope_items r =
     (case applies_if r of
        None \<Rightarrow> []
      | Some g \<Rightarrow> (case group_all g of None \<Rightarrow> [] | Some items \<Rightarrow> items))"

text \<open>Premises written as text: \<open>==\<close> on a string, \<open>in\<close> on a list of strings.\<close>

fun text_item :: "condition_or_group \<Rightarrow> bool" where
  "text_item (CondItem c) =
     (case cond_operator c of
        OpEq \<Rightarrow> is_ScalarStr (cond_value c)
      | OpIn \<Rightarrow> (case cond_value c of ScalarList vs \<Rightarrow> list_all is_ScalarStr vs | _ \<Rightarrow> True)
      | _ \<Rightarrow> True)"
| "text_item (GroupItem g) = True"

lemma extract_premises_fold: "extract_premises r = fold add_premise (scope_items r) []"
  by (simp add: extract_premises_def scope_items_def split: option.splits)

lemma eval_eq_text: "eval_eq actual (ScalarStr t) \<Longrightarrow> python_str_fact actual = t"
  by (subst (asm) eval_eq.simps) (cases actual; simp split: option.splits)

lemma premise_value:
  assumes "text_item it" and "\<And>c. it = CondItem c \<Longrightarrow> eval_condition fs c"
    and "\<And>f s. map_of ps f = Some s \<Longrightarrow> python_str_fact (lookup fs f) \<in> s"
    and "map_of (add_premise it ps) f = Some s"
  shows "python_str_fact (lookup fs f) \<in> s"
proof (cases it)
  case (GroupItem g)
  with assms(3,4) show ?thesis by (simp add: add_premise_def)
next
  case (CondItem c)
  note holds = assms(2)[OF CondItem]
  show ?thesis
  proof (cases "cond_operator c")
    case OpEq
    with assms(1) CondItem obtain t where t: "cond_value c = ScalarStr t" by (auto simp: is_ScalarStr_def)
    with holds OpEq have "python_str_fact (lookup fs (cond_field c)) = t"
      by (simp add: eval_condition_def eval_eq_text)
    with assms(3,4) CondItem OpEq t show ?thesis
      by (auto simp: add_premise_def map_of_map_default split: if_splits option.splits)
  next
    case OpIn
    with holds obtain vs where vs: "cond_value c = ScalarList vs"
      by (cases "cond_value c") (auto simp: eval_condition_def)
    with holds OpIn obtain e where "e \<in> set vs"
        "python_str_scalar e = python_str_fact (lookup fs (cond_field c))"
      by (auto simp: eval_condition_def list_ex_iff)
    moreover have "is_ScalarStr e" using assms(1) CondItem OpIn vs \<open>e \<in> set vs\<close> by (auto simp: list_all_iff)
    ultimately have "python_str_fact (lookup fs (cond_field c)) \<in> set (map stringify vs)"
      by (auto simp: is_ScalarStr_def intro: rev_image_eqI)
    with assms(3,4) CondItem OpIn vs show ?thesis
      by (auto simp: add_premise_def map_of_map_default split: if_splits option.splits)
  qed (use assms(3,4) CondItem in \<open>auto simp: add_premise_def\<close>)
qed

lemma premise_values:
  assumes "list_all text_item items" and "\<And>c. CondItem c \<in> set items \<Longrightarrow> eval_condition fs c"
    and "\<And>f s. map_of ps f = Some s \<Longrightarrow> python_str_fact (lookup fs f) \<in> s"
    and "map_of (fold add_premise items ps) f = Some s"
  shows "python_str_fact (lookup fs f) \<in> s"
  using assms
proof (induction items arbitrary: ps)
  case (Cons it items)
  have "python_str_fact (lookup fs f) \<in> s" if "map_of (add_premise it ps) f = Some s" for f s
    using Cons.prems(1,2) by (intro premise_value[OF _ _ Cons.prems(3) that]) auto
  then show ?case using Cons.prems by (intro Cons.IH[of "add_premise it ps"]) auto
qed simp

lemma distinct_premises: "distinct (map fst ps) \<Longrightarrow> distinct (map fst (fold add_premise items ps))"
proof (induction items arbitrary: ps)
  case (Cons it items)
  have "distinct (map fst (add_premise it ps))"
    using Cons.prems
    by (auto simp: add_premise_def distinct_map_default split: condition_or_group.splits operator.splits scalar_value.splits)
  then show ?case by (simp add: Cons.IH)
qed simp

lemma overlap_loop_iff:
  "overlap_loop shared a b \<longleftrightarrow>
     (\<forall>(f, av)\<in>set a. \<forall>bv. map_of b f = Some bv \<longrightarrow> av \<inter> bv \<noteq> {})
     \<and> (shared \<or> (\<exists>f\<in>fst ` set a. map_of b f \<noteq> None))"
  by (induction shared a b rule: overlap_loop.induct) (auto split: option.splits)

lemma applies_scope_items:
  assumes "applies (applies_if r) fs" and "CondItem c \<in> set (scope_items r)"
  shows "eval_condition fs c"
proof -
  from assms(2) obtain as ns where g: "applies_if r = Some (ConditionGroupSpec (Some as) ns)"
    and c: "CondItem c \<in> set as"
    by (auto simp: scope_items_def split: option.splits) (metis condition_group.collapse)
  then have "as \<noteq> []" by auto
  then have flat: "flatten (ConditionGroupSpec (Some as) ns) = concat (map flatten_item as)"
    by (cases as) auto
  have "c \<in> set (concat (map flatten_item as))" using c by (auto intro!: bexI[of _ "CondItem c"])
  then show ?thesis
    using assms(1) g flat \<open>as \<noteq> []\<close> by (auto simp: applies_def group_mode_def list_all_iff)
qed

lemma co_applicable_overlap:
  assumes "applies (applies_if r) fs" "applies (applies_if r') fs"
    and "list_all text_item (scope_items r)" "list_all text_item (scope_items r')"
    and "map_of (extract_premises r) f \<noteq> None" "map_of (extract_premises r') f \<noteq> None"
  shows "scopes_overlap (extract_premises r) (extract_premises r')"
proof -
  have here: "python_str_fact (lookup fs g) \<in> s"
    if "map_of (extract_premises q) g = Some s" "applies (applies_if q) fs" "list_all text_item (scope_items q)"
    for q g s
    using premise_values[of "scope_items q" fs "[]"] applies_scope_items[OF that(2)] that
    by (simp add: extract_premises_fold)
  have distinct: "distinct (map fst (extract_premises q))" for q
    by (simp add: extract_premises_fold distinct_premises)
  have "av \<inter> bv \<noteq> {}"
    if "(g, av) \<in> set (extract_premises r)" "map_of (extract_premises r') g = Some bv" for g av bv
  proof -
    have "map_of (extract_premises r) g = Some av" using that(1) distinct by simp
    then show ?thesis using here[of r g av] here[of r' g bv] that(2) assms by blast
  qed
  moreover have "f \<in> fst ` set (extract_premises r)" using assms(5) by (simp add: map_of_eq_None_iff)
  ultimately show ?thesis
    unfolding scopes_overlap_def overlap_loop_iff using assms(6) by blast
qed

section \<open>Windows\<close>

definition window_end :: "effective_window \<Rightarrow> date_triple" where
  "window_end w = (case effective_to w of Some t \<Rightarrow> date_key t | None \<Rightarrow> open_end)"

definition bounded_window :: "effective_window \<Rightarrow> bool" where
  "bounded_window w = (date_key (effective_from w) < window_end w \<and> window_end w \<le> open_end)"

lemma date_key_triple: "date_triple d = date_key d"
  by (simp add: date_triple_def date_key_def)

lemma effective_at_iff:
  "effective_at (Some w) d \<longleftrightarrow> date_key (effective_from w) \<le> date_key d
     \<and> (case effective_to w of Some t \<Rightarrow> date_key d < date_key t | None \<Rightarrow> True)"
  by (auto simp: effective_at_def not_less split: option.splits)

lemma windows_overlap_common:
  assumes "rule_effective_window r = Some w" "rule_effective_window r' = Some w'"
    and "bounded_window w" "bounded_window w'"
  shows "windows_overlap (sem_effective (from_rule r)) (sem_effective (from_rule r')) \<longleftrightarrow>
     (\<exists>d. effective_at (Some w) d \<and> effective_at (Some w') d \<and> date_key d < open_end)"
proof -
  let ?f = "\<lambda>w. date_key (effective_from w)"
  have "windows_overlap (sem_effective (from_rule r)) (sem_effective (from_rule r'))
      \<longleftrightarrow> ?f w < window_end w' \<and> ?f w' < window_end w"
    using assms(1,2)
    by (simp add: windows_overlap_def from_rule_def date_key_triple window_end_def Let_def split: option.splits)
  also have "\<dots> \<longleftrightarrow> (\<exists>d. effective_at (Some w) d \<and> effective_at (Some w') d \<and> date_key d < open_end)"
  proof
    assume o: "?f w < window_end w' \<and> ?f w' < window_end w"
    define d where "d = (if ?f w \<le> ?f w' then effective_from w' else effective_from w)"
    have d: "?f w \<le> date_key d" "?f w' \<le> date_key d" "date_key d < window_end w" "date_key d < window_end w'"
      using o assms(3,4) by (auto simp: d_def bounded_window_def)
    have "effective_at (Some w) d" "effective_at (Some w') d"
      using d by (auto simp: effective_at_iff window_end_def split: option.splits)
    moreover have "date_key d < open_end" using d(3) assms(3) by (auto simp: bounded_window_def)
    ultimately show "\<exists>d. effective_at (Some w) d \<and> effective_at (Some w') d \<and> date_key d < open_end"
      by blast
  next
    assume "\<exists>d. effective_at (Some w) d \<and> effective_at (Some w') d \<and> date_key d < open_end"
    then obtain d where d: "effective_at (Some w) d" "effective_at (Some w') d" "date_key d < open_end" by blast
    then have "date_key d < window_end w" "date_key d < window_end w'" "?f w \<le> date_key d" "?f w' \<le> date_key d"
      by (auto simp: effective_at_iff window_end_def split: option.splits)
    then show "?f w < window_end w' \<and> ?f w' < window_end w" by (meson le_less_trans)
  qed
  finally show ?thesis .
qed

section \<open>Sample rules\<close>

definition gate_leaf :: "string \<Rightarrow> decision_entry" where
  "gate_leaf res = LeafEntry \<lparr>leaf_result = res, leaf_obligations = None, leaf_notes = None,
     leaf_source_span = None\<rparr>"

definition gate_condition :: "string \<Rightarrow> operator \<Rightarrow> scalar_value \<Rightarrow> condition" where
  "gate_condition f opr v = \<lparr>cond_field = f, cond_operator = opr, cond_value = v, cond_description = None\<rparr>"

definition gate_tree :: "condition \<Rightarrow> string \<Rightarrow> string \<Rightarrow> decision_entry" where
  "gate_tree c yes no = NodeEntry (DecisionNode ''n'' c (gate_leaf yes) (gate_leaf no) None)"

definition gate_rule :: "string \<Rightarrow> condition \<Rightarrow> decision_entry \<Rightarrow> effective_window option \<Rightarrow> rule_ir" where
  "gate_rule rid c tree w =
     \<lparr>rule_id = rid, rule_version = ''1'', rule_description = None, rule_tags = None,
      applies_if = Some (ConditionGroupSpec (Some [CondItem c]) None), decision_tree = tree,
      rule_obligations = [],
      rule_source = \<lparr>doc_document_id = ''doc'', doc_article = None, doc_section = None,
        doc_paragraphs = [], doc_pages = [], doc_url = None\<rparr>,
      interpretation_notes = None, rule_effective_window = w, rule_provenance = ProvCandidate None\<rparr>"

definition dated_window :: "int \<Rightarrow> int option \<Rightarrow> effective_window" where
  "dated_window y z =
     \<lparr>effective_from = \<lparr>year = y, month = 1, day = 1\<rparr>,
      effective_to = map_option (\<lambda>z. \<lparr>year = z, month = 1, day = 1\<rparr>) z,
      jurisdiction_time_zone = None, effective_time_policy = None\<rparr>"

abbreviation "juris v \<equiv> gate_condition ''juris'' OpEq (ScalarStr v)"
abbreviation "risky \<equiv> gate_condition ''risk'' OpExists (ScalarBool True)"
abbreviation "rule_one \<equiv> gate_rule ''one'' (juris ''UK'') (gate_tree risky ''deny'' ''allow'') (Some (dated_window 2020 (Some 2024)))"
abbreviation "rule_two \<equiv> gate_rule ''two'' (juris ''UK'') (gate_tree risky ''refer'' ''allow'') (Some (dated_window 2023 None))"

text \<open>Numbers are premises by their spelling: two rules scoped to \<open>amount == 1\<close> and
  \<open>amount == 1.0\<close> both apply to the same facts and decide them differently, and no conflict
  is reported.\<close>

lemma decimal_spelling_missed:
  fixes dec :: "int \<Rightarrow> int \<Rightarrow> condition"
  defines "dec \<equiv> \<lambda>m s. gate_condition ''amount'' OpEq (ScalarDecimal m s)"
  defines "fs \<equiv> [''amount'' \<mapsto> FactInt 1]"
  shows "detect_conflicts [gate_rule ''a'' (dec 1 0) (gate_leaf ''allow'') None,
      gate_rule ''b'' (dec 10 1) (gate_leaf ''deny'') None] = []"
    and "ev_decision (evaluate (gate_rule ''a'' (dec 1 0) (gate_leaf ''allow'') None) fs) = Some ''allow''"
    and "ev_decision (evaluate (gate_rule ''b'' (dec 10 1) (gate_leaf ''deny'') None) fs) = Some ''deny''"
  unfolding dec_def fs_def by code_simp+

section \<open>Properties\<close>

text \<open>C15: what blocks publication, independent of the order of the tiers: a rule set is blocked
  exactly when some rule lacks required structure, lacks the notes a threshold or an exception
  needs or has a malformed identifier, or when two rules with different logic have overlapping
  scopes and two consistent decision paths over a shared scenario with different results. No
  other finding and no other conflict class blocks.\<close>

theorem verify_blocks_iff:
  "has_blocking (verify_rules rules) \<longleftrightarrow>
     (\<exists>r\<in>set rules. faulty r)
     \<or> (\<exists>i j. i < j \<and> j < length rules \<and> \<not> same_logic (rules ! i) (rules ! j)
          \<and> scopes_overlap (extract_premises (rules ! i)) (extract_premises (rules ! j))
          \<and> paths_clash (rules ! i) (rules ! j))"
proof -
  have "list_ex finding_blocking (report_findings (verify_rules rules)) \<longleftrightarrow> (\<exists>r\<in>set rules. faulty r)"
    unfolding verify_rules_def verification_report.simps rule_findings_block[symmetric]
    by (induction rules) auto
  moreover have "list_ex (\<lambda>c. conflict_severity c = SevBlocking) (detect_conflicts rules) \<longleftrightarrow>
      (\<exists>i j. i < j \<and> j < length rules \<and> \<not> same_logic (rules ! i) (rules ! j)
          \<and> scopes_overlap (extract_premises (rules ! i)) (extract_premises (rules ! j))
          \<and> paths_clash (rules ! i) (rules ! j))"
    unfolding pair_blocking[symmetric] list_ex_iff Bex_def detect_conflicts_member by blast
  ultimately show ?thesis by (simp add: has_blocking_def verify_rules_def)
qed

lemma verify_blocks_iff_witness: "has_blocking (verify_rules [rule_one, rule_two])"
proof -
  have "\<not> same_logic rule_one rule_two" "scopes_overlap (extract_premises rule_one) (extract_premises rule_two)"
    "paths_clash rule_one rule_two"
    by code_simp+
  then have "\<exists>i j. i < j \<and> j < length [rule_one, rule_two] \<and> \<not> same_logic ([rule_one, rule_two] ! i) ([rule_one, rule_two] ! j)
          \<and> scopes_overlap (extract_premises ([rule_one, rule_two] ! i)) (extract_premises ([rule_one, rule_two] ! j))
          \<and> paths_clash ([rule_one, rule_two] ! i) ([rule_one, rule_two] ! j)"
    by (intro exI[of _ 0] exI[of _ 1]) simp
  then show ?thesis unfolding verify_blocks_iff by blast
qed

text \<open>C26: a contradiction is neither invented nor missed. For rules whose paths test no condition
  both ways, one is reported exactly when some truth assignment of the conditions leads the two
  trees to different results along paths that pin down a shared scenario.\<close>

theorem contradiction_iff_valuation:
  assumes "tests_once r" and "tests_once r'"
  shows "contradiction (from_rule r) (from_rule r') \<noteq> None \<longleftrightarrow>
     (\<exists>v pa pb. takes v r pa \<and> takes v r' pb \<and> shared_scenario pa pb
        \<and> outcome_result (tree_outcome v (decision_tree r))
            \<noteq> outcome_result (tree_outcome v (decision_tree r')))"
  unfolding contradiction_iff by (rule paths_clash_valuation[OF assms])

lemma contradiction_iff_valuation_witness:
  "\<exists>v. outcome_result (tree_outcome v (decision_tree rule_one))
     \<noteq> outcome_result (tree_outcome v (decision_tree rule_two))"
proof -
  have "tests_once rule_one" "tests_once rule_two"
    "contradiction (from_rule rule_one) (from_rule rule_two) \<noteq> None"
    by code_simp+
  then show ?thesis using contradiction_iff_valuation[of rule_one rule_two] by blast
qed

text \<open>the window check agrees with the runtime: for windows that end after they begin, two
  rules are reported to overlap in time exactly when both are effective on some common date.\<close>

theorem windows_overlap_iff:
  assumes "rule_effective_window r = Some w" and "rule_effective_window r' = Some w'"
    and "bounded_window w" and "bounded_window w'"
  shows "windows_overlap (sem_effective (from_rule r)) (sem_effective (from_rule r')) \<longleftrightarrow>
     (\<exists>d. effective_at (Some w) d \<and> effective_at (Some w') d \<and> date_key d < open_end)"
  by (rule windows_overlap_common[OF assms])

lemma windows_overlap_iff_witness:
  "\<exists>d. effective_at (Some (dated_window 2020 (Some 2024))) d
     \<and> effective_at (Some (dated_window 2023 None)) d \<and> date_key d < open_end"
proof -
  have "windows_overlap (sem_effective (from_rule rule_one)) (sem_effective (from_rule rule_two))"
    "rule_effective_window rule_one = Some (dated_window 2020 (Some 2024))"
    "rule_effective_window rule_two = Some (dated_window 2023 None)"
    "bounded_window (dated_window 2020 (Some 2024))" "bounded_window (dated_window 2023 None)"
    by code_simp+
  then show ?thesis using windows_overlap_iff[of rule_one _ rule_two] by blast
qed

text \<open>C16: no silent overlap. If two rules of a set, whose scope premises are text, constrain a
  common field and both apply to the same facts in the runtime, then the verifier reports a
  conflict that names the two rules.\<close>

theorem co_applicable_rules_reported:
  assumes "i < j" "j < length rules"
    and "ev_applicable (evaluate (rules ! i) fs)" "ev_applicable (evaluate (rules ! j) fs)"
    and "list_all text_item (scope_items (rules ! i))" "list_all text_item (scope_items (rules ! j))"
    and "map_of (extract_premises (rules ! i)) f \<noteq> None"
    and "map_of (extract_premises (rules ! j)) f \<noteq> None"
  shows "\<exists>c\<in>set (report_conflicts (verify_rules rules)).
     conflict_rule_ids c = [rule_id (rules ! i), rule_id (rules ! j)]"
proof -
  have app: "ev_applicable (evaluate r fs) \<longleftrightarrow> applies (applies_if r) fs" for r
    unfolding applicability_spec(1)[symmetric] by (simp add: evaluate_def split: prod.splits)
  obtain c where "c \<in> set (pair_conflicts (from_rule (rules ! i), extract_premises (rules ! i))
      (from_rule (rules ! j), extract_premises (rules ! j)))"
    and "conflict_rule_ids c = [rule_id (rules ! i), rule_id (rules ! j)]"
    using pair_reported[OF co_applicable_overlap[OF assms(3,4)[unfolded app] assms(5-8)]] by blast
  moreover from this(1) assms(1,2) have "c \<in> set (detect_conflicts rules)"
    unfolding detect_conflicts_member by blast
  ultimately show ?thesis by (auto simp: verify_rules_def)
qed

lemma co_applicable_rules_reported_witness:
  "\<exists>c\<in>set (report_conflicts (verify_rules [rule_one, rule_two])).
     conflict_rule_ids c = [''one'', ''two'']"
proof -
  let ?fs = "[''juris'' \<mapsto> FactStr ''UK'']" and ?rules = "[rule_one, rule_two]"
  have "ev_applicable (evaluate rule_one ?fs)" "ev_applicable (evaluate rule_two ?fs)"
    "list_all text_item (scope_items rule_one)" "list_all text_item (scope_items rule_two)"
    "map_of (extract_premises rule_one) ''juris'' \<noteq> None"
    "map_of (extract_premises rule_two) ''juris'' \<noteq> None"
    "rule_id rule_one = ''one''" "rule_id rule_two = ''two''"
    by code_simp+
  then show ?thesis using co_applicable_rules_reported[of 0 1 ?rules ?fs "''juris''"] by simp
qed

end
