(* ===== verification/Graph.thy ===== *)
theory Graph
  imports Structural Artifact
begin

text \<open>
  The property graph that \<open>ke graph export\<close> derives from artifacts
  (\<open>src/crates/ke-cli/src/graph/mod.rs\<close>): nodes and edges, the projection of one artifact,
  the recomputed conflict edges, the merge of several projections, the Cypher rendering, and
  the two queries over the graph (the blast radius of a document, the conflict exposure of a
  regime, a breadth-first search). Property keys and Cypher keywords are the code's literals;
  node ids and property values are byte strings.

  Shown: every edge of a projection ends in nodes of the labels its relationship demands, an
  escaped literal reads back as the string it was made from, the search returns, and both
  queries compute what they document.
\<close>

section \<open>Nodes and edges\<close>

datatype node_label = NArtifact | NRegime | NRule | NCorpusDoc | NAttestation | NIntentSpec

datatype edge_label = InRegime | Contains | Cites | Spans | AttestedBy | ConflictsWith

record node =
  node_label :: node_label
  node_id :: string
  node_props :: "(string \<times> string) list"

record edge =
  edge_label :: edge_label
  edge_from :: string
  edge_to :: string
  edge_props :: "(string \<times> string) list"

record graph =
  graph_nodes :: "node list"
  graph_edges :: "edge list"

definition empty_graph :: graph where
  "empty_graph = \<lparr>graph_nodes = [], graph_edges = []\<rparr>"

definition push_node :: "node \<Rightarrow> graph \<Rightarrow> graph" where
  "push_node n g = g\<lparr>graph_nodes := graph_nodes g @ [n]\<rparr>"

definition push_edge :: "edge \<Rightarrow> graph \<Rightarrow> graph" where
  "push_edge e g = g\<lparr>graph_edges := graph_edges g @ [e]\<rparr>"

definition merge_node :: "node \<Rightarrow> graph \<Rightarrow> graph" where
  "merge_node n g =
     (if list_ex (\<lambda>m. node_label m = node_label n \<and> node_id m = node_id n) (graph_nodes g)
      then g else push_node n g)"

definition merge_edge :: "edge \<Rightarrow> graph \<Rightarrow> graph" where
  "merge_edge e g = (if e \<in> set (graph_edges g) then g else push_edge e g)"

definition merge_graph :: "graph \<Rightarrow> graph \<Rightarrow> graph" where
  "merge_graph g g' = fold merge_edge (graph_edges g') (fold merge_node (graph_nodes g') g)"

definition push_corpus_doc :: "string \<Rightarrow> graph \<Rightarrow> graph" where
  "push_corpus_doc d g =
     (if list_ex (\<lambda>n. node_label n = NCorpusDoc \<and> node_id n = d) (graph_nodes g) then g
      else push_node \<lparr>node_label = NCorpusDoc, node_id = d, node_props = []\<rparr> g)"

section \<open>Cypher\<close>

fun node_label_name :: "node_label \<Rightarrow> string" where
  "node_label_name NArtifact = ''Artifact''"
| "node_label_name NRegime = ''Regime''"
| "node_label_name NRule = ''Rule''"
| "node_label_name NCorpusDoc = ''CorpusDoc''"
| "node_label_name NAttestation = ''Attestation''"
| "node_label_name NIntentSpec = ''IntentSpec''"

fun edge_label_name :: "edge_label \<Rightarrow> string" where
  "edge_label_name InRegime = ''IN_REGIME''"
| "edge_label_name Contains = ''CONTAINS''"
| "edge_label_name Cites = ''CITES''"
| "edge_label_name Spans = ''SPANS''"
| "edge_label_name AttestedBy = ''ATTESTED_BY''"
| "edge_label_name ConflictsWith = ''CONFLICTS_WITH''"

text \<open>\<open>s.replace(c, r)\<close> of a single character.\<close>

definition replace_char :: "char \<Rightarrow> string \<Rightarrow> string \<Rightarrow> string" where
  "replace_char c r s = concat (map (\<lambda>x. if x = c then r else [x]) s)"

abbreviation "quote_char \<equiv> CHR 0x27"
abbreviation "backslash \<equiv> CHR 0x5C"

definition cypher_str :: "string \<Rightarrow> string" where
  "cypher_str s =
     [quote_char] @ replace_char quote_char [backslash, quote_char]
       (replace_char backslash [backslash, backslash] s) @ [quote_char]"

definition render_node :: "node \<Rightarrow> string" where
  "render_node n =
     ''MERGE (n:'' @ node_label_name (node_label n) @ '' {id: '' @ cypher_str (node_id n) @ ''})''
       @ concat (map (\<lambda>(k, v). '' SET n.'' @ k @ '' = '' @ cypher_str v) (node_props n))
       @ '';'' @ [CHR 0x0A]"

definition render_edge :: "edge \<Rightarrow> string" where
  "render_edge e =
     ''MATCH (a {id: '' @ cypher_str (edge_from e) @ ''}), (b {id: '' @ cypher_str (edge_to e)
       @ ''}) MERGE (a)-[r:'' @ edge_label_name (edge_label e) @ '']->(b)''
       @ concat (map (\<lambda>(k, v). '' SET r.'' @ k @ '' = '' @ cypher_str v) (edge_props e))
       @ '';'' @ [CHR 0x0A]"

definition render_cypher :: "graph \<Rightarrow> string" where
  "render_cypher g = concat (map render_node (graph_nodes g)) @ concat (map render_edge (graph_edges g))"

section \<open>The projection of an artifact\<close>

text \<open>\<open>format!("{:?}", ...)\<close> of a fieldless enum is the variant's name.\<close>

fun artifact_kind_debug :: "artifact_kind \<Rightarrow> string" where
  "artifact_kind_debug RegimePack = ''RegimePack''"
| "artifact_kind_debug EquivalenceMatrix = ''EquivalenceMatrix''"
| "artifact_kind_debug TestCorpus = ''TestCorpus''"
| "artifact_kind_debug PolicyBundleKind = ''PolicyBundle''"
| "artifact_kind_debug IntentSpec = ''IntentSpec''"

fun attestation_type_debug :: "attestation_type \<Rightarrow> string" where
  "attestation_type_debug SourceFidelity = ''SourceFidelity''"
| "attestation_type_debug Interpretation = ''Interpretation''"
| "attestation_type_debug ScenarioCoverage = ''ScenarioCoverage''"
| "attestation_type_debug EquivalenceClaim = ''EquivalenceClaim''"
| "attestation_type_debug PublicationApproval = ''PublicationApproval''"

fun conflict_class_debug :: "conflict_class \<Rightarrow> string" where
  "conflict_class_debug ContradictoryOutcome = ''ContradictoryOutcome''"
| "conflict_class_debug OverlappingScope = ''OverlappingScope''"
| "conflict_class_debug TemporalOverlap = ''TemporalOverlap''"
| "conflict_class_debug DuplicateRule = ''DuplicateRule''"

fun severity_debug :: "severity \<Rightarrow> string" where
  "severity_debug SevBlocking = ''Blocking''"
| "severity_debug SevReviewRequired = ''ReviewRequired''"
| "severity_debug SevAdvisory = ''Advisory''"

definition rule_node_id :: "string \<Rightarrow> string \<Rightarrow> string" where
  "rule_node_id hex rid = hex @ '':'' @ rid"

definition attestation_node_id :: "string \<Rightarrow> nat \<Rightarrow> string" where
  "attestation_node_id hex i = hex @ '':att:'' @ nat_digits (int i)"

definition intent_node_id :: "string \<Rightarrow> string \<Rightarrow> string" where
  "intent_node_id hex action = hex @ '':intent:'' @ action"

text \<open>The optional article and section of a citation, as edge properties.\<close>

definition locator_props :: "string option \<Rightarrow> string option \<Rightarrow> (string \<times> string) list" where
  "locator_props article section_of =
     (case article of Some a \<Rightarrow> [(''article'', a)] | None \<Rightarrow> [])
     @ (case section_of of Some s \<Rightarrow> [(''section'', s)] | None \<Rightarrow> [])"

definition project_manifest :: "artifact \<Rightarrow> string \<Rightarrow> graph \<Rightarrow> graph" where
  "project_manifest a hex g =
     (let regime = regime_id (art_manifest a);
          g = push_node \<lparr>node_label = NArtifact, node_id = hex,
            node_props = [(''kind'', artifact_kind_debug (artifact_kind (art_manifest a))),
                          (''regime_id'', regime)]\<rparr> g;
          g = push_node \<lparr>node_label = NRegime, node_id = regime, node_props = []\<rparr> g
      in push_edge \<lparr>edge_label = InRegime, edge_from = hex, edge_to = regime, edge_props = []\<rparr> g)"

definition project_attestation :: "string \<Rightarrow> nat \<times> attestation \<Rightarrow> graph \<Rightarrow> graph" where
  "project_attestation hex = (\<lambda>(i, att) g.
     let att_id = attestation_node_id hex i;
         g = push_node \<lparr>node_label = NAttestation, node_id = att_id,
           node_props = [(''type'', attestation_type_debug (att_type att)),
                         (''signer_key_id'', att_key_id att)]\<rparr> g
     in push_edge \<lparr>edge_label = AttestedBy, edge_from = hex, edge_to = att_id, edge_props = []\<rparr> g)"

definition project_rule :: "string \<Rightarrow> rule_ir \<Rightarrow> graph \<Rightarrow> graph" where
  "project_rule hex r g =
     (let rid = rule_node_id hex (rule_id r);
          src = rule_source r;
          g = push_node \<lparr>node_label = NRule, node_id = rid, node_props = [(''rule_id'', rule_id r)]\<rparr> g;
          g = push_edge \<lparr>edge_label = Contains, edge_from = hex, edge_to = rid, edge_props = []\<rparr> g;
          g = push_corpus_doc (doc_document_id src) g
      in push_edge \<lparr>edge_label = Cites, edge_from = rid, edge_to = doc_document_id src,
           edge_props = locator_props (doc_article src) (doc_section src)\<rparr> g)"

definition project_span :: "string \<Rightarrow> source_span \<Rightarrow> graph \<Rightarrow> graph" where
  "project_span from_id sp g =
     push_edge \<lparr>edge_label = Spans, edge_from = from_id, edge_to = span_document_id sp,
       edge_props = locator_props (span_article sp) (span_section sp)\<rparr>
       (push_corpus_doc (span_document_id sp) g)"

definition project_entry :: "string \<Rightarrow> span_index_entry \<Rightarrow> graph \<Rightarrow> graph" where
  "project_entry hex e g = fold (project_span (rule_node_id hex (sie_rule_id e))) (sie_spans e) g"

definition project_intent :: "string \<Rightarrow> intent_spec_ir \<Rightarrow> graph \<Rightarrow> graph" where
  "project_intent hex spec g =
     (let iid = intent_node_id hex (action_class spec);
          g = push_node \<lparr>node_label = NIntentSpec, node_id = iid,
            node_props = [(''action_class'', action_class spec),
              (''criteria_count'', nat_digits (int (length (intent_criteria spec))))]\<rparr> g;
          g = push_edge \<lparr>edge_label = Contains, edge_from = hex, edge_to = iid, edge_props = []\<rparr> g
      in fold (project_span iid) (intent_source_spans spec) g)"

definition extract_graph :: "artifact \<Rightarrow> graph" where
  "extract_graph a =
     (let hex = hex32 (artifact_hash (art_manifest a));
          g = project_manifest a hex empty_graph;
          g = fold (project_attestation hex) (enumerate 0 (art_attestations a)) g
      in case art_payload a of
           PayloadRules rules \<Rightarrow>
             fold (project_entry hex) (art_span_index a) (fold (project_rule hex) rules g)
         | PayloadIntentSpec spec \<Rightarrow> project_intent hex spec g)"

definition conflict_edge :: "string \<Rightarrow> conflict \<Rightarrow> edge" where
  "conflict_edge hex c =
     (let ids = sort (conflict_rule_ids c)
      in \<lparr>edge_label = ConflictsWith, edge_from = rule_node_id hex (hd ids),
          edge_to = rule_node_id hex (last ids),
          edge_props = [(''class'', conflict_class_debug (conflict_class c)),
                        (''severity'', severity_debug (conflict_severity c))]\<rparr>)"

definition conflict_edges :: "string \<Rightarrow> rule_ir list \<Rightarrow> edge list" where
  "conflict_edges hex rules = map (conflict_edge hex) (report_conflicts (verify_rules rules))"

section \<open>Queries\<close>

definition cites_document :: "string \<Rightarrow> string option \<Rightarrow> edge \<Rightarrow> bool" where
  "cites_document d article e =
     ((edge_label e = Cites \<or> edge_label e = Spans) \<and> edge_to e = d
      \<and> (case article of None \<Rightarrow> True
           | Some a \<Rightarrow> list_ex (\<lambda>(k, v). k = ''article'' \<and> v = a) (edge_props e)))"

definition blast_radius :: "graph \<Rightarrow> string \<Rightarrow> string option \<Rightarrow> string list" where
  "blast_radius g d article =
     (let citing = map edge_from (filter (cites_document d article) (graph_edges g));
          artifacts = map edge_from
            (filter (\<lambda>e. edge_label e = Contains \<and> edge_to e \<in> set citing) (graph_edges g));
          atts = map edge_to
            (filter (\<lambda>e. edge_label e = AttestedBy \<and> edge_from e \<in> set artifacts) (graph_edges g))
      in dedup (citing @ artifacts @ atts))"

text \<open>\<open>collect()\<close> into a hash map: the last entry of a key wins.\<close>

definition regime_of :: "graph \<Rightarrow> string \<rightharpoonup> string" where
  "regime_of g = map_of (rev (map (\<lambda>e. (edge_from e, edge_to e))
     (filter (\<lambda>e. edge_label e = InRegime) (graph_edges g))))"

definition artifact_of :: "graph \<Rightarrow> string \<rightharpoonup> string" where
  "artifact_of g = map_of (rev (map (\<lambda>e. (edge_to e, edge_from e))
     (filter (\<lambda>e. edge_label e = Contains) (graph_edges g))))"

definition in_regime :: "graph \<Rightarrow> string \<Rightarrow> string \<Rightarrow> bool" where
  "in_regime g n regime =
     (case artifact_of g n of None \<Rightarrow> False | Some a \<Rightarrow> regime_of g a = Some regime)"

text \<open>\<open>adjacent.entry(k).or_default().push(v)\<close>.\<close>

definition push_adjacent :: "string \<Rightarrow> string \<Rightarrow> (string \<Rightarrow> string list) \<Rightarrow> string \<Rightarrow> string list" where
  "push_adjacent k v m = m(k := m k @ [v])"

definition adjacent :: "graph \<Rightarrow> string \<Rightarrow> string list" where
  "adjacent g = fold (\<lambda>e m.
       if edge_label e = Cites \<or> edge_label e = Spans
       then push_adjacent (edge_to e) (edge_from e) (push_adjacent (edge_from e) (edge_to e) m)
       else m) (graph_edges g) (\<lambda>_. [])"

fun visit :: "string set \<Rightarrow> string list \<Rightarrow> string list \<Rightarrow> string set \<times> string list" where
  "visit reached queue [] = (reached, queue)"
| "visit reached queue (x # xs) =
     (if x \<in> reached then visit reached queue xs else visit (insert x reached) (queue @ [x]) xs)"

partial_function (option) bfs ::
    "(string \<Rightarrow> string list) \<Rightarrow> string set \<Rightarrow> string list \<Rightarrow> string set option" where
  "bfs adj reached queue =
     (case queue of
        [] \<Rightarrow> Some reached
      | n # rest \<Rightarrow> bfs adj (fst (visit reached rest (adj n))) (snd (visit reached rest (adj n))))"

definition regime_rules :: "graph \<Rightarrow> string \<Rightarrow> string list" where
  "regime_rules g regime =
     map node_id (filter (\<lambda>n. node_label n = NRule \<and> in_regime g (node_id n) regime) (graph_nodes g))"

definition edge_hops :: "graph \<Rightarrow> string set \<Rightarrow> string \<Rightarrow> edge \<Rightarrow> string list" where
  "edge_hops g reached regime e =
     map snd (filter (\<lambda>(b, c). b \<in> reached \<and> in_regime g c regime)
       [(edge_from e, edge_to e), (edge_to e, edge_from e)])"

definition conflict_hops :: "graph \<Rightarrow> string set \<Rightarrow> string \<Rightarrow> string list" where
  "conflict_hops g reached regime =
     concat (map (edge_hops g reached regime)
       (filter (\<lambda>e. edge_label e = ConflictsWith) (graph_edges g)))"

definition conflict_exposure :: "graph \<Rightarrow> string \<Rightarrow> string \<Rightarrow> string list option" where
  "conflict_exposure g source target =
     (let queue = regime_rules g source
      in map_option (\<lambda>reached. dedup (conflict_hops g reached target))
           (bfs (adjacent g) (set queue) queue))"

section \<open>Well-typed graphs\<close>

text \<open>A node is known by its label and id. The labels a relationship starts from and points to
  are those the documentation of \<open>EdgeLabel\<close> gives.\<close>

definition node_keys :: "graph \<Rightarrow> (node_label \<times> string) set" where
  "node_keys g = (\<lambda>n. (node_label n, node_id n)) ` set (graph_nodes g)"

fun source_labels :: "edge_label \<Rightarrow> node_label set" where
  "source_labels InRegime = {NArtifact}"
| "source_labels Contains = {NArtifact}"
| "source_labels AttestedBy = {NArtifact}"
| "source_labels Cites = {NRule}"
| "source_labels Spans = {NRule, NIntentSpec}"
| "source_labels ConflictsWith = {NRule}"

fun target_labels :: "edge_label \<Rightarrow> node_label set" where
  "target_labels InRegime = {NRegime}"
| "target_labels Contains = {NRule, NIntentSpec}"
| "target_labels AttestedBy = {NAttestation}"
| "target_labels Cites = {NCorpusDoc}"
| "target_labels Spans = {NCorpusDoc}"
| "target_labels ConflictsWith = {NRule}"

definition edge_typed :: "(node_label \<times> string) set \<Rightarrow> edge \<Rightarrow> bool" where
  "edge_typed K e \<longleftrightarrow>
     (\<exists>l\<in>source_labels (edge_label e). (l, edge_from e) \<in> K)
     \<and> (\<exists>l\<in>target_labels (edge_label e). (l, edge_to e) \<in> K)"

definition well_typed :: "graph \<Rightarrow> bool" where
  "well_typed g \<longleftrightarrow> (\<forall>e\<in>set (graph_edges g). edge_typed (node_keys g) e)"

named_theorems graph_effects \<open>nodes and edges after an operation\<close>

lemma push_effects [graph_effects]:
  "node_keys (push_node n g) = insert (node_label n, node_id n) (node_keys g)"
  "graph_edges (push_node n g) = graph_edges g"
  "node_keys (push_edge e g) = node_keys g"
  "graph_edges (push_edge e g) = graph_edges g @ [e]"
  by (simp_all add: push_node_def push_edge_def node_keys_def)

lemma node_keys_iff: "(l, i) \<in> node_keys g \<longleftrightarrow> (\<exists>n\<in>set (graph_nodes g). node_label n = l \<and> node_id n = i)"
  by (auto simp: node_keys_def image_iff)

lemma push_corpus_doc_effects [graph_effects]:
  "node_keys (push_corpus_doc d g) = insert (NCorpusDoc, d) (node_keys g)"
  "graph_edges (push_corpus_doc d g) = graph_edges g"
  by (auto simp: push_corpus_doc_def graph_effects list_ex_iff insert_absorb simp flip: node_keys_iff)

lemma empty_effects [graph_effects]:
  "node_keys empty_graph = {}" "graph_edges empty_graph = []"
  by (simp_all add: empty_graph_def node_keys_def)

lemma merge_effects [graph_effects]:
  "node_keys (merge_node n g) = insert (node_label n, node_id n) (node_keys g)"
  "graph_edges (merge_node n g) = graph_edges g"
  "node_keys (merge_edge e g) = node_keys g"
  "set (graph_edges (merge_edge e g)) = insert e (set (graph_edges g))"
  by (auto simp: merge_node_def merge_edge_def graph_effects list_ex_iff insert_absorb simp flip: node_keys_iff)

lemma fold_keys:
  assumes "\<And>x g. K (f x g) = A x \<union> K g"
  shows "K (fold f xs g) = (\<Union>x\<in>set xs. A x) \<union> K g"
  using assms by (induction xs arbitrary: g) auto

lemma fold_edges:
  assumes "\<And>x g. E (f x g) = E g @ B x"
  shows "E (fold f xs g) = E g @ concat (map B xs)"
  using assms by (induction xs arbitrary: g) auto

lemma merge_graph_effects [graph_effects]:
  "node_keys (merge_graph g g') = node_keys g \<union> node_keys g'"
  "set (graph_edges (merge_graph g g')) = set (graph_edges g) \<union> set (graph_edges g')"
proof -
  have nodes: "node_keys (fold merge_node ns h) = (\<lambda>n. (node_label n, node_id n)) ` set ns \<union> node_keys h"
    "graph_edges (fold merge_node ns h) = graph_edges h" for ns h
    by (induction ns arbitrary: h) (auto simp: graph_effects)
  have edges: "node_keys (fold merge_edge es h) = node_keys h"
    "set (graph_edges (fold merge_edge es h)) = set es \<union> set (graph_edges h)" for es h
    by (induction es arbitrary: h) (auto simp: graph_effects)
  show "node_keys (merge_graph g g') = node_keys g \<union> node_keys g'"
    "set (graph_edges (merge_graph g g')) = set (graph_edges g) \<union> set (graph_edges g')"
    by (auto simp: merge_graph_def nodes edges) (auto simp: node_keys_def)
qed

lemma edge_typed_mono: "edge_typed K e \<Longrightarrow> K \<subseteq> K' \<Longrightarrow> edge_typed K' e"
  unfolding edge_typed_def by blast

lemma well_typed_merge:
  assumes "well_typed g" "well_typed g'"
  shows "well_typed (merge_graph g g')"
  using assms unfolding well_typed_def graph_effects by (blast intro: edge_typed_mono)

section \<open>The edges of a projection\<close>

definition attestation_edge :: "string \<Rightarrow> nat \<Rightarrow> edge" where
  "attestation_edge hex i = \<lparr>edge_label = AttestedBy, edge_from = hex,
     edge_to = attestation_node_id hex i, edge_props = []\<rparr>"

definition rule_edges :: "string \<Rightarrow> rule_ir \<Rightarrow> edge list" where
  "rule_edges hex r =
     [\<lparr>edge_label = Contains, edge_from = hex, edge_to = rule_node_id hex (rule_id r), edge_props = []\<rparr>,
      \<lparr>edge_label = Cites, edge_from = rule_node_id hex (rule_id r),
       edge_to = doc_document_id (rule_source r),
       edge_props = locator_props (doc_article (rule_source r)) (doc_section (rule_source r))\<rparr>]"

definition span_edge :: "string \<Rightarrow> source_span \<Rightarrow> edge" where
  "span_edge from_id sp = \<lparr>edge_label = Spans, edge_from = from_id, edge_to = span_document_id sp,
     edge_props = locator_props (span_article sp) (span_section sp)\<rparr>"

definition entry_edges :: "string \<Rightarrow> span_index_entry \<Rightarrow> edge list" where
  "entry_edges hex e = map (span_edge (rule_node_id hex (sie_rule_id e))) (sie_spans e)"

lemma project_attestation_effects [graph_effects]:
  "node_keys (project_attestation hex x g) = {(NAttestation, attestation_node_id hex (fst x))} \<union> node_keys g"
  "graph_edges (project_attestation hex x g) = graph_edges g @ [attestation_edge hex (fst x)]"
  by (auto simp: project_attestation_def Let_def graph_effects attestation_edge_def split: prod.splits)

lemma project_rule_effects [graph_effects]:
  "node_keys (project_rule hex r g) =
     {(NRule, rule_node_id hex (rule_id r)), (NCorpusDoc, doc_document_id (rule_source r))} \<union> node_keys g"
  "graph_edges (project_rule hex r g) = graph_edges g @ rule_edges hex r"
  by (auto simp: project_rule_def Let_def graph_effects rule_edges_def)

lemma project_span_effects [graph_effects]:
  "node_keys (project_span i sp g) = {(NCorpusDoc, span_document_id sp)} \<union> node_keys g"
  "graph_edges (project_span i sp g) = graph_edges g @ [span_edge i sp]"
  by (auto simp: project_span_def graph_effects span_edge_def)

lemma concat_singletons [simp]: "concat (map (\<lambda>x. [f x]) xs) = map f xs"
  by (induction xs) auto

lemma project_spans_effects [graph_effects]:
  "node_keys (fold (project_span i) sps g) = (\<Union>sp\<in>set sps. {(NCorpusDoc, span_document_id sp)}) \<union> node_keys g"
  "graph_edges (fold (project_span i) sps g) = graph_edges g @ map (span_edge i) sps"
  by (rule fold_keys[of node_keys], simp add: graph_effects)
     (simp add: fold_edges[of graph_edges, OF project_span_effects(2)])

definition regime_edge :: "string \<Rightarrow> artifact \<Rightarrow> edge" where
  "regime_edge hex a = \<lparr>edge_label = InRegime, edge_from = hex,
     edge_to = regime_id (art_manifest a), edge_props = []\<rparr>"

definition intent_edge :: "string \<Rightarrow> intent_spec_ir \<Rightarrow> edge" where
  "intent_edge hex spec = \<lparr>edge_label = Contains, edge_from = hex,
     edge_to = intent_node_id hex (action_class spec), edge_props = []\<rparr>"

abbreviation "artifact_hex a \<equiv> hex32 (artifact_hash (art_manifest a))"

lemma project_manifest_effects [graph_effects]:
  "node_keys (project_manifest a hex g) =
     {(NArtifact, hex), (NRegime, regime_id (art_manifest a))} \<union> node_keys g"
  "graph_edges (project_manifest a hex g) = graph_edges g @ [regime_edge hex a]"
  by (auto simp: project_manifest_def Let_def graph_effects regime_edge_def)

lemma project_entry_effects [graph_effects]:
  "node_keys (project_entry hex e g) =
     (\<Union>sp\<in>set (sie_spans e). {(NCorpusDoc, span_document_id sp)}) \<union> node_keys g"
  "graph_edges (project_entry hex e g) = graph_edges g @ entry_edges hex e"
  by (simp_all add: project_entry_def graph_effects entry_edges_def)

lemma project_intent_effects [graph_effects]:
  "node_keys (project_intent hex spec g) =
     {(NIntentSpec, intent_node_id hex (action_class spec))}
     \<union> (\<Union>sp\<in>set (intent_source_spans spec). {(NCorpusDoc, span_document_id sp)}) \<union> node_keys g"
  "graph_edges (project_intent hex spec g) = graph_edges g @
     intent_edge hex spec # map (span_edge (intent_node_id hex (action_class spec))) (intent_source_spans spec)"
  by (auto simp: project_intent_def Let_def graph_effects intent_edge_def)

lemma project_attestations_effects [graph_effects]:
  "node_keys (fold (project_attestation hex) (enumerate 0 atts) g) =
     (\<Union>i<length atts. {(NAttestation, attestation_node_id hex i)}) \<union> node_keys g"
  "graph_edges (fold (project_attestation hex) (enumerate 0 atts) g) =
     graph_edges g @ map (attestation_edge hex) [0..<length atts]"
proof -
  have "node_keys (fold (project_attestation hex) xs g) =
      (\<Union>x\<in>set xs. {(NAttestation, attestation_node_id hex (fst x))}) \<union> node_keys g" for xs
    by (rule fold_keys[of node_keys]) (simp add: graph_effects)
  moreover have "fst ` set (enumerate 0 atts) = {..<length atts}"
    by (simp flip: set_map add: lessThan_atLeast0)
  then have "(\<Union>x\<in>set (enumerate 0 atts). {(NAttestation, attestation_node_id hex (fst x))}) =
      (\<Union>i<length atts. {(NAttestation, attestation_node_id hex i)})"
    by (metis (no_types, lifting) SUP_cong image_image)
  ultimately show "node_keys (fold (project_attestation hex) (enumerate 0 atts) g) =
     (\<Union>i<length atts. {(NAttestation, attestation_node_id hex i)}) \<union> node_keys g"
    by simp
  have "map (\<lambda>x. attestation_edge hex (fst x)) (enumerate 0 atts) = map (attestation_edge hex) (map fst (enumerate 0 atts))"
    by (subst map_map) (simp add: comp_def)
  then show "graph_edges (fold (project_attestation hex) (enumerate 0 atts) g) =
     graph_edges g @ map (attestation_edge hex) [0..<length atts]"
    by (simp add: fold_edges[of graph_edges, OF project_attestation_effects(2)])
qed

lemma project_rules_effects [graph_effects]:
  "node_keys (fold (project_rule hex) rules g) =
     (\<Union>r\<in>set rules. {(NRule, rule_node_id hex (rule_id r)), (NCorpusDoc, doc_document_id (rule_source r))})
     \<union> node_keys g"
  "graph_edges (fold (project_rule hex) rules g) = graph_edges g @ concat (map (rule_edges hex) rules)"
  by (rule fold_keys[of node_keys], simp add: graph_effects)
     (rule fold_edges[of graph_edges], simp add: graph_effects)

lemma project_entries_effects [graph_effects]:
  "node_keys (fold (project_entry hex) es g) =
     (\<Union>e\<in>set es. \<Union>sp\<in>set (sie_spans e). {(NCorpusDoc, span_document_id sp)}) \<union> node_keys g"
  "graph_edges (fold (project_entry hex) es g) = graph_edges g @ concat (map (entry_edges hex) es)"
  by (rule fold_keys[of node_keys], simp add: graph_effects)
     (rule fold_edges[of graph_edges], simp add: graph_effects)

lemma extract_edges:
  "graph_edges (extract_graph a) =
     regime_edge (artifact_hex a) a
     # map (attestation_edge (artifact_hex a)) [0..<length (art_attestations a)]
     @ (case art_payload a of
          PayloadRules rules \<Rightarrow>
            concat (map (rule_edges (artifact_hex a)) rules)
            @ concat (map (entry_edges (artifact_hex a)) (art_span_index a))
        | PayloadIntentSpec spec \<Rightarrow>
            intent_edge (artifact_hex a) spec
            # map (span_edge (intent_node_id (artifact_hex a) (action_class spec))) (intent_source_spans spec))"
  by (simp add: extract_graph_def Let_def graph_effects split: artifact_payload.splits)

lemma extract_keys:
  "node_keys (extract_graph a) =
     {(NArtifact, artifact_hex a), (NRegime, regime_id (art_manifest a))}
     \<union> (\<Union>i<length (art_attestations a). {(NAttestation, attestation_node_id (artifact_hex a) i)})
     \<union> (case art_payload a of
          PayloadRules rules \<Rightarrow>
            (\<Union>r\<in>set rules. {(NRule, rule_node_id (artifact_hex a) (rule_id r)),
                (NCorpusDoc, doc_document_id (rule_source r))})
            \<union> (\<Union>e\<in>set (art_span_index a). \<Union>sp\<in>set (sie_spans e). {(NCorpusDoc, span_document_id sp)})
        | PayloadIntentSpec spec \<Rightarrow>
            {(NIntentSpec, intent_node_id (artifact_hex a) (action_class spec))}
            \<union> (\<Union>sp\<in>set (intent_source_spans spec). {(NCorpusDoc, span_document_id sp)}))"
  by (auto simp: extract_graph_def Let_def graph_effects split: artifact_payload.splits)

section \<open>Typing of a projection\<close>

lemma build_span_index_ids:
  "e \<in> set (build_span_index rules) \<longleftrightarrow>
     (\<exists>r\<in>set rules. e = \<lparr>sie_rule_id = rule_id r, sie_spans = collect_rule_spans r\<rparr>)"
  by (auto simp: build_span_index_def)

lemmas edge_shapes = edge_typed_def regime_edge_def attestation_edge_def rule_edges_def entry_edges_def
  span_edge_def intent_edge_def

lemma projected_edge_typed:
  "edge_typed K (regime_edge hex a) \<longleftrightarrow> (NArtifact, hex) \<in> K \<and> (NRegime, regime_id (art_manifest a)) \<in> K"
  "edge_typed K (attestation_edge hex i) \<longleftrightarrow>
     (NArtifact, hex) \<in> K \<and> (NAttestation, attestation_node_id hex i) \<in> K"
  "edge_typed K (intent_edge hex spec) \<longleftrightarrow> (NArtifact, hex) \<in> K
     \<and> ((NRule, intent_node_id hex (action_class spec)) \<in> K
        \<or> (NIntentSpec, intent_node_id hex (action_class spec)) \<in> K)"
  "edge_typed K (span_edge from_id sp) \<longleftrightarrow>
     ((NRule, from_id) \<in> K \<or> (NIntentSpec, from_id) \<in> K) \<and> (NCorpusDoc, span_document_id sp) \<in> K"
  by (simp_all add: edge_shapes)

lemma rule_edges_typed:
  assumes "(NArtifact, hex) \<in> K" "(NRule, rule_node_id hex (rule_id r)) \<in> K"
    "(NCorpusDoc, doc_document_id (rule_source r)) \<in> K"
  shows "\<forall>e\<in>set (rule_edges hex r). edge_typed K e"
  using assms by (simp add: edge_shapes)

lemma entry_edges_typed:
  assumes "(NRule, rule_node_id hex (sie_rule_id i)) \<in> K"
    "\<And>sp. sp \<in> set (sie_spans i) \<Longrightarrow> (NCorpusDoc, span_document_id sp) \<in> K"
  shows "\<forall>e\<in>set (entry_edges hex i). edge_typed K e"
  using assms by (simp add: entry_edges_def projected_edge_typed)

lemma extract_typed:
  assumes "indexed a"
  shows "well_typed (extract_graph a)"
proof -
  let ?K = "node_keys (extract_graph a)" and ?hex = "artifact_hex a"
  have base: "edge_typed ?K (regime_edge ?hex a)"
    "\<forall>i<length (art_attestations a). edge_typed ?K (attestation_edge ?hex i)"
    by (auto simp: projected_edge_typed extract_keys)
  show ?thesis
  proof (cases "art_payload a")
    case (PayloadRules rules)
    have "\<forall>r\<in>set rules. \<forall>e\<in>set (rule_edges ?hex r). edge_typed ?K e"
      by (intro ballI[THEN ballI] rule_edges_typed[THEN bspec]) (auto simp: extract_keys PayloadRules)
    moreover have "\<forall>i\<in>set (art_span_index a). \<forall>e\<in>set (entry_edges ?hex i). edge_typed ?K e"
    proof (intro ballI)
      fix i e assume i: "i \<in> set (art_span_index a)" and e: "e \<in> set (entry_edges ?hex i)"
      from i assms have "\<exists>r\<in>set rules. sie_rule_id i = rule_id r"
        by (auto simp: indexed_def PayloadRules build_span_index_ids)
      then have "(NRule, rule_node_id ?hex (sie_rule_id i)) \<in> ?K"
        by (auto simp: extract_keys PayloadRules)
      moreover have "(NCorpusDoc, span_document_id sp) \<in> ?K" if "sp \<in> set (sie_spans i)" for sp
        using i that by (auto simp: extract_keys PayloadRules)
      ultimately show "edge_typed ?K e" using entry_edges_typed e by blast
    qed
    ultimately show ?thesis
      using base by (auto simp: well_typed_def extract_edges PayloadRules)
  next
    case (PayloadIntentSpec spec)
    then show ?thesis
      using base by (auto simp: well_typed_def extract_edges projected_edge_typed) (auto simp: extract_keys)
  qed
qed

text \<open>Both ends of a conflict edge are rules of the set.\<close>

lemma conflict_ids:
  assumes "c \<in> set (report_conflicts (verify_rules rules))"
  shows "\<exists>r\<in>set rules. \<exists>r'\<in>set rules. conflict_rule_ids c = [rule_id r, rule_id r']"
proof -
  from assms obtain i j where "i < j" "j < length rules"
    and c: "c \<in> set (pair_conflicts (from_rule (rules ! i), extract_premises (rules ! i))
                     (from_rule (rules ! j), extract_premises (rules ! j)))"
    by (auto simp: verify_rules_def detect_conflicts_member)
  from c have "conflict_rule_ids c = [rule_id (rules ! i), rule_id (rules ! j)]"
    by (auto simp: pair_conflicts_def between_def split: if_splits option.splits prod.splits)
  with \<open>i < j\<close> \<open>j < length rules\<close> show ?thesis
    by (meson less_trans nth_mem)
qed

lemma conflict_edge_ends:
  assumes "e \<in> set (conflict_edges hex rules)"
  shows "edge_label e = ConflictsWith"
    "\<exists>r\<in>set rules. edge_from e = rule_node_id hex (rule_id r)"
    "\<exists>r\<in>set rules. edge_to e = rule_node_id hex (rule_id r)"
proof -
  from assms obtain c where c: "c \<in> set (report_conflicts (verify_rules rules))" and e: "e = conflict_edge hex c"
    by (auto simp: conflict_edges_def)
  from conflict_ids[OF c] obtain r r' where "r \<in> set rules" "r' \<in> set rules"
    "conflict_rule_ids c = [rule_id r, rule_id r']" by blast
  then show "edge_label e = ConflictsWith" "\<exists>r\<in>set rules. edge_from e = rule_node_id hex (rule_id r)"
    "\<exists>r\<in>set rules. edge_to e = rule_node_id hex (rule_id r)"
    by (auto simp: e conflict_edge_def Let_def)
qed

section \<open>Literals\<close>

text \<open>A reader of Cypher's single-quoted literals: a backslash takes the next character as it is,
  a quote ends the literal.\<close>

fun read_literal :: "string \<Rightarrow> (string \<times> string) option" where
  "read_literal [] = None"
| "read_literal (c # cs) =
     (if c = quote_char then Some ([], cs)
      else if c = backslash then
        (case cs of
           [] \<Rightarrow> None
         | d # ds \<Rightarrow> map_option (\<lambda>(s, rest). (d # s, rest)) (read_literal ds))
      else map_option (\<lambda>(s, rest). (c # s, rest)) (read_literal cs))"

lemma replace_char_Cons:
  "replace_char c r [] = []"
  "replace_char c r (x # xs) = (if x = c then r else [x]) @ replace_char c r xs"
  by (simp_all add: replace_char_def)

lemma replace_char_append: "replace_char c r (xs @ ys) = replace_char c r xs @ replace_char c r ys"
  by (simp add: replace_char_def)

lemma read_escaped:
  "read_literal (replace_char quote_char [backslash, quote_char]
     (replace_char backslash [backslash, backslash] s) @ quote_char # rest) = Some (s, rest)"
  by (induction s) (auto simp: replace_char_Cons replace_char_append)

section \<open>The blast radius\<close>

text \<open>The rule refers to the document, in its source or a span, at the article if one is asked for.\<close>

definition at_article :: "string option \<Rightarrow> string option \<Rightarrow> bool" where
  "at_article article there \<longleftrightarrow> article = None \<or> there = article"

definition refers_to :: "rule_ir \<Rightarrow> string \<Rightarrow> string option \<Rightarrow> bool" where
  "refers_to r d article \<longleftrightarrow>
     doc_document_id (rule_source r) = d \<and> at_article article (doc_article (rule_source r))
     \<or> (\<exists>sp\<in>set (collect_rule_spans r). span_document_id sp = d \<and> at_article article (span_article sp))"

lemma cites_locator [simp]:
  "cites_document d article \<lparr>edge_label = l, edge_from = x, edge_to = y, edge_props = locator_props p q\<rparr>
     \<longleftrightarrow> (l = Cites \<or> l = Spans) \<and> y = d \<and> at_article article p"
  by (cases article; cases p; cases q) (auto simp: cites_document_def locator_props_def at_article_def)

lemma cites_label: "edge_label e \<notin> {Cites, Spans} \<Longrightarrow> \<not> cites_document d article e"
  by (simp add: cites_document_def)

lemma projected_cites:
  "\<not> cites_document d article (regime_edge hex a)"
  "\<not> cites_document d article (attestation_edge hex i)"
  "(\<exists>e\<in>set (rule_edges hex r). cites_document d article e \<and> edge_from e = n) \<longleftrightarrow>
     n = rule_node_id hex (rule_id r) \<and> doc_document_id (rule_source r) = d
     \<and> at_article article (doc_article (rule_source r))"
  "(\<exists>e\<in>set (entry_edges hex i'). cites_document d article e \<and> edge_from e = n) \<longleftrightarrow>
     n = rule_node_id hex (sie_rule_id i')
     \<and> (\<exists>sp\<in>set (sie_spans i'). span_document_id sp = d \<and> at_article article (span_article sp))"
  by (auto simp: cites_label regime_edge_def attestation_edge_def rule_edges_def entry_edges_def span_edge_def)

lemma projected_contains:
  "edge_label (regime_edge hex a) \<noteq> Contains" "edge_label (attestation_edge hex i) \<noteq> Contains"
  "(\<exists>e\<in>set (rule_edges hex r). edge_label e = Contains \<and> edge_from e = n \<and> edge_to e = m) \<longleftrightarrow>
     n = hex \<and> m = rule_node_id hex (rule_id r)"
  "e \<in> set (entry_edges hex i') \<Longrightarrow> edge_label e \<noteq> Contains"
  by (auto simp: regime_edge_def attestation_edge_def rule_edges_def entry_edges_def span_edge_def)

lemma projected_attested:
  "edge_label (regime_edge hex a) \<noteq> AttestedBy" "edge_label (attestation_edge hex i) = AttestedBy"
  "e \<in> set (rule_edges hex r) \<Longrightarrow> edge_label e \<noteq> AttestedBy"
  "e \<in> set (entry_edges hex i') \<Longrightarrow> edge_label e \<noteq> AttestedBy"
  by (auto simp: regime_edge_def attestation_edge_def rule_edges_def entry_edges_def span_edge_def)

lemma set_dedup [simp]: "set (dedup xs) = set xs"
  by (simp add: dedup_def)

lemma rule_graph_edges:
  assumes "art_payload a = PayloadRules rules" "indexed a"
  shows "set (graph_edges (extract_graph a)) =
     {regime_edge (artifact_hex a) a} \<union> attestation_edge (artifact_hex a) ` {..<length (art_attestations a)}
     \<union> (\<Union>r\<in>set rules. set (rule_edges (artifact_hex a) r))
     \<union> (\<Union>i\<in>set (build_span_index rules). set (entry_edges (artifact_hex a) i))"
  using assms by (auto simp: extract_edges indexed_def)

lemma bex_span_index:
  "(\<exists>i\<in>set (build_span_index rules). P i) \<longleftrightarrow>
     (\<exists>r\<in>set rules. P \<lparr>sie_rule_id = rule_id r, sie_spans = collect_rule_spans r\<rparr>)"
  by (simp add: build_span_index_def)

lemma citing_rules:
  assumes "art_payload a = PayloadRules rules" "indexed a"
  shows "(\<exists>e\<in>set (graph_edges (extract_graph a)). cites_document d article e \<and> edge_from e = n) \<longleftrightarrow>
     (\<exists>r\<in>set rules. refers_to r d article \<and> n = rule_node_id (artifact_hex a) (rule_id r))"
  unfolding rule_graph_edges[OF assms]
  by (simp add: bex_Un bex_UN projected_cites bex_span_index refers_to_def) blast

lemma contained_rules:
  assumes "art_payload a = PayloadRules rules" "indexed a"
  shows "(\<exists>e\<in>set (graph_edges (extract_graph a)). edge_label e = Contains \<and> edge_from e = n \<and> edge_to e = m) \<longleftrightarrow>
     n = artifact_hex a \<and> (\<exists>r\<in>set rules. m = rule_node_id (artifact_hex a) (rule_id r))"
  unfolding rule_graph_edges[OF assms]
  by (simp add: bex_Un bex_UN projected_contains)

lemma attested_nodes:
  assumes "art_payload a = PayloadRules rules" "indexed a"
  shows "(\<exists>e\<in>set (graph_edges (extract_graph a)). edge_label e = AttestedBy \<and> edge_from e = n \<and> edge_to e = m) \<longleftrightarrow>
     n = artifact_hex a \<and> (\<exists>i<length (art_attestations a). m = attestation_node_id (artifact_hex a) i)"
  unfolding rule_graph_edges[OF assms]
  by (simp add: bex_Un bex_UN projected_attested) (auto simp: attestation_edge_def dest: projected_attested(3,4))

lemma intent_graph_edges:
  assumes "art_payload a = PayloadIntentSpec spec"
  shows "set (graph_edges (extract_graph a)) =
     {regime_edge (artifact_hex a) a} \<union> attestation_edge (artifact_hex a) ` {..<length (art_attestations a)}
     \<union> {intent_edge (artifact_hex a) spec}
     \<union> span_edge (intent_node_id (artifact_hex a) (action_class spec)) ` set (intent_source_spans spec)"
  using assms by (auto simp: extract_edges)

text \<open>The three steps of the query, on a set of edges.\<close>

definition citing_nodes :: "edge set \<Rightarrow> string \<Rightarrow> string option \<Rightarrow> string set" where
  "citing_nodes E d article = {n. \<exists>e\<in>E. cites_document d article e \<and> edge_from e = n}"

definition containing :: "edge set \<Rightarrow> string set \<Rightarrow> string set" where
  "containing E N = {n. \<exists>m\<in>N. \<exists>e\<in>E. edge_label e = Contains \<and> edge_from e = n \<and> edge_to e = m}"

definition attesting :: "edge set \<Rightarrow> string set \<Rightarrow> string set" where
  "attesting E N = {m. \<exists>n\<in>N. \<exists>e\<in>E. edge_label e = AttestedBy \<and> edge_from e = n \<and> edge_to e = m}"

definition reached_by_citation :: "edge set \<Rightarrow> string \<Rightarrow> string option \<Rightarrow> string set" where
  "reached_by_citation E d article =
     citing_nodes E d article \<union> containing E (citing_nodes E d article)
     \<union> attesting E (containing E (citing_nodes E d article))"

lemma blast_radius_set:
  "set (blast_radius g d article) = reached_by_citation (set (graph_edges g)) d article"
  unfolding blast_radius_def Let_def set_dedup set_append set_map set_filter reached_by_citation_def
    citing_nodes_def containing_def attesting_def by blast

text \<open>What an artifact loses when the document changes: its rules, or its IntentSpec, that refer
  to the document; if there is one, itself and its attestations.\<close>

definition referring_nodes :: "artifact \<Rightarrow> string \<Rightarrow> string option \<Rightarrow> string set" where
  "referring_nodes a d article =
     (case art_payload a of
        PayloadRules rules \<Rightarrow>
          (\<lambda>r. rule_node_id (artifact_hex a) (rule_id r)) ` {r \<in> set rules. refers_to r d article}
      | PayloadIntentSpec spec \<Rightarrow>
          (if \<exists>sp\<in>set (intent_source_spans spec). span_document_id sp = d \<and> at_article article (span_article sp)
           then {intent_node_id (artifact_hex a) (action_class spec)} else {}))"

definition impact :: "artifact \<Rightarrow> string \<Rightarrow> string option \<Rightarrow> string set" where
  "impact a d article =
     (let hit = referring_nodes a d article in
      hit \<union> (if hit = {} then {} else insert (artifact_hex a)
          (attestation_node_id (artifact_hex a) ` {..<length (art_attestations a)})))"

lemma impact_parts:
  assumes "citing_nodes E d article = referring_nodes a d article"
    and "\<And>n m. (\<exists>e\<in>E. edge_label e = Contains \<and> edge_from e = n \<and> edge_to e = m) \<longleftrightarrow> n = artifact_hex a \<and> m \<in> M"
    and "referring_nodes a d article \<subseteq> M"
    and "\<And>n m. (\<exists>e\<in>E. edge_label e = AttestedBy \<and> edge_from e = n \<and> edge_to e = m) \<longleftrightarrow>
       n = artifact_hex a \<and> (\<exists>i<length (art_attestations a). m = attestation_node_id (artifact_hex a) i)"
  shows "reached_by_citation E d article = impact a d article"
proof -
  let ?hit = "referring_nodes a d article"
  have arts: "containing E ?hit = (if ?hit = {} then {} else {artifact_hex a})"
    unfolding containing_def assms(2) using assms(3) by auto
  have "attesting E (containing E ?hit)
      = (if ?hit = {} then {} else attestation_node_id (artifact_hex a) ` {..<length (art_attestations a)})"
    unfolding attesting_def assms(4) arts by auto
  then show ?thesis
    unfolding reached_by_citation_def impact_def Let_def assms(1) arts by simp
qed

lemma artifact_impact:
  assumes "indexed a"
  shows "reached_by_citation (set (graph_edges (extract_graph a))) d article = impact a d article"
proof (cases "art_payload a")
  case (PayloadRules rules)
  show ?thesis
  proof (rule impact_parts)
    show "citing_nodes (set (graph_edges (extract_graph a))) d article = referring_nodes a d article"
      unfolding citing_nodes_def citing_rules[OF PayloadRules assms] referring_nodes_def by (auto simp: PayloadRules)
    show "(\<exists>e\<in>set (graph_edges (extract_graph a)). edge_label e = Contains \<and> edge_from e = n \<and> edge_to e = m) \<longleftrightarrow>
        n = artifact_hex a \<and> m \<in> (\<lambda>r. rule_node_id (artifact_hex a) (rule_id r)) ` set rules" for n m
      unfolding contained_rules[OF PayloadRules assms] by blast
  qed (auto simp: attested_nodes[OF PayloadRules assms] referring_nodes_def PayloadRules)
next
  case (PayloadIntentSpec spec)
  note edges = intent_graph_edges[OF PayloadIntentSpec]
  show ?thesis
  proof (rule impact_parts)
    show "citing_nodes (set (graph_edges (extract_graph a))) d article = referring_nodes a d article"
    proof (rule set_eqI)
      fix n
      have "n \<in> citing_nodes (set (graph_edges (extract_graph a))) d article \<longleftrightarrow>
          (\<exists>sp\<in>set (intent_source_spans spec). span_document_id sp = d \<and> at_article article (span_article sp)
             \<and> intent_node_id (artifact_hex a) (action_class spec) = n)"
        unfolding citing_nodes_def edges
        by (simp add: bex_Un projected_cites(1,2) span_edge_def intent_edge_def cites_label)
      then show "n \<in> citing_nodes (set (graph_edges (extract_graph a))) d article \<longleftrightarrow> n \<in> referring_nodes a d article"
        by (auto simp: referring_nodes_def PayloadIntentSpec)
    qed
    show "(\<exists>e\<in>set (graph_edges (extract_graph a)). edge_label e = Contains \<and> edge_from e = n \<and> edge_to e = m) \<longleftrightarrow>
        n = artifact_hex a \<and> m \<in> {intent_node_id (artifact_hex a) (action_class spec)}" for n m
      unfolding edges by (auto simp: projected_contains(1,2) span_edge_def intent_edge_def)
    show "(\<exists>e\<in>set (graph_edges (extract_graph a)). edge_label e = AttestedBy \<and> edge_from e = n \<and> edge_to e = m) \<longleftrightarrow>
       n = artifact_hex a \<and> (\<exists>i<length (art_attestations a). m = attestation_node_id (artifact_hex a) i)" for n m
      unfolding edges
      by (simp add: bex_Un projected_attested(1) span_edge_def intent_edge_def) (auto simp: attestation_edge_def)
  qed (auto simp: referring_nodes_def PayloadIntentSpec)
qed

text \<open>Conflict edges play no part.\<close>

lemma reached_by_citation_conflicts:
  assumes "\<forall>e\<in>C. edge_label e = ConflictsWith"
  shows "reached_by_citation (E \<union> C) d article = reached_by_citation E d article"
proof -
  have "citing_nodes (E \<union> C) d article = citing_nodes E d article"
    using assms by (fastforce simp: citing_nodes_def cites_document_def)
  moreover have "containing (E \<union> C) N = containing E N" "attesting (E \<union> C) N = attesting E N" for N
    using assms by (auto simp: containing_def attesting_def)
  ultimately show ?thesis by (simp add: reached_by_citation_def)
qed

text \<open>The nodes an artifact brings start with its own hash, so the impacts of several artifacts do
  not mix.\<close>

definition own_edge :: "string \<Rightarrow> edge \<Rightarrow> bool" where
  "own_edge hex e \<longleftrightarrow>
     (edge_label e \<in> {Cites, Spans} \<longrightarrow> take (length hex) (edge_from e) = hex)
     \<and> (edge_label e = Contains \<longrightarrow> edge_from e = hex \<and> take (length hex) (edge_to e) = hex)
     \<and> (edge_label e = AttestedBy \<longrightarrow> edge_from e = hex)"

lemma own_edges: "e \<in> set (graph_edges (extract_graph a)) \<Longrightarrow> own_edge (artifact_hex a) e"
  by (auto simp: extract_edges own_edge_def edge_shapes rule_node_id_def intent_node_id_def
      split: artifact_payload.splits)

lemma reached_by_citation_union:
  assumes "\<And>h e. h \<in> S \<Longrightarrow> e \<in> E h \<Longrightarrow> own_edge (hex h) e"
    and "\<And>h. length (hex h) = n" "inj_on hex S"
  shows "reached_by_citation (\<Union>h\<in>S. E h) d article = (\<Union>h\<in>S. reached_by_citation (E h) d article)"
proof -
  have citing: "citing_nodes (\<Union>h\<in>S. E h) d article = (\<Union>h\<in>S. citing_nodes (E h) d article)"
    unfolding citing_nodes_def by blast
  have own: "take n m = hex h" if "h \<in> S" "m \<in> citing_nodes (E h) d article" for h m
    using that assms(1)[OF that(1)] assms(2)[of h] by (auto simp: citing_nodes_def cites_document_def own_edge_def)
  have contain: "containing (E g) (citing_nodes (E h) d article) \<subseteq> {hex h}"
    "g \<noteq> h \<Longrightarrow> containing (E g) (citing_nodes (E h) d article) = {}" if "g \<in> S" "h \<in> S" for g h
  proof -
    have "n' = hex h \<and> hex g = hex h" if n': "n' \<in> containing (E g) (citing_nodes (E h) d article)" for n'
    proof -
      obtain e where e: "e \<in> E g" "edge_label e = Contains" "edge_from e = n'"
        "edge_to e \<in> citing_nodes (E h) d article"
        using n' by (auto simp: containing_def)
      have "n' = hex g" "take n (edge_to e) = hex g"
        using assms(1)[OF \<open>g \<in> S\<close> e(1)] e(2,3) assms(2)[of g] by (auto simp: own_edge_def)
      then show ?thesis using own[OF \<open>h \<in> S\<close> e(4)] by simp
    qed
    then show "containing (E g) (citing_nodes (E h) d article) \<subseteq> {hex h}"
      "g \<noteq> h \<Longrightarrow> containing (E g) (citing_nodes (E h) d article) = {}"
      using assms(3) that by (auto dest: inj_onD)
  qed
  have arts: "containing (\<Union>h\<in>S. E h) (\<Union>h\<in>S. citing_nodes (E h) d article)
      = (\<Union>h\<in>S. containing (E h) (citing_nodes (E h) d article))"
  proof -
    have "containing (\<Union>h\<in>S. E h) (\<Union>h\<in>S. citing_nodes (E h) d article)
        = (\<Union>g\<in>S. \<Union>h\<in>S. containing (E g) (citing_nodes (E h) d article))"
      unfolding containing_def by blast
    also have "\<dots> = (\<Union>h\<in>S. containing (E h) (citing_nodes (E h) d article))"
      using contain(2) by blast
    finally show ?thesis .
  qed
  have "attesting (\<Union>h\<in>S. E h) (\<Union>h\<in>S. containing (E h) (citing_nodes (E h) d article))
      = (\<Union>h\<in>S. attesting (E h) (containing (E h) (citing_nodes (E h) d article)))"
  proof
    show "attesting (\<Union>h\<in>S. E h) (\<Union>h\<in>S. containing (E h) (citing_nodes (E h) d article))
      \<subseteq> (\<Union>h\<in>S. attesting (E h) (containing (E h) (citing_nodes (E h) d article)))"
    proof
      fix m assume "m \<in> attesting (\<Union>h\<in>S. E h) (\<Union>h\<in>S. containing (E h) (citing_nodes (E h) d article))"
      then obtain g h e where e: "g \<in> S" "h \<in> S" "e \<in> E g" "edge_label e = AttestedBy"
        "edge_from e \<in> containing (E h) (citing_nodes (E h) d article)" "edge_to e = m"
        by (auto simp: attesting_def)
      then have "edge_from e = hex g" "edge_from e = hex h"
        using assms(1)[OF e(1,3)] contain(1)[OF e(2,2)] by (auto simp: own_edge_def)
      then have "g = h" using assms(3) e(1,2) by (auto dest: inj_onD)
      then show "m \<in> (\<Union>h\<in>S. attesting (E h) (containing (E h) (citing_nodes (E h) d article)))"
        using e unfolding attesting_def by blast
    qed
  qed (unfold attesting_def, blast)
  then show ?thesis unfolding reached_by_citation_def citing arts by blast
qed

section \<open>The search\<close>

definition steps :: "(string \<Rightarrow> string list) \<Rightarrow> (string \<times> string) set" where
  "steps adj = {(x, y). y \<in> set (adj x)}"

text \<open>One visit adds the new neighbours to both the reached set and the queue.\<close>

lemma visit_result:
  assumes "set queue \<subseteq> reached"
  shows "\<exists>new. visit reached queue xs = (reached \<union> set xs, queue @ new)
    \<and> set new = set xs - reached \<and> distinct new"
  using assms
proof (induction xs arbitrary: reached queue)
  case (Cons x xs)
  show ?case
  proof (cases "x \<in> reached")
    case True
    with Cons show ?thesis by (auto simp: insert_absorb)
  next
    case False
    have "set (queue @ [x]) \<subseteq> insert x reached" using Cons.prems by auto
    from Cons.IH[OF this] obtain new where
      "visit (insert x reached) (queue @ [x]) xs = (insert x reached \<union> set xs, (queue @ [x]) @ new)"
      "set new = set xs - insert x reached" "distinct new" by blast
    with False show ?thesis by (intro exI[of _ "x # new"]) auto
  qed
qed simp

lemma closed_closure:
  assumes "\<forall>x\<in>S. set (adj x) \<subseteq> S"
  shows "(steps adj)\<^sup>* `` S = S"
proof
  show "(steps adj)\<^sup>* `` S \<subseteq> S"
  proof
    fix y assume "y \<in> (steps adj)\<^sup>* `` S"
    then obtain x where "x \<in> S" "(x, y) \<in> (steps adj)\<^sup>*" by blast
    from this(2,1) show "y \<in> S"
      by (induction rule: rtrancl_induct) (use assms in \<open>auto simp: steps_def\<close>)
  qed
qed blast

lemma closure_visit:
  assumes "n \<in> S"
  shows "(steps adj)\<^sup>* `` (S \<union> set (adj n)) = (steps adj)\<^sup>* `` S"
proof -
  have "(n, y) \<in> (steps adj)\<^sup>*" if "y \<in> set (adj n)" for y
    using that by (auto simp: steps_def)
  then show ?thesis using assms by (blast intro: rtrancl_trans)
qed

text \<open>The queue shrinks by one per round and grows only by nodes that were not reached before,
  so over a finite set of nodes the search returns, with everything that can be reached.\<close>

lemma bfs_closure:
  assumes "finite U" "\<forall>x\<in>U. set (adj x) \<subseteq> U"
    and "set queue \<subseteq> reached" "reached \<subseteq> U" "\<forall>x\<in>reached - set queue. set (adj x) \<subseteq> reached"
  shows "bfs adj reached queue = Some ((steps adj)\<^sup>* `` reached)"
  using assms(3-5)
proof (induction "2 * card (U - reached) + length queue" arbitrary: reached queue rule: less_induct)
  case less
  show ?case
  proof (cases queue)
    case Nil
    with less.prems(3) show ?thesis by (simp add: bfs.simps[of adj reached] closed_closure)
  next
    case (Cons n rest)
    let ?reached = "reached \<union> set (adj n)"
    from less.prems(1) Cons have "set rest \<subseteq> reached" "n \<in> reached" by auto
    from visit_result[OF this(1), of "adj n"] obtain new where
      v: "visit reached rest (adj n) = (?reached, rest @ new)"
      and new: "set new = set (adj n) - reached" "distinct new" by blast
    have sub: "set (adj n) \<subseteq> U" using assms(2) less.prems(2) \<open>n \<in> reached\<close> by blast
    have "U - reached = (U - ?reached) \<union> set new" "(U - ?reached) \<inter> set new = {}"
      using sub new by auto
    then have "card (U - reached) = card (U - ?reached) + length new"
      using assms(1) new(2) by (metis card_Un_disjoint distinct_card finite_Diff finite_Un)
    then have smaller: "2 * card (U - ?reached) + length (rest @ new) < 2 * card (U - reached) + length queue"
      using Cons by simp
    have "set (rest @ new) \<subseteq> ?reached" "?reached \<subseteq> U"
      "\<forall>x\<in>?reached - set (rest @ new). set (adj x) \<subseteq> ?reached"
      using \<open>set rest \<subseteq> reached\<close> new sub less.prems Cons by auto
    from less.hyps[OF smaller this] show ?thesis
      using closure_visit[OF \<open>n \<in> reached\<close>] by (simp add: bfs.simps[of adj reached] Cons v)
  qed
qed

section \<open>The conflict exposure\<close>

definition citation_links :: "graph \<Rightarrow> (string \<times> string) set" where
  "citation_links g = {(x, y). \<exists>e\<in>set (graph_edges g). edge_label e \<in> {Cites, Spans}
     \<and> (x = edge_from e \<and> y = edge_to e \<or> x = edge_to e \<and> y = edge_from e)}"

lemma adjacent_links: "steps (adjacent g) = citation_links g"
proof -
  let ?add = "\<lambda>e m. if edge_label e = Cites \<or> edge_label e = Spans
       then push_adjacent (edge_to e) (edge_from e) (push_adjacent (edge_from e) (edge_to e) m) else m"
  have "set (fold ?add es m x) = set (m x) \<union> {y. \<exists>e\<in>set es. edge_label e \<in> {Cites, Spans}
     \<and> (x = edge_from e \<and> y = edge_to e \<or> x = edge_to e \<and> y = edge_from e)}" for es m x
    by (induction es arbitrary: m) (auto simp: push_adjacent_def)
  from this[of "graph_edges g" "\<lambda>_. []"] show ?thesis
    unfolding steps_def adjacent_def citation_links_def by simp
qed

lemma search_returns:
  "bfs (adjacent g) (set queue) queue = Some ((citation_links g)\<^sup>* `` set queue)"
proof -
  let ?U = "set queue \<union> edge_from ` set (graph_edges g) \<union> edge_to ` set (graph_edges g)"
  have "\<forall>x\<in>?U. set (adjacent g x) \<subseteq> ?U"
  proof (intro ballI subsetI)
    fix x y assume "y \<in> set (adjacent g x)"
    then have "(x, y) \<in> citation_links g" by (simp add: steps_def flip: adjacent_links)
    then show "y \<in> ?U" by (auto simp: citation_links_def)
  qed
  from bfs_closure[OF _ this, of queue "set queue"] show ?thesis by (auto simp: adjacent_links)
qed

text \<open>The two rules conflict, in either direction of the stored edge.\<close>

definition conflict_link :: "graph \<Rightarrow> string \<Rightarrow> string \<Rightarrow> bool" where
  "conflict_link g b c \<longleftrightarrow> (\<exists>e\<in>set (graph_edges g). edge_label e = ConflictsWith
     \<and> (b = edge_from e \<and> c = edge_to e \<or> b = edge_to e \<and> c = edge_from e))"

lemma edge_hops_set: "c \<in> set (edge_hops g reached regime e) \<longleftrightarrow>
    (\<exists>b\<in>reached. (b = edge_from e \<and> c = edge_to e \<or> b = edge_to e \<and> c = edge_from e) \<and> in_regime g c regime)"
  by (auto simp: edge_hops_def)

lemma conflict_hops_set:
  "set (conflict_hops g reached regime) = {c. \<exists>b\<in>reached. conflict_link g b c \<and> in_regime g c regime}"
proof -
  have "c \<in> set (conflict_hops g reached regime) \<longleftrightarrow>
      (\<exists>e\<in>set (graph_edges g). edge_label e = ConflictsWith \<and> c \<in> set (edge_hops g reached regime e))" for c
    by (auto simp: conflict_hops_def)
  then show ?thesis unfolding edge_hops_set conflict_link_def by blast
qed

lemma dedup_sorted [simp]: "sorted (dedup xs)" "distinct (dedup xs)"
proof -
  show "sorted (dedup xs)" by (simp add: dedup_def)
  have "distinct (remdups_adj ys)" if "sorted ys" for ys :: "string list"
    using that by (induction ys rule: remdups_adj.induct) (auto simp: order.antisym)
  then show "distinct (dedup xs)" by (simp add: dedup_def)
qed

lemma exposure_returns:
  "\<exists>out. conflict_exposure g source target = Some out \<and> sorted out \<and> distinct out
     \<and> set out = {c. \<exists>r b. r \<in> set (regime_rules g source) \<and> (r, b) \<in> (citation_links g)\<^sup>*
          \<and> conflict_link g b c \<and> in_regime g c target}"
  by (auto simp: conflict_exposure_def Let_def search_returns conflict_hops_set)

section \<open>Properties\<close>

text \<open>C36: the conflict exposure query returns on every graph, cyclic ones included, with the
  rules of the target regime, sorted and without duplicates, that are one conflict edge, in
  either direction, away from a node the citation links connect to a rule of the source regime.\<close>

theorem conflict_exposure_returns:
  "\<exists>out. conflict_exposure g source target = Some out \<and> sorted out \<and> distinct out
     \<and> set out = {c. \<exists>r b. r \<in> set (regime_rules g source) \<and> (r, b) \<in> (citation_links g)\<^sup>*
          \<and> conflict_link g b c \<and> in_regime g c target}"
  by (rule exposure_returns)

text \<open>C38: a rendered literal is closed by its own quote and nothing before it: read back by the
  literal's rules it is the string it was made from, whatever follows.\<close>

theorem cypher_literal_reads_back:
  "cypher_str s @ rest = quote_char # body \<Longrightarrow> read_literal body = Some (s, rest)"
  using read_escaped[of s rest] by (simp add: cypher_str_def)

lemma cypher_literal_reads_back_witness:
  "read_literal (tl (cypher_str ''it's'' @ '');'')) = Some (''it's'', '');'')"
proof -
  have "cypher_str ''it's'' @ '');'' = quote_char # tl (cypher_str ''it's'' @ '');'')"
    by code_simp
  then show ?thesis by (rule cypher_literal_reads_back)
qed

text \<open>Ids are not unique across labels: a regime may be named like a document it cites, and an
  edge between the two ids then has two possible ends.\<close>

lemma node_ids_not_unique:
  assumes "art_payload a = PayloadRules [r]" "doc_document_id (rule_source r) = regime_id (art_manifest a)"
  shows "\<exists>i. (NRegime, i) \<in> node_keys (extract_graph a) \<and> (NCorpusDoc, i) \<in> node_keys (extract_graph a)"
  using assms by (auto simp: extract_keys)

end
