(* ===== verification/Consumer.thy ===== *)
theory Consumer
  imports Registry
begin

text \<open>
  How the read-only commands verify a stored artifact: the key directory, the supported policy
  versions and the context that \<open>serve/handlers.rs\<close> and \<open>commands/graph_export.rs\<close> (both under
  \<open>src/crates/ke-cli/src\<close>) build from the artifact itself. Shown: for bytes of a sound registry
  the verdict depends on the attestation set and the registry state alone.
\<close>

section \<open>The order of attestation types\<close>

fun attestation_rank :: "attestation_type \<Rightarrow> nat" where
  "attestation_rank SourceFidelity = 0"
| "attestation_rank Interpretation = 1"
| "attestation_rank ScenarioCoverage = 2"
| "attestation_rank EquivalenceClaim = 3"
| "attestation_rank PublicationApproval = 4"

lemma attestation_rank_inj [simp]: "attestation_rank a = attestation_rank b \<longleftrightarrow> a = b"
  by (cases a; cases b) simp_all

instantiation attestation_type :: linorder
begin
definition less_eq_attestation_type :: "attestation_type \<Rightarrow> attestation_type \<Rightarrow> bool" where
  "less_eq_attestation_type a b = (attestation_rank a \<le> attestation_rank b)"
definition less_attestation_type :: "attestation_type \<Rightarrow> attestation_type \<Rightarrow> bool" where
  "less_attestation_type a b = (attestation_rank a < attestation_rank b)"
instance
  by standard (auto simp: less_eq_attestation_type_def less_attestation_type_def less_le_not_le dest: order.antisym)
end

section \<open>Directory and context\<close>

definition test_key_directory :: "crypto \<Rightarrow> artifact \<Rightarrow> key_directory" where
  "test_key_directory K a =
     (let authorized_types = remdups_adj (sort (map att_type (art_attestations a))) in
      [\<lparr>kd_key_id = TEST_KEY_ID, kd_public_key = ed_public K FIXED_SEED,
        kd_signer_roles = [RegistryRole], kd_authorized_types = [],
        kd_valid_from_unix = 0, kd_valid_to_unix = - 1, kd_status = KeyActive,
        kd_revoked_at_unix = None, kd_revocation_reason = None, kd_revocation_event_hash = None\<rparr>,
       \<lparr>kd_key_id = TEST_EXPERT_KEY_ID, kd_public_key = ed_public K EXPERT_FIXED_SEED,
        kd_signer_roles = [DomainExpert, PublicationApprover], kd_authorized_types = authorized_types,
        kd_valid_from_unix = 0, kd_valid_to_unix = - 1, kd_status = KeyActive,
        kd_revoked_at_unix = None, kd_revocation_reason = None, kd_revocation_event_hash = None\<rparr>])"

definition supported_versions :: "artifact \<Rightarrow> string list" where
  "supported_versions a = remdups_adj (sort (map att_policy_version (art_attestations a)))"

definition consumer_context :: "artifact \<Rightarrow> string \<Rightarrow> 64 word \<Rightarrow> policy_context" where
  "consumer_context a env now =
     \<lparr>ctx_environment = env, ctx_now_unix = now,
      ctx_supported_policy_versions = supported_versions a, ctx_current_legal_source_hash = None\<rparr>"

lemma consumer_context_sel:
  "ctx_environment (consumer_context a env now) = env" "ctx_now_unix (consumer_context a env now) = now"
  "ctx_supported_policy_versions (consumer_context a env now) = supported_versions a"
  "ctx_current_legal_source_hash (consumer_context a env now) = None"
  by (simp_all add: consumer_context_def)

lemma local_policy_context_sel:
  "ctx_environment (local_policy_context now) = ''local''" "ctx_now_unix (local_policy_context now) = now"
  "ctx_supported_policy_versions (local_policy_context now) = [ATTESTATION_POLICY_VERSION]"
  "ctx_current_legal_source_hash (local_policy_context now) = None"
  by (simp_all add: local_policy_context_def)

definition consumer_verify ::
    "toolchain \<Rightarrow> bytes \<Rightarrow> artifact \<Rightarrow> string \<Rightarrow> verification_policy \<Rightarrow> registry_evidence \<Rightarrow> 64 word
     \<Rightarrow> verification_outcome" where
  "consumer_verify T kew a env policy ev now =
     verify_artifact (tc_lib T) (tc_crypto T) (tc_artifacts T) kew (test_key_directory (tc_crypto T) a)
       (consumer_context a env now) policy ev now"

section \<open>What decides the verdict\<close>

definition set_accepted ::
    "toolchain \<Rightarrow> artifact \<Rightarrow> string \<Rightarrow> verification_policy \<Rightarrow> 64 word \<Rightarrow> bool" where
  "set_accepted T a env policy now \<longleftrightarrow>
     verify_attestation_set (tc_crypto T) (tc_artifacts T) a policy (test_key_directory (tc_crypto T) a)
       (consumer_context a env now) = Inr ()"

lemma consumer_verdict:
  assumes "toolchain_law T" "genuine T h kew" "decodes T kew a"
  shows "out_verdict (consumer_verify T kew a env policy ev now) = Verified \<longleftrightarrow>
     set_accepted T a env policy now \<and> evidence_live ev"
proof -
  obtain n where g: "decode_artifact (tc_lib T) (tc_artifacts T) kew = Inr (a, n)"
    "verify_hash (tc_lib T) (tc_crypto T) (tc_artifacts T) kew = Inr h"
    "cs_key_id (art_compiler_signature a) = TEST_KEY_ID"
    "verify_signature (tc_crypto T) (take n kew) (art_compiler_signature a) (ed_public (tc_crypto T) FIXED_SEED) = Inr ()"
    using assms(2,3) by (auto simp: genuine_def decodes_def)
  have "content_hash (tc_crypto T) (tc_artifacts T) (take n kew) = Inr (artifact_hash (art_manifest a))"
    using verify_hash_decoded[OF g(1)] g(2) by auto
  moreover have "ed_point (tc_crypto T) (ed_public (tc_crypto T) FIXED_SEED)"
    using toolchain_laws(4)[OF assms(1)] by (simp add: crypto_law_def)
  moreover have "\<exists>e. keydir_lookup (test_key_directory (tc_crypto T) a) TEST_KEY_ID = Some e
      \<and> kd_public_key e = ed_public (tc_crypto T) FIXED_SEED"
    by (simp add: keydir_lookup_def test_key_directory_def Let_def)
  ultimately show ?thesis
    using g(4) unfolding consumer_verify_def verified_artifact set_accepted_def
    by (auto simp: g(1,3) verify_signature_ok)
qed

lemma consumer_state [simp]: "out_registry_state (consumer_verify T kew a env policy ev now) = ev_status ev"
  by (simp add: consumer_verify_def verify_artifact_def split: sum.splits prod.splits)

lemma published_status:
  "(case st of Some s \<Rightarrow> status_for s | None \<Rightarrow> StatusUnknown) = StatusPublished \<longleftrightarrow> st = Some Published"
  by (cases st) (auto split: option.splits elim: status_for.elims)

text \<open>The directory and the context are built from the artifact, so what the publish command
  accepted under its fixed directory is accepted by a local consumer.\<close>

lemma consumer_accepts_attestation:
  assumes law: "artifact_codec_law (tc_artifacts T)" and t: "t \<in> set (art_attestations a)"
    and ok: "verify_attestation (tc_crypto T) (tc_artifacts T) t h m (test_expert_key_directory (tc_crypto T))
      (local_policy_context now) = Inr ()"
  shows "verify_attestation (tc_crypto T) (tc_artifacts T) t h m (test_key_directory (tc_crypto T) a)
      (consumer_context a ''local'' now) = Inr ()"
proof -
  obtain bs where bs: "to_stdvec (pc_attestation_payload (tc_artifacts T)) (attestation_payload.truncate t) = Inr bs"
    using artifact_codec_laws(6)[OF law, THEN codec_law_enc] by blast
  obtain e where e: "keydir_lookup (test_expert_key_directory (tc_crypto T)) (att_key_id t) = Some e"
    using verify_attestation_known[OF ok] by blast
  then have kid: "att_key_id t = TEST_EXPERT_KEY_ID" and
    pk: "kd_public_key e = ed_public (tc_crypto T) EXPERT_FIXED_SEED"
    "kd_signer_roles e = [DomainExpert, PublicationApprover]" "kd_valid_from_unix e = 0" "kd_valid_to_unix e = - 1"
    by (auto simp: keydir_lookup_def test_expert_key_directory_def split: if_splits)
  obtain e' where e': "keydir_lookup (test_key_directory (tc_crypto T) a) (att_key_id t) = Some e'"
    "kd_public_key e' = kd_public_key e" "kd_signer_roles e' = kd_signer_roles e" "kd_status e' = KeyActive"
    "kd_valid_from_unix e' = 0" "kd_valid_to_unix e' = - 1" "set (kd_authorized_types e') = att_type ` set (art_attestations a)"
    by (auto simp: keydir_lookup_def test_key_directory_def Let_def kid pk TEST_KEY_ID_def TEST_EXPERT_KEY_ID_def)
  have member: "att_type t \<in> att_type ` set (art_attestations a)"
    "att_policy_version t \<in> set (supported_versions a)"
    using t by (auto simp: supported_versions_def)
  note ctx = local_policy_context_sel[of now] consumer_context_sel[of a "''local''" now]
  show ?thesis
    using ok member unfolding verify_attestation_Inr[OF law e bs] verify_attestation_Inr[OF law e'(1) bs]
    by (cases "att_expiration t") (auto simp: acceptance_defs e' pk ctx is_local_def)
qed

lemma published_set_accepted:
  assumes "toolchain_law T"
    and "verify_attestation_set (tc_crypto T) (tc_artifacts T) a policy (test_expert_key_directory (tc_crypto T))
      (local_policy_context now) = Inr ()"
  shows "set_accepted T a ''local'' policy now"
  using assms(2) consumer_accepts_attestation[OF toolchain_laws(1)[OF assms(1)]]
  unfolding set_accepted_def attestation_set_accepted[OF toolchain_laws(1)[OF assms(1)]] by blast

section \<open>A published sample\<close>

lemma sample_published:
  obtains s h kew a where "s = run_all sample_toolchain (local_registry sample_toolchain) (sample_session h) (empty_store [])"
    "fs_invar s" "st_io s = []" "sound sample_toolchain (fs_view s)"
    "last_state (vw_log (fs_view s) h) = Some Published" "vw_kew (fs_view s) h = Some kew"
    "decodes sample_toolchain kew a" "artifact_hash (art_manifest a) = h"
    "set_accepted sample_toolchain a ''local'' (policy_for_kind (artifact_kind (art_manifest a))) 11"
    "art_payload a = PayloadRules [sample_rule_with [''a'', ''b''] 9 1]" "artifact_kind (art_manifest a) = RegimePack"
proof -
  let ?T = sample_toolchain
  obtain s h kew a where r: "fs_invar s" "st_io s = []" "sound ?T (fs_view s)"
    "last_state (vw_log (fs_view s) h) = Some StructurallyVerified" "vw_consistency (fs_view s) h = None"
    "vw_kew (fs_view s) h = Some kew" "decodes ?T kew a" "artifact_kind (art_manifest a) = RegimePack"
    "assemble_rules ?T sample_rules ''mica'' = Inr (a, kew)" "h = artifact_hash (art_manifest a)"
    and s: "s = snd (compile_rules_into ?T (local_registry ?T) sample_rules False ''mica'' 7 (empty_store []))"
    by (rule sample_registry)
  have payload: "art_payload a = PayloadRules [sample_rule_with [''a'', ''b''] 9 1]"
    using r(9) sample_payload_canonical
    by (auto simp: assemble_rules_def assemble_def assemble_payload_def sample_toolchain_def results Let_def
        sample_payload_def sample_rules_def split: if_splits)
  let ?types = "[SourceFidelity, ScenarioCoverage, PublicationApproval]"
  have types: "set (required_attestation_types (policy_for_kind (artifact_kind (art_manifest a)))) \<subseteq> set ?types"
    unfolding r(8) policy_for_kind_types by simp
  have clock: "9 \<noteq> (- 1 :: 64 word)" "10 \<noteq> (- 1 :: 64 word)" "11 \<noteq> (- 1 :: 64 word)" by simp_all
  obtain s1 s2 s3 x y z v3 kew' ts where c: "ml_check ?T (local_registry ?T) h 8 s = (Inr x, s1)"
    "attest ?T (local_registry ?T) h ?types 9 s1 = (Inr y, s2)"
    "publish ?T (local_registry ?T) h ''local'' ''current'' None 10 s2 = (Inr z, s3)"
    and v3: "fs_stands True v3 s3" "last_state (vw_log v3 h) = Some Published" "sound ?T v3" "vw_kew v3 h = Some kew'"
      "genuine ?T h kew'" "decodes ?T kew' (a\<lparr>art_attestations := ts\<rparr>)" "sign_all ?T (art_manifest a) 9 ?types = Inr ts"
    by (rule fs.release_commands[OF sample_toolchain_law(1) r(3) fs_stands_now[OF r(1,2)] sample_toolchain_law(2)
          r(4-7) types clock(1,2)])
  have now: "fs_view s3 = v3" "fs_invar s3" "st_io s3 = []" using v3(1) by (simp_all add: fs_stands_def fs_reliable_def)
  have run: "s3 = run_all ?T (local_registry ?T) (sample_session h) (empty_store [])"
    by (simp add: sample_session_def snd_ignore flip: s) (simp add: snd_ignore c)
  have "verify_attestation_set (tc_crypto ?T) (tc_artifacts ?T) (a\<lparr>art_attestations := ts\<rparr>)
      (policy_for_kind (artifact_kind (art_manifest a))) (test_expert_key_directory (tc_crypto ?T))
      (local_policy_context 11) = Inr ()"
    by (rule signed_set_accepted[OF sample_toolchain_law(1) test_directory_knows_expert clock(3) v3(7)])
      (use required_by_kind[OF types] in auto)
  then have "set_accepted ?T (a\<lparr>art_attestations := ts\<rparr>) ''local''
      (policy_for_kind (artifact_kind (art_manifest (a\<lparr>art_attestations := ts\<rparr>)))) 11"
    using published_set_accepted[OF sample_toolchain_law(1)] by simp
  then show ?thesis
    using that[OF run now(2,3) _ _ _ v3(6)] v3(2-4) r(8,10) payload unfolding now(1) by simp
qed

end
