(* ===== verification/Graph_Export.thy ===== *)
theory Graph_Export
  imports Graph Consumer
begin

text \<open>
  \<open>ke graph export\<close> (\<open>src/crates/ke-cli/src/commands/graph_export.rs\<close>) over any registry backend:
  every stored address is admitted or refused with a reason, the projections of the admitted
  artifacts are merged. The reasons are values here, the code renders them into the refusal
  log. Shown: what is exported and what is not, the export changes nothing, and the exported
  graph is well typed.
\<close>

section \<open>Admission\<close>

datatype refusal_reason =
    ReadFailed registry_error
  | DecodeFailed artifact_error
  | AddressMismatch hash32 hash32
  | NotPublished registry_status
  | VerifyRejected rejection_reason

datatype admission = Admitted artifact | Refused refusal_reason

record refusal =
  refused_hex :: string
  refused_reason :: refusal_reason

text \<open>\<open>match op { Ok(x) => ..., Err(e) => return Ok(...) }\<close>: the result becomes a value.\<close>

definition attempt :: "('s, 'e, 'a) action \<Rightarrow> ('s, 'f, 'e + 'a) action" where
  "attempt m = (\<lambda>s. case m s of (r, t) \<Rightarrow> (Inr r, t))"

definition admit ::
    "toolchain \<Rightarrow> 's backend \<Rightarrow> string \<Rightarrow> 64 word \<Rightarrow> hash32 \<Rightarrow> ('s, admission) registry_action" where
  "admit T B env now h =
     abind (attempt (be_read_artifact_kew B h)) (\<lambda>read.
     case read of
       Inl e \<Rightarrow> ret (Refused (ReadFailed e))
     | Inr kew \<Rightarrow>
         (case decode_artifact (tc_lib T) (tc_artifacts T) kew of
            Inl e \<Rightarrow> ret (Refused (DecodeFailed e))
          | Inr (a, _) \<Rightarrow>
              if artifact_hash (art_manifest a) \<noteq> h
              then ret (Refused (AddressMismatch (artifact_hash (art_manifest a)) h))
              else
              abind (read_registry_evidence T B h) (\<lambda>evidence.
              if ev_status evidence \<noteq> StatusPublished
              then ret (Refused (NotPublished (ev_status evidence)))
              else
              case out_verdict (consumer_verify T kew a env (policy_for_kind (artifact_kind (art_manifest a)))
                     evidence now) of
                Verified \<Rightarrow> ret (Admitted a)
              | Rejected reason \<Rightarrow> ret (Refused (VerifyRejected reason)))))"

section \<open>The export\<close>

definition project_artifact :: "string \<Rightarrow> artifact \<Rightarrow> graph" where
  "project_artifact hex a =
     (let g = extract_graph a in
      case art_payload a of
        PayloadRules rules \<Rightarrow> g\<lparr>graph_edges := graph_edges g @ conflict_edges hex rules\<rparr>
      | PayloadIntentSpec _ \<Rightarrow> g)"

record export_outcome =
  out_exported :: "hash32 list"
  out_refusals :: "refusal list"
  out_graph :: graph
  out_cypher :: string

definition record_admission :: "hash32 \<Rightarrow> admission \<Rightarrow> export_outcome \<Rightarrow> export_outcome" where
  "record_admission h adm out =
     (case adm of
        Refused reason \<Rightarrow>
          out\<lparr>out_refusals := out_refusals out @ [\<lparr>refused_hex = hex32 h, refused_reason = reason\<rparr>]\<rparr>
      | Admitted a \<Rightarrow>
          out\<lparr>out_graph := merge_graph (out_graph out) (project_artifact (hex32 h) a),
              out_exported := out_exported out @ [h]\<rparr>)"

fun export_all ::
    "toolchain \<Rightarrow> 's backend \<Rightarrow> string \<Rightarrow> 64 word \<Rightarrow> hash32 list \<Rightarrow> export_outcome
     \<Rightarrow> ('s, export_outcome) registry_action" where
  "export_all T B env now [] out = ret out"
| "export_all T B env now (h # hs) out =
     abind (admit T B env now h) (\<lambda>adm. export_all T B env now hs (record_admission h adm out))"

definition graph_export ::
    "toolchain \<Rightarrow> 's backend \<Rightarrow> string \<Rightarrow> 64 word \<Rightarrow> ('s, export_outcome) registry_action" where
  "graph_export T B env now =
     abind (be_list_addresses B) (\<lambda>addresses.
     abind (export_all T B env now addresses
       \<lparr>out_exported = [], out_refusals = [], out_graph = empty_graph, out_cypher = []\<rparr>) (\<lambda>out.
       ret (out\<lparr>out_cypher := render_cypher (out_graph out)\<rparr>)))"

section \<open>What is exported\<close>

text \<open>The artifact stored at the address is published and its attestations satisfy the policy of
  its kind.\<close>

definition exportable :: "toolchain \<Rightarrow> registry_view \<Rightarrow> string \<Rightarrow> 64 word \<Rightarrow> hash32 \<Rightarrow> artifact \<Rightarrow> bool" where
  "exportable T v env now h a \<longleftrightarrow>
     (\<exists>kew. vw_kew v h = Some kew \<and> decodes T kew a) \<and> last_state (vw_log v h) = Some Published
     \<and> set_accepted T a env (policy_for_kind (artifact_kind (art_manifest a))) now"

definition admission_ok ::
    "bool \<Rightarrow> toolchain \<Rightarrow> registry_view \<Rightarrow> string \<Rightarrow> 64 word \<Rightarrow> hash32 \<Rightarrow> admission \<Rightarrow> bool" where
  "admission_ok b T v env now h adm \<longleftrightarrow>
     (case adm of
        Admitted a \<Rightarrow> exportable T v env now h a
      | Refused _ \<Rightarrow> b \<longrightarrow> \<not> (\<exists>a. exportable T v env now h a))"

lemma triple_attempt:
  assumes "triple P m Q F"
  shows "triple P (attempt m) (\<lambda>r s. case r of Inl e \<Rightarrow> F e s | Inr x \<Rightarrow> Q x s) G"
  unfolding triple_def
proof (intro allI impI)
  fix s assume "P s"
  obtain r t where m: "m s = (r, t)" by (cases "m s")
  then show "case attempt m s of (Inr r, t) \<Rightarrow> (case r of Inl e \<Rightarrow> F e t | Inr x \<Rightarrow> Q x t) | (Inl e, t) \<Rightarrow> G e t"
    using assms \<open>P s\<close> unfolding triple_iff by (cases r) (auto simp: attempt_def)
qed

lemma exportable_unique: "exportable T v env now h a \<Longrightarrow> exportable T v env now h a' \<Longrightarrow> a' = a"
  by (auto simp: exportable_def dest: decodes_unique)

lemma exportable_collect: "exportable T v env now h a \<Longrightarrow> {x. exportable T v env now h x} = {a}"
  using exportable_unique by blast

lemma project_artifact_typed:
  assumes "indexed a" "hex = artifact_hex a"
  shows "well_typed (project_artifact hex a)"
proof (cases "art_payload a")
  case (PayloadRules rules)
  have ends: "(NRule, rule_node_id hex (rule_id r)) \<in> node_keys (extract_graph a)" if "r \<in> set rules" for r
    using that by (auto simp: extract_keys PayloadRules assms(2))
  have "edge_typed (node_keys (extract_graph a)) e" if "e \<in> set (conflict_edges hex rules)" for e
    using conflict_edge_ends[OF that] ends by (auto simp: edge_typed_def)
  moreover have "node_keys (project_artifact hex a) = node_keys (extract_graph a)"
    by (simp add: project_artifact_def PayloadRules node_keys_def Let_def)
  ultimately show ?thesis
    using extract_typed[OF assms(1)] by (auto simp: well_typed_def project_artifact_def PayloadRules Let_def)
next
  case (PayloadIntentSpec spec)
  then show ?thesis using extract_typed[OF assms(1)] by (simp add: project_artifact_def)
qed

lemma exportable_indexed:
  assumes "sound T v" "exportable T v env now h a"
  shows "indexed a" "artifact_hash (art_manifest a) = h"
proof -
  obtain kew where "vw_kew v h = Some kew" "decodes T kew a" using assms(2) by (auto simp: exportable_def)
  moreover from this(1) assms(1) have "genuine T h kew" by (auto simp: sound_def sound_objects_def)
  ultimately show "indexed a" "artifact_hash (art_manifest a) = h" by (auto simp: genuine_def decodes_def)
qed

text \<open>The state of the loop after the addresses \<open>hs\<close>: the merged graph holds the projections of
  the exported artifacts and nothing else, and an address that is not exported is refused.\<close>

definition export_state ::
    "bool \<Rightarrow> toolchain \<Rightarrow> registry_view \<Rightarrow> string \<Rightarrow> 64 word \<Rightarrow> hash32 list \<Rightarrow> export_outcome \<Rightarrow> bool" where
  "export_state b T v env now hs out \<longleftrightarrow>
     (\<forall>h\<in>set (out_exported out). h \<in> set hs \<and> (\<exists>a. exportable T v env now h a))
     \<and> (\<forall>h\<in>set hs. h \<notin> set (out_exported out) \<longrightarrow>
          (\<exists>r\<in>set (out_refusals out). refused_hex r = hex32 h)
          \<and> (b \<longrightarrow> \<not> (\<exists>a. exportable T v env now h a)))
     \<and> node_keys (out_graph out) =
         (\<Union>h\<in>set (out_exported out). \<Union>a\<in>{a. exportable T v env now h a}. node_keys (project_artifact (hex32 h) a))
     \<and> set (graph_edges (out_graph out)) =
         (\<Union>h\<in>set (out_exported out). \<Union>a\<in>{a. exportable T v env now h a}.
            set (graph_edges (project_artifact (hex32 h) a)))
     \<and> well_typed (out_graph out)"

lemma export_state_cypher [simp]:
  "export_state b T v env now hs (out\<lparr>out_cypher := c\<rparr>) = export_state b T v env now hs out"
  by (simp add: export_state_def)

lemma export_stateD:
  assumes "export_state b T v env now hs out"
  shows "h \<in> set (out_exported out) \<Longrightarrow> \<exists>a. exportable T v env now h a"
    "h \<in> set hs \<Longrightarrow> h \<notin> set (out_exported out) \<Longrightarrow> \<exists>r\<in>set (out_refusals out). refused_hex r = hex32 h"
    "b \<Longrightarrow> h \<in> set hs \<Longrightarrow> exportable T v env now h a \<Longrightarrow> h \<in> set (out_exported out)"
  using assms by (auto simp: export_state_def)

lemma export_state_start:
  "export_state b T v env now [] \<lparr>out_exported = [], out_refusals = [], out_graph = empty_graph, out_cypher = []\<rparr>"
  by (simp add: export_state_def graph_effects well_typed_def)

lemma export_state_refused:
  assumes "export_state b T v env now hs out" "b \<longrightarrow> \<not> (\<exists>a. exportable T v env now h a)"
  shows "export_state b T v env now (hs @ [h]) (record_admission h (Refused reason) out)"
  using assms unfolding export_state_def record_admission_def by auto

lemma export_state_admitted:
  assumes "sound T v" "export_state b T v env now hs out" "exportable T v env now h a"
  shows "export_state b T v env now (hs @ [h]) (record_admission h (Admitted a) out)"
proof -
  note facts = exportable_indexed[OF assms(1,3)]
  have typed: "well_typed (project_artifact (hex32 h) a)"
    by (rule project_artifact_typed) (simp_all add: facts)
  note one = exportable_collect[OF assms(3)]
  have out': "out_exported (record_admission h (Admitted a) out) = out_exported out @ [h]"
    "out_refusals (record_admission h (Admitted a) out) = out_refusals out"
    "out_graph (record_admission h (Admitted a) out) = merge_graph (out_graph out) (project_artifact (hex32 h) a)"
    by (simp_all add: record_admission_def)
  show ?thesis
    using assms(2,3) well_typed_merge[OF _ typed, of "out_graph out"]
    unfolding export_state_def out' graph_effects set_append list.set UN_Un UN_insert one UN_empty
    by (auto simp: Un_ac)
qed

context registry_backend begin

lemma admit_triple:
  assumes "toolchain_law T" "sound T v"
  shows "triple (stands b v) (admit T B env now h)
    (\<lambda>adm s. admission_ok b T v env now h adm \<and> stands b v s) (\<lambda>_ s. \<not> b \<and> stands b v s)"
  unfolding admit_def
  apply (rule bind_step[OF triple_attempt[OF read_artifact_kew, where G = "\<lambda>_ _. False"]], blast)
  subgoal for read
  proof (cases read)
    case (Inl e)
    show ?thesis
      unfolding Inl sum.case
      by (rule triple_ret) (auto simp: admission_ok_def exportable_def)
  next
    case (Inr kew)
    show ?thesis
      unfolding Inr sum.case
    proof (rule triple_pure)
      assume kew: "vw_kew v h = Some kew"
      then have gen: "genuine T h kew" using assms(2) by (auto simp: sound_def sound_objects_def)
      then obtain a n where dec: "decode_artifact (tc_lib T) (tc_artifacts T) kew = Inr (a, n)"
        and h: "artifact_hash (art_manifest a) = h"
        by (auto simp: genuine_def)
      then have a: "decodes T kew a" by (auto simp: decodes_def)
      have only: "exportable T v env now h x \<longleftrightarrow> x = a \<and> last_state (vw_log v h) = Some Published
          \<and> set_accepted T a env (policy_for_kind (artifact_kind (art_manifest a))) now" for x
        using kew a decodes_unique by (auto simp: exportable_def)
      show "triple (stands b v)
        (case decode_artifact (tc_lib T) (tc_artifacts T) kew of
            Inl e \<Rightarrow> ret (Refused (DecodeFailed e))
          | Inr (a, _) \<Rightarrow>
              if artifact_hash (art_manifest a) \<noteq> h
              then ret (Refused (AddressMismatch (artifact_hash (art_manifest a)) h))
              else
              abind (read_registry_evidence T B h) (\<lambda>evidence.
              if ev_status evidence \<noteq> StatusPublished
              then ret (Refused (NotPublished (ev_status evidence)))
              else
              case out_verdict (consumer_verify T kew a env (policy_for_kind (artifact_kind (art_manifest a)))
                     evidence now) of
                Verified \<Rightarrow> ret (Admitted a)
              | Rejected reason \<Rightarrow> ret (Refused (VerifyRejected reason))))
        (\<lambda>adm s. admission_ok b T v env now h adm \<and> stands b v s) (\<lambda>_ s. \<not> b \<and> stands b v s)"
        apply (simp only: dec sum.case prod.case h not_True_eq_False if_False simp_thms)
        apply (rule bind_step[OF evidence_triple[OF assms]], blast)
        apply (rule triple_pure)
        subgoal premises prems for ev
        proof -
          have st: "ev_status ev = StatusPublished \<longleftrightarrow> last_state (vw_log v h) = Some Published"
            using prems unfolding published_status[symmetric] by simp
          have live: "evidence_live ev \<longleftrightarrow> ev_status ev = StatusPublished"
            using prems by (simp add: evidence_live_def)
          note verdict = consumer_verdict[OF assms(1) gen a, where ev = ev]
          show ?thesis
            by (cases "out_verdict (consumer_verify T kew a env (policy_for_kind (artifact_kind (art_manifest a))) ev now)")
               (use verdict[of env "policy_for_kind (artifact_kind (art_manifest a))" now] in
                 \<open>auto intro!: triple_ret simp: admission_ok_def only st live\<close>)
        qed
        done
    qed
  qed
  done

lemma export_all_triple:
  assumes "toolchain_law T" "sound T v"
  shows "triple (\<lambda>s. export_state b T v env now prev out \<and> stands b v s) (export_all T B env now hs out)
    (\<lambda>out s. export_state b T v env now (prev @ hs) out \<and> stands b v s) (\<lambda>_ s. \<not> b \<and> stands b v s)"
proof (induction hs arbitrary: prev out)
  case Nil
  show ?case unfolding export_all.simps by (rule triple_ret) simp
next
  case (Cons h hs)
  have step: "export_state b T v env now (prev @ [h]) (record_admission h adm out)"
    if "export_state b T v env now prev out" "admission_ok b T v env now h adm" for adm
    using that export_state_refused[OF that(1)] export_state_admitted[OF assms(2) that(1)]
    by (cases adm) (auto simp: admission_ok_def)
  show ?case
    unfolding export_all.simps
    apply (rule triple_pure)
    apply (rule bind_step[OF admit_triple[OF assms]], blast)
    apply (rule triple_pure)
    apply (rule triple_weaken[OF Cons.IH[where prev = "prev @ [h]"]])
      apply (use step in blast)
     apply simp
    apply assumption
    done
qed

lemma graph_export_triple:
  assumes "toolchain_law T" "sound T v"
  shows "triple (stands b v) (graph_export T B env now)
    (\<lambda>out s. (\<exists>hs. set hs = dom (vw_kew v) \<and> export_state b T v env now hs out)
       \<and> out_cypher out = render_cypher (out_graph out) \<and> stands b v s) (\<lambda>_ s. \<not> b \<and> stands b v s)"
  unfolding graph_export_def
  apply (rule bind_step[OF list_addresses], blast)
  apply (rule triple_pure)+
  subgoal for hs
    apply (rule bind_step[where E = "\<lambda>_ s. \<not> b \<and> stands b v s"
          and R = "\<lambda>out s. export_state b T v env now hs out \<and> stands b v s"])
      apply (rule triple_weaken[OF export_all_triple[OF assms, where prev = "[]"]])
        apply (rule conjI[OF export_state_start], assumption)
       apply simp
      apply assumption
     apply blast
    apply (rule triple_ret)
    apply (simp, blast)
    done
  done

end

section \<open>Properties\<close>

lemma local_export:
  assumes "toolchain_law T" "s = run_all T (local_registry T) rs (empty_store outcomes)"
    and "graph_export T (local_registry T) env now s = (Inr out, t)"
  obtains hs where "set hs = dom (vw_kew (fs_view s))" "fs_view t = fs_view s"
    "export_state (st_io s = []) T (fs_view s) env now hs out"
proof -
  have inv: "fs_invar s" unfolding assms(2) by (rule local_run(2)[OF assms(1) empty_invar empty_sound])
  have sound: "sound T (fs_view s)" unfolding assms(2) by (rule local_sound[OF assms(1)])
  have start: "fs_stands (st_io s = []) (fs_view s) s" using inv by (simp add: fs_stands_def fs_reliable_def)
  from tripleD_ok[OF fs.graph_export_triple[OF assms(1) sound, where L = "tc_lib T" and A = "tc_artifacts T"] start assms(3)]
  obtain hs where hs: "set hs = dom (vw_kew (fs_view s))" "export_state (st_io s = []) T (fs_view s) env now hs out"
    "fs_stands (st_io s = []) (fs_view s) t"
    by blast
  then show ?thesis using that[OF hs(1) _ hs(2)] by (simp add: fs_stands_def)
qed

text \<open>C18: only verified artifacts leave the registry: in a registry commands built, every exported
  address is published and its attestations satisfy the policy of its kind in the given
  environment; without failing system calls all such addresses are exported; every stored address
  is exported or refused with a reason; and the registry is unchanged.\<close>

theorem export_exactly_verified:
  assumes "toolchain_law T" "s = run_all T (local_registry T) rs (empty_store outcomes)"
    and "graph_export T (local_registry T) env now s = (Inr out, t)"
  shows "fs_view t = fs_view s
    \<and> (\<forall>h\<in>set (out_exported out). \<exists>a. exportable T (fs_view s) env now h a)
    \<and> (st_io s = [] \<longrightarrow> (\<forall>h a. exportable T (fs_view s) env now h a \<longrightarrow> h \<in> set (out_exported out)))
    \<and> (\<forall>h. vw_kew (fs_view s) h \<noteq> None \<longrightarrow> h \<in> set (out_exported out)
        \<or> (\<exists>r\<in>set (out_refusals out). refused_hex r = hex32 h))"
proof -
  obtain hs where hs: "set hs = dom (vw_kew (fs_view s))" "fs_view t = fs_view s"
    "export_state (st_io s = []) T (fs_view s) env now hs out"
    by (rule local_export[OF assms])
  have stored: "h \<in> set hs \<longleftrightarrow> vw_kew (fs_view s) h \<noteq> None" for h using hs(1) by (simp add: domIff)
  have "h \<in> set hs" if "exportable T (fs_view s) env now h a" for h a
    using that unfolding stored by (auto simp: exportable_def)
  then show ?thesis using hs(2) export_stateD[OF hs(3)] unfolding stored by metis
qed

lemma sample_export:
  obtains s t h a out where
    "s = run_all sample_toolchain (local_registry sample_toolchain) (sample_session h) (empty_store [])"
    "graph_export sample_toolchain (local_registry sample_toolchain) ''local'' 11 s = (Inr out, t)"
    "st_io s = []" "exportable sample_toolchain (fs_view s) ''local'' 11 h a"
    "art_payload a = PayloadRules [sample_rule_with [''a'', ''b''] 9 1]" "artifact_hash (art_manifest a) = h"
proof -
  obtain s h kew a where s: "s = run_all sample_toolchain (local_registry sample_toolchain) (sample_session h) (empty_store [])"
    "fs_invar s" "st_io s = []" "sound sample_toolchain (fs_view s)"
    "last_state (vw_log (fs_view s) h) = Some Published" "vw_kew (fs_view s) h = Some kew"
    "decodes sample_toolchain kew a" "artifact_hash (art_manifest a) = h"
    "set_accepted sample_toolchain a ''local'' (policy_for_kind (artifact_kind (art_manifest a))) 11"
    "art_payload a = PayloadRules [sample_rule_with [''a'', ''b''] 9 1]" "artifact_kind (art_manifest a) = RegimePack"
    by (rule sample_published)
  obtain out t where "graph_export sample_toolchain (local_registry sample_toolchain) ''local'' 11 s = (Inr out, t)"
    by (rule triple_success[OF fs.graph_export_triple[OF sample_toolchain_law(1) s(4), where b = True
          and env = "''local''" and now = 11 and L = "tc_lib sample_toolchain" and A = "tc_artifacts sample_toolchain"]
          fs_stands_now[OF s(2,3)]]) auto
  moreover have "exportable sample_toolchain (fs_view s) ''local'' 11 h a" using s by (auto simp: exportable_def)
  ultimately show ?thesis using that[OF s(1)] s by blast
qed

lemma export_exactly_verified_witness:
  "\<exists>s t h out. graph_export sample_toolchain (local_registry sample_toolchain) ''local'' 11 s = (Inr out, t)
     \<and> h \<in> set (out_exported out) \<and> fs_view t = fs_view s"
proof -
  obtain s t h a out where r: "s = run_all sample_toolchain (local_registry sample_toolchain) (sample_session h) (empty_store [])"
    "graph_export sample_toolchain (local_registry sample_toolchain) ''local'' 11 s = (Inr out, t)"
    "st_io s = []" "exportable sample_toolchain (fs_view s) ''local'' 11 h a"
    by (rule sample_export)
  then show ?thesis using export_exactly_verified[OF sample_toolchain_law(1) r(1,2)] by blast
qed

text \<open>C37: the exported graph is well typed: each edge of it starts and ends in a node of the graph
  whose label its relationship type allows.\<close>

theorem export_well_typed:
  assumes "toolchain_law T" "s = run_all T (local_registry T) rs (empty_store outcomes)"
    and "graph_export T (local_registry T) env now s = (Inr out, t)"
  shows "\<forall>e\<in>set (graph_edges (out_graph out)).
     (\<exists>n\<in>set (graph_nodes (out_graph out)). node_id n = edge_from e \<and> node_label n \<in> source_labels (edge_label e))
     \<and> (\<exists>n\<in>set (graph_nodes (out_graph out)). node_id n = edge_to e \<and> node_label n \<in> target_labels (edge_label e))"
proof -
  have "well_typed (out_graph out)" by (rule local_export[OF assms]) (simp add: export_state_def)
  then show ?thesis unfolding well_typed_def edge_typed_def node_keys_iff by blast
qed

lemma export_well_typed_witness:
  "\<exists>s out t. graph_export sample_toolchain (local_registry sample_toolchain) ''local'' 11 s = (Inr out, t)
     \<and> (\<forall>e\<in>set (graph_edges (out_graph out)). \<exists>n\<in>set (graph_nodes (out_graph out)). node_id n = edge_to e)"
proof -
  obtain s t h a out where r: "s = run_all sample_toolchain (local_registry sample_toolchain) (sample_session h) (empty_store [])"
    "graph_export sample_toolchain (local_registry sample_toolchain) ''local'' 11 s = (Inr out, t)"
    by (rule sample_export)
  then show ?thesis using export_well_typed[OF sample_toolchain_law(1) r] by blast
qed

lemma hex32_length: "length (hex32 h) = 64"
  by (simp add: hex32_def length_hex_bytes)

lemma hex32_inj: "inj_on hex32 S"
  by (rule inj_on_inverseI[where g = "\<lambda>s. case hex_to_hash s of Inr h \<Rightarrow> h | Inl _ \<Rightarrow> 0"]) simp

lemma project_artifact_impact:
  assumes "indexed a" "hex = artifact_hex a"
  shows "reached_by_citation (set (graph_edges (project_artifact hex a))) d article = impact a d article"
    "e \<in> set (graph_edges (project_artifact hex a)) \<Longrightarrow> own_edge hex e"
proof -
  obtain C where C: "set (graph_edges (project_artifact hex a)) = set (graph_edges (extract_graph a)) \<union> C"
    "\<forall>e\<in>C. edge_label e = ConflictsWith"
  proof (cases "art_payload a")
    case (PayloadRules rules)
    then show ?thesis
      using that[of "set (conflict_edges hex rules)"] conflict_edge_ends(1) by (simp add: project_artifact_def Let_def)
  next
    case (PayloadIntentSpec spec)
    then show ?thesis using that[of "{}"] by (simp add: project_artifact_def)
  qed
  show "reached_by_citation (set (graph_edges (project_artifact hex a))) d article = impact a d article"
    unfolding C(1) reached_by_citation_conflicts[OF C(2)] by (rule artifact_impact[OF assms(1)])
  show "own_edge hex e" if "e \<in> set (graph_edges (project_artifact hex a))"
    using that C own_edges[of e a] by (auto simp: assms(2) own_edge_def)
qed

text \<open>C19: over an exported graph the blast radius of a document, or of one article of it, is exact:
  it holds, for each exported artifact, the rules (or the IntentSpec) that cite or span the
  document there and, if there is one, the artifact and all its attestations; nothing else.\<close>

theorem blast_radius_exactly:
  assumes "toolchain_law T" "s = run_all T (local_registry T) rs (empty_store outcomes)"
    and "graph_export T (local_registry T) env now s = (Inr out, t)"
  shows "set (blast_radius (out_graph out) d article) =
     (\<Union>h\<in>set (out_exported out). \<Union>a\<in>{a. exportable T (fs_view s) env now h a}. impact a d article)"
proof -
  have sound: "sound T (fs_view s)" unfolding assms(2) by (rule local_sound[OF assms(1)])
  let ?E = "\<lambda>h. \<Union>a\<in>{a. exportable T (fs_view s) env now h a}. set (graph_edges (project_artifact (hex32 h) a))"
  have st: "set (graph_edges (out_graph out)) = (\<Union>h\<in>set (out_exported out). ?E h)"
    "\<forall>h\<in>set (out_exported out). \<exists>a. exportable T (fs_view s) env now h a"
    by (rule local_export[OF assms], simp add: export_state_def)+
  have own: "own_edge (hex32 h) e" if e: "e \<in> ?E h" for h e
  proof -
    obtain a where a: "exportable T (fs_view s) env now h a" "e \<in> set (graph_edges (project_artifact (hex32 h) a))"
      using e by blast
    show ?thesis
      by (rule project_artifact_impact(2)[OF exportable_indexed(1)[OF sound a(1)] _ a(2)])
        (simp add: exportable_indexed(2)[OF sound a(1)])
  qed
  have each: "reached_by_citation (?E h) d article
      = (\<Union>a\<in>{a. exportable T (fs_view s) env now h a}. impact a d article)" if h: "h \<in> set (out_exported out)" for h
  proof -
    obtain a where a: "exportable T (fs_view s) env now h a" using bspec[OF st(2) h] by (elim exE)
    note one = exportable_collect[OF a]
    show ?thesis
      unfolding one using project_artifact_impact(1)[of a "hex32 h"] exportable_indexed[OF sound a] by simp
  qed
  have "set (blast_radius (out_graph out) d article)
      = (\<Union>h\<in>set (out_exported out). reached_by_citation (?E h) d article)"
    unfolding blast_radius_set st(1)
  proof (rule reached_by_citation_union[where hex = hex32 and n = 64])
    show "own_edge (hex32 h) e" if "h \<in> set (out_exported out)" "e \<in> ?E h" for h e by (rule own[OF that(2)])
  qed (rule hex32_length hex32_inj)+
  then show ?thesis using each by simp
qed

lemma blast_radius_exactly_witness:
  "\<exists>s h out t. graph_export sample_toolchain (local_registry sample_toolchain) ''local'' 11 s = (Inr out, t)
     \<and> hex32 h \<in> set (blast_radius (out_graph out) (doc_document_id (rule_source (sample_rule_with [] 9 1))) None)"
proof -
  obtain s t h a out where r: "s = run_all sample_toolchain (local_registry sample_toolchain) (sample_session h) (empty_store [])"
    "graph_export sample_toolchain (local_registry sample_toolchain) ''local'' 11 s = (Inr out, t)"
    "st_io s = []" "exportable sample_toolchain (fs_view s) ''local'' 11 h a"
    "art_payload a = PayloadRules [sample_rule_with [''a'', ''b''] 9 1]" "artifact_hash (art_manifest a) = h"
    by (rule sample_export)
  have sound: "sound sample_toolchain (fs_view s)" unfolding r(1) by (rule local_sound[OF sample_toolchain_law(1)])
  obtain hs where hs: "set hs = dom (vw_kew (fs_view s))"
    "export_state (st_io s = []) sample_toolchain (fs_view s) ''local'' 11 hs out"
    by (rule local_export[OF sample_toolchain_law(1) r(1,2)])
  have "h \<in> set hs" using r(4) hs(1) by (auto simp: exportable_def)
  then have "h \<in> set (out_exported out)" by (rule export_stateD(3)[OF hs(2) r(3) _ r(4)])
  moreover have "hex32 h \<in> impact a (doc_document_id (rule_source (sample_rule_with [] 9 1))) None"
    by (simp add: impact_def referring_nodes_def r(5,6) refers_to_def at_article_def sample_rule_with_def)
  ultimately show ?thesis
    using blast_radius_exactly[OF sample_toolchain_law(1) r(1,2)] r(2,4) by blast
qed

end
