(* ===== verification/Serve.thy ===== *)
theory Serve
  imports Graph Consumer Lowering Exec
begin

text \<open>
  The HTTP read surface \<open>ke serve\<close> (\<open>src/crates/ke-cli/src/serve\<close>: \<open>handlers.rs\<close>,
  \<open>router.rs\<close>, \<open>dto.rs\<close>) over any registry backend. The HTTP library and \<open>serde_json\<close> are
  parameters: a request is its method, its URL and its body as read, \<open>serve_lib\<close> parses the
  three body types and prints the responses. An error keeps the value the code renders into its
  detail text. A panic ends the server, since the accept loop calls the router directly.

  Shown: no request changes the registry, what \<open>/verify\<close> answers, which requests end the server.
\<close>

section \<open>Requests and responses\<close>

record verify_request =
  vq_hash :: string
  vq_env :: "string option"
  vq_policy :: "string option"

record dry_run_request =
  dq_source :: "string option"
  dq_hash :: "string option"
  dq_facts :: json

record verify_response =
  vr_verdict :: string
  vr_rejection :: "rejection_reason option"
  vr_provenance :: artifact_provenance
  vr_registry_state :: registry_status
  vr_revocation :: "revocation_record option"

record finding_dto =
  fd_tier :: string
  fd_rule_id :: string
  fd_code :: string
  fd_message :: string
  fd_blocking :: bool

record conflict_dto =
  cd_class :: string
  cd_severity :: string
  cd_message :: string

record verification_report_dto =
  rd_has_blocking :: bool
  rd_findings :: "finding_dto list"
  rd_conflicts :: "conflict_dto list"

datatype serve_detail =
    DetailText string
  | DetailBody string string       \<comment> \<open>the body, and serde's message\<close>
  | DetailHash registry_error
  | DetailDate string
  | DetailRegistry registry_error
  | DetailCompile compile_error
  | DetailFacts string
  | DetailPolicy string
  | DetailRoute string string

record serve_error =
  se_status :: nat
  se_kind :: string
  se_detail :: serve_detail

datatype response =
    HealthResponse bool string
  | ResolutionResponse resolution_record
  | VerifyResponse verify_response
  | CompilePreviewResponse "rule_ir list" verification_report_dto
  | DryRunResponse "json list"
  | ErrorResponse string serve_detail

text \<open>A handler fails with an error for the client or with a panic.\<close>

datatype serve_fault = Fail serve_error | Panic

type_synonym ('s, 'a) handler = "('s, serve_fault, 'a) action"

record serve_lib =
  sl_verify_request :: "string \<Rightarrow> string + verify_request"
  sl_preview_request :: "string \<Rightarrow> string + string"
  sl_dry_run_request :: "string \<Rightarrow> string + dry_run_request"
  sl_to_json :: "response \<Rightarrow> string + bytes"
  sl_json_text :: "json \<Rightarrow> string"
  sl_yaml :: yaml_lib

definition bad_request :: "serve_detail \<Rightarrow> serve_error" where
  "bad_request d = \<lparr>se_status = 400, se_kind = ''bad_request'', se_detail = d\<rparr>"

definition unprocessable :: "string \<Rightarrow> serve_detail \<Rightarrow> serve_error" where
  "unprocessable kind d = \<lparr>se_status = 422, se_kind = kind, se_detail = d\<rparr>"

definition internal_error :: "serve_detail \<Rightarrow> serve_error" where
  "internal_error d = \<lparr>se_status = 500, se_kind = ''internal'', se_detail = d\<rparr>"

fun from_registry :: "registry_error \<Rightarrow> serve_fault" where
  "from_registry RegistryPanic = Panic"
| "from_registry (NotFound w) = Fail \<lparr>se_status = 404, se_kind = ''not_found'', se_detail = DetailRegistry (NotFound w)\<rparr>"
| "from_registry (Ambiguous w n) =
     Fail \<lparr>se_status = 409, se_kind = ''ambiguous'', se_detail = DetailRegistry (Ambiguous w n)\<rparr>"
| "from_registry (BadHashHex s) =
     Fail \<lparr>se_status = 400, se_kind = ''bad_hash_hex'', se_detail = DetailRegistry (BadHashHex s)\<rparr>"
| "from_registry (ArtifactDecode e) =
     Fail \<lparr>se_status = 400, se_kind = ''artifact_decode'', se_detail = DetailRegistry (ArtifactDecode e)\<rparr>"
| "from_registry e = Fail (internal_error (DetailRegistry e))"

definition json_response :: "serve_lib \<Rightarrow> response \<Rightarrow> ('s, bytes) handler" where
  "json_response L r = lift (map_err (\<lambda>e. Fail (internal_error (DetailText e))) (sl_to_json L r))"

text \<open>\<open>hash_from_hex(..).map_err(|e| bad_request("hash: {e}"))\<close>\<close>

definition request_hash :: "string \<Rightarrow> ('s, hash32) handler" where
  "request_hash s =
     lift (map_err (\<lambda>e. if e = RegistryPanic then Panic else Fail (bad_request (DetailHash e))) (hex_to_hash s))"

abbreviation reading :: "('s, 'a) registry_action \<Rightarrow> ('s, 'a) handler" where
  "reading \<equiv> with_error from_registry"

abbreviation reject :: "serve_error \<Rightarrow> ('s, 'a) handler" where
  "reject e \<equiv> throw (Fail e)"

section \<open>Resolve\<close>

fun query_param :: "string list \<Rightarrow> string \<Rightarrow> string option" where
  "query_param [] key = None"
| "query_param (pair # pairs) key =
     (case split_once (CHR ''='') pair of
        None \<Rightarrow> query_param pairs key
      | Some (k, v) \<Rightarrow> if k = key then Some v else query_param pairs key)"

text \<open>\<open>cli::parse_date\<close>: the step that failed is its error.\<close>

definition parse_cli_date :: "string \<Rightarrow> string + jurisdiction_date" where
  "parse_cli_date s =
     (case split_on (CHR ''-'') s of
        [y, m, d] \<Rightarrow>
          (case parse_i16 y of None \<Rightarrow> Inl ''year''
           | Some y \<Rightarrow> (case parse_u8 m of None \<Rightarrow> Inl ''month''
              | Some m \<Rightarrow> (case parse_u8 d of None \<Rightarrow> Inl ''day''
                 | Some d \<Rightarrow> Inr \<lparr>year = y, month = m, day = d\<rparr>)))
      | _ \<Rightarrow> Inl ''effective date must be YYYY-MM-DD'')"

definition request_selector :: "string option \<Rightarrow> ('s, selector) handler" where
  "request_selector query =
     (let pairs = split_on (CHR ''&'') (case query of None \<Rightarrow> [] | Some q \<Rightarrow> q) in
      case query_param pairs ''hash'' of
        Some hash_hex \<Rightarrow> abind (request_hash hash_hex) (\<lambda>h. ret (ByHash h))
      | None \<Rightarrow>
      (case query_param pairs ''regime'' of
        Some regime \<Rightarrow>
          (case query_param pairs ''effective'' of
             None \<Rightarrow> reject (bad_request (DetailText ''`?regime=` requires `&effective=YYYY-MM-DD`''))
           | Some effective \<Rightarrow>
               (case parse_cli_date effective of
                  Inl e \<Rightarrow> reject (bad_request (DetailDate e))
                | Inr d \<Rightarrow> ret (ByRegime regime d
                    (case query_param pairs ''env'' of None \<Rightarrow> ''local'' | Some env \<Rightarrow> env))))
      | None \<Rightarrow>
      (case (query_param pairs ''env'', query_param pairs ''tag'') of
        (Some env, Some tag) \<Rightarrow> ret (ByTag env tag)
      | _ \<Rightarrow> reject (bad_request (DetailText
          ''resolve requires `?hash=<64hex>`, `?env=<e>&tag=<t>`, or `?regime=<r>&effective=<YYYY-MM-DD>`'')))))"

definition serve_resolve ::
    "serve_lib \<Rightarrow> toolchain \<Rightarrow> 's backend \<Rightarrow> string option \<Rightarrow> 64 word \<Rightarrow> ('s, bytes) handler" where
  "serve_resolve L T B query now =
     abind (request_selector query) (\<lambda>selector.
     abind (reading (resolve T B selector now)) (\<lambda>(_, record).
       json_response L (ResolutionResponse record)))"

section \<open>Verify\<close>

definition registry_evidence :: "toolchain \<Rightarrow> 's backend \<Rightarrow> hash32 \<Rightarrow> ('s, registry_evidence) handler" where
  "registry_evidence T B h =
     abind (reading (be_read_events B h)) (\<lambda>events.
     abind (reading (lift (current_state (tc_crypto T) (tc_events T) events))) (\<lambda>st.
     let status = (case st of Some s \<Rightarrow> status_for s | None \<Rightarrow> StatusUnknown) in
     abind (if events = [] then ret 0
            else abind (reading (head_event T B h)) (\<lambda>e.
              reading (lift (chain_hash (tc_crypto T) (tc_events T) e)))) (\<lambda>head.
       ret \<lparr>ev_status = status, ev_event_head_hash = head, ev_live_event_head = None\<rparr>)))"

definition verification_policy_for :: "string option \<Rightarrow> serve_error + verification_policy" where
  "verification_policy_for policy =
     (let name = (case policy of None \<Rightarrow> ''strict'' | Some p \<Rightarrow> p) in
      if name = ''strict'' then Inr default_verification_policy
      else if name = ''permissive'' then
        Inr \<lparr>t2_t3_mode = Disabled, required_attestation_types = [], minimum_attestation_count_per_type = []\<rparr>
      else Inl (bad_request (DetailPolicy name)))"

definition run_verify ::
    "toolchain \<Rightarrow> bytes \<Rightarrow> verify_request \<Rightarrow> registry_evidence \<Rightarrow> 64 word
     \<Rightarrow> ('s, verification_outcome) handler" where
  "run_verify T kew req evidence now =
     abind (lift (map_err (\<lambda>e. from_registry (ArtifactDecode e))
       (decode_artifact (tc_lib T) (tc_artifacts T) kew))) (\<lambda>(artifact, _).
     let env = (case vq_env req of None \<Rightarrow> ''local'' | Some e \<Rightarrow> e) in
     abind (lift (map_err Fail (verification_policy_for (vq_policy req)))) (\<lambda>policy.
       ret (consumer_verify T kew artifact env policy evidence now)))"

definition verify_reply ::
    "serve_lib \<Rightarrow> 's backend \<Rightarrow> hash32 \<Rightarrow> verification_outcome \<Rightarrow> ('s, bytes) handler" where
  "verify_reply L B h outcome =
     (let (verdict, rejection) =
           (case out_verdict outcome of
              Verified \<Rightarrow> (''verified'', None)
            | Rejected reason \<Rightarrow> (''rejected'', Some reason)) in
     abind (if out_registry_state outcome = StatusRevoked then reading (be_read_revocation B h) else ret None)
       (\<lambda>revocation.
       json_response L (VerifyResponse
         \<lparr>vr_verdict = verdict, vr_rejection = rejection, vr_provenance = out_provenance outcome,
          vr_registry_state = out_registry_state outcome, vr_revocation = revocation\<rparr>)))"

definition serve_verify ::
    "serve_lib \<Rightarrow> toolchain \<Rightarrow> 's backend \<Rightarrow> string \<Rightarrow> 64 word \<Rightarrow> ('s, bytes) handler" where
  "serve_verify L T B body now =
     abind (lift (map_err (\<lambda>e. Fail (bad_request (DetailBody ''verify'' e))) (sl_verify_request L body))) (\<lambda>req.
     abind (request_hash (vq_hash req)) (\<lambda>h.
     abind (reading (be_read_artifact_kew B h)) (\<lambda>kew.
     abind (registry_evidence T B h) (\<lambda>evidence.
     abind (run_verify T kew req evidence now) (\<lambda>outcome.
       verify_reply L B h outcome)))))"

section \<open>Compile preview\<close>

fun tier_name :: "tier \<Rightarrow> string" where
  "tier_name T0 = ''T0''"
| "tier_name T1 = ''T1''"
| "tier_name T5 = ''T5''"

definition project_finding :: "finding \<Rightarrow> finding_dto" where
  "project_finding f =
     \<lparr>fd_tier = tier_name (finding_tier f), fd_rule_id = finding_rule_id f, fd_code = finding_code f,
      fd_message = finding_message f, fd_blocking = finding_blocking f\<rparr>"

definition project_conflict :: "conflict \<Rightarrow> conflict_dto" where
  "project_conflict c =
     \<lparr>cd_class = conflict_class_debug (conflict_class c), cd_severity = severity_debug (conflict_severity c),
      cd_message = conflict_detail c\<rparr>"

definition project_report :: "verification_report \<Rightarrow> verification_report_dto" where
  "project_report rep =
     \<lparr>rd_has_blocking = has_blocking rep, rd_findings = map project_finding (report_findings rep),
      rd_conflicts = map project_conflict (report_conflicts rep)\<rparr>"

definition compile_source :: "serve_lib \<Rightarrow> string \<Rightarrow> ('s, rule_ir list) handler" where
  "compile_source L source =
     lift (map_err (\<lambda>e. Fail (unprocessable ''compile_error'' (DetailCompile e))) (compile_rules (sl_yaml L) source))"

definition compile_preview :: "serve_lib \<Rightarrow> string \<Rightarrow> ('s, bytes) handler" where
  "compile_preview L body =
     abind (lift (map_err (\<lambda>e. Fail (bad_request (DetailBody ''compile/preview'' e))) (sl_preview_request L body))) (\<lambda>source.
     abind (compile_source L source) (\<lambda>rules.
       json_response L (CompilePreviewResponse rules (project_report (verify_rules rules)))))"

section \<open>Dry run\<close>

definition stored_rules ::
    "toolchain \<Rightarrow> 's backend \<Rightarrow> string \<Rightarrow> 64 word \<Rightarrow> ('s, rule_ir list) handler" where
  "stored_rules T B hash_hex now =
     abind (request_hash hash_hex) (\<lambda>h.
     abind (reading (resolve T B (ByHash h) now)) (\<lambda>(resolved, _).
     abind (reading (be_read_artifact_kew B resolved)) (\<lambda>kew.
     abind (lift (map_err (\<lambda>e. from_registry (ArtifactDecode e))
       (decode_artifact (tc_lib T) (tc_artifacts T) kew))) (\<lambda>(artifact, _).
     case art_payload artifact of
       PayloadRules rules \<Rightarrow> ret rules
     | PayloadIntentSpec _ \<Rightarrow> reject (bad_request (DetailText
         ''dry-run supports rule artifacts only, not intent-spec artifacts''))))))"

definition dry_run ::
    "serve_lib \<Rightarrow> toolchain \<Rightarrow> 's backend \<Rightarrow> string \<Rightarrow> 64 word \<Rightarrow> ('s, bytes) handler" where
  "dry_run L T B body now =
     abind (lift (map_err (\<lambda>e. Fail (bad_request (DetailBody ''dry-run'' e))) (sl_dry_run_request L body))) (\<lambda>req.
     abind (case (dq_source req, dq_hash req) of
         (Some _, Some _) \<Rightarrow> reject (bad_request (DetailText
           ''dry-run takes exactly one of `source` or `hash`, not both''))
       | (Some source, None) \<Rightarrow> compile_source L source
       | (None, Some hash_hex) \<Rightarrow> stored_rules T B hash_hex now
       | (None, None) \<Rightarrow> reject (bad_request (DetailText
           ''dry-run requires either `source` (inline YAML) or `hash` (stored artifact)''))) (\<lambda>rules.
     abind (lift (map_err (\<lambda>e. Fail (unprocessable ''facts_error'' (DetailFacts e)))
       (facts_from_json (sl_json_text L) (dq_facts req)))) (\<lambda>facts.
       json_response L (DryRunResponse (map (\<lambda>rule. normalized_json (evaluate rule facts)) rules)))))"

section \<open>Routing\<close>

definition banner :: string where
  "banner = ''ke-cli serve (preview, non-authoritative)''"

definition health :: "serve_lib \<Rightarrow> ('s, bytes) handler" where
  "health L = json_response L (HealthResponse True banner)"

datatype http_method = Get | Post | OtherMethod string

fun method_name :: "http_method \<Rightarrow> string" where
  "method_name Get = ''GET''"
| "method_name Post = ''POST''"
| "method_name (OtherMethod m) = m"

record http_request =
  rq_method :: http_method
  rq_url :: string
  rq_body :: "string + string"   \<comment> \<open>the body, or the error of reading it\<close>

datatype reply = Reply nat bytes | EventStream | ServerDown

definition split_path_query :: "string \<Rightarrow> string \<times> string option" where
  "split_path_query url =
     (case split_once (CHR ''?'') url of
        Some (path, query) \<Rightarrow> (path, Some query)
      | None \<Rightarrow> (url, None))"

definition with_body :: "http_request \<Rightarrow> (string \<Rightarrow> ('s, bytes) handler) \<Rightarrow> ('s, bytes) handler" where
  "with_body req h =
     (case rq_body req of
        Inr body \<Rightarrow> h body
      | Inl e \<Rightarrow> reject (bad_request (DetailBody ''read'' e)))"

definition dispatch ::
    "serve_lib \<Rightarrow> toolchain \<Rightarrow> 's backend \<Rightarrow> http_request \<Rightarrow> 64 word \<Rightarrow> ('s, bytes) handler" where
  "dispatch L T B req now =
     (let (path, query) = split_path_query (rq_url req) in
      if rq_method req = Get \<and> path = ''/healthz'' then health L
      else if rq_method req = Get \<and> path = ''/resolve'' then serve_resolve L T B query now
      else if rq_method req = Post \<and> path = ''/verify'' then with_body req (\<lambda>body. serve_verify L T B body now)
      else if rq_method req = Post \<and> path = ''/compile/preview'' then with_body req (compile_preview L)
      else if rq_method req = Post \<and> path = ''/dry-run'' then with_body req (\<lambda>body. dry_run L T B body now)
      else reject \<lparr>se_status = 404, se_kind = ''not_found'', se_detail = DetailRoute (method_name (rq_method req)) path\<rparr>)"

text \<open>A text as the bytes that are sent or stored.\<close>

definition text_bytes :: "string \<Rightarrow> bytes" where
  "text_bytes s = map (of_char :: char \<Rightarrow> 8 word) s"

definition error_body :: "serve_lib \<Rightarrow> serve_error \<Rightarrow> bytes" where
  "error_body L e =
     (case sl_to_json L (ErrorResponse (se_kind e) (se_detail e)) of
        Inr bs \<Rightarrow> bs
      | Inl _ \<Rightarrow> text_bytes (''{'' @ [CHR 0x22] @ ''error'' @ [CHR 0x22] @ '':'' @ [CHR 0x22]
          @ ''internal'' @ [CHR 0x22] @ ''}''))"

definition route ::
    "serve_lib \<Rightarrow> toolchain \<Rightarrow> 's backend \<Rightarrow> http_request \<Rightarrow> 64 word \<Rightarrow> 's \<Rightarrow> reply \<times> 's" where
  "route L T B req now s =
     (if rq_method req = Get \<and> fst (split_path_query (rq_url req)) = ''/events'' then (EventStream, s)
      else case dispatch L T B req now s of
        (Inr body, t) \<Rightarrow> (Reply 200 body, t)
      | (Inl (Fail e), t) \<Rightarrow> (Reply (se_status e) (error_body L e), t)
      | (Inl Panic, t) \<Rightarrow> (ServerDown, t))"

text \<open>The accept loop: one request after another, until a panic.\<close>

fun serve_loop ::
    "serve_lib \<Rightarrow> toolchain \<Rightarrow> 's backend \<Rightarrow> (64 word \<times> http_request) list \<Rightarrow> 's \<Rightarrow> reply list \<times> 's" where
  "serve_loop L T B [] s = ([], s)"
| "serve_loop L T B ((now, req) # rest) s =
     (case route L T B req now s of
        (ServerDown, t) \<Rightarrow> ([ServerDown], t)
      | (r, t) \<Rightarrow> (case serve_loop L T B rest t of (rs, u) \<Rightarrow> (r # rs, u)))"

section \<open>Nothing is written\<close>

text \<open>Whatever the outcome, the action leaves the states that satisfy \<open>P\<close>.\<close>

abbreviation keeps :: "('s \<Rightarrow> bool) \<Rightarrow> ('s, 'e, 'a) action \<Rightarrow> bool" where
  "keeps P m \<equiv> triple P m (\<lambda>_. P) (\<lambda>_. P)"

named_theorems reads \<open>actions that write nothing\<close>

lemma keeps_simple [reads]: "keeps P (ret x)" "keeps P (throw e)" "keeps P (lift r)"
  by (auto intro: triple_ret triple_throw triple_lift)

lemma keeps_bind: "keeps P m \<Longrightarrow> (\<And>x. keeps P (f x)) \<Longrightarrow> keeps P (abind m f)"
  by (rule triple_bind)

lemma keeps_with_error: "keeps P m \<Longrightarrow> keeps P (with_error g m)"
  by (rule triple_with_error)

lemma keeps_cases:
  "(c \<Longrightarrow> keeps P m) \<Longrightarrow> (\<not> c \<Longrightarrow> keeps P n) \<Longrightarrow> keeps P (if c then m else n)"
  "keeps P n \<Longrightarrow> (\<And>x. keeps P (f x)) \<Longrightarrow> keeps P (case_option n f opt)"
  "(\<And>x. keeps P (g x)) \<Longrightarrow> (\<And>x. keeps P (h x)) \<Longrightarrow> keeps P (case_sum g h r)"
  "(\<And>x y. keeps P (k x y)) \<Longrightarrow> keeps P (case_prod k z)"
  "keeps P n \<Longrightarrow> (\<And>y ys. keeps P (l y ys)) \<Longrightarrow> keeps P (case_list n l ys)"
  "(\<And>x. keeps P (p x)) \<Longrightarrow> (\<And>x. keeps P (q x)) \<Longrightarrow> keeps P (case_artifact_payload p q load)"
  by (auto split: option.split sum.split prod.split list.split artifact_payload.split)

lemmas keeps_rules = keeps_bind keeps_with_error keeps_cases

lemma keeps_snd: "keeps P m \<Longrightarrow> P s \<Longrightarrow> P (snd (m s))"
  by (rule triple_both)

lemma keeps_request [reads]: "keeps P (request_hash x)" "keeps P (json_response L r)" "keeps P (compile_source L src)"
  unfolding request_hash_def json_response_def compile_source_def by (intro reads)+

lemma keeps_selector [reads]: "keeps P (request_selector q)"
  unfolding request_selector_def Let_def by (intro keeps_rules reads)

context registry_backend begin

lemma backend_reads [reads]:
  "keeps (stands b v) (be_read_artifact_kew B h)" "keeps (stands b v) (be_read_events B h)"
  "keeps (stands b v) (be_read_pointer B env tag)" "keeps (stands b v) (be_list_manifests B)"
  "keeps (stands b v) (be_list_addresses B)" "keeps (stands b v) (be_read_revocation B h)"
  by (rule triple_weaken[OF read_artifact_kew] triple_weaken[OF read_events] triple_weaken[OF read_pointer]
      triple_weaken[OF list_manifests] triple_weaken[OF list_addresses] triple_weaken[OF read_revocation]; blast)+

lemma keeps_regime_matches [reads]: "keeps (stands b v) (regime_matches T B regime d ms)"
proof (induction ms)
  case (Cons x ms)
  obtain h m where "x = (h, m)" by (cases x)
  then show ?case by (simp only: regime_matches.simps) (intro keeps_rules reads Cons.IH)
qed (simp only: regime_matches.simps, intro reads)

lemma keeps_head_event [reads]: "keeps (stands b v) (head_event T B h)"
  unfolding head_event_def by (intro keeps_rules reads)

lemma keeps_select [reads]: "keeps (stands b v) (select_hash T B sel)"
  by (cases sel; simp only: select_hash.simps; intro keeps_rules reads)

lemma keeps_resolve [reads]: "keeps (stands b v) (resolve T B sel now)"
  unfolding resolve_def verify_resolved_artifact_def Let_def by (intro keeps_rules reads)

lemma keeps_evidence [reads]: "keeps (stands b v) (registry_evidence T B h)"
  unfolding registry_evidence_def Let_def by (intro keeps_rules reads)

lemma keeps_run_verify [reads]: "keeps (stands b v) (run_verify T kew req ev now)"
  unfolding run_verify_def Let_def by (intro keeps_rules reads)

lemma keeps_verify [reads]: "keeps (stands b v) (serve_verify L' T B body now)"
  unfolding serve_verify_def verify_reply_def Let_def by (intro keeps_rules reads)

lemma keeps_dry_run [reads]: "keeps (stands b v) (dry_run L' T B body now)"
  unfolding dry_run_def stored_rules_def by (intro keeps_rules reads)

lemma keeps_dispatch: "keeps (stands b v) (dispatch L' T B req now)"
  unfolding dispatch_def serve_resolve_def health_def with_body_def compile_preview_def Let_def
  by (intro keeps_rules reads)

lemma route_keeps: "stands b v s \<Longrightarrow> stands b v (snd (route L' T B req now s))"
  using keeps_snd[OF keeps_dispatch, of b v s L' T req now]
  by (auto simp: route_def split: prod.splits sum.splits serve_fault.splits)

lemma serve_loop_keeps: "stands b v s \<Longrightarrow> stands b v (snd (serve_loop L' T B reqs s))"
proof (induction reqs arbitrary: s)
  case (Cons x reqs)
  obtain now req where x: "x = (now, req)" by (cases x)
  obtain r t where rt: "route L' T B req now s = (r, t)" by fastforce
  then have "stands b v t" using route_keeps[OF Cons.prems, of L' T req now] by simp
  then show ?case using Cons.IH[of t] by (cases r) (auto simp: x rt split: prod.splits)
qed simp

end

section \<open>What \<open>/verify\<close> answers\<close>

lemma with_error_bind: "with_error g (abind m f) = abind (with_error g m) (\<lambda>x. with_error g (f x))"
proof
  fix s show "with_error g (abind m f) s = abind (with_error g m) (\<lambda>x. with_error g (f x)) s"
    by (cases "m s"; cases "fst (m s)") (auto simp: with_error_def abind_def)
qed

lemma with_error_ret: "with_error g (ret x) = ret x"
  by (simp add: with_error_def fun_eq_iff)

lemma with_error_if: "with_error g (if c then m else n) = (if c then with_error g m else with_error g n)"
  by simp

lemma evidence_of_registry: "registry_evidence T B h = reading (read_registry_evidence T B h)"
  unfolding registry_evidence_def read_registry_evidence_def Let_def
  unfolding with_error_bind with_error_if with_error_ret ..

text \<open>The answer for the artifact stored at the address, judged in the environment and under the
  policy asked for.\<close>

definition verify_answer ::
    "toolchain \<Rightarrow> registry_view \<Rightarrow> hash32 \<Rightarrow> artifact \<Rightarrow> string \<Rightarrow> verification_policy \<Rightarrow> 64 word
     \<Rightarrow> verify_response \<Rightarrow> bool" where
  "verify_answer T v h a env policy now r \<longleftrightarrow>
     vr_verdict r = (if last_state (vw_log v h) = Some Published \<and> set_accepted T a env policy now
       then ''verified'' else ''rejected'')
     \<and> (vr_rejection r = None \<longleftrightarrow> vr_verdict r = ''verified'')
     \<and> vr_registry_state r = (case last_state (vw_log v h) of Some st \<Rightarrow> status_for st | None \<Rightarrow> StatusUnknown)
     \<and> vr_revocation r = (if last_state (vw_log v h) = Some Revoked then vw_revocation v h else None)"

definition json_prints :: "serve_lib \<Rightarrow> bool" where
  "json_prints L \<longleftrightarrow> (\<forall>r. \<exists>bs. sl_to_json L r = Inr bs)"

definition request_env :: "verify_request \<Rightarrow> string" where
  "request_env req = (case vq_env req of None \<Rightarrow> ''local'' | Some e \<Rightarrow> e)"

lemma revoked_status:
  "(case st of Some s \<Rightarrow> status_for s | None \<Rightarrow> StatusUnknown) = StatusRevoked \<longleftrightarrow> st = Some Revoked"
  by (cases st) (auto split: option.splits elim: status_for.elims)

lemma run_verify_ok:
  assumes "decode_artifact (tc_lib T) (tc_artifacts T) kew = Inr (a, n)"
    and "verification_policy_for (vq_policy req) = Inr policy"
  shows "run_verify T kew req ev now = ret (consumer_verify T kew a (request_env req) policy ev now)"
  unfolding run_verify_def assms map_err_simps lift_ok prod.case Let_def request_env_def ..

lemma triple_reading: "triple P m Q (\<lambda>_. F) \<Longrightarrow> triple P (reading m) Q (\<lambda>_. F)"
  by (rule triple_with_error)

lemma ret_bind: "abind (ret x) f = f x"
  by (simp add: abind_def fun_eq_iff)

context registry_backend begin

lemma verify_reply_triple:
  assumes "json_prints L'"
  shows "triple (stands b v) (verify_reply L' B h out)
    (\<lambda>bs s. (\<exists>r. sl_to_json L' (VerifyResponse r) = Inr bs
       \<and> vr_verdict r = (if out_verdict out = Verified then ''verified'' else ''rejected'')
       \<and> (vr_rejection r = None \<longleftrightarrow> out_verdict out = Verified)
       \<and> vr_registry_state r = out_registry_state out
       \<and> vr_revocation r = (if out_registry_state out = StatusRevoked then vw_revocation v h else None))
       \<and> stands b v s)
    (\<lambda>_ s. \<not> b \<and> stands b v s)"
proof -
  obtain verdict rejection where vr: "(case out_verdict out of Verified \<Rightarrow> (''verified'', None)
      | Rejected reason \<Rightarrow> (''rejected'', Some reason)) = (verdict, rejection)"
    by fastforce
  then have facts: "verdict = (if out_verdict out = Verified then ''verified'' else ''rejected'')"
    "rejection = None \<longleftrightarrow> out_verdict out = Verified"
    by (auto split: verdict.splits)
  show ?thesis
    unfolding verify_reply_def vr Let_def prod.case
    apply (rule bind_step[where E = "\<lambda>_ s. \<not> b \<and> stands b v s" and R = "\<lambda>x s.
        x = (if out_registry_state out = StatusRevoked then vw_revocation v h else None) \<and> stands b v s"])
      apply (rule triple_if)
       apply (rule triple_with_error, rule triple_weaken[OF read_revocation]; simp)
      apply (rule triple_ret, simp)
     apply assumption
    apply (rule triple_pure, hypsubst)
    subgoal
    proof -
      obtain bs where bs: "sl_to_json L' (VerifyResponse
         \<lparr>vr_verdict = verdict, vr_rejection = rejection, vr_provenance = out_provenance out,
          vr_registry_state = out_registry_state out,
          vr_revocation = (if out_registry_state out = StatusRevoked then vw_revocation v h else None)\<rparr>) = Inr bs"
        using assms unfolding json_prints_def by blast
      show ?thesis
        unfolding json_response_def bs map_err_simps
        by (rule triple_lift) (use bs facts in \<open>auto simp del: if_split_asm\<close>)
    qed
    done
qed

lemma verify_triple:
  assumes "toolchain_law T" "sound T v" "json_prints L'" "sl_verify_request L' body = Inr req"
    and "hex_to_hash (vq_hash req) = Inr h" "verification_policy_for (vq_policy req) = Inr policy"
    and "vw_kew v h = Some kew" "decodes T kew a"
  shows "triple (stands b v) (serve_verify L' T B body now)
    (\<lambda>bs s. (\<exists>r. sl_to_json L' (VerifyResponse r) = Inr bs \<and> verify_answer T v h a (request_env req) policy now r)
       \<and> stands b v s)
    (\<lambda>_ s. \<not> b \<and> stands b v s)"
proof -
  have gen: "genuine T h kew" using assms(2,7) by (auto simp: sound_def sound_objects_def)
  obtain n where dec: "decode_artifact (tc_lib T) (tc_artifacts T) kew = Inr (a, n)"
    using assms(8) by (auto simp: decodes_def)
  have read: "triple (stands b v) (reading (be_read_artifact_kew B h)) (\<lambda>k s. k = kew \<and> stands b v s)
      (\<lambda>_ s. \<not> b \<and> stands b v s)"
    by (rule triple_with_error, rule triple_weaken[OF read_artifact_kew]) (use assms(7) in auto)
  show ?thesis
    unfolding serve_verify_def assms(4) map_err_simps lift_ok request_hash_def assms(5)
    apply (rule bind_step[OF read], assumption)
    apply (rule triple_pure, hypsubst)
    unfolding evidence_of_registry run_verify_ok[OF dec assms(6)] ret_bind
    apply (rule bind_step[OF triple_reading[OF evidence_triple[OF assms(1,2)]]], assumption)
    apply (rule triple_pure)
    subgoal premises prems for kew' ev
    proof -
      have st: "ev_status ev = (case last_state (vw_log v h) of Some st \<Rightarrow> status_for st | None \<Rightarrow> StatusUnknown)"
        "ev_live_event_head ev = None" using prems by simp_all
      have pub: "ev_status ev = StatusPublished \<longleftrightarrow> last_state (vw_log v h) = Some Published"
        and rev: "ev_status ev = StatusRevoked \<longleftrightarrow> last_state (vw_log v h) = Some Revoked"
        unfolding st(1) published_status revoked_status by (rule refl)+
      have verdict: "out_verdict (consumer_verify T kew a (request_env req) policy ev now) = Verified
          \<longleftrightarrow> last_state (vw_log v h) = Some Published \<and> set_accepted T a (request_env req) policy now"
        unfolding consumer_verdict[OF assms(1) gen assms(8)] evidence_live_def using st(2) pub by auto
      show ?thesis
        apply (rule triple_weaken[OF verify_reply_triple[OF assms(3)]])
          apply assumption
        unfolding verify_answer_def verdict consumer_state rev st(1)[symmetric]
         apply (elim conjE exE)
        subgoal for bs s r by (intro conjI exI[of _ r]) simp_all
        apply assumption
        done
    qed
    done
qed

end

section \<open>Malformed addresses\<close>

lemma verify_panics:
  assumes "sl_verify_request L body = Inr req" "hex_to_hash (vq_hash req) = Inl RegistryPanic"
  shows "serve_verify L T B body now s = (Inl Panic, s)"
  by (simp add: serve_verify_def request_hash_def assms abind_def)

text \<open>A text of ASCII characters is refused or read, never sliced inside a character.\<close>

lemma ascii_hash_no_panic:
  assumes "list_all (\<lambda>c. \<not> continuation_byte c) s"
  shows "hex_to_hash s \<noteq> Inl RegistryPanic"
proof -
  have "even (length xs) \<Longrightarrow> list_all (\<lambda>c. \<not> continuation_byte c) xs \<Longrightarrow> hex_pairs hex xs \<noteq> Inl RegistryPanic" for hex xs
  proof (induction hex xs rule: hex_pairs.induct)
    case (3 hex a b cs)
    then show ?case by (cases cs) (auto simp: rmap_def split: option.splits sum.splits)
  qed auto
  from this[of s s] assms show ?thesis by (auto simp: hex_to_hash_def rmap_def split: sum.splits)
qed

section \<open>Properties\<close>

definition sample_serve :: "json \<Rightarrow> serve_lib" where
  "sample_serve facts =
     \<lparr>sl_verify_request = (\<lambda>body. Inr \<lparr>vq_hash = body, vq_env = None, vq_policy = None\<rparr>),
      sl_preview_request = Inr,
      sl_dry_run_request = (\<lambda>body. Inr \<lparr>dq_source = None, dq_hash = Some body, dq_facts = facts\<rparr>),
      sl_to_json = (\<lambda>_. Inr []), sl_json_text = (\<lambda>_. []),
      sl_yaml = \<lparr>parse_yaml = (\<lambda>_. Inl (OtherLoadError [])), parse_yaml_sequence = (\<lambda>_. Inl (OtherLoadError [])),
        load_error_text = (\<lambda>_. []), as_bool = (\<lambda>_. None)\<rparr>\<rparr>"

text \<open>the read surface is read-only: whatever requests arrive in whatever order, and whichever
  system calls fail under them, the registry the server leaves is the one it found.\<close>

theorem serve_changes_nothing:
  assumes "fs_invar s"
  shows "fs_view (snd (serve_loop L T (local_registry T) reqs s)) = fs_view s
    \<and> fs_invar (snd (serve_loop L T (local_registry T) reqs s))"
proof -
  have "fs_stands False (fs_view s) s" using assms by (simp add: fs_stands_def)
  from fs.serve_loop_keeps[OF this, where L = "tc_lib T" and A = "tc_artifacts T"] show ?thesis
    by (simp add: fs_stands_def)
qed

lemma serve_changes_nothing_witness:
  "fs_view (snd (serve_loop (sample_serve JNull) sample_toolchain (local_registry sample_toolchain)
     [(7, \<lparr>rq_method = Post, rq_url = ''/verify'', rq_body = Inr ''00''\<rparr>),
      (8, \<lparr>rq_method = Get, rq_url = ''/resolve?env=local&tag=current'', rq_body = Inr []\<rparr>)]
     (empty_store [False]))) = fs_view (empty_store [False])"
  using serve_changes_nothing[OF empty_invar] by blast




definition crossing_text :: string where
  "crossing_text = ''a'' @ concat (replicate 31 [CHR 0xC3, CHR 0xA9]) @ ''a''"


end
