(* ===== verification/Authoring.thy ===== *)
theory Authoring
  imports Registry Compiler Structural
begin

text \<open>
  The authoring commands of \<open>ke-cli/src/commands/compile.rs\<close>: \<open>ke compile\<close>, from a YAML text over
  the structural verifier to a signed artifact in the registry, and \<open>ke compile-intent\<close>, whose
  JSON document gives thresholds as decimal text. Reading the file gives its text or an error;
  reading JSON is a parameter. The shared tail is \<open>store_and_record\<close> of theory \<open>Commands\<close>.
\<close>

section \<open>The IntentSpec document\<close>

record criterion_input =
  ci_name :: string
  ci_threshold :: string
  ci_volatility :: string

record idempotency_input =
  ii_scope :: string
  ii_key_fields :: "string list"

record intent_spec_input =
  isi_action_class :: string
  isi_criteria :: "criterion_input list"
  isi_idempotency :: idempotency_input
  isi_source_spans :: "source_span list"

datatype decimal_error =
    EmptyDecimal
  | NoDigits string
  | NonDigit string
  | TooManyFractionDigits string
  | DecimalOverflow string

datatype intent_error =
    InvalidJson string
  | NoCriteria
  | BadThreshold string decimal_error
  | BadVolatility string string

text \<open>The loop that folds trailing zeros; it also runs for a zero mantissa.\<close>

fun fold_fraction :: "int \<Rightarrow> nat \<Rightarrow> int \<times> nat" where
  "fold_fraction m 0 = (m, 0)"
| "fold_fraction m (Suc s) = (if m mod 10 = 0 then fold_fraction (m div 10) s else (m, Suc s))"

definition parse_threshold :: "string \<Rightarrow> decimal_error + scalar_value" where
  "parse_threshold s =
     (let t = trim s in
      if t = [] then Inl EmptyDecimal
      else let (neg, body) =
             (case strip_prefix CHR ''-'' t of
                Some rest \<Rightarrow> (True, rest)
              | None \<Rightarrow> (False, option_or (strip_prefix CHR ''+'' t) t));
             (int_part, frac_part) = (case split_once CHR ''.'' body of Some p \<Rightarrow> p | None \<Rightarrow> (body, []))
           in if int_part = [] \<and> frac_part = [] then Inl (NoDigits s)
              else if \<not> list_all is_digit int_part \<or> \<not> list_all is_digit frac_part then Inl (NonDigit s)
              else if 127 < length frac_part then Inl (TooManyFractionDigits s)
              else case parse_i128 (int_part @ frac_part) of
                None \<Rightarrow> Inl (DecimalOverflow s)
              | Some magnitude \<Rightarrow>
                  let (m, scl) = fold_fraction (if neg then - magnitude else magnitude) (length frac_part);
                      scl = (if m = 0 then 0 else scl)
                  in Inr (ScalarDecimal m (int scl)))"

definition ascii_lowercase :: "string \<Rightarrow> string" where
  "ascii_lowercase = map (\<lambda>c. if CHR ''A'' \<le> c \<and> c \<le> CHR ''Z'' then char_of ((of_char c :: nat) + 32) else c)"

definition parse_volatility :: "string \<Rightarrow> string + volatility" where
  "parse_volatility s =
     (let w = ascii_lowercase (trim s) in
      if w = ''stable'' then Inr Stable else if w = ''volatile'' then Inr Volatile else Inl w)"

definition parse_criterion :: "criterion_input \<Rightarrow> intent_error + authorization_criterion" where
  "parse_criterion c =
     rbind (map_err (BadThreshold (ci_name c)) (parse_threshold (ci_threshold c))) (\<lambda>threshold.
     rbind (map_err (BadVolatility (ci_name c)) (parse_volatility (ci_volatility c))) (\<lambda>vol.
       Inr \<lparr>crit_name = ci_name c, crit_threshold = threshold, crit_volatility = vol\<rparr>))"

definition parse_intent_spec ::
    "(string \<Rightarrow> string + intent_spec_input) \<Rightarrow> string \<Rightarrow> intent_error + intent_spec_ir" where
  "parse_intent_spec read_input json =
     rbind (map_err InvalidJson (read_input json)) (\<lambda>input.
     if isi_criteria input = [] then Inl NoCriteria
     else rbind (mapR parse_criterion (isi_criteria input)) (\<lambda>criteria.
       Inr \<lparr>action_class = isi_action_class input, intent_criteria = criteria,
         intent_idempotency = \<lparr>idem_key_fields = ii_key_fields (isi_idempotency input),
           idem_scope = ii_scope (isi_idempotency input)\<rparr>,
         intent_source_spans = isi_source_spans input\<rparr>))"

section \<open>The commands\<close>

datatype authoring_error =
    ReadSource string
  | CompileSource compile_error
  | ParseIntent intent_error
  | AuthoringCommand command_error

definition compile_run ::
    "yaml_lib \<Rightarrow> toolchain \<Rightarrow> 's backend \<Rightarrow> string + string \<Rightarrow> string \<Rightarrow> 64 word
     \<Rightarrow> ('s, authoring_error, hash32 \<times> lifecycle_state) action" where
  "compile_run Y T B file regime now =
     abind (lift (map_err ReadSource file)) (\<lambda>source.
     abind (lift (map_err CompileSource (compile_rules Y source))) (\<lambda>rules.
       with_error AuthoringCommand
         (compile_rules_into T B rules (has_blocking (verify_rules rules)) regime now)))"

definition intent_run ::
    "(string \<Rightarrow> string + intent_spec_input) \<Rightarrow> toolchain \<Rightarrow> 's backend \<Rightarrow> string + string \<Rightarrow> string
     \<Rightarrow> 64 word \<Rightarrow> ('s, authoring_error, hash32 \<times> lifecycle_state) action" where
  "intent_run read_input T B file regime now =
     abind (lift (map_err ReadSource file)) (\<lambda>source.
     abind (lift (map_err ParseIntent (parse_intent_spec read_input source))) (\<lambda>ir.
       with_error AuthoringCommand (compile_intent_into T B ir regime now)))"

section \<open>Thresholds\<close>

text \<open>The text reader of the rule language followed by the canonical normalisation.\<close>

definition canonical_reading :: "string \<Rightarrow> scalar_value option" where
  "canonical_reading s =
     (case parse_decimal s of
        Some (ScalarDecimal m k) \<Rightarrow>
          (case normalize_decimal m k of Inr (m', k') \<Rightarrow> Some (ScalarDecimal m' k') | Inl _ \<Rightarrow> None)
      | _ \<Rightarrow> None)"

lemma fold_fraction_zero: "fold_fraction 0 n = (0, 0)"
  by (induction n) auto

lemma fold_fraction_strip:
  "m \<noteq> 0 \<Longrightarrow> strip_trailing_zeros m (int n) = (case fold_fraction m n of (m', k) \<Rightarrow> (m', int k))"
proof (induction m n rule: fold_fraction.induct)
  case (1 m)
  then show ?case by (subst strip_trailing_zeros.simps) simp
next
  case (2 m n)
  show ?case
  proof (cases "m mod 10 = 0")
    case True
    then have "m div 10 \<noteq> 0" using 2(2) by presburger
    then show ?thesis using 2 True by (subst strip_trailing_zeros.simps) simp
  next
    case False
    then show ?thesis by (subst strip_trailing_zeros.simps) simp
  qed
qed

lemma normalize_fraction:
  "normalize_decimal m (int n) =
     (case fold_fraction m n of (m', k) \<Rightarrow> Inr (m', int (if m' = 0 then 0 else k)))"
proof (cases "m = 0")
  case True
  then show ?thesis
    by (simp add: fold_fraction_zero normalize_decimal_def Let_def fold_negative_scale.simps strip_trailing_zeros.simps)
next
  case False
  then show ?thesis
    by (simp add: normalize_decimal_def Let_def fold_negative_scale.simps[of m "int n"] fold_fraction_strip
        split: prod.splits)
qed

lemma parse_threshold_reading:
  "parse_threshold s = Inr v \<longleftrightarrow> canonical_reading s = Some v"
proof -
  obtain neg body where b: "(case strip_prefix CHR ''-'' (trim s) of Some rest \<Rightarrow> (True, rest)
      | None \<Rightarrow> (False, option_or (strip_prefix CHR ''+'' (trim s)) (trim s))) = (neg, body)"
    by (rule prod.exhaust)
  obtain ip fp where p: "(case split_once CHR ''.'' body of Some p \<Rightarrow> p | None \<Rightarrow> (body, [])) = (ip, fp)"
    by (rule prod.exhaust)
  then have p': "option_or (split_once CHR ''.'' body) (body, []) = (ip, fp)"
    by (auto simp: option_or_def split: option.splits)
  show ?thesis
    unfolding parse_threshold_def canonical_reading_def parse_decimal_def Let_def b p p' prod.case
    by (cases "trim s = []"; cases "parse_i128 (ip @ fp)")
       (auto simp: normalize_fraction not_less split: prod.splits)
qed

lemma parse_threshold_canonical:
  assumes "parse_threshold s = Inr v"
  obtains m k where "v = ScalarDecimal m k" "check_decimal_canonical m k = Inr ()"
proof -
  obtain m k m' k' where "normalize_decimal m k = Inr (m', k')" "v = ScalarDecimal m' k'"
    using assms unfolding parse_threshold_reading canonical_reading_def
    by (auto split: option.splits scalar_value.splits sum.splits prod.splits)
  then show ?thesis by (intro that[of m' k'] normalize_decimal_spec(2))
qed

text \<open>What an authored IntentSpec is: at least one criterion, every threshold a canonical decimal.\<close>

definition canonical_criteria :: "intent_spec_ir \<Rightarrow> bool" where
  "canonical_criteria ir \<longleftrightarrow> intent_criteria ir \<noteq> []
     \<and> (\<forall>c\<in>set (intent_criteria ir). \<exists>m k. crit_threshold c = ScalarDecimal m k
          \<and> check_decimal_canonical m k = Inr ())"

lemma parse_criterion_canonical:
  "parse_criterion c = Inr c' \<Longrightarrow> \<exists>m k. crit_threshold c' = ScalarDecimal m k \<and> check_decimal_canonical m k = Inr ()"
  by (auto simp: parse_criterion_def rbind_eq_Inr map_err_eq_Inr elim: parse_threshold_canonical)

lemma parse_intent_spec_canonical:
  "parse_intent_spec read_input json = Inr ir \<Longrightarrow> canonical_criteria ir"
  by (auto simp: parse_intent_spec_def canonical_criteria_def rbind_eq_Inr mapR_Inr list_all2_conv_all_nth
      in_set_conv_nth split: if_splits dest!: parse_criterion_canonical)

section \<open>What is stored\<close>

lemma store_outcome:
  assumes "toolchain_law T" "json_total T" "fs_invar s" "st_io s = []" "sound T (fs_view s)"
    and "genuine T (artifact_hash (art_manifest a)) kew"
    and "store_and_record T (local_registry T) a kew True now s = (r, t)"
  shows "if vw_log (fs_view s) (artifact_hash (art_manifest a)) = []
     then r = Inr (artifact_hash (art_manifest a), StructurallyVerified)
       \<and> recorded T (fs_view s) a kew now (fs_view t)
     else r = Inl (RegistryFailure (EventExists 0))
       \<and> fs_view t = with_kew (artifact_hash (art_manifest a)) kew (fs_view s)"
proof -
  have spec: "triple (fs_stands True (fs_view s)) (store_and_record T (local_registry T) a kew True now) Q F"
    if "triple (fs_stands True (fs_view s)) (abind (lift (Inr (a, kew)))
      (\<lambda>(a, kew). store_and_record T (local_registry T) a kew True now)) Q F" for Q F
    using that by (simp add: lift_ok)
  note spec = spec[OF fs.compiled_triple[OF assms(1,5), where r = "Inr (a, kew)" and b = True and now = now
      and L = "tc_lib T" and A = "tc_artifacts T"]]
  note start = fs_stands_now[OF assms(3,4)]
  show ?thesis
  proof (cases r)
    case (Inl e)
    show ?thesis
      using tripleD_err[OF spec start assms(7)[unfolded Inl]] assms(2,6) unfolding Inl
      by (auto simp: fs_stands_def)
  next
    case (Inr x)
    show ?thesis
      using tripleD_ok[OF spec start assms(7)[unfolded Inr]] assms(6) unfolding Inr
      by (auto simp: fs_stands_def recorded_def Let_def split: prod.splits)
  qed
qed

text \<open>The registry after a command that had \<open>kew\<close> to store: on a fresh address the artifact with
  its two events, otherwise the artifact alone, under the old log.\<close>

definition stored ::
    "toolchain \<Rightarrow> registry_view \<Rightarrow> artifact \<Rightarrow> bytes \<Rightarrow> authoring_error + hash32 \<times> lifecycle_state
     \<Rightarrow> registry_view \<Rightarrow> bool" where
  "stored T v a kew r v' \<longleftrightarrow>
     (let h = artifact_hash (art_manifest a) in
      vw_kew v' h = Some kew \<and> decodes T kew a \<and> art_attestations a = []
      \<and> (\<forall>g. g \<noteq> h \<longrightarrow> vw_kew v' g = vw_kew v g \<and> vw_log v' g = vw_log v g)
      \<and> (if vw_log v h = [] then r = Inr (h, StructurallyVerified) \<and> states_of (vw_log v' h) = [Draft, StructurallyVerified]
         else r = Inl (AuthoringCommand (RegistryFailure (EventExists 0))) \<and> vw_log v' h = vw_log v h))"

lemma recorded_states:
  assumes "toolchain_law T" "recorded T v a kew now v'"
  shows "states_of (vw_log v' (artifact_hash (art_manifest a))) = [Draft, StructurallyVerified]"
    "vw_kew v' = (vw_kew v)(artifact_hash (art_manifest a) \<mapsto> kew)"
    "g \<noteq> artifact_hash (art_manifest a) \<Longrightarrow> vw_log v' g = vw_log v g"
proof -
  let ?h = "artifact_hash (art_manifest a)" and ?K = "tc_crypto T"
  obtain d e where d: "build_draft_event ?K (tc_events T) ?h REGISTRY_ROOT_KEY_ID (stamp ?K ?h now) = Inr d" and
    e: "build_transition_event ?K (tc_events T) d StructurallyVerified TEST_KEY_ID RegistryRole (stamp ?K ?h now) = Inr e" and
    v': "vw_log v ?h = []" "v' = with_log ?h e (with_log ?h d (with_kew ?h kew v))"
    using assms(2) by (auto simp: recorded_def Let_def)
  have "ev_new_state d = Draft" "ev_new_state e = StructurallyVerified"
    using sound_log_draft(2)[OF assms(1) d] e by (simp_all add: build_transition_event_def built_state)
  then show "states_of (vw_log v' ?h) = [Draft, StructurallyVerified]"
    "vw_kew v' = (vw_kew v)(?h \<mapsto> kew)" "g \<noteq> ?h \<Longrightarrow> vw_log v' g = vw_log v g"
    by (simp_all add: v' states_of_def)
qed

lemma assembled_unattested:
  assumes "toolchain_law T"
    and "assemble_payload (tc_lib T) (tc_crypto T) (tc_artifacts T) m p audit sk kid = Inr (a, kew)"
  shows "art_attestations a = []" "\<exists>index. canonicalize_payload (tc_lib T) p = Inr (art_payload a, index)"
  using assemble_payload_result[OF toolchain_laws(1)[OF assms(1)] assms(2)] by metis+

lemma prepared_stored:
  assumes "toolchain_law T" "json_total T" "fs_invar s" "st_io s = []" "sound T (fs_view s)"
    and "genuine T (artifact_hash (art_manifest a)) kew" "decodes T kew a" "art_attestations a = []"
    and "with_error AuthoringCommand (store_and_record T (local_registry T) a kew True now) s = (r, t)"
  shows "stored T (fs_view s) a kew r (fs_view t)"
proof -
  obtain x where x: "store_and_record T (local_registry T) a kew True now s = (x, t)" "r = map_err AuthoringCommand x"
    using assms(9) by (auto simp: with_error_def split: prod.splits)
  note out = store_outcome[OF assms(1-6) x(1)]
  show ?thesis
    using out assms(7,8) recorded_states[OF assms(1), of "fs_view s" a kew now "fs_view t"] x(2)
    by (auto simp: stored_def Let_def results split: if_splits)
qed

lemma synthetic_kept:
  assumes "toolchain_law T"
    and "assemble_payload (tc_lib T) (tc_crypto T) (tc_artifacts T) (synthetic_manifest K kind regime d seed) p audit sk kid
      = Inr (a, kew)"
  shows "regime_id (art_manifest a) = regime" "artifact_kind (art_manifest a) = kind"
proof -
  have man: "art_manifest a
      = (synthetic_manifest K kind regime d seed)\<lparr>artifact_hash := artifact_hash (art_manifest a)\<rparr>"
    by (rule assemble_payload_result[OF toolchain_laws(1)[OF assms(1)] assms(2)])
  show "regime_id (art_manifest a) = regime" "artifact_kind (art_manifest a) = kind"
    by (subst man, simp add: synthetic_manifest_def Let_def)+
qed

lemmas authoring_steps = guard_def abind_def lift_def ret_def throw_def results

section \<open>Concrete documents\<close>

definition noted_rules :: "rule_ir list" where
  "noted_rules = [(sample_rule_with [''b'', ''a''] 90 2)\<lparr>interpretation_notes := Some ''cap''\<rparr>]"

definition sample_document :: yaml_lib where
  "sample_document = sample_yaml\<lparr>parse_yaml := \<lambda>_. Inr (render_document noted_rules)\<rparr>"

lemma sample_document_compiles: "compile_rules sample_document source = Inr noted_rules"
proof -
  have "yaml_bools sample_document" using sample_yaml_bools by (simp add: yaml_bools_def sample_document_def)
  moreover have "list_all authorable noted_rules" by code_simp
  ultimately have "compile_node sample_document (render_document noted_rules) = Inr noted_rules"
    by (rule compile_render_document)
  then show ?thesis
    by (simp add: compile_rules_def parse_rules_def parse_root_def compile_node_def Let_def sample_document_def results)
qed

lemma no_white_graphic:
  assumes "ascii_graphic c"
  shows "find (\<lambda>w. w \<noteq> [] \<and> starts_with (c # s) w) white_chars = None"
proof -
  have "\<not> starts_with (c # s) w" if "w \<in> set white_chars" for w
    using white_ends assms that by (cases w) (auto simp: starts_with_def list_all_iff)
  then show ?thesis by (auto simp: find_None_iff)
qed

lemma split_whitespace_graphic: "list_all ascii_graphic s \<Longrightarrow> length (split_whitespace s) \<le> 1"
proof -
  assume "list_all ascii_graphic s"
  then have "white_pieces s = [s]"
  proof (induction s)
    case Nil
    show ?case by (subst white_pieces.simps) simp
  next
    case (Cons c s)
    then show ?case by (subst white_pieces.simps) (simp add: no_white_graphic)
  qed
  then show ?thesis by (simp add: split_whitespace_def)
qed

lemma noted_rules_clean: "\<not> has_blocking (verify_rules noted_rules)"
proof -
  have graphic: "list_all ascii_graphic ''r1''" "list_all ascii_graphic ''1''" "list_all ascii_graphic ''ok''"
    "list_all ascii_graphic (doc_document_id sample_doc)"
    by code_simp+
  have "\<not> faulty r" if "r \<in> set noted_rules" for r
    using that graphic split_whitespace_graphic[OF graphic(1)]
    by (simp add: noted_rules_def sample_rule_with_def faulty_def blank_def trim_graphic group_is_empty_def sample_doc_def)
  then have "list_ex finding_blocking (report_findings (verify_rules noted_rules)) = False"
    by (simp add: verify_rules_def list_ex_iff noted_rules_def flip: rule_findings_block)
  moreover have "detect_conflicts noted_rules = []"
    by (simp add: set_empty[symmetric] set_eq_iff detect_conflicts_member noted_rules_def del: set_empty)
  ultimately show ?thesis by (simp add: has_blocking_def verify_rules_def)
qed

lemma noted_rules_assembled: "is_ok (assemble_rules sample_toolchain noted_rules ''mica'')"
proof -
  let ?m = "synthetic_manifest root_crypto RegimePack ''mica'' floor_date []"
  have m: "canonicalize_manifest ascii_lib ?m = Inr ()"
    by (simp add: canonicalize_manifest_def synthetic_manifest_def Let_def floor_date_def ascii_lib_def ensure_nfc_def
        ensure_date_def MIN_YEAR_def CODEC_VERSION_def CANONICALIZATION_VERSION_def results del: walkers_agree)
  have "is_ok (mapR (canonicalize_rule ascii_lib) noted_rules)" by code_simp
  then obtain p index where p: "canonicalize_payload ascii_lib (PayloadRules noted_rules) = Inr (p, index)"
    by (auto simp: canonicalize_payload_def is_ok_iff results)
  have "\<exists>a kew. assemble_payload ascii_lib root_crypto sample_codecs ?m (PayloadRules noted_rules)
      no_audit_versions FIXED_SEED TEST_KEY_ID = Inr (a, kew)"
    by (rule assemble_payload_total[OF sample_codecs_law m p])
  moreover have "first_effective noted_rules = floor_date"
    by (simp add: first_effective_def noted_rules_def sample_rule_with_def)
  ultimately show ?thesis by (auto simp: assemble_rules_def assemble_def sample_toolchain_def is_ok_iff results)
qed

definition sample_intent_input :: intent_spec_input where
  "sample_intent_input =
     \<lparr>isi_action_class = ''wire_transfer_usd'',
      isi_criteria = [\<lparr>ci_name = ''max_amount'', ci_threshold = ''10000.50'', ci_volatility = ''Stable''\<rparr>],
      isi_idempotency = \<lparr>ii_scope = ''payer'', ii_key_fields = [''payer_id'', ''nonce'']\<rparr>,
      isi_source_spans = []\<rparr>"

definition sample_intent :: intent_spec_ir where
  "sample_intent =
     \<lparr>action_class = ''wire_transfer_usd'',
      intent_criteria = [\<lparr>crit_name = ''max_amount'', crit_threshold = ScalarDecimal 100005 1, crit_volatility = Stable\<rparr>],
      intent_idempotency = \<lparr>idem_key_fields = [''payer_id'', ''nonce''], idem_scope = ''payer''\<rparr>,
      intent_source_spans = []\<rparr>"

lemma sample_intent_parses: "parse_intent_spec (\<lambda>_. Inr sample_intent_input) source = Inr sample_intent"
proof -
  have "list_all ascii_graphic ''10000.50''" "list_all ascii_graphic ''Stable''" by code_simp+
  then have t: "trim ''10000.50'' = ''10000.50''" "trim ''Stable'' = ''Stable''" by (simp_all add: trim_graphic)
  have "parse_i128 ''1000050'' = Some 1000050" "ascii_lowercase ''Stable'' = ''stable''" by code_simp+
  then have "parse_threshold ''10000.50'' = Inr (ScalarDecimal 100005 1)" "parse_volatility ''Stable'' = Inr Stable"
    using t by (simp_all add: parse_threshold_def parse_volatility_def Let_def strip_prefix_def split_once_def
        option_or_def is_digit_def numeral_2_eq_2)
  then show ?thesis
    by (simp add: parse_intent_spec_def parse_criterion_def sample_intent_input_def sample_intent_def results)
qed

lemma sample_intent_assembled: "is_ok (assemble_intent sample_toolchain sample_intent ''mica'')"
proof -
  let ?m = "synthetic_manifest root_crypto IntentSpec ''mica'' floor_date []"
  have m: "canonicalize_manifest ascii_lib ?m = Inr ()"
    by (simp add: canonicalize_manifest_def synthetic_manifest_def Let_def floor_date_def ascii_lib_def ensure_nfc_def
        ensure_date_def MIN_YEAR_def CODEC_VERSION_def CANONICALIZATION_VERSION_def results del: walkers_agree)
  have p: "canonicalize_payload ascii_lib (PayloadIntentSpec sample_intent) = Inr (PayloadIntentSpec sample_intent, [])"
    by (simp add: canonicalize_payload_def)
  have "\<exists>a kew. assemble_payload ascii_lib root_crypto sample_codecs ?m (PayloadIntentSpec sample_intent)
      no_audit_versions FIXED_SEED TEST_KEY_ID = Inr (a, kew)"
    by (rule assemble_payload_total[OF sample_codecs_law m p])
  then show ?thesis by (auto simp: assemble_intent_def sample_toolchain_def is_ok_iff results)
qed

lemma empty_store_facts: "st_io (empty_store []) = []" "vw_log (fs_view (empty_store [])) h = []"
  by (simp_all add: fs_view_def empty_store_def event_files_def)

section \<open>Properties\<close>

text \<open>C17: \<open>ke compile\<close> on a sound registry whose system calls succeed: it stores something exactly
  when the file is read, its text compiles, no finding or conflict of the structural verifier
  blocks, and assembly succeeds; what it stores is the signed artifact of the compiled rules in
  canonical form under the given regime. In every other case the registry is untouched.\<close>

theorem compile_run_exactly:
  assumes "toolchain_law T" "json_total T" "fs_invar s" "st_io s = []" "sound T (fs_view s)"
    and "compile_run Y T (local_registry T) file regime now s = (r, t)"
  shows "if \<exists>source rules. file = Inr source \<and> compile_rules Y source = Inr rules
        \<and> \<not> has_blocking (verify_rules rules) \<and> is_ok (assemble_rules T rules regime)
    then \<exists>source rules a kew rs. file = Inr source \<and> compile_rules Y source = Inr rules
        \<and> mapR (canonicalize_rule (tc_lib T)) rules = Inr rs \<and> art_payload a = PayloadRules rs
        \<and> regime_id (art_manifest a) = regime \<and> artifact_kind (art_manifest a) = RegimePack
        \<and> stored T (fs_view s) a kew r (fs_view t)
    else \<exists>e. r = Inl e \<and> t = s" (is "if ?ready then ?stores else ?fails")
proof (cases ?ready)
  case True
  then obtain source rules a kew where ok: "file = Inr source" "compile_rules Y source = Inr rules"
    "\<not> has_blocking (verify_rules rules)" "assemble_rules T rules regime = Inr (a, kew)"
    by (auto simp: is_ok_iff)
  let ?m = "\<lambda>seed. synthetic_manifest (tc_crypto T) RegimePack regime (first_effective rules) seed"
  obtain seed where asm: "assemble_payload (tc_lib T) (tc_crypto T) (tc_artifacts T) (?m seed)
      (PayloadRules rules) no_audit_versions FIXED_SEED TEST_KEY_ID = Inr (a, kew)"
    using ok(4) by (auto simp: assemble_rules_def assemble_def rbind_eq_Inr map_err_eq_Inr)
  have "stored T (fs_view s) a kew r (fs_view t)"
    using assms(6) prepared_stored[OF assms(1-5) assembled_genuine(1)[OF assms(1) ok(4)]
      assembled_decodes(1)[OF assms(1) ok(4)] assembled_unattested(1)[OF assms(1) asm]]
    by (simp add: compile_run_def ok compile_rules_into_def authoring_steps)
  moreover obtain rs where "mapR (canonicalize_rule (tc_lib T)) rules = Inr rs" "art_payload a = PayloadRules rs"
    using assembled_unattested(2)[OF assms(1) asm]
    by (auto simp: canonicalize_payload_def rbind_eq_Inr map_err_eq_Inr)
  ultimately have ?stores using ok synthetic_kept[OF assms(1) asm] by blast
  then show ?thesis using True by (simp only: if_True)
next
  case False
  then have ?fails
    using assms(6)
    by (auto simp: compile_run_def compile_rules_into_def authoring_steps with_error_def is_ok_iff
        split: sum.splits if_splits)
  then show ?thesis using False by (simp only: if_False)
qed

lemma compile_run_exactly_witness:
  "\<exists>h t. compile_run sample_document sample_toolchain (local_registry sample_toolchain) (Inr ''rules'') ''mica'' 7
     (empty_store []) = (Inr (h, StructurallyVerified), t) \<and> (\<exists>kew. vw_kew (fs_view t) h = Some kew)"
proof -
  obtain r t where run: "compile_run sample_document sample_toolchain (local_registry sample_toolchain)
      (Inr ''rules'') ''mica'' 7 (empty_store []) = (r, t)" by (rule prod.exhaust)
  have "\<exists>source rules. Inr ''rules'' = (Inr source :: string + string) \<and> compile_rules sample_document source = Inr rules
      \<and> \<not> has_blocking (verify_rules rules) \<and> is_ok (assemble_rules sample_toolchain rules ''mica'')"
    using sample_document_compiles noted_rules_clean noted_rules_assembled by auto
  then show ?thesis
    using compile_run_exactly[OF sample_toolchain_law empty_invar empty_store_facts(1) empty_sound run] run
    by (auto simp: stored_def Let_def empty_store_facts(2))
qed

text \<open>\<open>ke compile-intent\<close> on such a registry: it stores something exactly when the document
  parses and assembly succeeds. What it stores is the IntentSpec artifact of the parsed document,
  which declares a criterion and whose thresholds are canonical decimals, although assembly
  does not normalise this kind of payload. In every other case the registry is untouched.\<close>

theorem intent_run_exactly:
  assumes "toolchain_law T" "json_total T" "fs_invar s" "st_io s = []" "sound T (fs_view s)"
    and "intent_run read_input T (local_registry T) file regime now s = (r, t)"
  shows "if \<exists>source ir. file = Inr source \<and> parse_intent_spec read_input source = Inr ir
        \<and> is_ok (assemble_intent T ir regime)
    then \<exists>source ir a kew. file = Inr source \<and> parse_intent_spec read_input source = Inr ir
        \<and> canonical_criteria ir \<and> art_payload a = PayloadIntentSpec ir
        \<and> regime_id (art_manifest a) = regime \<and> artifact_kind (art_manifest a) = IntentSpec
        \<and> stored T (fs_view s) a kew r (fs_view t)
    else \<exists>e. r = Inl e \<and> t = s" (is "if ?ready then ?stores else ?fails")
proof (cases ?ready)
  case True
  then obtain source ir a kew where ok: "file = Inr source" "parse_intent_spec read_input source = Inr ir"
    "assemble_intent T ir regime = Inr (a, kew)"
    by (auto simp: is_ok_iff)
  let ?m = "\<lambda>seed. synthetic_manifest (tc_crypto T) IntentSpec regime floor_date seed"
  obtain seed where asm: "assemble_payload (tc_lib T) (tc_crypto T) (tc_artifacts T) (?m seed)
      (PayloadIntentSpec ir) no_audit_versions FIXED_SEED TEST_KEY_ID = Inr (a, kew)"
    using ok(3) by (auto simp: assemble_intent_def rbind_eq_Inr map_err_eq_Inr)
  have "stored T (fs_view s) a kew r (fs_view t)"
    using assms(6) prepared_stored[OF assms(1-5) assembled_genuine(2)[OF assms(1) ok(3)]
      assembled_decodes(2)[OF assms(1) ok(3)] assembled_unattested(1)[OF assms(1) asm]]
    by (simp add: intent_run_def ok compile_intent_into_def authoring_steps)
  moreover have "art_payload a = PayloadIntentSpec ir"
    using assembled_unattested(2)[OF assms(1) asm] by (simp add: canonicalize_payload_def)
  ultimately have ?stores
    using ok synthetic_kept[OF assms(1) asm] parse_intent_spec_canonical[OF ok(2)] by blast
  then show ?thesis using True by (simp only: if_True)
next
  case False
  then have ?fails
    using assms(6)
    by (auto simp: intent_run_def compile_intent_into_def authoring_steps with_error_def is_ok_iff split: sum.splits)
  then show ?thesis using False by (simp only: if_False)
qed

lemma intent_run_exactly_witness:
  "\<exists>h t. intent_run (\<lambda>_. Inr sample_intent_input) sample_toolchain (local_registry sample_toolchain) (Inr ''spec'')
     ''mica'' 7 (empty_store []) = (Inr (h, StructurallyVerified), t) \<and> (\<exists>kew. vw_kew (fs_view t) h = Some kew)"
proof -
  obtain r t where run: "intent_run (\<lambda>_. Inr sample_intent_input) sample_toolchain (local_registry sample_toolchain)
      (Inr ''spec'') ''mica'' 7 (empty_store []) = (r, t)" by (rule prod.exhaust)
  have "\<exists>source ir. Inr ''spec'' = (Inr source :: string + string)
      \<and> parse_intent_spec (\<lambda>_. Inr sample_intent_input) source = Inr ir \<and> is_ok (assemble_intent sample_toolchain ir ''mica'')"
    using sample_intent_parses sample_intent_assembled by auto
  then show ?thesis
    using intent_run_exactly[OF sample_toolchain_law empty_invar empty_store_facts(1) empty_sound run] run
    by (auto simp: stored_def Let_def empty_store_facts(2))
qed

text \<open>the decimal reader of the authoring document accepts exactly the texts the rule
  language reads as a decimal, and its result is that decimal in the canonical form, so the
  two readers and the normaliser of the encoding agree.\<close>

theorem threshold_reading:
  "parse_threshold s = Inr v \<longleftrightarrow>
     (\<exists>m k m' k'. parse_decimal s = Some (ScalarDecimal m k) \<and> normalize_decimal m k = Inr (m', k')
        \<and> v = ScalarDecimal m' k')"
  unfolding parse_threshold_reading canonical_reading_def
  by (auto split: option.splits scalar_value.splits sum.splits)

end
