(* ===== verification/Offline.thy ===== *)
theory Offline
  imports Authoring Consumer Graph
begin

text \<open>
  The commands that decide nothing about a registry: \<open>ke lint\<close>, \<open>ke query\<close>, \<open>ke export\<close>, \<open>ke import\<close>
  and the row projection of \<open>ke sql\<close> (\<open>ke-cli/src/commands\<close>: \<open>lint.rs\<close>, \<open>query.rs\<close>, \<open>export.rs\<close>,
  \<open>import_kew.rs\<close>, \<open>sql.rs\<close>). Flat files live beside the registry in a map from paths to contents.
\<close>

section \<open>Lint\<close>

record lint_outcome =
  lint_findings :: "finding list"
  lint_blocking_count :: nat

definition lint_run :: "yaml_lib \<Rightarrow> string + string \<Rightarrow> authoring_error + lint_outcome" where
  "lint_run Y file =
     rbind (map_err ReadSource file) (\<lambda>source.
     rbind (map_err CompileSource (compile_rules Y source)) (\<lambda>rules.
     let findings = concat (map t5_check rules) in
       Inr \<lparr>lint_findings = findings, lint_blocking_count = length (filter finding_blocking findings)\<rparr>))"

text \<open>The exit code the dispatcher derives from it.\<close>

definition lint_exit :: "bool \<Rightarrow> lint_outcome \<Rightarrow> int" where
  "lint_exit deny out = (if deny \<and> lint_blocking_count out > 0 then 2 else 0)"

section \<open>Query\<close>

definition query_run ::
    "toolchain \<Rightarrow> 's backend \<Rightarrow> selector \<Rightarrow> 64 word \<Rightarrow> ('s, resolution_record) registry_action" where
  "query_run T B sel now = abind (resolve T B sel now) (\<lambda>(_, record). ret record)"

fun lifecycle_state_debug :: "lifecycle_state \<Rightarrow> string" where
  "lifecycle_state_debug Draft = ''Draft''"
| "lifecycle_state_debug StructurallyVerified = ''StructurallyVerified''"
| "lifecycle_state_debug MlChecked = ''MlChecked''"
| "lifecycle_state_debug ExpertAttested = ''ExpertAttested''"
| "lifecycle_state_debug Published = ''Published''"
| "lifecycle_state_debug Deprecated = ''Deprecated''"
| "lifecycle_state_debug Revoked = ''Revoked''"

abbreviation "newline \<equiv> [CHR 0x0A]"

definition render_record :: "resolution_record \<Rightarrow> string" where
  "render_record r =
     ''hash:            '' @ hex32 (res_artifact_hash r) @ newline
     @ ''state:           '' @ lifecycle_state_debug (res_state r) @ newline
     @ ''resolving_event: '' @ res_event_key r @ newline
     @ ''selector:        '' @ res_selector_desc r @ newline
     @ ''policy_version:  '' @ res_policy_version r @ newline
     @ ''resolved_at:     '' @ nat_digits (uint (res_timestamp r)) @ newline"

section \<open>Export\<close>

text \<open>\<open>std::fs::write\<close> either writes the whole content or fails, possibly after having created or
  truncated the file.\<close>

type_synonym files = "string \<Rightarrow> bytes option"

datatype write_outcome = Written | WriteFailed string "bytes option"

datatype export_error = ExportRegistry registry_error | ExportWrite string

record export_receipt =
  exp_artifact_hash :: hash32
  exp_bytes_written :: nat
  exp_out_path :: string

definition write_file ::
    "write_outcome \<Rightarrow> string \<Rightarrow> bytes \<Rightarrow> ('s \<times> files, export_error, unit) action" where
  "write_file w path bs =
     (\<lambda>(s, fs). case w of
        Written \<Rightarrow> (Inr (), (s, fs(path \<mapsto> bs)))
      | WriteFailed e partial \<Rightarrow> (Inl (ExportWrite e), (s, fs(path := partial))))"

definition on_registry :: "('s, 'e, 'a) action \<Rightarrow> ('s \<times> 'f, 'e, 'a) action" where
  "on_registry m = (\<lambda>(s, f). case m s of (r, t) \<Rightarrow> (r, (t, f)))"

definition export_run ::
    "'s backend \<Rightarrow> hash32 \<Rightarrow> string \<Rightarrow> write_outcome \<Rightarrow> ('s \<times> files, export_error, export_receipt) action" where
  "export_run B h path w =
     abind (on_registry (with_error ExportRegistry (be_read_artifact_kew B h))) (\<lambda>kew.
     abind (write_file w path kew) (\<lambda>_.
       ret \<lparr>exp_artifact_hash = h, exp_bytes_written = length kew, exp_out_path = path\<rparr>))"

section \<open>Import\<close>

datatype import_error =
    ImportRead
  | ImportDecode artifact_error
  | ImportHashMismatch
  | ImportCompilerSignature
  | ImportAttestations "attestation_rejection list"

record import_outcome =
  imp_artifact_hash :: hash32
  imp_verdict :: verdict
  imp_provenance :: artifact_provenance
  imp_registry_state :: registry_status

definition import_key_directory :: "crypto \<Rightarrow> key_directory" where
  "import_key_directory K =
     [\<lparr>kd_key_id = TEST_KEY_ID, kd_public_key = ed_public K FIXED_SEED,
       kd_signer_roles = [RegistryRole], kd_authorized_types = [],
       kd_valid_from_unix = 0, kd_valid_to_unix = - 1, kd_status = KeyActive,
       kd_revoked_at_unix = None, kd_revocation_reason = None, kd_revocation_event_hash = None\<rparr>,
      \<lparr>kd_key_id = TEST_EXPERT_KEY_ID, kd_public_key = ed_public K EXPERT_FIXED_SEED,
       kd_signer_roles = [DomainExpert, PublicationApprover],
       kd_authorized_types = [SourceFidelity, Interpretation, ScenarioCoverage, EquivalenceClaim,
         PublicationApproval],
       kd_valid_from_unix = 0, kd_valid_to_unix = - 1, kd_status = KeyActive,
       kd_revoked_at_unix = None, kd_revocation_reason = None, kd_revocation_event_hash = None\<rparr>]"

definition import_context :: "toolchain \<Rightarrow> bytes \<Rightarrow> 64 word \<Rightarrow> policy_context" where
  "import_context T kew now =
     \<lparr>ctx_environment = ''local'', ctx_now_unix = now, ctx_supported_policy_versions = [''ap-1''],
      ctx_current_legal_source_hash =
        (case decode_artifact (tc_lib T) (tc_artifacts T) kew of
           Inr (a, _) \<Rightarrow> Some (source_corpus_hash (art_manifest a))
         | Inl _ \<Rightarrow> None)\<rparr>"

definition import_policy :: verification_policy where
  "import_policy = \<lparr>t2_t3_mode = Disabled, required_attestation_types = [],
     minimum_attestation_count_per_type = []\<rparr>"

definition import_evidence :: registry_evidence where
  "import_evidence = \<lparr>ev_status = StatusUnknown, ev_event_head_hash = 0, ev_live_event_head = None\<rparr>"

definition import_run :: "toolchain \<Rightarrow> bytes option \<Rightarrow> 64 word \<Rightarrow> import_error + import_outcome" where
  "import_run T file now =
     (case file of
        None \<Rightarrow> Inl ImportRead
      | Some kew \<Rightarrow>
          let outcome = verify_artifact (tc_lib T) (tc_crypto T) (tc_artifacts T) kew
                (import_key_directory (tc_crypto T)) (import_context T kew now) import_policy import_evidence now;
              passed = Inr \<lparr>imp_artifact_hash = prov_artifact_hash (out_provenance outcome),
                imp_verdict = out_verdict outcome, imp_provenance = out_provenance outcome,
                imp_registry_state = out_registry_state outcome\<rparr>
          in case out_verdict outcome of
               Verified \<Rightarrow> passed
             | Rejected (RejNotPublished _) \<Rightarrow> passed
             | Rejected (RejStaleEventHead _ _) \<Rightarrow> passed
             | Rejected (RejDecode e) \<Rightarrow> Inl (ImportDecode e)
             | Rejected RejHashMismatch \<Rightarrow> Inl ImportHashMismatch
             | Rejected RejCompilerSignatureInvalid \<Rightarrow> Inl ImportCompilerSignature
             | Rejected (RejAttestations rs) \<Rightarrow> Inl (ImportAttestations rs))"

section \<open>Rows of the SQL view\<close>

record artifact_row =
  row_artifact_hash :: string
  row_regime_id :: string
  row_artifact_kind :: string
  row_compiler_version :: string
  row_ir_schema_version :: string
  row_codec_version :: string
  row_canonicalization_version :: string
  row_effective_from :: string
  row_effective_to :: "string option"
  row_corpus_root_hash :: string
  row_source_corpus_hash :: string
  row_attestation_policy_version :: string
  row_lifecycle_state :: string
  row_signer_key_id :: string
  row_attestations :: string
  row_event_head_hash :: string
  row_exported_at_unix :: int

datatype sql_error = SqlRegistry registry_error | SqlDecode hash32 artifact_error

definition date_str :: "jurisdiction_date \<Rightarrow> string" where
  "date_str d = pad_int 4 (year d) @ ''-'' @ pad_int 2 (int (month d)) @ ''-'' @ pad_int 2 (int (day d))"

text \<open>\<open>serde_json::to_string\<close> of a list of type names, which contain nothing to escape.\<close>

definition names_json :: "string list \<Rightarrow> string" where
  "names_json ns = ''['' @ join_with '','' (map (\<lambda>n. [CHR 0x22] @ n @ [CHR 0x22]) ns) @ '']''"

definition lifecycle_state_text ::
    "toolchain \<Rightarrow> 's backend \<Rightarrow> hash32 \<Rightarrow> ('s, string \<times> hash32) registry_action" where
  "lifecycle_state_text T B h =
     abind (be_read_events B h) (\<lambda>events.
     abind (lift (current_state (tc_crypto T) (tc_events T) events)) (\<lambda>st.
     let state = (case st of Some s \<Rightarrow> event_kind_of s | None \<Rightarrow> ''unknown'') in
     abind (if events = [] then ret 0
            else abind (head_event T B h) (\<lambda>e. lift (chain_hash (tc_crypto T) (tc_events T) e))) (\<lambda>head.
       ret (state, head))))"

definition sem_ver_text :: "sem_ver \<Rightarrow> string" where
  "sem_ver_text v = nat_digits (uint (semver_major v)) @ ''.'' @ nat_digits (uint (semver_minor v)) @ ''.''
     @ nat_digits (uint (semver_patch v))"

definition artifact_row_of ::
    "manifest \<Rightarrow> artifact \<Rightarrow> string \<Rightarrow> hash32 \<Rightarrow> 64 word \<Rightarrow> artifact_row" where
  "artifact_row_of m a state head exported_at =
     \<lparr>row_artifact_hash = hex32 (artifact_hash m), row_regime_id = regime_id m,
      row_artifact_kind = artifact_kind_debug (artifact_kind m),
      row_compiler_version = sem_ver_text (compiler_version m),
      row_ir_schema_version = schema_version_text (ir_schema_version m),
      row_codec_version = codec_version m, row_canonicalization_version = canonicalization_version m,
      row_effective_from = date_str (man_effective_from m),
      row_effective_to = map_option date_str (man_effective_to m),
      row_corpus_root_hash = hex32 (corpus_root_hash m), row_source_corpus_hash = hex32 (source_corpus_hash m),
      row_attestation_policy_version = attestation_policy_version m, row_lifecycle_state = state,
      row_signer_key_id = cs_key_id (art_compiler_signature a),
      row_attestations = names_json (map (attestation_type_debug \<circ> att_type) (art_attestations a)),
      row_event_head_hash = hex32 head, row_exported_at_unix = sint exported_at\<rparr>"

definition project_row ::
    "toolchain \<Rightarrow> 's backend \<Rightarrow> 64 word \<Rightarrow> hash32 \<times> manifest \<Rightarrow> ('s, sql_error, artifact_row) action" where
  "project_row T B exported_at = (\<lambda>(h, m).
     abind (with_error SqlRegistry (be_read_artifact_kew B h)) (\<lambda>kew.
     abind (lift (map_err (SqlDecode h) (decode_artifact (tc_lib T) (tc_artifacts T) kew))) (\<lambda>(a, _).
     abind (with_error SqlRegistry (lifecycle_state_text T B h)) (\<lambda>(state, head).
       ret (artifact_row_of m a state head exported_at)))))"

definition project_rows ::
    "toolchain \<Rightarrow> 's backend \<Rightarrow> 64 word \<Rightarrow> ('s, sql_error, artifact_row list) action" where
  "project_rows T B exported_at =
     abind (with_error SqlRegistry (be_list_manifests B)) (\<lambda>manifests.
       each (project_row T B exported_at) manifests)"

section \<open>What an import accepts\<close>

lemma verdict_unpublished:
  assumes "ev_status ev \<noteq> StatusPublished"
  shows "verdict_for L K A a kew n kd ctx policy ev = Rejected (RejNotPublished (ev_status ev)) \<longleftrightarrow>
      (\<exists>h. verify_hash L K A kew = Inr h)
      \<and> (\<exists>entry. keydir_lookup kd (cs_key_id (art_compiler_signature a)) = Some entry
           \<and> ed_point K (kd_public_key entry)
           \<and> ed_verify K (kd_public_key entry) (take n kew) (cs_signature (art_compiler_signature a)))
      \<and> verify_attestation_set K A a policy kd ctx = Inr ()"
    "verdict_for L K A a kew n kd ctx policy ev \<noteq> Verified"
    "verdict_for L K A a kew n kd ctx policy ev \<noteq> Rejected (RejDecode e)"
    "verdict_for L K A a kew n kd ctx policy ev = Rejected (RejNotPublished st) \<Longrightarrow> st = ev_status ev"
    "verdict_for L K A a kew n kd ctx policy ev \<noteq> Rejected (RejStaleEventHead x y)"
  using assms
  by (auto simp: verdict_for_def is_ok_iff is_ok_unit verify_signature_ok split: option.splits sum.splits if_splits)

lemma provenance_hash: "prov_artifact_hash (provenance_of a ev now) = artifact_hash (art_manifest a)"
  by (simp add: provenance_of_def Let_def)

lemma import_accepts:
  "import_run T (Some kew) now = Inr out \<longleftrightarrow>
     (\<exists>a n. decode_artifact (tc_lib T) (tc_artifacts T) kew = Inr (a, n)
        \<and> verdict_for (tc_lib T) (tc_crypto T) (tc_artifacts T) a kew n (import_key_directory (tc_crypto T))
            (import_context T kew now) import_policy import_evidence = Rejected (RejNotPublished StatusUnknown)
        \<and> out = \<lparr>imp_artifact_hash = artifact_hash (art_manifest a),
            imp_verdict = Rejected (RejNotPublished StatusUnknown),
            imp_provenance = provenance_of a import_evidence now, imp_registry_state = StatusUnknown\<rparr>)"
proof (cases "decode_artifact (tc_lib T) (tc_artifacts T) kew")
  case (Inl e)
  then show ?thesis by (simp add: import_run_def verify_artifact_def Let_def)
next
  case (Inr x)
  obtain a n where x: "x = (a, n)" by (cases x)
  let ?v = "verdict_for (tc_lib T) (tc_crypto T) (tc_artifacts T) a kew n (import_key_directory (tc_crypto T))
            (import_context T kew now) import_policy import_evidence"
  have st: "ev_status import_evidence = StatusUnknown" by (simp add: import_evidence_def)
  note v = verdict_unpublished(2-5)[of import_evidence, unfolded st, OF registry_status.distinct(6),
      where L = "tc_lib T" and K = "tc_crypto T" and A = "tc_artifacts T" and a = a and kew = kew and n = n
      and kd = "import_key_directory (tc_crypto T)" and ctx = "import_context T kew now" and policy = import_policy]
  have dec: "decode_artifact (tc_lib T) (tc_artifacts T) kew = Inr (a, n)" using Inr x by simp
  show ?thesis
  proof (cases ?v)
    case Verified
    then show ?thesis using v by blast
  next
    case (Rejected r)
    show ?thesis
      using v by (cases r) (auto simp: import_run_def verify_artifact_def Let_def dec Rejected st provenance_hash)
  qed
qed

text \<open>What the attest command signs names the source corpus of the manifest, so binding the check
  to that corpus refuses none of it.\<close>

lemma signed_legal:
  "sign_attestation K A t sk = Inr t' \<Longrightarrow> att_legal_source_hash t' = att_legal_source_hash t"
  by (auto simp: sign_attestation_def rbind_eq_Inr map_err_eq_Inr)

lemma sign_all_legal:
  assumes "sign_all T m now types = Inr ts" "t \<in> set ts"
  shows "att_legal_source_hash t = source_corpus_hash m"
proof -
  obtain ty where "sign_attestation (tc_crypto T) (tc_artifacts T) (attestation_draft T m now ty) EXPERT_FIXED_SEED = Inr t"
    using assms by (auto simp: sign_all_def mapR_Inr list_all2_conv_all_nth in_set_conv_nth)
  from signed_legal[OF this] show ?thesis by (simp add: attestation_draft_def)
qed

lemma import_context_sel:
  "ctx_environment (import_context T kew now) = ''local''" "ctx_now_unix (import_context T kew now) = now"
  "ctx_supported_policy_versions (import_context T kew now) = [ATTESTATION_POLICY_VERSION]"
  "decodes T kew a \<Longrightarrow> ctx_current_legal_source_hash (import_context T kew now) = Some (source_corpus_hash (art_manifest a))"
  by (auto simp: import_context_def ATTESTATION_POLICY_VERSION_def decodes_def)

lemma import_context_accepts:
  assumes law: "artifact_codec_law (tc_artifacts T)"
    and ok: "verify_attestation (tc_crypto T) (tc_artifacts T) t h m kd (local_policy_context now) = Inr ()"
    and legal: "att_legal_source_hash t = source_corpus_hash (art_manifest a)" and dec: "decodes T kew a"
  shows "verify_attestation (tc_crypto T) (tc_artifacts T) t h m kd (import_context T kew now) = Inr ()"
proof -
  obtain bs where bs: "to_stdvec (pc_attestation_payload (tc_artifacts T)) (attestation_payload.truncate t) = Inr bs"
    using artifact_codec_laws(6)[OF law, THEN codec_law_enc] by blast
  obtain e where e: "keydir_lookup kd (att_key_id t) = Some e" using verify_attestation_known[OF ok] by blast
  show ?thesis
    using ok legal unfolding verify_attestation_Inr[OF law e bs]
    by (cases "att_expiration t") (auto simp: acceptance_defs import_context_sel local_policy_context_sel import_context_sel(4)[OF dec] is_local_def)
qed

lemma import_set_accepts:
  assumes "toolchain_law T" "decodes T kew a" "now \<noteq> - 1"
    and "sign_all T (art_manifest a) signed_at types = Inr (art_attestations a)"
    and "PublicationApproval \<in> set types \<Longrightarrow> set (co_attestation_types (artifact_kind (art_manifest a))) \<subseteq> set types"
  shows "verify_attestation_set (tc_crypto T) (tc_artifacts T) a import_policy (import_key_directory (tc_crypto T))
    (import_context T kew now) = Inr ()"
proof -
  note law = toolchain_laws(1)[OF assms(1)]
  have "knows_expert (tc_crypto T) (import_key_directory (tc_crypto T))"
    by (simp add: knows_expert_def keydir_lookup_def import_key_directory_def test_expert_key_directory_def
        TEST_KEY_ID_def TEST_EXPERT_KEY_ID_def)
  from signed_set_accepted[OF assms(1) this assms(3-5), of import_policy]
  have "verify_attestation_set (tc_crypto T) (tc_artifacts T) a import_policy (import_key_directory (tc_crypto T))
      (local_policy_context now) = Inr ()"
    by (simp add: import_policy_def)
  then show ?thesis
    unfolding attestation_set_accepted[OF law]
    using import_context_accepts[OF law _ sign_all_legal[OF assms(4)] assms(2)] by blast
qed

section \<open>What a row says\<close>

definition row_describes ::
    "toolchain \<Rightarrow> registry_view \<Rightarrow> 64 word \<Rightarrow> hash32 \<Rightarrow> artifact_row \<Rightarrow> bool" where
  "row_describes T v now h row \<longleftrightarrow>
     (\<exists>kew a head. vw_kew v h = Some kew \<and> decodes T kew a
        \<and> head_link (tc_crypto T) (tc_events T) (vw_log v h) = (if vw_log v h = [] then None else Some head)
        \<and> row = artifact_row_of (art_manifest a) a
            (case last_state (vw_log v h) of Some st \<Rightarrow> event_kind_of st | None \<Rightarrow> ''unknown'') head now)"

lemma triple_any_error: "triple P m Q (\<lambda>_. F) \<Longrightarrow> triple P (with_error g m) Q (\<lambda>_. F)"
  by (rule triple_with_error)

lemma triple_pure3:
  "(C1 \<Longrightarrow> C2 \<Longrightarrow> C3 \<Longrightarrow> triple P m Q F) \<Longrightarrow> triple (\<lambda>s. C1 \<and> C2 \<and> C3 \<and> P s) m Q F"
  unfolding triple_iff by blast

context registry_backend
begin

lemma lifecycle_state_text_triple:
  assumes "toolchain_law T" "sound T v"
  shows "triple (stands b v) (lifecycle_state_text T B h)
    (\<lambda>(st, head) s. (st = (case last_state (vw_log v h) of Some st \<Rightarrow> event_kind_of st | None \<Rightarrow> ''unknown'')
        \<and> head_link (tc_crypto T) (tc_events T) (vw_log v h) = (if vw_log v h = [] then None else Some head))
        \<and> stands b v s)
    (\<lambda>_ s. \<not> b \<and> stands b v s)"
  unfolding lifecycle_state_text_def Let_def
  apply (rule bind_step[OF read_events], blast)
  apply (rule triple_pure, hypsubst)
  apply (rule bind_lift, simp add: sound_logD[OF assms])
  apply (simp only: sound_logD[OF assms] sum.inject)
  apply hypsubst
  apply (rule bind_step[OF log_head_triple[OF assms]], blast)
  apply (rule triple_pure)
  apply (rule triple_ret, simp)
  done

lemma project_row_triple:
  assumes "toolchain_law T" "sound T v" "(h, m) \<in> stored_manifests (tc_lib T) (tc_artifacts T) v"
  shows "triple (stands b v) (project_row T B now (h, m)) (\<lambda>row s. stands b v s \<and> row_describes T v now h row)
    (\<lambda>_ s. \<not> b \<and> stands b v s)"
proof -
  obtain kew a n where k: "vw_kew v h = Some kew" "decode_artifact (tc_lib T) (tc_artifacts T) kew = Inr (a, n)"
    "m = art_manifest a"
    using assms(3) unfolding stored_sound[OF assms(2)] decodes_def by blast
  then have dec: "decodes T kew a" by (auto simp: decodes_def)
  show ?thesis
    unfolding project_row_def prod.case
    apply (rule bind_step[OF triple_any_error[OF read_artifact_kew]])
     apply (use k(1) in auto)[1]
    apply (rule triple_pure, simp only: k(1) option.inject, hypsubst)
    apply (simp only: k(2) map_err_simps lift_ok prod.case)
    apply (rule bind_step[OF triple_any_error[OF lifecycle_state_text_triple[OF assms(1,2)]]], blast)
    apply (clarsimp simp only: prod.case split_paired_all)
    apply (rule triple_pure)
    apply (rule triple_ret)
    using k(1) dec unfolding k(3) row_describes_def by blast
qed

lemma project_rows_triple:
  assumes "toolchain_law T" "sound T v" "L = tc_lib T" "A = tc_artifacts T"
  shows "triple (stands b v) (project_rows T B now)
    (\<lambda>rows s. (\<exists>hs. distinct hs \<and> sorted hs \<and> set hs = dom (vw_kew v) \<and> list_all2 (row_describes T v now) hs rows)
       \<and> stands b v s)
    (\<lambda>_ s. \<not> b \<and> stands b v s)"
  unfolding project_rows_def
proof (rule bind_step)
  show "triple (stands b v) (with_error SqlRegistry (be_list_manifests B))
      (\<lambda>ms s. set ms = stored_manifests L A v \<and> sorted (map fst ms) \<and> length ms = card (dom (vw_kew v)) \<and> stands b v s)
      (\<lambda>_ s. (b \<longrightarrow> undecodable L A v) \<and> stands b v s)"
    by (rule triple_any_error[OF list_manifests])
  show "\<not> b \<and> stands b v s" if "(b \<longrightarrow> undecodable L A v) \<and> stands b v s" for s
    using that sound_decodable[OF assms(2)] by (auto simp: assms(3,4))
  fix ms
  show "triple (\<lambda>s. set ms = stored_manifests L A v \<and> sorted (map fst ms) \<and> length ms = card (dom (vw_kew v)) \<and> stands b v s)
      (each (project_row T B now) ms)
      (\<lambda>rows s. (\<exists>hs. distinct hs \<and> sorted hs \<and> set hs = dom (vw_kew v) \<and> list_all2 (row_describes T v now) hs rows)
         \<and> stands b v s)
      (\<lambda>_ s. \<not> b \<and> stands b v s)"
  proof (intro triple_pure3)
    assume ms: "set ms = stored_manifests L A v" "sorted (map fst ms)" "length ms = card (dom (vw_kew v))"
    note ms = ms(1)[unfolded assms(3,4)] ms(2,3)
    have keys: "set (map fst ms) = dom (vw_kew v)"
    proof (rule set_eqI)
      fix h
      have "h \<in> set (map fst ms) \<longleftrightarrow> (\<exists>m. (h, m) \<in> stored_manifests (tc_lib T) (tc_artifacts T) v)"
        by (force simp: ms(1)[symmetric])
      also have "\<dots> \<longleftrightarrow> h \<in> dom (vw_kew v)"
        unfolding stored_sound[OF assms(2)] using sound_kew[OF assms(2)] by (metis domD domI)
      finally show "h \<in> set (map fst ms) \<longleftrightarrow> h \<in> dom (vw_kew v)" .
    qed
    have rows: "\<exists>hs. distinct hs \<and> sorted hs \<and> set hs = dom (vw_kew v) \<and> list_all2 (row_describes T v now) hs rows"
      if "list_all2 (\<lambda>x. row_describes T v now (fst x)) ms rows" for rows
      using that keys ms(2) manifests_distinct[OF assms(2) ms(1,3)]
      by (intro exI[of _ "map fst ms"]) (simp add: list_all2_map1)
    have "triple (stands b v) (each (project_row T B now) ms)
        (\<lambda>rows s. stands b v s \<and> list_all2 (\<lambda>x. row_describes T v now (fst x)) ms rows) (\<lambda>_ s. \<not> b \<and> stands b v s)"
    proof (rule triple_each_rel)
      fix x assume "x \<in> set ms"
      then show "triple (stands b v) (project_row T B now x) (\<lambda>row s. stands b v s \<and> row_describes T v now (fst x) row)
          (\<lambda>_ s. \<not> b \<and> stands b v s)"
        using project_row_triple[OF assms(1,2), of "fst x" "snd x"] ms(1) by simp
    qed
    then show "triple (stands b v) (each (project_row T B now) ms)
      (\<lambda>rows s. (\<exists>hs. distinct hs \<and> sorted hs \<and> set hs = dom (vw_kew v) \<and> list_all2 (row_describes T v now) hs rows)
         \<and> stands b v s) (\<lambda>_ s. \<not> b \<and> stands b v s)"
      by (rule triple_weaken) (use rows in blast)+
  qed
qed

end

section \<open>Facts for the properties\<close>

lemma genuine_imports:
  assumes "toolchain_law T" "genuine T h kew" "decodes T kew a"
  shows "(\<exists>out. import_run T (Some kew) now = Inr out) \<longleftrightarrow>
      verify_attestation_set (tc_crypto T) (tc_artifacts T) a import_policy (import_key_directory (tc_crypto T))
        (import_context T kew now) = Inr ()"
    "import_run T (Some kew) now = Inr out \<Longrightarrow> imp_artifact_hash out = h
       \<and> imp_verdict out = Rejected (RejNotPublished StatusUnknown)"
proof -
  obtain n where g: "decode_artifact (tc_lib T) (tc_artifacts T) kew = Inr (a, n)" "artifact_hash (art_manifest a) = h"
    "verify_hash (tc_lib T) (tc_crypto T) (tc_artifacts T) kew = Inr h" "cs_key_id (art_compiler_signature a) = TEST_KEY_ID"
    "verify_signature (tc_crypto T) (take n kew) (art_compiler_signature a) (ed_public (tc_crypto T) FIXED_SEED) = Inr ()"
    using assms(2,3) by (auto simp: genuine_def decodes_def)
  have st: "ev_status import_evidence \<noteq> StatusPublished" "ev_status import_evidence = StatusUnknown"
    by (simp_all add: import_evidence_def)
  have "ed_point (tc_crypto T) (ed_public (tc_crypto T) FIXED_SEED)"
    using toolchain_laws(4)[OF assms(1)] by (simp add: crypto_law_def)
  then show "(\<exists>out. import_run T (Some kew) now = Inr out) \<longleftrightarrow>
      verify_attestation_set (tc_crypto T) (tc_artifacts T) a import_policy (import_key_directory (tc_crypto T))
        (import_context T kew now) = Inr ()"
    using g unfolding import_accepts verdict_unpublished(1)[OF st(1), unfolded st(2)]
    by (auto simp: keydir_lookup_def import_key_directory_def verify_signature_ok)
  show "import_run T (Some kew) now = Inr out \<Longrightarrow> imp_artifact_hash out = h
       \<and> imp_verdict out = Rejected (RejNotPublished StatusUnknown)"
    using g(1,2) unfolding import_accepts by auto
qed

lemma local_export_file:
  assumes "fs_invar s" "export_run (local_registry T) h path w (s, disk) = (Inr receipt, (t, disk'))"
  obtains kew where "vw_kew (fs_view s) h = Some kew" "fs_view t = fs_view s" "disk' = disk(path \<mapsto> kew)"
    "receipt = \<lparr>exp_artifact_hash = h, exp_bytes_written = length kew, exp_out_path = path\<rparr>"
proof -
  obtain kew where k: "be_read_artifact_kew (local_registry T) h s = (Inr kew, t)" "disk' = disk(path \<mapsto> kew)"
    "receipt = \<lparr>exp_artifact_hash = h, exp_bytes_written = length kew, exp_out_path = path\<rparr>"
    using assms(2)
    by (auto simp: export_run_def abind_def on_registry_def with_error_def write_file_def ret_def results
        split: prod.splits sum.splits write_outcome.splits)
  have "fs_stands False (fs_view s) s" using assms(1) by (simp add: fs_stands_def)
  from tripleD_ok[OF fs.read_artifact_kew[where L = "tc_lib T" and A = "tc_artifacts T"] this k(1)]
  show ?thesis using that k(2,3) by (simp add: fs_stands_def)
qed

section \<open>Properties\<close>

text \<open>C22: what an offline import accepts, for arbitrary bytes: they decode, the content hash
  recomputes, the signature verifies under the directory's key of that id, and the attestations
  pass; the verdict of an accepted file is always that it is not published, never a positive
  one, so offline verification cannot stand in for the registry.\<close>

theorem import_accepts_iff:
  "import_run T (Some kew) now = Inr out \<longleftrightarrow>
     (\<exists>a n h entry. decode_artifact (tc_lib T) (tc_artifacts T) kew = Inr (a, n)
        \<and> verify_hash (tc_lib T) (tc_crypto T) (tc_artifacts T) kew = Inr h
        \<and> keydir_lookup (import_key_directory (tc_crypto T)) (cs_key_id (art_compiler_signature a)) = Some entry
        \<and> ed_point (tc_crypto T) (kd_public_key entry)
        \<and> ed_verify (tc_crypto T) (kd_public_key entry) (take n kew) (cs_signature (art_compiler_signature a))
        \<and> verify_attestation_set (tc_crypto T) (tc_artifacts T) a import_policy (import_key_directory (tc_crypto T))
            (import_context T kew now) = Inr ()
        \<and> out = \<lparr>imp_artifact_hash = artifact_hash (art_manifest a),
            imp_verdict = Rejected (RejNotPublished StatusUnknown),
            imp_provenance = provenance_of a import_evidence now, imp_registry_state = StatusUnknown\<rparr>)"
proof -
  have st: "ev_status import_evidence \<noteq> StatusPublished" "ev_status import_evidence = StatusUnknown"
    by (simp_all add: import_evidence_def)
  show ?thesis unfolding import_accepts verdict_unpublished(1)[OF st(1), unfolded st(2)] by blast
qed

text \<open>C23: an artifact of a sound registry leaves through \<open>ke export\<close> byte for byte and without
  touching the registry, and \<open>ke import\<close> of the file, at any time before the end of the clock, recognises it
  under its address, whether it is unattested or carries what the attest command signed with
  the co-attestations an approval needs.\<close>

theorem exported_file_imports:
  assumes "toolchain_law T" "fs_invar s" "sound T (fs_view s)" "now \<noteq> - 1"
    and "export_run (local_registry T) h path w (s, disk) = (Inr receipt, (t, disk'))"
    and "disk' path = Some kew" "decodes T kew a"
    and "sign_all T (art_manifest a) signed_at types = Inr (art_attestations a)"
    and "PublicationApproval \<in> set types \<Longrightarrow> set (co_attestation_types (artifact_kind (art_manifest a))) \<subseteq> set types"
  shows "fs_view t = fs_view s \<and> vw_kew (fs_view s) h = Some kew \<and> disk' = disk(path \<mapsto> kew)
    \<and> exp_bytes_written receipt = length kew
    \<and> (\<exists>out. import_run T (disk' path) now = Inr out \<and> imp_artifact_hash out = h
         \<and> imp_verdict out = Rejected (RejNotPublished StatusUnknown))"
proof -
  obtain k where k: "vw_kew (fs_view s) h = Some k" "fs_view t = fs_view s" "disk' = disk(path \<mapsto> k)"
    "receipt = \<lparr>exp_artifact_hash = h, exp_bytes_written = length k, exp_out_path = path\<rparr>"
    by (rule local_export_file[OF assms(2,5)])
  then have kew: "k = kew" using assms(6) by simp
  have "genuine T h kew" using assms(3) k(1) by (simp add: sound_def sound_objects_def kew)
  note accepted = genuine_imports[OF assms(1) this assms(7), of now]
  obtain out where "import_run T (Some kew) now = Inr out"
    using accepted(1) import_set_accepts[OF assms(1,7,4,8,9)] by blast
  then show ?thesis using k accepted(2) assms(6) by (simp add: kew)
qed

lemma exported_file_imports_witness:
  "\<exists>s h kew receipt t disk' out. export_run (local_registry sample_toolchain) h ''flat.kew'' Written (s, \<lambda>_. None)
       = (Inr receipt, (t, disk'))
     \<and> disk' ''flat.kew'' = Some kew \<and> import_run sample_toolchain (disk' ''flat.kew'') 9 = Inr out \<and> imp_artifact_hash out = h"
proof -
  let ?T = sample_toolchain
  obtain s h kew a where r: "fs_invar s" "st_io s = []" "sound ?T (fs_view s)" "vw_kew (fs_view s) h = Some kew"
    "decodes ?T kew a" "assemble_rules ?T sample_rules ''mica'' = Inr (a, kew)"
    by (rule sample_registry)
  have none: "art_attestations a = []"
    using r(6) by (auto simp: assemble_rules_def assemble_def rbind_eq_Inr map_err_eq_Inr
        intro: assembled_unattested(1)[OF sample_toolchain_law(1)])
  have sig: "sign_all ?T (art_manifest a) 7 [] = Inr (art_attestations a)" by (simp add: none sign_all_def)
  obtain t where t: "be_read_artifact_kew (local_registry ?T) h s = (Inr kew, t)"
    by (rule triple_success[OF fs.read_artifact_kew[where h = h and L = "tc_lib ?T" and A = "tc_artifacts ?T"]
        fs_stands_now[OF r(1,2)]]) (use r(4) in auto)
  then have run: "export_run (local_registry ?T) h ''flat.kew'' Written (s, \<lambda>_. None)
      = (Inr \<lparr>exp_artifact_hash = h, exp_bytes_written = length kew, exp_out_path = ''flat.kew''\<rparr>,
         (t, (\<lambda>_. None)(''flat.kew'' \<mapsto> kew)))"
    by (simp add: export_run_def abind_def on_registry_def with_error_def write_file_def ret_def results)
  have clock: "9 \<noteq> (- 1 :: 64 word)" by simp
  obtain out where "import_run ?T (Some kew) 9 = Inr out" "imp_artifact_hash out = h"
    using exported_file_imports[OF sample_toolchain_law(1) r(1,3) clock run _ r(5) sig] by auto
  then show ?thesis
    using run by (intro exI[of _ s] exI[of _ h] exI[of _ kew] exI[of _ t] exI[of _ out] exI) auto
qed

text \<open>C24: the rows of the SQL view over a sound registry whose system calls succeed: one row per
  stored artifact, in the order of the addresses, whose columns are those of the decoded artifact
  with the state its event log derives and the chain hash of the log's head.\<close>

theorem sql_rows_exactly:
  assumes "toolchain_law T" "fs_invar s" "st_io s = []" "sound T (fs_view s)"
    and "project_rows T (local_registry T) now s = (r, t)"
  shows "fs_view t = fs_view s \<and> (\<exists>rows hs. r = Inr rows \<and> distinct hs \<and> sorted hs
    \<and> set hs = dom (vw_kew (fs_view s)) \<and> list_all2 (row_describes T (fs_view s) now) hs rows)"
proof -
  note spec = fs.project_rows_triple[OF assms(1,4) refl refl, where b = True and now = now]
  note start = fs_stands_now[OF assms(2,3)]
  show ?thesis
  proof (cases r)
    case (Inl e)
    show ?thesis using tripleD_err[OF spec start assms(5)[unfolded Inl]] by simp
  next
    case (Inr rows)
    show ?thesis
      using tripleD_ok[OF spec start assms(5)[unfolded Inr]] unfolding Inr fs_stands_def by blast
  qed
qed

lemma sql_rows_exactly_witness:
  "\<exists>s rows t. vw_kew (fs_view s) \<noteq> (\<lambda>_. None) \<and> length rows = card (dom (vw_kew (fs_view s)))
     \<and> project_rows sample_toolchain (local_registry sample_toolchain) 9 s = (Inr rows, t)"
proof -
  let ?T = sample_toolchain
  obtain s h kew where r: "fs_invar s" "st_io s = []" "sound ?T (fs_view s)" "vw_kew (fs_view s) h = Some kew"
    by (rule sample_registry)
  obtain r' t where run: "project_rows ?T (local_registry ?T) 9 s = (r', t)" by (rule prod.exhaust)
  obtain rows hs where rows: "r' = Inr rows" "distinct hs" "set hs = dom (vw_kew (fs_view s))"
    "list_all2 (row_describes ?T (fs_view s) 9) hs rows"
    using sql_rows_exactly[OF sample_toolchain_law(1) r(1-3) run] by blast
  have "length rows = card (dom (vw_kew (fs_view s)))"
    using list_all2_lengthD[OF rows(4)] distinct_card[OF rows(2)] rows(3) by simp
  moreover have "vw_kew (fs_view s) \<noteq> (\<lambda>_. None)" using r(4) by (metis option.distinct(1))
  ultimately show ?thesis using run rows(1) by blast
qed

text \<open>What \<open>ke lint --deny\<close> refuses, \<open>ke compile\<close> refuses.\<close>

lemma denied_lint_blocks:
  assumes "compile_rules Y source = Inr rules" "lint_run Y (Inr source) = Inr out" "lint_exit True out \<noteq> 0"
  shows "has_blocking (verify_rules rules)"
proof -
  have "filter finding_blocking (concat (map t5_check rules)) \<noteq> []"
    using assms by (auto simp: lint_run_def lint_exit_def Let_def results split: if_splits)
  then obtain r f where "r \<in> set rules" "f \<in> set (t5_check r)" "finding_blocking f"
    by (auto simp: filter_empty_conv)
  then show ?thesis
    by (auto simp: has_blocking_def verify_rules_def list_ex_iff)
qed

end
