(* ===== verification/Rounding.thy ===== *)
theory Rounding
  imports Exec
begin

text \<open>
  The accuracy of \<open>str::parse::<f64>\<close> and of the comparisons built on it: the relative error of
  rounding to nearest, and what it means for decimals written at one scale. The preview runtime
  converts every decimal operand this way before it compares.
\<close>

section \<open>The error of rounding to nearest\<close>

lemma round_half_even_error:
  assumes "0 < d"
  shows "\<bar>of_int (round_half_even n d) - of_int n / of_int d\<bar> \<le> (1/2 :: rat)"
proof -
  let ?q = "n div d" and ?r = "n mod d"
  have n: "of_int n = (of_int ?q * of_int d + of_int ?r :: rat)"
    by (simp flip: of_int_mult of_int_add)
  have r: "0 \<le> ?r" "?r < d" using assms by simp_all
  have split: "of_int n / of_int d = (of_int ?q + of_int ?r / of_int d :: rat)"
    using assms by (simp add: n field_simps)
  have dpos: "0 < (of_int d :: rat)" using assms by simp
  have down: "2 * ?r \<le> d \<Longrightarrow> of_int ?r / of_int d \<le> (1/2 :: rat)"
  proof -
    assume "2 * ?r \<le> d"
    then have "(of_int (2 * ?r) :: rat) \<le> of_int d" by (simp only: of_int_le_iff)
    then show ?thesis using dpos by (simp add: pos_divide_le_eq)
  qed
  have up: "d \<le> 2 * ?r \<Longrightarrow> (1/2 :: rat) \<le> of_int ?r / of_int d"
  proof -
    assume "d \<le> 2 * ?r"
    then have "(of_int d :: rat) \<le> of_int (2 * ?r)" by (simp only: of_int_le_iff)
    then show ?thesis using dpos by (simp add: pos_le_divide_eq)
  qed
  have unit: "0 \<le> (of_int ?r / of_int d :: rat)" "of_int ?r / of_int d < (1 :: rat)"
    using assms r by (simp_all add: field_simps)
  show ?thesis
  proof (cases "2 * ?r < d \<or> 2 * ?r = d \<and> even ?q")
    case True
    then have "round_half_even n d = ?q" by (simp add: round_half_even_def Let_def)
    with True down unit show ?thesis unfolding split by auto
  next
    case False
    then have "round_half_even n d = ?q + 1" "d \<le> 2 * ?r"
      by (auto simp: round_half_even_def Let_def)
    with up unit show ?thesis unfolding split by simp
  qed
qed

lemma scaled_quotient:
  assumes "0 < d"
  shows "(of_int n / of_int d :: rat) * 2 powi (- e) =
    (if 0 \<le> e then of_int n / of_int (d * 2 ^ nat e) else of_int (n * 2 ^ nat (- e)) / of_int d)"
proof (cases "0 \<le> e")
  case True
  then show ?thesis using two_powi_nat[of e] by (simp add: power_int_minus field_simps)
next
  case False
  then show ?thesis using two_powi_nat[of "- e"] by simp
qed

text \<open>Within the normal range the result is finite and the relative error at most \<open>2 powi -53\<close>.\<close>

lemma round_f64_error:
  fixes q :: rat
  assumes pos: "0 < n" "0 < d" and q: "q = of_int n / of_int d"
    and range: "2 powi (- 1022) \<le> q" "q < 2 powi 1023"
  shows "\<exists>m e. round_f64 neg n d = F64Fin neg m e \<and> \<bar>of_int m * 2 powi e - q\<bar> \<le> q * 2 powi (- 53)"
proof -
  define fl where "fl = floor_log2 n d"
  define e where "e = fl - 52"
  have fl: "2 powi fl \<le> q" "q < 2 powi (fl + 1)"
    using floor_log2_bounds[OF pos] by (simp_all add: fl_def q)
  have "(2::rat) powi (- 1022) < 2 powi (fl + 1)" "(2::rat) powi fl < 2 powi 1023"
    using fl range by linarith+
  then have lim: "- 1022 \<le> fl" "fl \<le> 1022"
    using power_int_increasing[of "fl + 1" "- 1022" "2::rat"] power_int_increasing[of 1023 fl "2::rat"]
    by force+
  then have e: "max (- 1074) (floor_log2 n d - 52) = e" "e \<le> 970"
    by (simp_all add: fl_def e_def)
  define m where "m = (if e \<ge> 0 then round_half_even n (d * 2 ^ nat e)
      else round_half_even (n * 2 ^ nat (- e)) d)"
  have "\<bar>of_int m - q * 2 powi (- e)\<bar> \<le> 1/2"
    unfolding m_def q scaled_quotient[OF pos(2)]
    using round_half_even_error[of "d * 2 ^ nat e" n] round_half_even_error[of d "n * 2 ^ nat (- e)"] pos
    by auto
  then have "\<bar>of_int m - q * 2 powi (- e)\<bar> * 2 powi e \<le> 1/2 * 2 powi e"
    by (intro mult_right_mono) auto
  moreover have "\<bar>of_int m - q * 2 powi (- e)\<bar> * 2 powi e = \<bar>of_int m * 2 powi e - q\<bar>"
    by (simp add: abs_mult_pos left_diff_distrib mult.assoc flip: power_int_add)
  moreover have "1/2 * 2 powi e = 2 powi fl * (2::rat) powi (- 53)"
    by (simp add: e_def power_int_minus flip: power_int_add) (simp add: power_int_diff)
  moreover have "2 powi fl * (2::rat) powi (- 53) \<le> q * 2 powi (- 53)"
    using fl by (intro mult_right_mono) auto
  ultimately have err: "\<bar>of_int m * 2 powi e - q\<bar> \<le> q * 2 powi (- 53)" by linarith
  show ?thesis
  proof (cases "m = 2 ^ 53")
    case True
    have "round_f64 neg n d = F64Fin neg (2 ^ 52) (e + 1)"
      unfolding round_f64_def e(1) Let_def m_def[symmetric] True using pos e(2) by simp
    moreover have "of_int (2 ^ 52) * (2::rat) powi (e + 1) = of_int m * 2 powi e"
      unfolding True by (simp add: power_int_add)
    ultimately show ?thesis using err by metis
  next
    case False
    have "round_f64 neg n d = F64Fin neg m e"
      unfolding round_f64_def e(1) Let_def m_def[symmetric] using pos e(2) False by simp
    with err show ?thesis by blast
  qed
qed

section \<open>Decimals\<close>

definition f64_value :: "f64 \<Rightarrow> rat option" where
  "f64_value f = (case f of F64Fin neg m e \<Rightarrow> Some (fin_value neg m e) | _ \<Rightarrow> None)"

text \<open>The range of \<open>ScalarValue::Decimal\<close>: an \<open>i128\<close> mantissa and an \<open>i8\<close> scale.\<close>

definition decimal_range :: "int \<Rightarrow> int \<Rightarrow> bool" where
  "decimal_range m s = (i128_ok m \<and> - 128 \<le> s \<and> s < 128)"

lemma powi_two_mono: "a \<le> b \<Longrightarrow> (2::rat) powi a \<le> 2 powi b"
  by (rule power_int_increasing) auto

lemma normal_range:
  fixes n s :: int
  assumes "0 < n" "n \<le> 2 ^ 127" "- 128 \<le> s" "s < 128"
  defines "q \<equiv> of_int (n * 10 ^ nat (- s)) / (of_int (10 ^ nat s) :: rat)"
  shows "2 powi (- 1022) \<le> q" "q < 2 powi 1023"
proof -
  have ten: "(10::rat) ^ nat s \<le> 10 ^ 128" "(10::rat) ^ nat (- s) \<le> 10 ^ 128"
    using assms by (intro power_increasing; simp)+
  have one: "(1::rat) \<le> 10 ^ nat s" "(1::rat) \<le> 10 ^ nat (- s)" by simp_all
  have n: "1 \<le> (of_int n :: rat)" "(of_int n :: rat) \<le> 2 ^ 127"
    using assms(1,2) by (simp, metis of_int_le_iff of_int_numeral of_int_power)
  have "(2::rat) powi (- 1022) \<le> 1 / 10 ^ 128" by (simp add: power_int_minus field_simps)
  also have "\<dots> \<le> 1 / 10 ^ nat s" using ten by (intro divide_left_mono) auto
  also have "\<dots> \<le> q"
    unfolding q_def using n one mult_mono[of 1 "of_int n" 1 "10 ^ nat (- s) :: rat"]
    by (simp add: divide_right_mono)
  finally show "2 powi (- 1022) \<le> q" .
  have "q \<le> of_int n * 10 ^ nat (- s) / 1"
    unfolding q_def of_int_mult of_int_power of_int_numeral
    using n one by (intro divide_left_mono) auto
  also have "\<dots> \<le> 2 ^ 127 * 10 ^ 128" using n ten by (simp only: div_by_1) (intro mult_mono; simp)
  also have "\<dots> < (2::rat) powi 1023" by simp
  finally show "q < 2 powi 1023" .
qed

lemma decimal_accuracy:
  assumes "decimal_range m s"
  shows "\<exists>v. f64_value (decimal_to_f64 m s) = Some v
    \<and> \<bar>v - decimal_value m s\<bar> \<le> \<bar>decimal_value m s\<bar> * 2 powi (- 53)"
proof (cases "m = 0")
  case True
  then show ?thesis
    by (simp add: decimal_to_f64_fraction round_f64_def f64_value_def fin_value_def signed_mantissa_def
        decimal_value_def)
next
  case False
  let ?n = "\<bar>m\<bar> * 10 ^ nat (- s)" and ?d = "10 ^ nat s :: int"
  let ?q = "of_int ?n / (of_int ?d :: rat)"
  have m: "0 < \<bar>m\<bar>" "\<bar>m\<bar> \<le> 2 ^ 127" and s: "- 128 \<le> s" "s < 128"
    using False assms by (auto simp: decimal_range_def i128_ok_def)
  have "0 < ?n" "0 < ?d" using False by simp_all
  from round_f64_error[OF this refl normal_range[OF m s], of "m < 0"]
  obtain k e where r: "decimal_to_f64 m s = F64Fin (m < 0) k e"
    "\<bar>of_int k * 2 powi e - ?q\<bar> \<le> ?q * 2 powi (- 53)"
    unfolding decimal_to_f64_fraction by blast
  have v: "decimal_value m s = of_int (signed_mantissa (m < 0) 1) * ?q"
    by (simp add: decimal_value_fraction signed_mantissa_def)
  have "fin_value (m < 0) k e - decimal_value m s
      = of_int (signed_mantissa (m < 0) 1) * (of_int k * 2 powi e - ?q)"
    unfolding v by (simp add: fin_value_def signed_mantissa_def algebra_simps)
  then have "\<bar>fin_value (m < 0) k e - decimal_value m s\<bar> = \<bar>of_int k * 2 powi e - ?q\<bar>"
    by (simp only: abs_mult) (simp add: signed_mantissa_def)
  moreover have "\<bar>decimal_value m s\<bar> = ?q"
    unfolding v by (simp add: abs_mult signed_mantissa_def)
  ultimately show ?thesis using r by (simp add: f64_value_def)
qed

lemma f64_value_cmp:
  "f64_value a = Some x \<Longrightarrow> f64_value b = Some y \<Longrightarrow> f64_partial_cmp a b = Some (cmp_lin x y)"
  by (auto simp: f64_value_def f64_partial_cmp_value simp del: f64_partial_cmp.simps split: f64.splits)

text \<open>Decimals with the same scale and at most 52 bits of mantissa stay apart as doubles.\<close>

lemma same_scale_less:
  fixes u :: rat
  assumes "n < m" "\<bar>n\<bar> \<le> 2 ^ 52" "\<bar>m\<bar> \<le> 2 ^ 52" "\<bar>n\<bar> < 2 ^ 52 \<or> \<bar>m\<bar> < 2 ^ 52" and u: "0 < u"
    and x: "\<bar>x - of_int n * u\<bar> \<le> \<bar>of_int n * u\<bar> * 2 powi (- 53)"
    and y: "\<bar>y - of_int m * u\<bar> \<le> \<bar>of_int m * u\<bar> * 2 powi (- 53)"
  shows "x < y"
proof -
  have two: "(2::rat) powi (- 53) = 1 / 2 ^ 53" by (simp add: power_int_minus)
  have "\<bar>n\<bar> + \<bar>m\<bar> < 2 ^ 52 + 2 ^ 52"
    using assms(2-4) by (elim disjE) (rule add_less_le_mono add_le_less_mono; assumption)+
  also have "(2 ^ 52 + 2 ^ 52 :: int) = 2 ^ 53" by simp
  also have "(2 ^ 53 :: int) \<le> 2 ^ 53 * (m - n)" using assms(1) by simp
  finally have "\<bar>n\<bar> + \<bar>m\<bar> < 2 ^ 53 * (m - n)" .
  then have "of_int (\<bar>n\<bar> + \<bar>m\<bar>) < (of_int (2 ^ 53 * (m - n)) :: rat)" by (simp only: of_int_less_iff)
  then have "of_int (\<bar>n\<bar> + \<bar>m\<bar>) * u < of_int (2 ^ 53 * (m - n)) * u"
    using u by (rule mult_strict_right_mono)
  moreover have "of_int (\<bar>n\<bar> + \<bar>m\<bar>) * u = \<bar>of_int n * u\<bar> + \<bar>of_int m * u\<bar>"
    using u by (simp add: abs_mult distrib_right)
  moreover have "of_int (2 ^ 53 * (m - n)) * u = 2 ^ 53 * (of_int m * u - of_int n * u)"
    by (simp add: algebra_simps)
  ultimately have "\<bar>of_int n * u\<bar> + \<bar>of_int m * u\<bar> < 2 ^ 53 * (of_int m * u - of_int n * u)" by simp
  then have gap: "\<bar>of_int n * u\<bar> / 2 ^ 53 + \<bar>of_int m * u\<bar> / 2 ^ 53 < of_int m * u - of_int n * u"
    by (simp only: mult.commute[of "2 ^ 53"] flip: add_divide_distrib) (simp add: pos_divide_less_eq)
  show ?thesis using x y gap unfolding two times_divide_eq_right mult_1_right by linarith
qed

lemma same_scale_cmp:
  assumes "\<bar>n\<bar> \<le> 2 ^ 52" "\<bar>m\<bar> < 2 ^ 52" "- 128 \<le> s" "s < 128"
  shows "f64_partial_cmp (decimal_to_f64 n s) (decimal_to_f64 m s) = Some (cmp_lin n m)"
proof -
  have "decimal_range n s" "decimal_range m s"
    using assms by (auto simp: decimal_range_def i128_ok_def)
  then obtain x y where f: "f64_value (decimal_to_f64 n s) = Some x" "f64_value (decimal_to_f64 m s) = Some y"
    and x: "\<bar>x - of_int n * 10 powi (- s)\<bar> \<le> \<bar>of_int n * 10 powi (- s)\<bar> * 2 powi (- 53)"
    and y: "\<bar>y - of_int m * 10 powi (- s)\<bar> \<le> \<bar>of_int m * 10 powi (- s)\<bar> * 2 powi (- 53)"
    using decimal_accuracy unfolding decimal_value_def by metis
  have u: "(0::rat) < 10 powi (- s)" by simp
  have "n < m \<Longrightarrow> x < y" "m < n \<Longrightarrow> y < x"
    using same_scale_less[OF _ _ _ _ u x y] same_scale_less[OF _ _ _ _ u y x] assms(1,2) by auto
  moreover have "n = m \<Longrightarrow> x = y" using f by simp
  ultimately show ?thesis
    unfolding f64_value_cmp[OF f] by (cases n m rule: linorder_cases) (auto simp: cmp_lin_def)
qed

section \<open>Properties\<close>

text \<open>C35: every decimal a rule can hold - a 128-bit mantissa at any 8-bit scale - becomes a finite
  double within a relative error of \<open>2 powi -53\<close>: no operand overflows, underflows or is read
  as \<open>NaN\<close>.\<close>

theorem decimal_operand_accuracy:
  assumes "decimal_range m s"
  shows "\<exists>v. f64_value (decimal_to_f64 m s) = Some v
    \<and> \<bar>v - decimal_value m s\<bar> \<le> \<bar>decimal_value m s\<bar> * 2 powi (- 53)"
  by (rule decimal_accuracy[OF assms])

lemma decimal_operand_accuracy_witness:
  "\<exists>v. f64_value (decimal_to_f64 (2 ^ 127 - 1) (- 128)) = Some v
    \<and> \<bar>v - decimal_value (2 ^ 127 - 1) (- 128)\<bar> \<le> \<bar>decimal_value (2 ^ 127 - 1) (- 128)\<bar> * 2 powi (- 53)"
  by (rule decimal_operand_accuracy) (simp add: decimal_range_def i128_ok_def)

text \<open>a fact read from a decimal at the scale of the operand is compared as the exact decimals
  would be, for every mantissa below \<open>2 ^ 52\<close>: at a threshold of \<open>0.95\<close> the facts \<open>0.94\<close>,
  \<open>0.95\<close> and \<open>0.96\<close> fall on the right sides.\<close>

theorem decimal_comparison_exact:
  assumes "\<bar>n\<bar> < 2 ^ 52" "\<bar>m\<bar> < 2 ^ 52" "- 128 \<le> s" "s < 128"
  shows "(evaluate_op (FactFloat (decimal_to_f64 n s)) OpEq (ScalarDecimal m s) \<longleftrightarrow> n = m)
    \<and> (evaluate_op (FactFloat (decimal_to_f64 n s)) OpLt (ScalarDecimal m s) \<longleftrightarrow> n < m)
    \<and> (evaluate_op (FactFloat (decimal_to_f64 n s)) OpLte (ScalarDecimal m s) \<longleftrightarrow> n \<le> m)
    \<and> (evaluate_op (FactFloat (decimal_to_f64 n s)) OpGt (ScalarDecimal m s) \<longleftrightarrow> m < n)
    \<and> (evaluate_op (FactFloat (decimal_to_f64 n s)) OpGte (ScalarDecimal m s) \<longleftrightarrow> m \<le> n)"
proof -
  have "relation_of (FactFloat (decimal_to_f64 n s)) (ScalarDecimal m s) = Some (cmp_lin n m)"
    using same_scale_cmp[of n m s] assms by (simp add: relation_of_def)
  then show ?thesis
    using eval_eq_relation by (auto simp: eval_ord_relation cmp_lin_def)
qed

lemma decimal_comparison_exact_witness:
  "evaluate_op (FactFloat (decimal_to_f64 96 2)) OpGte (ScalarDecimal 95 2)
   \<and> \<not> evaluate_op (FactFloat (decimal_to_f64 94 2)) OpGte (ScalarDecimal 95 2)"
  using decimal_comparison_exact[of 96 95 2] decimal_comparison_exact[of 94 95 2] by simp

end
