(* ===== verification/Scenario.thy ===== *)
theory Scenario
  imports Rounding
begin

text \<open>
  The scenario generator of the equivalence harness (\<open>src/crates/ke-runtime/src/scenario.rs\<close>):
  a seeded SplitMix64 generator, values that drive a condition to either result, and the fact
  objects built from them. Words are 64 bits wide as in the code; the mantissa of a shifted
  decimal wraps at 128 bits (a panic in a debug build). The JSON object keeps the order of
  \<open>serde_json\<close> with \<open>preserve_order\<close>: an insertion keeps the position of an existing key, a
  removal moves the last entry into the gap.
\<close>

unbundle bit_operations_syntax

section \<open>The generator of pseudo-random numbers\<close>

text \<open>The next number and the new state.\<close>

definition next_u64 :: "64 word \<Rightarrow> 64 word \<times> 64 word" where
  "next_u64 st =
     (let st = st + 0x9E3779B97F4A7C15;
          z = (st XOR drop_bit 30 st) * 0xBF58476D1CE4E5B9;
          z = (z XOR drop_bit 27 z) * 0x94D049BB133111EB
      in (z XOR drop_bit 31 z, st))"

definition below :: "nat \<Rightarrow> 64 word \<Rightarrow> nat \<times> 64 word" where
  "below n st = (let (z, st) = next_u64 st in (unat (z mod of_nat n), st))"

definition rule_seed :: "64 word \<Rightarrow> string \<Rightarrow> 64 word" where
  "rule_seed global rid =
     fold (\<lambda>b h. (h XOR of_nat (of_char b)) * 0x100000001B3) rid (global XOR 0xD1B54A32D192ED03)"

section \<open>Driving values\<close>

definition wrap_i128 :: "int \<Rightarrow> int" where
  "wrap_i128 n = (n + 2 ^ 127) mod 2 ^ 128 - 2 ^ 127"

text \<open>\<open>Number::from_f64\<close> refuses infinities and NaN.\<close>

definition float_json :: "f64 \<Rightarrow> json" where
  "float_json f = (case f of F64Fin _ _ _ \<Rightarrow> JFloat f | _ \<Rightarrow> JNull)"

definition decimal_json :: "int \<Rightarrow> int \<Rightarrow> json" where
  "decimal_json m s =
     (if s \<le> 0
      then (case as_i64 m of Some i \<Rightarrow> JInt i | None \<Rightarrow> float_json (int_as_f64 m))
      else float_json (decimal_to_f64 m s))"

fun operand_to_json :: "scalar_value \<Rightarrow> json" where
  "operand_to_json (ScalarStr s) = JString s"
| "operand_to_json (ScalarBool b) = JBool b"
| "operand_to_json (ScalarDecimal m s) = decimal_json m s"
| "operand_to_json (ScalarList items) = JArray (map operand_to_json items)"

datatype gen = Set json | Absent

definition shift :: "scalar_value \<Rightarrow> int \<Rightarrow> json" where
  "shift operand delta =
     (case operand of
        ScalarDecimal m s \<Rightarrow> decimal_json (wrap_i128 (m + delta)) s
      | _ \<Rightarrow> operand_to_json operand)"

definition different :: "scalar_value \<Rightarrow> json" where
  "different operand =
     (case operand of
        ScalarStr s \<Rightarrow> JString (s @ ''__NOMATCH'')
      | ScalarBool b \<Rightarrow> JBool (\<not> b)
      | ScalarDecimal m s \<Rightarrow> decimal_json (wrap_i128 (m + 1)) s
      | ScalarList _ \<Rightarrow> JString ''__NOMATCH__'')"

definition NON_MEMBER :: string where
  "NON_MEMBER = ''__NOT_IN_SET__''"

definition first_member :: "scalar_value \<Rightarrow> json" where
  "first_member operand =
     (case operand of
        ScalarList (x # _) \<Rightarrow> operand_to_json x
      | _ \<Rightarrow> JString NON_MEMBER)"

fun value_true :: "operator \<Rightarrow> scalar_value \<Rightarrow> gen" where
  "value_true OpEq operand = Set (operand_to_json operand)"
| "value_true OpNotEq operand = Set (different operand)"
| "value_true OpIn operand = Set (first_member operand)"
| "value_true OpNotIn operand = Set (JString NON_MEMBER)"
| "value_true OpGt operand = Set (shift operand 1)"
| "value_true OpLt operand = Set (shift operand (- 1))"
| "value_true OpGte operand = Set (operand_to_json operand)"
| "value_true OpLte operand = Set (operand_to_json operand)"
| "value_true OpExists operand = Set (JString ''present'')"

fun value_false :: "operator \<Rightarrow> scalar_value \<Rightarrow> gen" where
  "value_false OpEq operand = Set (different operand)"
| "value_false OpNotEq operand = Set (operand_to_json operand)"
| "value_false OpIn operand = Set (JString NON_MEMBER)"
| "value_false OpNotIn operand = Set (first_member operand)"
| "value_false OpGt operand = Set (operand_to_json operand)"
| "value_false OpLt operand = Set (operand_to_json operand)"
| "value_false OpGte operand = Set (shift operand (- 1))"
| "value_false OpLte operand = Set (shift operand 1)"
| "value_false OpExists operand = Absent"

section \<open>The conditions of a rule\<close>

fun collect_tree :: "decision_entry \<Rightarrow> condition list"
  and collect_node :: "decision_node \<Rightarrow> condition list"
where
  "collect_tree (LeafEntry l) = []"
| "collect_tree (NodeEntry n) = collect_node n"
| "collect_node (DecisionNode i c t f sp) = c # collect_tree t @ collect_tree f"

record catalog =
  cat_conditions :: "condition list"
  cat_in_fields :: "string set"

definition catalog_from_rule :: "rule_ir \<Rightarrow> catalog" where
  "catalog_from_rule r =
     (let conditions = (case applies_if r of None \<Rightarrow> [] | Some g \<Rightarrow> fst (flattened g))
            @ collect_tree (decision_tree r)
      in \<lparr>cat_conditions = conditions,
          cat_in_fields = set (map cond_field
            (filter (\<lambda>c. cond_operator c = OpIn \<or> cond_operator c = OpNotIn) conditions))\<rparr>)"

section \<open>Fact objects\<close>

type_synonym pairs = "(string \<times> gen) list"

definition true_pair :: "condition \<Rightarrow> string \<times> gen" where
  "true_pair c = (cond_field c, value_true (cond_operator c) (cond_value c))"

definition false_pair :: "condition \<Rightarrow> string \<times> gen" where
  "false_pair c = (cond_field c, value_false (cond_operator c) (cond_value c))"

definition applicability_pairs :: "rule_ir \<Rightarrow> bool \<Rightarrow> pairs" where
  "applicability_pairs r satisfy =
     (case applies_if r of
        None \<Rightarrow> []
      | Some g \<Rightarrow>
          (case flattened g of
             ([], _) \<Rightarrow> []
           | (c # cs, mode) \<Rightarrow>
               if satisfy then map true_pair (c # cs)
               else if mode = ModeAll then [false_pair c]
               else map false_pair (c # cs)))"

fun walk_paths :: "decision_entry \<Rightarrow> pairs \<Rightarrow> pairs list"
  and walk_node_paths :: "decision_node \<Rightarrow> pairs \<Rightarrow> pairs list"
where
  "walk_paths (LeafEntry l) prefix = [prefix]"
| "walk_paths (NodeEntry n) prefix = walk_node_paths n prefix"
| "walk_node_paths (DecisionNode i c t f sp) prefix =
     walk_paths t (prefix @ [true_pair c]) @ walk_paths f (prefix @ [false_pair c])"

definition enumerate_paths :: "decision_entry \<Rightarrow> pairs list" where
  "enumerate_paths tree = walk_paths tree []"

fun object_insert :: "string \<Rightarrow> json \<Rightarrow> (string \<times> json) list \<Rightarrow> (string \<times> json) list" where
  "object_insert k v [] = [(k, v)]"
| "object_insert k v ((k', v') # m) = (if k' = k then (k, v) # m else (k', v') # object_insert k v m)"

fun object_remove :: "string \<Rightarrow> (string \<times> json) list \<Rightarrow> (string \<times> json) list" where
  "object_remove k [] = []"
| "object_remove k ((k', v') # m) =
     (if k' = k then (if m = [] then [] else last m # butlast m) else (k', v') # object_remove k m)"

definition apply_pair :: "string \<times> gen \<Rightarrow> (string \<times> json) list \<Rightarrow> (string \<times> json) list" where
  "apply_pair = (\<lambda>(k, g) m. case g of Set v \<Rightarrow> object_insert k v m | Absent \<Rightarrow> object_remove k m)"

definition build_facts :: "pairs list \<Rightarrow> json" where
  "build_facts layers = JObject (fold (\<lambda>layer m. fold apply_pair layer m) layers [])"

section \<open>Scenarios\<close>

record scenario =
  sc_rule_id :: string
  sc_label :: string
  sc_facts :: json

definition facts_map :: "(json \<Rightarrow> string) \<Rightarrow> scenario \<Rightarrow> facts" where
  "facts_map json_text sc =
     (case facts_from_json json_text (sc_facts sc) of Inr fs \<Rightarrow> fs | Inl _ \<Rightarrow> Map.empty)"

definition wrong_type :: "scalar_value \<Rightarrow> bool \<Rightarrow> json" where
  "wrong_type operand is_in_field =
     (case operand of ScalarDecimal _ _ \<Rightarrow> JString ''not_a_number'' | _ \<Rightarrow> JBool True)"

definition fuzz_value :: "condition \<Rightarrow> bool \<Rightarrow> 64 word \<Rightarrow> gen \<times> 64 word" where
  "fuzz_value c is_in_field st =
     (let (n, st) = below 5 st in
      (if n = 0 then value_true (cond_operator c) (cond_value c)
       else if n = 1 then value_false (cond_operator c) (cond_value c)
       else if n = 2 then Absent
       else if n = 3 then Set (wrong_type (cond_value c) is_in_field)
       else value_true (cond_operator c) (cond_value c), st))"

fun fuzz_pairs :: "string set \<Rightarrow> condition list \<Rightarrow> 64 word \<Rightarrow> pairs \<times> 64 word" where
  "fuzz_pairs in_fields [] st = ([], st)"
| "fuzz_pairs in_fields (c # cs) st =
     (let (g, st) = fuzz_value c (cond_field c \<in> in_fields) st;
          (ps, st) = fuzz_pairs in_fields cs st
      in ((cond_field c, g) # ps, st))"

text \<open>The scenarios \<open>fuzz#n\<close>, \<open>fuzz#n+1\<close>, and so on, as many as asked for.\<close>

fun fuzz_scenarios :: "string \<Rightarrow> catalog \<Rightarrow> nat \<Rightarrow> nat \<Rightarrow> 64 word \<Rightarrow> scenario list" where
  "fuzz_scenarios rid cat n 0 st = []"
| "fuzz_scenarios rid cat n (Suc k) st =
     (let (ps, st) = fuzz_pairs (cat_in_fields cat) (cat_conditions cat) st
      in \<lparr>sc_rule_id = rid, sc_label = ''fuzz#'' @ nat_digits (int n), sc_facts = build_facts [ps]\<rparr>
           # fuzz_scenarios rid cat (Suc n) k st)"

definition is_ordering :: "operator \<Rightarrow> bool" where
  "is_ordering oper = (oper = OpGt \<or> oper = OpLt \<or> oper = OpGte \<or> oper = OpLte)"

definition boundary_scenarios :: "string \<Rightarrow> pairs \<Rightarrow> pairs \<Rightarrow> condition \<Rightarrow> scenario list" where
  "boundary_scenarios rid appl_true all_true c =
     (if is_ordering (cond_operator c)
      then map (\<lambda>(tag, delta).
          \<lparr>sc_rule_id = rid, sc_label = ''boundary:'' @ cond_field c @ '':'' @ tag,
           sc_facts = build_facts [appl_true, all_true, [(cond_field c, Set (shift (cond_value c) delta))]]\<rparr>)
        [(''below'', - 1), (''at'', 0), (''above'', 1)]
      else [])"

definition anchor_scenarios :: "string \<Rightarrow> catalog \<Rightarrow> pairs \<Rightarrow> pairs \<Rightarrow> scenario list" where
  "anchor_scenarios rid cat appl_true all_true =
     (case cat_conditions cat of
        [] \<Rightarrow> []
      | c # _ \<Rightarrow>
         [\<lparr>sc_rule_id = rid, sc_label = ''missing:'' @ cond_field c,
           sc_facts = build_facts [appl_true, all_true, [(cond_field c, Absent)]]\<rparr>,
          \<lparr>sc_rule_id = rid, sc_label = ''wrong_type:'' @ cond_field c,
           sc_facts = build_facts [appl_true, all_true,
             [(cond_field c, Set (wrong_type (cond_value c) (cond_field c \<in> cat_in_fields cat)))]]\<rparr>])"

definition irrelevant_pairs :: pairs where
  "irrelevant_pairs = [(''__irrelevant_a'', Set (JBool True)), (''__irrelevant_b'', Set (JString ''noise''))]"

definition path_scenarios :: "rule_ir \<Rightarrow> scenario list" where
  "path_scenarios r =
     map (\<lambda>(i, path). \<lparr>sc_rule_id = rule_id r, sc_label = ''path#'' @ nat_digits (int i),
         sc_facts = build_facts [applicability_pairs r True, path]\<rparr>)
       (enumerate 0 (enumerate_paths (decision_tree r)))"

definition generate_for_rule :: "rule_ir \<Rightarrow> 64 word \<Rightarrow> nat \<Rightarrow> scenario list" where
  "generate_for_rule r global_seed fuzz_extra =
     (let rid = rule_id r;
          appl_true = applicability_pairs r True;
          appl_false = applicability_pairs r False;
          cat = catalog_from_rule r;
          all_true = map true_pair (cat_conditions cat)
      in path_scenarios r
         @ (if applies_if r \<noteq> None
            then [\<lparr>sc_rule_id = rid, sc_label = ''not_applicable'', sc_facts = build_facts [appl_false]\<rparr>] else [])
         @ concat (map (boundary_scenarios rid appl_true all_true) (cat_conditions cat))
         @ anchor_scenarios rid cat appl_true all_true
         @ [\<lparr>sc_rule_id = rid, sc_label = ''irrelevant_facts'',
             sc_facts = build_facts [appl_true, all_true, irrelevant_pairs]\<rparr>]
         @ fuzz_scenarios rid cat 0 fuzz_extra (rule_seed global_seed rid))"

section \<open>What a fact object holds\<close>

lemma object_insert_keys:
  "fst ` set (object_insert k v m) = insert k (fst ` set m)"
  "distinct (map fst m) \<Longrightarrow> distinct (map fst (object_insert k v m))"
  "map_of (object_insert k v m) = (map_of m)(k \<mapsto> v)"
  by (induction k v m rule: object_insert.induct) (auto simp: fun_eq_iff)

lemma rotate_last:
  assumes "m \<noteq> []"
  shows "set (last m # butlast m) = set m" "distinct (map fst (last m # butlast m)) = distinct (map fst m)"
proof -
  have m: "m = butlast m @ [last m]" using assms by simp
  show "set (last m # butlast m) = set m" by (subst (3) m) auto
  show "distinct (map fst (last m # butlast m)) = distinct (map fst m)" by (subst (3) m) auto
qed

lemma object_remove_set:
  "distinct (map fst m) \<Longrightarrow>
     set (object_remove k m) = {p \<in> set m. fst p \<noteq> k} \<and> distinct (map fst (object_remove k m))"
proof (induction k m rule: object_remove.induct)
  case (2 k k' v' m)
  show ?case
  proof (cases "k' = k")
    case True
    then have "{p \<in> set ((k', v') # m). fst p \<noteq> k} = set m" using 2(2) by force
    then show ?thesis using True 2(2) rotate_last[of m] by simp
  next
    case False
    with 2 show ?thesis by auto
  qed
qed simp

lemma object_remove_map_of:
  assumes "distinct (map fst m)"
  shows "map_of (object_remove k m) = (map_of m)(k := None)"
proof
  fix x
  have "map_of (object_remove k m) x = Some v \<longleftrightarrow> ((map_of m)(k := None)) x = Some v" for v
    using object_remove_set[OF assms, of k] assms by auto
  then show "map_of (object_remove k m) x = ((map_of m)(k := None)) x"
    by (metis not_None_eq)
qed

text \<open>The last pair of a field decides it.\<close>

definition gen_json :: "gen \<Rightarrow> json option" where
  "gen_json g = (case g of Set v \<Rightarrow> Some v | Absent \<Rightarrow> None)"

definition assigned :: "pairs \<Rightarrow> string \<Rightarrow> json option" where
  "assigned ps x = (case map_of (rev ps) x of None \<Rightarrow> None | Some g \<Rightarrow> gen_json g)"

lemma assigned_append: "assigned (ps @ [(k, g)]) = (assigned ps)(k := gen_json g)"
  by (auto simp: assigned_def fun_eq_iff)

lemma apply_pairs:
  "distinct (map fst (fold apply_pair ps [])) \<and> map_of (fold apply_pair ps []) = assigned ps"
proof (induction ps rule: rev_induct)
  case (snoc p ps)
  obtain k g where p: "p = (k, g)" by fastforce
  show ?case
    using snoc by (auto simp: p apply_pair_def assigned_append gen_json_def object_insert_keys(2,3)
        object_remove_set object_remove_map_of split: gen.splits)
qed (simp add: assigned_def fun_eq_iff)

lemma fold_layers: "fold (\<lambda>layer m. fold f layer m) layers m = fold f (concat layers) m"
  by (induction layers arbitrary: m) auto

lemma facts_map_layers:
  "sc_facts sc = build_facts layers \<Longrightarrow>
     facts_map json_text sc = map_option (from_json json_text) \<circ> assigned (concat layers)"
proof -
  assume sc: "sc_facts sc = build_facts layers"
  let ?m = "fold apply_pair (concat layers) []"
  have "map_of (rev (map (\<lambda>(k, v). (k, from_json json_text v)) ?m))
      = map_of (map (\<lambda>(k, v). (k, from_json json_text v)) ?m)"
    using apply_pairs[of "concat layers"]
    by (intro map_of_inject_set[THEN iffD2]) (auto simp: case_prod_beta comp_def simp flip: rev_map)
  also have "\<dots> = map_option (from_json json_text) \<circ> map_of ?m"
    by (simp add: map_of_map fun_eq_iff)
  finally show ?thesis
    using apply_pairs[of "concat layers"] by (simp add: facts_map_def sc build_facts_def fold_layers)
qed

section \<open>Values that drive a condition\<close>

definition small_decimal :: "int \<Rightarrow> int \<Rightarrow> bool" where
  "small_decimal m s = (\<bar>m\<bar> < 2 ^ 52 \<and> 0 \<le> s \<and> s < 128)"

fun plain_operand :: "scalar_value \<Rightarrow> bool" where
  "plain_operand (ScalarStr s) = True"
| "plain_operand (ScalarBool b) = True"
| "plain_operand (ScalarDecimal m s) = small_decimal m s"
| "plain_operand (ScalarList xs) = list_all plain_operand xs"

text \<open>The conditions the generator can drive to both results.\<close>

definition steerable :: "condition \<Rightarrow> bool" where
  "steerable c =
     (case cond_operator c of
        OpExists \<Rightarrow> True
      | OpEq \<Rightarrow> plain_operand (cond_value c)
      | OpNotEq \<Rightarrow> plain_operand (cond_value c)
      | OpIn \<Rightarrow> (case cond_value c of
          ScalarList (x # xs) \<Rightarrow> plain_operand x \<and> list_all (\<lambda>e. python_str_scalar e \<noteq> NON_MEMBER) (x # xs)
        | _ \<Rightarrow> False)
      | OpNotIn \<Rightarrow> (case cond_value c of
          ScalarList (x # xs) \<Rightarrow> plain_operand x \<and> list_all (\<lambda>e. python_str_scalar e \<noteq> NON_MEMBER) (x # xs)
        | _ \<Rightarrow> False)
      | _ \<Rightarrow> (case cond_value c of ScalarDecimal m s \<Rightarrow> small_decimal m s | _ \<Rightarrow> False))"

text \<open>The fact read back from a decimal: an integer at scale zero, a double above.\<close>

definition decimal_fact :: "int \<Rightarrow> int \<Rightarrow> fact_value" where
  "decimal_fact m s = (if s = 0 then FactInt m else FactFloat (decimal_to_f64 m s))"

lemma decimal_fact:
  assumes "\<bar>m\<bar> \<le> 2 ^ 52" "0 \<le> s" "s < 128"
  shows "from_json json_text (decimal_json m s) = decimal_fact m s"
    "as_number (decimal_fact m s) = Some (decimal_to_f64 m s)"
proof -
  have i: "as_i64 m = Some m" using assms(1) by (auto simp: as_i64_def)
  have "decimal_range m s" using assms by (auto simp: decimal_range_def i128_ok_def)
  then obtain v where "f64_value (decimal_to_f64 m s) = Some v" using decimal_accuracy by blast
  then have "float_json (decimal_to_f64 m s) = JFloat (decimal_to_f64 m s)"
    by (auto simp: f64_value_def float_json_def split: f64.splits)
  then show "from_json json_text (decimal_json m s) = decimal_fact m s"
    using assms(2) i by (auto simp: decimal_json_def decimal_fact_def)
  show "as_number (decimal_fact m s) = Some (decimal_to_f64 m s)"
    by (simp add: decimal_fact_def decimal_to_f64_int)
qed

lemma decimal_fact_relation:
  assumes "\<bar>n\<bar> \<le> 2 ^ 52" "small_decimal m s"
  shows "relation_of (from_json json_text (decimal_json n s)) (ScalarDecimal m s) = Some (cmp_lin n m)"
  using assms decimal_fact[of n s] same_scale_cmp[of n m s] by (simp add: small_decimal_def relation_of_def)

lemma plain_operand_fact:
  assumes "plain_operand v"
  shows "eval_eq (from_json json_text (operand_to_json v)) v
    \<and> python_str_fact (from_json json_text (operand_to_json v)) = python_str_scalar v
    \<and> python_repr_fact (from_json json_text (operand_to_json v)) = python_repr_scalar v"
  using assms
proof (induction v)
  case (ScalarBool b)
  then show ?case by (cases b) (auto simp: eval_eq.simps f64_eq_refl f64_one_def f64_zero_def)
next
  case (ScalarDecimal m s)
  then have m: "\<bar>m\<bar> \<le> 2 ^ 52" "0 \<le> s" "s < 128" by (auto simp: small_decimal_def)
  have "eval_eq (from_json json_text (decimal_json m s)) (ScalarDecimal m s)"
    using decimal_fact_relation[of m m s] ScalarDecimal m(1) eval_eq_relation by (fastforce simp: cmp_lin_def)
  moreover have "python_str_fact (decimal_fact m s) = python_str_scalar (ScalarDecimal m s)"
    using m(2) by (auto simp: decimal_fact_def int_digits_def decimal_to_string_def)
  moreover have "python_repr_fact (decimal_fact m s) = python_str_fact (decimal_fact m s)"
    by (simp add: decimal_fact_def)
  ultimately show ?case using decimal_fact(1)[OF m] by simp
next
  case (ScalarList xs)
  then have "python_repr_fact (from_json json_text (operand_to_json x)) = python_repr_scalar x"
    "eval_eq (from_json json_text (operand_to_json x)) x" if "x \<in> set xs" for x
    using that by (auto simp: list_all_iff)
  then show ?case
    by (auto simp: list_equality(1) list_all_length comp_def intro!: arg_cong[where f = python_list_repr])
qed (simp_all add: string_operators)

definition gen_fact :: "(json \<Rightarrow> string) \<Rightarrow> gen \<Rightarrow> fact_value" where
  "gen_fact json_text g = (case g of Set v \<Rightarrow> from_json json_text v | Absent \<Rightarrow> FactNull)"

lemma wrap_small: "\<bar>n\<bar> \<le> 2 ^ 52 \<Longrightarrow> wrap_i128 n = n"
  by (simp add: wrap_i128_def)

lemma shifted_relation:
  assumes "small_decimal m s" "\<bar>d\<bar> \<le> 1"
  shows "relation_of (from_json json_text (decimal_json (wrap_i128 (m + d)) s)) (ScalarDecimal m s)
    = Some (cmp_lin (m + d) m)"
proof -
  have "\<bar>m + d\<bar> \<le> 2 ^ 52" using assms unfolding small_decimal_def by linarith
  with assms(1) show ?thesis by (simp add: wrap_small decimal_fact_relation)
qed

lemma different_differs:
  assumes "plain_operand v"
  shows "\<not> eval_eq (from_json json_text (different v)) v"
proof (cases v)
  case (ScalarBool b)
  have "\<not> f64_eq f64_one f64_zero" "\<not> f64_eq f64_zero f64_one" by code_simp+
  then show ?thesis by (simp add: ScalarBool different_def eval_eq.simps)
next
  case (ScalarDecimal m s)
  then show ?thesis
    using shifted_relation[of m s 1] eval_eq_relation assms by (fastforce simp: different_def cmp_lin_def)
qed (simp_all add: different_def string_operators list_equality(2))

lemma value_true_drives:
  assumes "steerable c"
  shows "evaluate_op (gen_fact json_text (value_true (cond_operator c) (cond_value c)))
    (cond_operator c) (cond_value c)"
  using assms plain_operand_fact different_differs shifted_relation[of _ _ 0] shifted_relation[of _ _ 1]
    shifted_relation[of _ _ "- 1"] decimal_fact_relation
  by (cases "cond_operator c")
     (auto simp: steerable_def gen_fact_def first_member_def shift_def eval_ord_relation cmp_lin_def
       small_decimal_def list_all_iff list_ex_iff split: scalar_value.splits list.splits)

lemma value_false_drives:
  assumes "steerable c"
  shows "\<not> evaluate_op (gen_fact json_text (value_false (cond_operator c) (cond_value c)))
    (cond_operator c) (cond_value c)"
  using assms plain_operand_fact different_differs shifted_relation[of _ _ 0] shifted_relation[of _ _ 1]
    shifted_relation[of _ _ "- 1"] decimal_fact_relation
  by (cases "cond_operator c")
     (auto simp: steerable_def gen_fact_def first_member_def shift_def eval_ord_relation cmp_lin_def
       small_decimal_def list_all_iff list_ex_iff split: scalar_value.splits list.splits)

definition driven_pair :: "condition \<Rightarrow> bool \<Rightarrow> string \<times> gen" where
  "driven_pair c b = (if b then true_pair c else false_pair c)"

lemma driven_pair_simps [simp]:
  "driven_pair c True = true_pair c" "driven_pair c False = false_pair c"
  by (simp_all add: driven_pair_def)

text \<open>With distinct fields, every pair decides its own condition.\<close>

lemma driven_pairs_evaluate:
  assumes sc: "sc_facts sc = build_facts layers" and ps: "concat layers = map2 driven_pair cs bs"
    and len: "length cs = length bs" and d: "distinct (map cond_field cs)" and st: "list_all steerable cs"
    and i: "i < length cs"
  shows "eval_condition (facts_map json_text sc) (cs ! i) = bs ! i"
proof -
  let ?c = "cs ! i" and ?ps = "map2 driven_pair cs bs"
  have fst: "map fst ?ps = map cond_field cs"
    using len by (intro nth_equalityI) (auto simp: driven_pair_def true_pair_def false_pair_def)
  have "?ps ! i \<in> set ?ps" using i len by (intro nth_mem) simp
  then have "driven_pair ?c (bs ! i) \<in> set ?ps" using i len by simp
  moreover obtain g where g: "driven_pair ?c (bs ! i) = (cond_field ?c, g)"
    by (cases "bs ! i") (auto simp: driven_pair_def true_pair_def false_pair_def)
  moreover have "distinct (map fst (rev ?ps))" by (simp only: rev_map[symmetric] distinct_rev fst d)
  ultimately have "map_of (rev ?ps) (cond_field ?c) = Some g"
    by (intro map_of_is_SomeI) (simp_all only: set_rev)
  then have "lookup (facts_map json_text sc) (cond_field ?c) = gen_fact json_text g"
    using facts_map_layers[OF sc, of json_text]
    by (auto simp: ps assigned_def lookup_def gen_fact_def gen_json_def split: gen.splits)
  moreover have "steerable ?c" using st i by (simp add: list_all_length)
  ultimately show ?thesis
    using g value_true_drives[of ?c json_text] value_false_drives[of ?c json_text]
    by (auto simp: eval_condition_def driven_pair_def true_pair_def false_pair_def split: if_splits)
qed

section \<open>Paths\<close>

text \<open>The conditions tested along a list of branch results, and those of the applicability.\<close>

fun path_conditions :: "decision_entry \<Rightarrow> bool list \<Rightarrow> condition list"
  and node_path_conditions :: "decision_node \<Rightarrow> bool list \<Rightarrow> condition list"
where
  "path_conditions (LeafEntry l) bs = []"
| "path_conditions (NodeEntry n) bs = node_path_conditions n bs"
| "node_path_conditions (DecisionNode i c t f sp) bs =
     (case bs of [] \<Rightarrow> [] | b # bs \<Rightarrow> c # (if b then path_conditions t bs else path_conditions f bs))"

definition rule_checks :: "rule_ir \<Rightarrow> condition list" where
  "rule_checks r = (case applies_if r of None \<Rightarrow> [] | Some g \<Rightarrow> flatten g)"

lemma path_enumerated:
  "replay e bs = Some l \<Longrightarrow> length (path_conditions e bs) = length bs
     \<and> prefix @ map2 driven_pair (path_conditions e bs) bs \<in> set (walk_paths e prefix)"
  "replay_node n bs = Some l \<Longrightarrow> length (node_path_conditions n bs) = length bs
     \<and> prefix @ map2 driven_pair (node_path_conditions n bs) bs \<in> set (walk_node_paths n prefix)"
proof (induction e bs and n bs arbitrary: prefix and prefix rule: replay_replay_node.induct)
  case (3 i c t f sp bs)
  then obtain b bs' where bs: "bs = b # bs'" by (cases bs) auto
  show ?case
  proof (cases b)
    case True
    with bs 3(3) have "replay t bs' = Some l" by simp
    from 3(1)[OF bs True this, of "prefix @ [true_pair c]"] show ?thesis by (simp add: bs True)
  next
    case False
    with bs 3(3) have "replay f bs' = Some l" by simp
    from 3(2)[OF bs False this, of "prefix @ [false_pair c]"] show ?thesis by (simp add: bs False)
  qed
qed (auto split: if_splits)

lemma path_walked:
  "replay e bs = Some l \<Longrightarrow> list_all2 (\<lambda>c b. eval_condition fs c = b) (path_conditions e bs) bs \<Longrightarrow>
     fst (walk e fs) = l \<and> map step_result (snd (walk e fs)) = bs"
  "replay_node n bs = Some l \<Longrightarrow>
     list_all2 (\<lambda>c b. eval_condition fs c = b) (node_path_conditions n bs) bs \<Longrightarrow>
     fst (walk_node n fs) = l \<and> map step_result (snd (walk_node n fs)) = bs"
proof (induction e bs and n bs rule: replay_replay_node.induct)
  case (3 i c t f sp bs)
  then obtain b bs' where bs: "bs = b # bs'" by (cases bs) auto
  show ?case
  proof (cases b)
    case True
    with bs 3(3,4) have "fst (walk t fs) = l \<and> map step_result (snd (walk t fs)) = bs'"
      by (intro 3(1)[OF bs]) simp_all
    then show ?thesis using bs True 3(4) by (simp add: Let_def case_prod_beta)
  next
    case False
    with bs 3(3,4) have "fst (walk f fs) = l \<and> map step_result (snd (walk f fs)) = bs'"
      by (intro 3(2)[OF bs]) simp_all
    then show ?thesis using bs False 3(4) by (simp add: Let_def case_prod_beta)
  qed
qed (auto split: if_splits)

lemma satisfying_pairs:
  "applicability_pairs r True = map2 driven_pair (rule_checks r) (replicate (length (rule_checks r)) True)"
proof -
  have "map2 driven_pair cs (replicate (length cs) True) = map true_pair cs" for cs
    by (induction cs) simp_all
  then show ?thesis
    by (auto simp: applicability_pairs_def rule_checks_def flattened_def split: option.splits list.splits)
qed

text \<open>The pairs of the scenario that is not meant to apply drive some of the checks, all of
  them under an \<open>any\<close> mode, to false.\<close>

lemma failing_pairs:
  assumes "applies_if r = Some g" "flatten g \<noteq> []"
  defines "cs \<equiv> if group_mode g = ModeAll then take 1 (flatten g) else flatten g"
  shows "applicability_pairs r False = map2 driven_pair cs (replicate (length cs) False)"
proof -
  have "map2 driven_pair cs (replicate (length cs) False) = map false_pair cs" for cs
    by (induction cs) simp_all
  then show ?thesis
    using assms by (auto simp: applicability_pairs_def flattened_def split: list.splits)
qed

lemma path_scenario_reaches:
  assumes replay: "replay (decision_tree r) bs = Some l"
    and d: "distinct (map cond_field (rule_checks r @ path_conditions (decision_tree r) bs))"
    and st: "list_all steerable (rule_checks r @ path_conditions (decision_tree r) bs)"
    and sc: "sc_facts sc = build_facts [applicability_pairs r True,
      map2 driven_pair (path_conditions (decision_tree r) bs) bs]"
  shows "applies (applies_if r) (facts_map json_text sc)"
    "fst (walk (decision_tree r) (facts_map json_text sc)) = l"
    "map step_result (snd (walk (decision_tree r) (facts_map json_text sc))) = bs"
proof -
  let ?pc = "path_conditions (decision_tree r) bs" and ?rc = "rule_checks r"
  let ?cs = "?rc @ ?pc" and ?bs = "replicate (length ?rc) True @ bs"
  have len: "length ?pc = length bs" using path_enumerated(1)[OF replay] by blast
  have ev: "eval_condition (facts_map json_text sc) (?cs ! i) = ?bs ! i" if "i < length ?cs" for i
    using that len by (intro driven_pairs_evaluate[OF sc _ _ d st]) (simp_all add: satisfying_pairs)
  have "list_all (eval_condition (facts_map json_text sc)) ?rc"
  proof (unfold list_all_length, intro allI impI)
    fix i assume "i < length ?rc"
    with ev[of i] show "eval_condition (facts_map json_text sc) (?rc ! i)" by (simp add: nth_append)
  qed
  then show "applies (applies_if r) (facts_map json_text sc)"
    by (cases "applies_if r") (auto simp: applies_def rule_checks_def list_all_iff list_ex_iff neq_Nil_conv)
  have "list_all2 (\<lambda>c b. eval_condition (facts_map json_text sc) c = b) ?pc bs"
  proof (unfold list_all2_conv_all_nth, intro conjI allI impI)
    fix i assume "i < length ?pc"
    with ev[of "length ?rc + i"] show "eval_condition (facts_map json_text sc) (?pc ! i) = bs ! i"
      by (simp add: nth_append)
  qed (rule len)
  then show "fst (walk (decision_tree r) (facts_map json_text sc)) = l"
    "map step_result (snd (walk (decision_tree r) (facts_map json_text sc))) = bs"
    using path_walked(1)[OF replay] by blast+
qed

lemma path_scenario_generated:
  assumes "path \<in> set (enumerate_paths (decision_tree r))"
  shows "\<exists>sc \<in> set (generate_for_rule r seed n). sc_facts sc = build_facts [applicability_pairs r True, path]"
proof -
  obtain i where "i < length (enumerate_paths (decision_tree r))" "enumerate_paths (decision_tree r) ! i = path"
    using assms by (auto simp: in_set_conv_nth)
  then have "(i, path) \<in> set (enumerate 0 (enumerate_paths (decision_tree r)))"
    by (simp add: in_set_enumerate_eq)
  then have "\<exists>sc \<in> set (path_scenarios r). sc_facts sc = build_facts [applicability_pairs r True, path]"
    unfolding path_scenarios_def by force
  then show ?thesis unfolding generate_for_rule_def Let_def by auto
qed

lemma failing_scenario:
  assumes g: "applies_if r = Some g" "flatten g \<noteq> []"
    and d: "distinct (map cond_field (flatten g))" and st: "list_all steerable (flatten g)"
    and sc: "sc_facts sc = build_facts [applicability_pairs r False]"
  shows "\<not> applies (applies_if r) (facts_map json_text sc)"
proof -
  define cs where "cs = (if group_mode g = ModeAll then take 1 (flatten g) else flatten g)"
  have ps: "concat [applicability_pairs r False] = map2 driven_pair cs (replicate (length cs) False)"
    using failing_pairs[OF g] by (simp add: cs_def)
  have "distinct (map cond_field cs)" "list_all steerable cs"
    using d st by (auto simp: cs_def take_map[symmetric] distinct_take list_all_iff dest: in_set_takeD)
  from driven_pairs_evaluate[OF sc ps _ this]
  have ev: "\<not> eval_condition (facts_map json_text sc) (cs ! i)" if "i < length cs" for i
    using that by simp
  show ?thesis
  proof (cases "group_mode g = ModeAll")
    case True
    with ev[of 0] g show ?thesis
      by (cases "flatten g") (auto simp: cs_def applies_def)
  next
    case False
    then have "cs = flatten g" by (simp add: cs_def)
    with ev have "\<not> list_ex (eval_condition (facts_map json_text sc)) (flatten g)"
      by (auto simp: list_ex_length)
    with g False show ?thesis by (simp add: applies_def)
  qed
qed

lemma evaluate_applied:
  assumes "applies (applies_if r) fs"
  shows "ev_applicable (evaluate r fs)"
    "ev_decision (evaluate r fs) = Some (leaf_result (fst (walk (decision_tree r) fs)))"
    "ev_obligations (evaluate r fs) = leaf_obligation_list (fst (walk (decision_tree r) fs))"
    "ev_decision_path (evaluate r fs) = snd (walk (decision_tree r) fs)"
  using assms applicability_spec(1)[of "applies_if r" fs] by (simp_all add: evaluate_def case_prod_beta)

lemma evaluate_not_applied: "\<not> applies (applies_if r) fs \<Longrightarrow> \<not> ev_applicable (evaluate r fs)"
  using applicability_spec(1)[of "applies_if r" fs] by (simp add: evaluate_def case_prod_beta)

section \<open>Numbers in membership fields\<close>

fun json_number :: "json \<Rightarrow> bool" where
  "json_number (JInt _) = True"
| "json_number (JFloat _) = True"
| "json_number _ = False"

text \<open>Neither driving value of such a condition is a number.\<close>

definition number_free :: "condition \<Rightarrow> bool" where
  "number_free c =
     (case cond_value c of
        ScalarDecimal _ _ \<Rightarrow> cond_operator c \<in> {OpIn, OpNotIn, OpExists}
      | ScalarList (ScalarDecimal _ _ # _) \<Rightarrow> cond_operator c \<notin> {OpIn, OpNotIn}
      | _ \<Rightarrow> True)"

definition clean_gen :: "gen \<Rightarrow> bool" where
  "clean_gen g = (\<forall>v. g = Set v \<longrightarrow> \<not> json_number v)"

definition clean_pairs :: "string set \<Rightarrow> pairs \<Rightarrow> bool" where
  "clean_pairs F ps = (\<forall>(k, g) \<in> set ps. k \<in> F \<longrightarrow> clean_gen g)"

lemma clean_pairs_simps [simp]:
  "clean_pairs F []"
  "clean_pairs F ((k, g) # ps) \<longleftrightarrow> (k \<in> F \<longrightarrow> clean_gen g) \<and> clean_pairs F ps"
  "clean_pairs F (ps @ qs) \<longleftrightarrow> clean_pairs F ps \<and> clean_pairs F qs"
  "clean_gen Absent"
  "clean_gen (Set v) \<longleftrightarrow> \<not> json_number v"
  by (auto simp: clean_pairs_def clean_gen_def)

lemma plain_not_number: "\<not> (\<exists>m s. v = ScalarDecimal m s) \<Longrightarrow> \<not> json_number (operand_to_json v)"
  by (cases v) auto

lemma number_free_values:
  assumes "number_free c"
  shows "clean_gen (value_true (cond_operator c) (cond_value c))"
    "clean_gen (value_false (cond_operator c) (cond_value c))"
    "is_ordering (cond_operator c) \<Longrightarrow> \<not> json_number (shift (cond_value c) d)"
  using assms
  by (cases "cond_operator c"; cases "cond_value c";
      auto simp: number_free_def different_def shift_def first_member_def is_ordering_def
        split: list.splits scalar_value.splits)+

lemma wrong_type_clean [simp]: "\<not> json_number (wrong_type v b)"
  by (cases v) (auto simp: wrong_type_def)

text \<open>A list of conditions whose membership fields are number free.\<close>

definition free_of_numbers :: "string set \<Rightarrow> condition list \<Rightarrow> bool" where
  "free_of_numbers F cs = (\<forall>c \<in> set cs. cond_field c \<in> F \<longrightarrow> number_free c)"

lemma free_of_numbers_simps [simp]:
  "free_of_numbers F []"
  "free_of_numbers F (c # cs) \<longleftrightarrow> (cond_field c \<in> F \<longrightarrow> number_free c) \<and> free_of_numbers F cs"
  "free_of_numbers F (cs @ ds) \<longleftrightarrow> free_of_numbers F cs \<and> free_of_numbers F ds"
  by (auto simp: free_of_numbers_def)

lemma clean_driven:
  assumes "cond_field c \<in> F \<longrightarrow> number_free c"
  shows "clean_pairs F [true_pair c]" "clean_pairs F [false_pair c]"
  using assms by (simp_all add: true_pair_def false_pair_def number_free_values)

lemma clean_map_driven:
  assumes "free_of_numbers F cs"
  shows "clean_pairs F (map true_pair cs)" "clean_pairs F (map false_pair cs)"
  using assms by (induction cs) (simp_all add: true_pair_def false_pair_def number_free_values)

lemma clean_paths:
  "free_of_numbers F (collect_tree e) \<Longrightarrow> clean_pairs F prefix \<Longrightarrow> ps \<in> set (walk_paths e prefix) \<Longrightarrow>
     clean_pairs F ps"
  "free_of_numbers F (collect_node n) \<Longrightarrow> clean_pairs F prefix \<Longrightarrow> ps \<in> set (walk_node_paths n prefix) \<Longrightarrow>
     clean_pairs F ps"
proof (induction e prefix and n prefix rule: walk_paths_walk_node_paths.induct)
  case (3 i c t f sp prefix)
  have "clean_pairs F (prefix @ [true_pair c])" "clean_pairs F (prefix @ [false_pair c])"
    using 3(3,4) clean_driven[of c F] by simp_all
  with 3 show ?case by auto
qed auto

lemma clean_fuzz:
  "free_of_numbers F cs \<Longrightarrow> clean_pairs F (fst (fuzz_pairs G cs st))"
proof (induction cs arbitrary: st)
  case (Cons c cs)
  then show ?case
    by (auto simp: fuzz_value_def number_free_values split: prod.splits) (metis fst_conv)+
qed simp

lemma clean_applicability:
  assumes "free_of_numbers F (rule_checks r)"
  shows "clean_pairs F (applicability_pairs r b)"
proof -
  show ?thesis
  proof (cases "applies_if r")
    case (Some g)
    have free: "free_of_numbers F (flatten g)" using assms Some by (simp add: rule_checks_def)
    show ?thesis
    proof (cases "flatten g")
      case (Cons c cs)
      then show ?thesis
        using clean_map_driven[OF free] clean_driven(2)[of c F] free
        by (simp add: applicability_pairs_def Some flattened_def)
    qed (simp add: applicability_pairs_def Some flattened_def)
  qed (simp add: applicability_pairs_def)
qed

definition clean_facts :: "string set \<Rightarrow> scenario \<Rightarrow> bool" where
  "clean_facts F sc = (\<exists>layers. sc_facts sc = build_facts layers \<and> list_all (clean_pairs F) layers)"

lemma clean_scenario [simp]:
  "list_all (clean_pairs F) layers \<Longrightarrow>
     clean_facts F \<lparr>sc_rule_id = i, sc_label = lb, sc_facts = build_facts layers\<rparr>"
  by (auto simp: clean_facts_def)

lemma clean_fuzz_scenarios:
  "free_of_numbers F (cat_conditions cat) \<Longrightarrow>
     list_all (clean_facts F) (fuzz_scenarios rid cat k n st)"
proof (induction rid cat k n st rule: fuzz_scenarios.induct)
  case (2 rid cat n k st)
  obtain ps st' where ps: "fuzz_pairs (cat_in_fields cat) (cat_conditions cat) st = (ps, st')" by fastforce
  then have "clean_pairs F ps" using clean_fuzz[OF 2(2)] by (metis fst_conv)
  with 2(1)[OF ps[symmetric] refl 2(2)] show ?case by (simp add: ps)
qed simp

lemma catalog_conditions:
  "cat_conditions (catalog_from_rule r) = rule_checks r @ collect_tree (decision_tree r)"
  by (simp add: catalog_from_rule_def rule_checks_def flattened_def split: option.splits)

text \<open>Every scenario is built of layers without numbers for the fields in question.\<close>

lemma generated_clean:
  assumes "free_of_numbers F (cat_conditions (catalog_from_rule r))"
  shows "list_all (clean_facts F) (generate_for_rule r seed n)"
proof -
  let ?cat = "catalog_from_rule r"
  have cs: "free_of_numbers F (rule_checks r)" "free_of_numbers F (collect_tree (decision_tree r))"
    using assms by (simp_all add: catalog_conditions)
  note appl = clean_applicability[OF cs(1)]
  note all = clean_map_driven(1)[OF assms(1)]
  have paths: "list_all (clean_facts F) (path_scenarios r)"
    using appl clean_paths(1)[OF cs(2), of "[]"]
    by (auto simp: path_scenarios_def enumerate_paths_def list_all_iff in_set_enumerate_eq)
  have bounds: "list_all (clean_facts F)
      (boundary_scenarios rid (applicability_pairs r True) (map true_pair (cat_conditions ?cat)) c)"
    if "c \<in> set (cat_conditions ?cat)" for c rid
    using that assms(1) appl all
    by (auto simp: boundary_scenarios_def free_of_numbers_def number_free_values(3))
  have anchors: "list_all (clean_facts F)
      (anchor_scenarios rid ?cat (applicability_pairs r True) (map true_pair (cat_conditions ?cat)))" for rid
    using appl all by (auto simp: anchor_scenarios_def split: list.splits)
  have irrelevant: "clean_pairs F irrelevant_pairs" by (simp add: irrelevant_pairs_def)
  show ?thesis
    using paths bounds anchors irrelevant appl all clean_fuzz_scenarios[OF assms(1)]
    unfolding generate_for_rule_def Let_def by (auto simp: list_all_iff)
qed

text \<open>What a fact object of clean layers holds.\<close>

lemma clean_facts_entries:
  assumes "clean_facts F sc" "sc_facts sc = JObject m" "(x, v) \<in> set m" "x \<in> F"
  shows "\<not> json_number v"
proof -
  obtain layers where l: "sc_facts sc = build_facts layers" "list_all (clean_pairs F) layers"
    using assms(1) by (auto simp: clean_facts_def)
  then have m: "m = fold apply_pair (concat layers) []"
    using assms(2) by (simp add: build_facts_def fold_layers)
  have "assigned (concat layers) x = Some v"
    using apply_pairs[of "concat layers"] assms(3) unfolding m by (metis map_of_is_SomeI)
  then obtain g where "map_of (rev (concat layers)) x = Some g" "gen_json g = Some v"
    by (auto simp: assigned_def split: option.splits)
  then have "(x, Set v) \<in> set (concat layers)"
    by (auto simp: gen_json_def dest!: map_of_SomeD split: gen.splits)
  then obtain layer where "layer \<in> set layers" "(x, Set v) \<in> set layer" by auto
  with l(2) assms(4) show ?thesis by (fastforce simp: list_all_iff clean_pairs_def clean_gen_def)
qed

section \<open>Properties\<close>

text \<open>C33: branch coverage. For every leaf of the decision tree whose path and applicability test
  distinct fields with operands the generator can drive, some generated scenario makes the
  executor apply the rule, take exactly that path and return that leaf; and if there are checks,
  some scenario makes it not apply.\<close>

theorem generator_covers_every_leaf:
  assumes "replay (decision_tree r) bs = Some l"
    and "distinct (map cond_field (rule_checks r @ path_conditions (decision_tree r) bs))"
    and "list_all steerable (rule_checks r @ path_conditions (decision_tree r) bs)"
  shows "(\<exists>sc \<in> set (generate_for_rule r seed n).
        ev_applicable (evaluate r (facts_map json_text sc))
      \<and> map step_result (ev_decision_path (evaluate r (facts_map json_text sc))) = bs
      \<and> ev_decision (evaluate r (facts_map json_text sc)) = Some (leaf_result l)
      \<and> ev_obligations (evaluate r (facts_map json_text sc)) = leaf_obligation_list l)
    \<and> (rule_checks r \<noteq> [] \<longrightarrow>
        (\<exists>sc \<in> set (generate_for_rule r seed n). \<not> ev_applicable (evaluate r (facts_map json_text sc))))"
proof (intro conjI impI)
  have "map2 driven_pair (path_conditions (decision_tree r) bs) bs \<in> set (enumerate_paths (decision_tree r))"
    using path_enumerated(1)[OF assms(1), of "[]"] by (simp add: enumerate_paths_def)
  from path_scenario_generated[OF this, of seed n] obtain sc where sc: "sc \<in> set (generate_for_rule r seed n)"
    "sc_facts sc = build_facts [applicability_pairs r True,
       map2 driven_pair (path_conditions (decision_tree r) bs) bs]" by blast
  note reach = path_scenario_reaches[OF assms sc(2), of json_text]
  show "\<exists>sc \<in> set (generate_for_rule r seed n).
        ev_applicable (evaluate r (facts_map json_text sc))
      \<and> map step_result (ev_decision_path (evaluate r (facts_map json_text sc))) = bs
      \<and> ev_decision (evaluate r (facts_map json_text sc)) = Some (leaf_result l)
      \<and> ev_obligations (evaluate r (facts_map json_text sc)) = leaf_obligation_list l"
    using evaluate_applied[OF reach(1)] reach(2,3) by (intro bexI[OF _ sc(1)]) simp
next
  assume "rule_checks r \<noteq> []"
  then obtain g where g: "applies_if r = Some g" "flatten g \<noteq> []"
    by (auto simp: rule_checks_def split: option.splits)
  define sc where "sc = \<lparr>sc_rule_id = rule_id r, sc_label = ''not_applicable'',
    sc_facts = build_facts [applicability_pairs r False]\<rparr>"
  have "\<not> applies (applies_if r) (facts_map json_text sc)"
    using assms(2,3) g by (intro failing_scenario[OF g]) (simp_all add: rule_checks_def sc_def)
  then have "\<not> ev_applicable (evaluate r (facts_map json_text sc))" by (rule evaluate_not_applied)
  moreover have "sc \<in> set (generate_for_rule r seed n)"
    using g by (simp add: generate_for_rule_def Let_def sc_def)
  ultimately show "\<exists>sc \<in> set (generate_for_rule r seed n). \<not> ev_applicable (evaluate r (facts_map json_text sc))"
    by blast
qed

definition branching_rule :: "condition \<Rightarrow> rule_ir" where
  "branching_rule c =
     sample_rule_with [] 95 2
       \<lparr>decision_tree := NodeEntry (DecisionNode ''n1'' c
          (LeafEntry \<lparr>leaf_result = ''yes'', leaf_obligations = None, leaf_notes = None, leaf_source_span = None\<rparr>)
          (LeafEntry \<lparr>leaf_result = ''no'', leaf_obligations = None, leaf_notes = None, leaf_source_span = None\<rparr>)
          None)\<rparr>"

lemma generator_covers_every_leaf_witness:
  "\<exists>sc \<in> set (generate_for_rule (branching_rule (membership_condition (ScalarStr ''EU''))) 7 3).
     ev_decision (evaluate (branching_rule (membership_condition (ScalarStr ''EU'')))
       (facts_map (\<lambda>_. []) sc)) = Some ''no''"
proof -
  let ?r = "branching_rule (membership_condition (ScalarStr ''EU''))"
  let ?l = "\<lparr>leaf_result = ''no'', leaf_obligations = None, leaf_notes = None, leaf_source_span = None\<rparr>"
  have "replay (decision_tree ?r) [False] = Some ?l"
    "distinct (map cond_field (rule_checks ?r @ path_conditions (decision_tree ?r) [False]))"
    "list_all steerable (rule_checks ?r @ path_conditions (decision_tree ?r) [False])"
    by code_simp+
  from generator_covers_every_leaf[OF this, of 7 3 "\<lambda>_. []"] show ?thesis by auto
qed

text \<open>if no condition on a membership field takes its driving values from a number - neither a
  decimal operand under a comparison nor a list led by a decimal under \<open>in\<close> or \<open>not_in\<close> - no
  scenario, fuzzed ones included, gives such a field a number.\<close>

theorem membership_fields_without_numbers:
  assumes "\<And>c. c \<in> set (cat_conditions (catalog_from_rule r)) \<Longrightarrow>
      cond_field c \<in> cat_in_fields (catalog_from_rule r) \<Longrightarrow> number_free c"
    and "sc \<in> set (generate_for_rule r seed n)" "sc_facts sc = JObject m" "(x, v) \<in> set m"
      "x \<in> cat_in_fields (catalog_from_rule r)"
  shows "\<not> json_number v"
proof -
  have "free_of_numbers (cat_in_fields (catalog_from_rule r)) (cat_conditions (catalog_from_rule r))"
    using assms(1) by (simp add: free_of_numbers_def)
  from generated_clean[OF this, of seed n] have "clean_facts (cat_in_fields (catalog_from_rule r)) sc"
    using assms(2) by (simp add: list_all_iff)
  from clean_facts_entries[OF this assms(3-5)] show ?thesis .
qed

lemma branching_facts:
  "\<exists>sc \<in> set (generate_for_rule (branching_rule (membership_condition v)) seed n).
     sc_facts sc = JObject [(''rate'', decimal_json 95 2), (''x'', operand_to_json v)]"
proof -
  have "[true_pair (membership_condition v)]
      \<in> set (enumerate_paths (decision_tree (branching_rule (membership_condition v))))"
    by (simp add: branching_rule_def enumerate_paths_def)
  moreover have "build_facts [applicability_pairs (branching_rule (membership_condition v)) True,
        [true_pair (membership_condition v)]]
      = JObject [(''rate'', decimal_json 95 2), (''x'', operand_to_json v)]"
    by (simp add: branching_rule_def sample_rule_with_def membership_condition_def applicability_pairs_def
        flattened_def group_mode_def build_facts_def apply_pair_def true_pair_def first_member_def)
  ultimately show ?thesis using path_scenario_generated[of _ "branching_rule (membership_condition v)" seed n]
    by metis
qed

lemma branching_in_fields: "''x'' \<in> cat_in_fields (catalog_from_rule (branching_rule (membership_condition v)))"
  by (simp add: branching_rule_def sample_rule_with_def membership_condition_def catalog_from_rule_def
      flattened_def image_iff) (metis condition.select_convs(1,2))

lemma membership_fields_without_numbers_witness: "\<not> json_number (JString ''EU'')"
proof -
  let ?r = "branching_rule (membership_condition (ScalarStr ''EU''))"
  obtain sc where sc: "sc \<in> set (generate_for_rule ?r 7 3)"
    "sc_facts sc = JObject [(''rate'', decimal_json 95 2), (''x'', JString ''EU'')]"
    using branching_facts[of "ScalarStr ''EU''" 7 3] by auto
  show ?thesis
  proof (rule membership_fields_without_numbers[OF _ sc])
    show "''x'' \<in> cat_in_fields (catalog_from_rule ?r)" by (rule branching_in_fields)
    show "(''x'', JString ''EU'') \<in> set [(''rate'', decimal_json 95 2), (''x'', JString ''EU'')]" by simp
    show "number_free c" if "c \<in> set (cat_conditions (catalog_from_rule ?r))"
      "cond_field c \<in> cat_in_fields (catalog_from_rule ?r)" for c
      using that by (auto simp: catalog_from_rule_def branching_rule_def sample_rule_with_def flattened_def
          membership_condition_def number_free_def)
  qed
qed

text \<open>a membership list of numbers breaks the stated invariant of the generator: a scenario
  gives the field \<open>x\<close>, tested by \<open>x in [5]\<close>, the number five, for every seed.\<close>

theorem numeric_membership_generates_number:
  "\<exists>sc \<in> set (generate_for_rule (branching_rule (membership_condition (ScalarDecimal 5 0))) seed n).
     sc_facts sc = JObject [(''rate'', decimal_json 95 2), (''x'', JInt 5)]
   \<and> ''x'' \<in> cat_in_fields (catalog_from_rule (branching_rule (membership_condition (ScalarDecimal 5 0))))"
  using branching_facts[of "ScalarDecimal 5 0" seed n] branching_in_fields
  by (simp add: decimal_json_def as_i64_def)

end
