(* ===== verification/Cli.thy ===== *)
theory Cli
  imports Offline Graph_Export Serve
begin

text \<open>
  The command line of \<open>ke\<close> (\<open>src/crates/ke-cli/src/cli.rs\<close>) above the commands: where the registry
  root and the clock come from, how arguments become the values a command takes, what each
  command line runs, prints and exits with. A machine holds any number of registry roots and
  the files outside them; a process is what one invocation gets from its surroundings. The
  \<open>test-keys\<close> and \<open>sql-views\<close> features are on. clap, which turns \<open>argv\<close> into the structures below,
  is not modelled.

  Shown: whatever command lines run, each registry only ever moves by lifecycle steps and is sound;
  no command touches another root than the one selected; the read-only ones change none.
\<close>

section \<open>Command lines\<close>

datatype graph_action =
    GraphExport string string                    \<comment> \<open>out, env\<close>
  | OracleBlast string "string option" string    \<comment> \<open>doc, article, env\<close>
  | OracleExposure string string string          \<comment> \<open>from, to, env\<close>

datatype cli_command =
    CliCompile string string string              \<comment> \<open>yaml, regime, env\<close>
  | CliCompileIntent string string string        \<comment> \<open>json, regime, env\<close>
  | CliQuery "string option" "string option" "string option" "string option" string
      \<comment> \<open>hash, tag, regime, effective, env\<close>
  | CliMlCheck string
  | CliAttest string "string list"
  | CliPublish string string string "string option"   \<comment> \<open>hash, env, tag, policy\<close>
  | CliDeprecate string
  | CliRevoke string "string option" "string option" "string option"
      \<comment> \<open>hash, policy, reason_class, reason\<close>
  | CliRollback string string string             \<comment> \<open>env, tag, to\<close>
  | CliExportProvenance string bool
  | CliVerify
  | CliServe string nat
  | CliLint string bool
  | CliExport string string
  | CliImport string
  | CliSql string
  | CliGraph graph_action

record cli =
  cli_registry :: "string option"
  cli_now :: "64 word option"
  cli_command :: cli_command

text \<open>What a process finds: environment variables, the system clock, the text files it is given,
  the outcome of creating a directory, of reading and of writing a flat file, whether a port can be
  bound, and the requests a server receives until it is stopped.\<close>

record process =
  pr_var :: "string \<Rightarrow> string option"
  pr_clock :: "64 word"
  pr_text :: "string \<Rightarrow> string + string"
  pr_mkdir :: "string \<Rightarrow> bool"
  pr_readable :: "string \<Rightarrow> bool"
  pr_write :: "string \<Rightarrow> write_outcome"
  pr_bind :: bool
  pr_requests :: "(64 word \<times> http_request) list"

text \<open>Third-party code the commands call: the YAML loader (in \<open>cl_serve\<close>), the JSON readers and printers, DuckDB
  over the projected rows, and two derived \<open>Debug\<close> texts.\<close>

record cli_lib =
  cl_tools :: toolchain
  cl_serve :: serve_lib
  cl_read_intent :: "string \<Rightarrow> string + intent_spec_input"
  cl_provenance_json :: "artifact_provenance \<Rightarrow> string + string"
  cl_sql :: "artifact_row list \<Rightarrow> string \<Rightarrow> string + string"
  cl_import_line :: "import_outcome \<Rightarrow> string"
  cl_refusal_text :: "refusal_reason \<Rightarrow> string"

datatype cli_error =
    NoRegistrySelected
  | BadClock string
  | BadArgument string string    \<comment> \<open>the option and its value\<close>
  | MissingSelector
  | CliRegistry registry_error
  | CliCommand command_error
  | CliAuthoring authoring_error
  | CliExporting export_error
  | CliImporting import_error
  | CliRows sql_error
  | CliText string               \<comment> \<open>the error of a JSON printer or of DuckDB\<close>
  | CliIo string
  | BindFailed

section \<open>The edge of a process\<close>

definition registry_root :: "process \<Rightarrow> cli \<Rightarrow> cli_error + string" where
  "registry_root p c =
     (case cli_registry c of
        Some dir \<Rightarrow> Inr dir
      | None \<Rightarrow>
          (if pr_var p ''KE_REGISTRY_BACKEND'' = Some ''local''
           then (case pr_var p ''KE_REGISTRY_DIR'' of Some dir \<Rightarrow> Inr dir | None \<Rightarrow> Inl NoRegistrySelected)
           else Inl NoRegistrySelected))"

definition parse_u64 :: "string \<Rightarrow> 64 word option" where
  "parse_u64 s = map_option word_of_int (parse_int False 0 (2 ^ 64 - 1) s)"

definition now_unix :: "process \<Rightarrow> cli \<Rightarrow> cli_error + 64 word" where
  "now_unix p c =
     (case cli_now c of
        Some now \<Rightarrow> Inr now
      | None \<Rightarrow>
          (case pr_var p ''KE_NOW'' of
             Some text \<Rightarrow> (case parse_u64 text of Some now \<Rightarrow> Inr now | None \<Rightarrow> Inl (BadClock text))
           | None \<Rightarrow> Inr (pr_clock p)))"

definition hash_argument :: "string \<Rightarrow> cli_error + hash32" where
  "hash_argument s = map_err CliRegistry (hex_to_hash s)"

definition query_selector ::
    "string option \<Rightarrow> string option \<Rightarrow> string option \<Rightarrow> string option \<Rightarrow> string \<Rightarrow> cli_error + selector" where
  "query_selector hash tag regime effective env =
     (case hash of
        Some hash \<Rightarrow> rmap ByHash (hash_argument hash)
      | None \<Rightarrow>
     (case tag of
        Some tag \<Rightarrow>
          (case split_once (CHR ''/'') tag of
             None \<Rightarrow> Inl (BadArgument ''tag'' tag)
           | Some (tenv, ttag) \<Rightarrow> Inr (ByTag tenv ttag))
      | None \<Rightarrow>
     (case regime of
        Some regime \<Rightarrow>
          (case effective of
             None \<Rightarrow> Inl (BadArgument ''regime'' regime)
           | Some effective \<Rightarrow>
               (case parse_cli_date effective of
                  Inl _ \<Rightarrow> Inl (BadArgument ''effective'' effective)
                | Inr d \<Rightarrow> Inr (ByRegime regime d env)))
      | None \<Rightarrow> Inl MissingSelector)))"

text \<open>The word parsers of the commands refuse with the lower-cased word.\<close>

definition word_argument :: "string \<Rightarrow> (string \<Rightarrow> 'a option) \<Rightarrow> string \<Rightarrow> cli_error + 'a" where
  "word_argument name parse s =
     (case parse s of Some v \<Rightarrow> Inr v | None \<Rightarrow> Inl (BadArgument name (map ascii_lower s)))"

text \<open>\<open>option.map(f).transpose()\<close>\<close>

definition transpose_opt :: "('a \<Rightarrow> 'e + 'b) \<Rightarrow> 'a option \<Rightarrow> 'e + 'b option" where
  "transpose_opt f x = (case x of None \<Rightarrow> Inr None | Some a \<Rightarrow> rmap Some (f a))"

section \<open>Machines\<close>

record machine =
  mc_roots :: "string \<Rightarrow> fs_store"
  mc_marked :: "string set"
  mc_files :: files

text \<open>An action on one registry root and the flat files.\<close>

definition in_root :: "string \<Rightarrow> (fs_store \<times> files, 'e, 'a) action \<Rightarrow> (machine, 'e, 'a) action" where
  "in_root dir m = (\<lambda>mc. case m (mc_roots mc dir, mc_files mc) of
     (r, (s, f)) \<Rightarrow> (r, mc\<lparr>mc_roots := (mc_roots mc)(dir := s), mc_files := f\<rparr>))"

abbreviation at_root :: "string \<Rightarrow> (fs_store, 'e, 'a) action \<Rightarrow> (machine, 'e, 'a) action" where
  "at_root dir m \<equiv> in_root dir (on_registry m)"

text \<open>\<open>LocalFsBackend::open\<close>: the root is created and marked as non-authoritative once.\<close>

definition open_root :: "string \<Rightarrow> (machine, cli_error, unit) action" where
  "open_root dir =
     abind (at_root dir (with_error CliRegistry (io ''create registry root''))) (\<lambda>_.
     abind (gets (\<lambda>mc. dir \<in> mc_marked mc)) (\<lambda>marked.
     if marked then ret ()
     else abind (at_root dir (with_error CliRegistry (io ''write non-authoritative marker''))) (\<lambda>_.
            modify (\<lambda>mc. mc\<lparr>mc_marked := insert dir (mc_marked mc)\<rparr>))))"

definition open_backend :: "process \<Rightarrow> cli \<Rightarrow> (machine, cli_error, string) action" where
  "open_backend p c =
     abind (lift (registry_root p c)) (\<lambda>dir. abind (open_root dir) (\<lambda>_. ret dir))"

text \<open>\<open>Path::join\<close> of a relative name.\<close>

definition path_join :: "string \<Rightarrow> string \<Rightarrow> string" where
  "path_join dir name =
     (if dir = [] then name else if last dir = CHR ''/'' then dir @ name else dir @ ''/'' @ name)"

text \<open>Creating a directory and writing a text file into it.\<close>

definition make_dir :: "process \<Rightarrow> string \<Rightarrow> (fs_store \<times> files, cli_error, unit) action" where
  "make_dir p dir = guard (pr_mkdir p dir) (CliIo dir)"

definition write_text :: "process \<Rightarrow> string \<Rightarrow> string \<Rightarrow> (fs_store \<times> files, cli_error, unit) action" where
  "write_text p path content = with_error CliExporting (write_file (pr_write p path) path (text_bytes content))"

definition write_outputs ::
    "cli_lib \<Rightarrow> process \<Rightarrow> export_outcome \<Rightarrow> string \<Rightarrow> (fs_store \<times> files, cli_error, unit) action" where
  "write_outputs L p outcome out_dir =
     abind (make_dir p out_dir) (\<lambda>_.
     abind (write_text p (path_join out_dir ''graph.cypher'') (out_cypher outcome)) (\<lambda>_.
       write_text p (path_join out_dir ''refusals.log'')
         (concat (map (\<lambda>r. refused_hex r @ [CHR 0x09] @ cl_refusal_text L (refused_reason r) @ newline)
           (out_refusals outcome)))))"

text \<open>\<open>ke export-provenance\<close>, with the sidecar when a write root is given.\<close>

definition provenance_run ::
    "cli_lib \<Rightarrow> process \<Rightarrow> hash32 \<Rightarrow> 64 word \<Rightarrow> string option \<Rightarrow> (fs_store \<times> files, cli_error, string) action" where
  "provenance_run L p h exported_at write_root =
     (let T = cl_tools L in
      abind (on_registry (with_error CliRegistry (export_provenance T (local_registry T) h exported_at))) (\<lambda>provenance.
      abind (lift (map_err CliText (cl_provenance_json L provenance))) (\<lambda>canonical_json.
      abind (case write_root of
          None \<Rightarrow> ret ()
        | Some top_dir \<Rightarrow>
            (let sub = path_join (path_join top_dir ''artifacts'') (hex32 h) in
             abind (make_dir p sub) (\<lambda>_. write_text p (path_join sub ''provenance.json'') canonical_json))) (\<lambda>_.
        ret canonical_json))))"

section \<open>Dispatch\<close>

fun revocation_policy_debug :: "revocation_policy \<Rightarrow> string" where
  "revocation_policy_debug HardStop = ''HardStop''"
| "revocation_policy_debug FinishPinned = ''FinishPinned''"
| "revocation_policy_debug AuditOnly = ''AuditOnly''"

definition compiled_line :: "hash32 \<times> lifecycle_state \<Rightarrow> string" where
  "compiled_line = (\<lambda>(h, st). ''compiled: hash='' @ hex32 h @ '' state='' @ lifecycle_state_debug st)"

definition finding_line :: "finding \<Rightarrow> string" where
  "finding_line f =
     ''['' @ tier_name (finding_tier f) @ ''] '' @ finding_rule_id f @ '' ('' @ finding_code f @ ''): ''
     @ finding_message f @ (if finding_blocking f then '' [blocking]'' else [])"

text \<open>The exit code and the lines printed.\<close>

type_synonym dispatched = "(machine, cli_error, int \<times> string list) action"

text \<open>The commands that take an address and the clock, with the root opened first.\<close>

definition on_artifact ::
    "process \<Rightarrow> cli \<Rightarrow> string \<Rightarrow> (string \<Rightarrow> hash32 \<Rightarrow> 64 word \<Rightarrow> dispatched) \<Rightarrow> dispatched" where
  "on_artifact p c hash f =
     abind (open_backend p c) (\<lambda>dir.
     abind (lift (now_unix p c)) (\<lambda>now.
     abind (lift (hash_argument hash)) (\<lambda>h. f dir h now)))"

text \<open>The commands that read the clock before they open the root.\<close>

definition on_root_at :: "process \<Rightarrow> cli \<Rightarrow> (string \<Rightarrow> 64 word \<Rightarrow> dispatched) \<Rightarrow> dispatched" where
  "on_root_at p c f =
     abind (lift (registry_root p c)) (\<lambda>dir.
     abind (lift (now_unix p c)) (\<lambda>now.
     abind (open_root dir) (\<lambda>_. f dir now)))"

definition dispatch_graph :: "cli_lib \<Rightarrow> process \<Rightarrow> cli \<Rightarrow> graph_action \<Rightarrow> dispatched" where
  "dispatch_graph L p c act =
     (let T = cl_tools L in
      abind (open_backend p c) (\<lambda>dir.
      abind (lift (now_unix p c)) (\<lambda>now.
      let export = (\<lambda>env. at_root dir (with_error CliRegistry (graph_export T (local_registry T) env now))) in
      (case act of
         GraphExport out env \<Rightarrow>
           abind (export env) (\<lambda>outcome.
           abind (in_root dir (write_outputs L p outcome out)) (\<lambda>_.
             ret (0, [''graph export: '' @ nat_digits (int (length (out_exported outcome))) @ '' artifacts exported, ''
               @ nat_digits (int (length (out_refusals outcome))) @ '' refused -> '' @ out])))
       | OracleBlast doc article env \<Rightarrow>
           abind (export env) (\<lambda>outcome. ret (0, blast_radius (out_graph outcome) doc article))
       | OracleExposure from to env \<Rightarrow>
           abind (export env) (\<lambda>outcome.
             case conflict_exposure (out_graph outcome) from to of
               Some ids \<Rightarrow> ret (0, ids)
             | None \<Rightarrow> throw (CliText []))))))"

definition provenance_command :: "cli_lib \<Rightarrow> process \<Rightarrow> cli \<Rightarrow> string \<Rightarrow> bool \<Rightarrow> dispatched" where
  "provenance_command L p c hash write =
     on_root_at p c (\<lambda>dir now.
       abind (lift (hash_argument hash)) (\<lambda>h.
       abind (in_root dir (provenance_run L p h now (if write then Some dir else None))) (\<lambda>line. ret (0, [line]))))"

definition serve_command :: "cli_lib \<Rightarrow> process \<Rightarrow> cli \<Rightarrow> dispatched" where
  "serve_command L p c =
     abind (open_backend p c) (\<lambda>dir.
     abind (guard (pr_bind p) BindFailed) (\<lambda>_.
     abind (at_root dir (\<lambda>s. case serve_loop (cl_serve L) (cl_tools L) (local_registry (cl_tools L)) (pr_requests p) s of
         (replies, t) \<Rightarrow> (if ServerDown \<in> set replies then Inl (CliRegistry RegistryPanic) else Inr (), t))) (\<lambda>_.
       ret (0, []))))"

definition lint_command :: "cli_lib \<Rightarrow> process \<Rightarrow> cli \<Rightarrow> string \<Rightarrow> bool \<Rightarrow> dispatched" where
  "lint_command L p c yaml deny =
     abind (lift (map_err CliAuthoring (lint_run (sl_yaml (cl_serve L)) (pr_text p yaml)))) (\<lambda>outcome.
       ret (lint_exit deny outcome,
         map finding_line (lint_findings outcome)
         @ [''lint: findings='' @ nat_digits (int (length (lint_findings outcome)))
            @ '' blocking='' @ nat_digits (int (lint_blocking_count outcome))]))"

definition export_command :: "cli_lib \<Rightarrow> process \<Rightarrow> cli \<Rightarrow> string \<Rightarrow> string \<Rightarrow> dispatched" where
  "export_command L p c hash out =
     abind (open_backend p c) (\<lambda>dir.
     abind (lift (hash_argument hash)) (\<lambda>h.
     abind (in_root dir (with_error CliExporting (export_run (local_registry (cl_tools L)) h out (pr_write p out))))
       (\<lambda>receipt. ret (0, [''export: hash='' @ hex32 (exp_artifact_hash receipt) @ '' bytes=''
          @ nat_digits (int (exp_bytes_written receipt)) @ '' out='' @ exp_out_path receipt]))))"

definition import_command :: "cli_lib \<Rightarrow> process \<Rightarrow> cli \<Rightarrow> string \<Rightarrow> dispatched" where
  "import_command L p c path =
     abind (lift (now_unix p c)) (\<lambda>now.
     abind (gets mc_files) (\<lambda>files.
     abind (lift (map_err CliImporting
       (import_run (cl_tools L) (if pr_readable p path then files path else None) now))) (\<lambda>outcome.
       ret (0, [cl_import_line L outcome]))))"

definition sql_command :: "cli_lib \<Rightarrow> process \<Rightarrow> cli \<Rightarrow> string \<Rightarrow> dispatched" where
  "sql_command L p c query =
     abind (open_backend p c) (\<lambda>dir.
     abind (at_root dir (with_error CliRows (project_rows (cl_tools L) (local_registry (cl_tools L)) (pr_clock p))))
       (\<lambda>rows.
     abind (lift (map_err CliText (cl_sql L rows query))) (\<lambda>rows_json. ret (0, [rows_json]))))"

fun dispatch_command :: "cli_lib \<Rightarrow> process \<Rightarrow> cli \<Rightarrow> cli_command \<Rightarrow> dispatched" where
  "dispatch_command L p c (CliCompile yaml regime env) =
     on_root_at p c (\<lambda>dir now.
       abind (at_root dir (with_error CliAuthoring (compile_run (sl_yaml (cl_serve L)) (cl_tools L)
         (local_registry (cl_tools L)) (pr_text p yaml) regime now))) (\<lambda>outcome.
       ret (0, [compiled_line outcome])))"
| "dispatch_command L p c (CliCompileIntent json regime env) =
     on_root_at p c (\<lambda>dir now.
       abind (at_root dir (with_error CliAuthoring (intent_run (cl_read_intent L) (cl_tools L)
         (local_registry (cl_tools L)) (pr_text p json) regime now))) (\<lambda>outcome.
       ret (0, [compiled_line outcome])))"
| "dispatch_command L p c (CliQuery hash tag regime effective env) =
     on_root_at p c (\<lambda>dir now.
       abind (lift (query_selector hash tag regime effective env)) (\<lambda>selector.
       abind (at_root dir (with_error CliRegistry (query_run (cl_tools L) (local_registry (cl_tools L)) selector now)))
         (\<lambda>record. ret (0, [render_record record]))))"
| "dispatch_command L p c (CliMlCheck hash) =
     on_artifact p c hash (\<lambda>dir h now.
       abind (at_root dir (with_error CliCommand (ml_check (cl_tools L) (local_registry (cl_tools L)) h now))) (\<lambda>st.
       ret (0, [''ml-check: hash='' @ hash @ '' state='' @ lifecycle_state_debug st])))"
| "dispatch_command L p c (CliAttest hash types) =
     abind (open_backend p c) (\<lambda>dir.
     abind (lift (now_unix p c)) (\<lambda>now.
     abind (lift (mapR (word_argument ''type'' parse_attestation_type) types)) (\<lambda>parsed.
     abind (lift (hash_argument hash)) (\<lambda>h.
     abind (at_root dir (with_error CliCommand (attest (cl_tools L) (local_registry (cl_tools L)) h parsed now)))
       (\<lambda>(st, n). ret (0, [''attest: hash='' @ hash @ '' state='' @ lifecycle_state_debug st
          @ '' attestations='' @ nat_digits (int n)]))))))"
| "dispatch_command L p c (CliPublish hash env tag policy) =
     on_artifact p c hash (\<lambda>dir h now.
       abind (at_root dir (with_error CliCommand
         (publish (cl_tools L) (local_registry (cl_tools L)) h env tag policy now))) (\<lambda>(st, tag_ref).
       ret (0, [''publish: hash='' @ hash @ '' state='' @ lifecycle_state_debug st @ '' tag='' @ tag_ref])))"
| "dispatch_command L p c (CliDeprecate hash) =
     on_artifact p c hash (\<lambda>dir h now.
       abind (at_root dir (with_error CliCommand (deprecate (cl_tools L) (local_registry (cl_tools L)) h now))) (\<lambda>st.
       ret (0, [''deprecate: hash='' @ hash @ '' state='' @ lifecycle_state_debug st])))"
| "dispatch_command L p c (CliRevoke hash policy reason_class reason) =
     on_artifact p c hash (\<lambda>dir h now.
       abind (lift (transpose_opt (word_argument ''policy'' parse_revocation_policy) policy)) (\<lambda>policy.
       abind (lift (transpose_opt (word_argument ''reason-class'' parse_reason_class) reason_class)) (\<lambda>reason_class.
       abind (at_root dir (with_error CliCommand
         (revoke (cl_tools L) (local_registry (cl_tools L)) h policy reason_class reason now)))
         (\<lambda>(st, recorded, severity).
       ret (0, [''revoke: hash='' @ hash @ '' state='' @ lifecycle_state_debug st @ '' policy=''
         @ revocation_policy_debug recorded @ '' severity='' @ severity])))))"
| "dispatch_command L p c (CliRollback env tag hash) =
     on_artifact p c hash (\<lambda>dir h now.
       abind (at_root dir (with_error CliCommand
         (rollback (cl_tools L) (local_registry (cl_tools L)) env tag h now))) (\<lambda>(st, tag_ref).
       ret (0, [''rollback: target='' @ hash @ '' state='' @ lifecycle_state_debug st @ '' tag='' @ tag_ref])))"
| "dispatch_command L p c (CliExportProvenance hash write) = provenance_command L p c hash write"
| "dispatch_command L p c CliVerify = ret (2, [])"
| "dispatch_command L p c (CliServe host port) = serve_command L p c"
| "dispatch_command L p c (CliLint yaml deny) = lint_command L p c yaml deny"
| "dispatch_command L p c (CliExport hash out) = export_command L p c hash out"
| "dispatch_command L p c (CliImport path) = import_command L p c path"
| "dispatch_command L p c (CliSql query) = sql_command L p c query"
| "dispatch_command L p c (CliGraph act) = dispatch_graph L p c act"

lemmas reading_commands =
  provenance_command_def serve_command_def lint_command_def export_command_def import_command_def sql_command_def

definition dispatch_cli :: "cli_lib \<Rightarrow> process \<Rightarrow> cli \<Rightarrow> dispatched" where
  "dispatch_cli L p c = dispatch_command L p c (cli_command c)"

text \<open>A panic inside a command unwinds the process, which exits with 101.\<close>

fun panicked :: "cli_error \<Rightarrow> bool" where
  "panicked (CliRegistry e) = (e = RegistryPanic)"
| "panicked (CliCommand e) = (e = RegistryFailure RegistryPanic)"
| "panicked (CliAuthoring e) = (e = AuthoringCommand (RegistryFailure RegistryPanic))"
| "panicked (CliExporting e) = (e = ExportRegistry RegistryPanic)"
| "panicked (CliRows e) = (e = SqlRegistry RegistryPanic)"
| "panicked _ = False"

definition ke_run :: "cli_lib \<Rightarrow> process \<Rightarrow> cli \<Rightarrow> machine \<Rightarrow> int \<times> string list \<times> machine" where
  "ke_run L p c mc =
     (case dispatch_cli L p c mc of
        (Inr (code, out), mc') \<Rightarrow> (code, out, mc')
      | (Inl e, mc') \<Rightarrow> (if panicked e then 101 else 1, [], mc'))"

text \<open>One process after another.\<close>

fun session :: "cli_lib \<Rightarrow> (process \<times> cli) list \<Rightarrow> machine \<Rightarrow> machine" where
  "session L [] mc = mc"
| "session L ((p, c) # rest) mc = session L rest (snd (snd (ke_run L p c mc)))"

section \<open>Where a command line may write\<close>

fun read_only :: "cli_command \<Rightarrow> bool" where
  "read_only (CliQuery _ _ _ _ _) = True"
| "read_only (CliExportProvenance _ _) = True"
| "read_only CliVerify = True"
| "read_only (CliServe _ _) = True"
| "read_only (CliLint _ _) = True"
| "read_only (CliExport _ _) = True"
| "read_only (CliImport _) = True"
| "read_only (CliSql _) = True"
| "read_only (CliGraph _) = True"
| "read_only _ = False"

section \<open>One root at a time\<close>

text \<open>Every root but \<open>dir\<close> is as in \<open>mc0\<close>, and the store at \<open>dir\<close> satisfies \<open>S\<close>.\<close>

definition framed :: "string \<Rightarrow> machine \<Rightarrow> (fs_store \<Rightarrow> bool) \<Rightarrow> machine \<Rightarrow> bool" where
  "framed dir mc0 S mc \<longleftrightarrow> (\<forall>d. d \<noteq> dir \<longrightarrow> mc_roots mc d = mc_roots mc0 d) \<and> S (mc_roots mc dir)"

lemma in_root_triple:
  assumes "triple (\<lambda>(s, f). S s) m (\<lambda>_ (s, f). S' s) (\<lambda>_ (s, f). S' s)"
  shows "triple (framed dir mc0 S) (in_root dir m) (\<lambda>_. framed dir mc0 S') (\<lambda>_. framed dir mc0 S')"
  using assms unfolding triple_def in_root_def framed_def
  by (fastforce split: prod.splits sum.splits)

lemma on_registry_triple:
  assumes "triple S m (\<lambda>_. S') (\<lambda>_. S')"
  shows "triple (\<lambda>(s, f). S s) (on_registry m) (\<lambda>_ (s, f). S' s) (\<lambda>_ (s, f). S' s)"
  using assms unfolding triple_def on_registry_def by (fastforce split: prod.splits sum.splits)

lemma at_root_triple:
  "triple S m (\<lambda>_. S') (\<lambda>_. S') \<Longrightarrow>
     triple (framed dir mc0 S) (at_root dir m) (\<lambda>_. framed dir mc0 S') (\<lambda>_. framed dir mc0 S')"
  by (rule in_root_triple[OF on_registry_triple])

lemma keeps_gets [reads]: "keeps P (gets g)"
  by (rule triple_gets)

lemma keeps_guard [reads]: "keeps P (guard b e)"
  by (rule triple_guard)

lemma keeps_marked [reads]: "keeps (framed dir mc0 S) (modify (\<lambda>mc. mc\<lparr>mc_marked := g mc\<rparr>))"
  by (rule triple_modify) (simp add: framed_def)

lemma keeps_io [reads]: "keeps (fs_stands False v) (io what)"
  by (auto simp: triple_iff io_def fs_stands_def split: list.splits if_splits)

lemma keeps_open_root [reads]: "keeps (framed dir mc0 (fs_stands False v)) (open_root dir)"
  unfolding open_root_def by (intro keeps_rules at_root_triple reads)

lemma keeps_files [reads]:
  "keeps (\<lambda>(s, f). S s) (make_dir p d)" "keeps (\<lambda>(s, f). S s) (write_file w path bs)"
  "keeps (\<lambda>(s, f). S s) (write_text p path content)"
proof -
  show w: "keeps (\<lambda>(s, f). S s) (write_file w path bs)" for w path bs
    by (auto simp: triple_iff write_file_def split: write_outcome.splits)
  show "keeps (\<lambda>(s, f). S s) (make_dir p d)" unfolding make_dir_def by (rule keeps_guard)
  show "keeps (\<lambda>(s, f). S s) (write_text p path content)"
    unfolding write_text_def by (rule keeps_with_error[OF w])
qed

lemma keeps_outputs [reads]: "keeps (\<lambda>(s, f). S s) (write_outputs L p outcome out)"
  unfolding write_outputs_def by (intro keeps_rules reads)

text \<open>The root is selected first; what follows may assume it.\<close>

lemma keeps_open_backend:
  assumes "registry_root p c = Inr dir" "triple (framed dir mc0 (fs_stands False v)) (f dir) Q F"
    and "\<And>e mc. framed dir mc0 (fs_stands False v) mc \<Longrightarrow> F e mc"
  shows "triple (framed dir mc0 (fs_stands False v)) (abind (open_backend p c) f) Q F"
proof (rule triple_bind[where R = "\<lambda>d mc. d = dir \<and> framed dir mc0 (fs_stands False v) mc"])
  have "triple (framed dir mc0 (fs_stands False v)) (open_root dir)
      (\<lambda>_. framed dir mc0 (fs_stands False v)) F"
    by (rule triple_weaken[OF keeps_open_root]) (use assms(3) in auto)
  then show "triple (framed dir mc0 (fs_stands False v)) (open_backend p c)
      (\<lambda>d mc. d = dir \<and> framed dir mc0 (fs_stands False v) mc) F"
    unfolding open_backend_def assms(1) by (auto simp: triple_iff abind_cases)
  show "triple (\<lambda>mc. x = dir \<and> framed dir mc0 (fs_stands False v) mc) (f x) Q F" for x
    using assms(2) by (auto simp: triple_iff)
qed

lemma step_lift:
  assumes "\<And>x. triple P (f x) Q F" "\<And>e s. P s \<Longrightarrow> F e s"
  shows "triple P (abind (lift r) f) Q F"
  using assms by (cases r) (auto simp: triple_iff abind_cases)

lemma on_root_at_triple:
  assumes "registry_root p c = Inr dir" "\<And>now. triple (framed dir mc0 (fs_stands False v)) (f dir now) Q F"
    and "\<And>e mc. framed dir mc0 (fs_stands False v) mc \<Longrightarrow> F e mc"
  shows "triple (framed dir mc0 (fs_stands False v)) (on_root_at p c f) Q F"
proof -
  have "triple (framed dir mc0 (fs_stands False v)) (abind (open_root dir) (\<lambda>_. f dir now)) Q F" for now
  proof (rule triple_bind[OF _ assms(2)])
    show "triple (framed dir mc0 (fs_stands False v)) (open_root dir) (\<lambda>_. framed dir mc0 (fs_stands False v)) F"
      by (rule triple_weaken[OF keeps_open_root]) (use assms(3) in auto)
  qed
  then have "triple (framed dir mc0 (fs_stands False v))
      (abind (lift (now_unix p c)) (\<lambda>now. abind (open_root dir) (\<lambda>_. f dir now))) Q F"
    by (intro step_lift assms(3))
  then show ?thesis unfolding on_root_at_def assms(1) by (simp add: triple_iff abind_cases)
qed

lemma on_artifact_triple:
  assumes "registry_root p c = Inr dir" "\<And>h now. triple (framed dir mc0 (fs_stands False v)) (f dir h now) Q F"
    and "\<And>e mc. framed dir mc0 (fs_stands False v) mc \<Longrightarrow> F e mc"
  shows "triple (framed dir mc0 (fs_stands False v)) (on_artifact p c hash f) Q F"
  unfolding on_artifact_def by (intro keeps_open_backend[OF assms(1)] step_lift assms(2,3))

section \<open>Reading commands\<close>

lemma keeps_each: "(\<And>x. keeps P (f x)) \<Longrightarrow> keeps P (each f xs)"
  by (induction xs) (simp_all only: each.simps, auto intro!: keeps_rules reads)

lemma keeps_attempt: "keeps P m \<Longrightarrow> keeps P (attempt m)"
  unfolding triple_def attempt_def by (fastforce split: prod.splits sum.splits)

context registry_backend begin

lemma keeps_registry_evidence [reads]: "keeps (stands b v) (read_registry_evidence T B h)"
  unfolding read_registry_evidence_def Let_def by (intro keeps_rules reads)

lemma keeps_provenance [reads]: "keeps (stands b v) (export_provenance T B h now)"
  unfolding export_provenance_def decode_stored_def by (intro keeps_rules reads)

lemma keeps_query [reads]: "keeps (stands b v) (query_run T B sel now)"
  unfolding query_run_def by (intro keeps_rules reads)

lemma keeps_rows [reads]: "keeps (stands b v) (project_rows T B now)"
  unfolding project_rows_def project_row_def lifecycle_state_text_def Let_def
  by (intro keeps_rules keeps_each reads)

lemma keeps_admit [reads]: "keeps (stands b v) (admit T B env now h)"
proof -
  have verdicts: "keeps P (case vd of Verified \<Rightarrow> m | Rejected r \<Rightarrow> f r)"
    if "keeps P m" "\<And>r. keeps P (f r)" for P and m :: "('s, registry_error, admission) action" and f vd
    using that by (cases vd) simp_all
  show ?thesis
    unfolding admit_def by (intro keeps_rules keeps_attempt verdicts reads)
qed

lemma keeps_export_all [reads]: "keeps (stands b v) (export_all T B env now hs out)"
  by (induction hs arbitrary: out) (simp_all only: export_all.simps, auto intro!: keeps_rules reads)

lemma keeps_graph_export [reads]: "keeps (stands b v) (graph_export T B env now)"
  unfolding graph_export_def by (intro keeps_rules reads)

end

lemma keeps_provenance_run:
  "keeps (\<lambda>(s, f). fs_stands False v s) (provenance_run L p h now write_root)"
  unfolding provenance_run_def Let_def by (intro keeps_rules on_registry_triple reads fs.keeps_provenance)

lemma keeps_export_run: "keeps (\<lambda>(s, f). fs_stands False v s) (export_run (local_registry T) h path w)"
  unfolding export_run_def by (intro keeps_rules on_registry_triple reads fs.backend_reads)

lemma keeps_serving:
  "keeps (fs_stands False v) (\<lambda>s. case serve_loop SL T (local_registry T) reqs s of
     (replies, t) \<Rightarrow> (if ServerDown \<in> set replies then Inl e else Inr (), t))"
proof (unfold triple_def, intro allI impI)
  fix s assume s: "fs_stands False v s"
  obtain replies t where run: "serve_loop SL T (local_registry T) reqs s = (replies, t)" by fastforce
  from fs.serve_loop_keeps[OF s, of SL T "tc_lib T" "tc_artifacts T" reqs] run
  show "case case serve_loop SL T (local_registry T) reqs s of
      (replies, t) \<Rightarrow> (if ServerDown \<in> set replies then Inl e else Inr (), t) of
      (Inr x, t) \<Rightarrow> fs_stands False v t | (Inl e, t) \<Rightarrow> fs_stands False v t"
    by simp
qed

lemma keeps_graph_action:
  assumes "registry_root p c = Inr dir"
  shows "keeps (framed dir mc0 (fs_stands False v)) (dispatch_graph L p c act)"
proof -
  have exported: "keeps (framed dir mc0 (fs_stands False v))
      (at_root dir (with_error CliRegistry (graph_export T (local_registry T) env now)))" for T env now
    by (intro at_root_triple keeps_with_error fs.keeps_graph_export)
  show ?thesis
    unfolding dispatch_graph_def Let_def
    by (intro keeps_open_backend[OF assms] step_lift; (assumption | cases act;
        simp only: graph_action.case; intro keeps_rules exported in_root_triple reads))
qed

lemma read_only_keeps:
  assumes "read_only cmd" "registry_root p c = Inr dir"
  shows "keeps (framed dir mc0 (fs_stands False v)) (dispatch_command L p c cmd)"
  using assms(1)
proof (cases cmd)
  case (CliGraph act)
  then show ?thesis by (simp only: dispatch_command.simps keeps_graph_action[OF assms(2)])
qed (simp_all only: read_only.simps simp_thms dispatch_command.simps reading_commands,
  (intro keeps_rules on_root_at_triple[OF assms(2)] keeps_open_backend[OF assms(2)] at_root_triple in_root_triple
    keeps_provenance_run keeps_export_run keeps_serving fs.keeps_query fs.keeps_rows reads; assumption)+)

section \<open>Writing commands\<close>

lemma triple_of_ignore: "triple P (ignore m) (\<lambda>_. R) (\<lambda>_. R) \<Longrightarrow> triple P m (\<lambda>_. R) (\<lambda>_. R)"
  unfolding ignore_def triple_iff abind_cases by auto

text \<open>Each command, as it runs on a sound root.\<close>

lemma command_reaches:
  assumes "toolchain_law T" "sound T v" "execute T (local_registry T) now r = ignore m"
  shows "triple (fs_stands False v) m (\<lambda>_. reaches fs_stands T False v) (\<lambda>_. reaches fs_stands T False v)"
  using fs.execute_reaches[OF assms(1,2), of False "tc_lib T" "tc_artifacts T" now r]
  unfolding assms(3) by (rule triple_of_ignore)

lemmas commands_reach =
  command_reaches[OF _ _ execute.simps(1)] command_reaches[OF _ _ execute.simps(2)]
  command_reaches[OF _ _ execute.simps(3)] command_reaches[OF _ _ execute.simps(4)]
  command_reaches[OF _ _ execute.simps(5)] command_reaches[OF _ _ execute.simps(6)]
  command_reaches[OF _ _ execute.simps(7)] command_reaches[OF _ _ execute.simps(8)]

lemma compile_run_reaches:
  assumes "toolchain_law T" "sound T v"
  shows "triple (fs_stands False v) (compile_run Y T (local_registry T) file regime now)
    (\<lambda>_. reaches fs_stands T False v) (\<lambda>_. reaches fs_stands T False v)"
  unfolding compile_run_def
  by (intro step_lift triple_any_error commands_reach(1)[OF assms]) (auto intro: reaches_same)

lemma intent_run_reaches:
  assumes "toolchain_law T" "sound T v"
  shows "triple (fs_stands False v) (intent_run read_input T (local_registry T) file regime now)
    (\<lambda>_. reaches fs_stands T False v) (\<lambda>_. reaches fs_stands T False v)"
  unfolding intent_run_def
  by (intro step_lift triple_any_error commands_reach(2)[OF assms]) (auto intro: reaches_same)

text \<open>The step on the root, followed by what is printed.\<close>

lemma run_and_print:
  assumes "triple S m (\<lambda>_. S') (\<lambda>_. S')" "\<And>x. keeps (framed dir mc0 S') (f x)"
  shows "triple (framed dir mc0 S) (abind (at_root dir (with_error g m)) f)
    (\<lambda>_. framed dir mc0 S') (\<lambda>_. framed dir mc0 S')"
  by (rule triple_bind[OF at_root_triple[OF triple_any_error[OF assms(1)]] assms(2)])

lemma framed_mono: "framed dir mc0 S mc \<Longrightarrow> (\<And>s. S s \<Longrightarrow> S' s) \<Longrightarrow> framed dir mc0 S' mc"
  by (auto simp: framed_def)

lemma writing_reaches:
  assumes "toolchain_law (cl_tools L)" "sound (cl_tools L) v" "registry_root p c = Inr dir" "\<not> read_only cmd"
  shows "triple (framed dir mc0 (fs_stands False v)) (dispatch_command L p c cmd)
    (\<lambda>_. framed dir mc0 (reaches fs_stands (cl_tools L) False v))
    (\<lambda>_. framed dir mc0 (reaches fs_stands (cl_tools L) False v))"
proof -
  note stop = framed_mono[OF _ reaches_same]
  note steps = on_root_at_triple[OF assms(3)] on_artifact_triple[OF assms(3)] keeps_open_backend[OF assms(3)] step_lift
  note runs = run_and_print[OF compile_run_reaches[OF assms(1,2)]] run_and_print[OF intent_run_reaches[OF assms(1,2)]]
    commands_reach(3-8)[OF assms(1,2), THEN run_and_print]
  have quiet: "keeps P (case_prod (\<lambda>st rest. ret (k st rest)) x)"
    "keeps P (case_prod (\<lambda>st. case_prod (\<lambda>y z. ret (k3 st y z))) x3)" "keeps P (ret r)" for P k x k3 x3 r
    by (intro keeps_rules reads)+
  show ?thesis
    by (insert assms(4), cases cmd; simp only: read_only.simps simp_thms dispatch_command.simps;
        intro steps runs quiet; erule stop; assumption)
qed

section \<open>One process\<close>

lemma no_root_touches_nothing:
  assumes "registry_root p c = Inl e"
  shows "mc_roots (snd (dispatch_command L p c cmd mc)) = mc_roots mc"
  by (cases cmd) (simp_all add: on_root_at_def on_artifact_def open_backend_def dispatch_graph_def reading_commands assms abind_def
      Let_def split: sum.split prod.split)

text \<open>Linting and importing never look at a registry.\<close>

lemma process_effect:
  assumes "toolchain_law (cl_tools L)"
    and "\<And>d. registry_root p c = Inr d \<Longrightarrow> fs_invar (mc_roots mc d) \<and> sound (cl_tools L) (fs_view (mc_roots mc d))"
    and "ke_run L p c mc = (code, out, mc')"
  shows "registry_root p c \<noteq> Inr d \<Longrightarrow> mc_roots mc' d = mc_roots mc d"
    "registry_root p c = Inr d \<Longrightarrow> fs_invar (mc_roots mc' d)
       \<and> lifecycle_steps (cl_tools L) (fs_view (mc_roots mc d)) (fs_view (mc_roots mc' d))
       \<and> (read_only (cli_command c) \<longrightarrow> fs_view (mc_roots mc' d) = fs_view (mc_roots mc d))"
proof -
  obtain r where run: "dispatch_command L p c (cli_command c) mc = (r, mc')"
    using assms(3) by (auto simp: ke_run_def dispatch_cli_def split: prod.splits sum.splits)
  have frame: "framed dir mc (fs_stands False (fs_view (mc_roots mc dir))) mc"
    if "registry_root p c = Inr dir" for dir
    using assms(2)[OF that] by (simp add: framed_def fs_stands_def)
  have effect: "framed dir mc (reaches fs_stands (cl_tools L) False (fs_view (mc_roots mc dir))) mc'
      \<and> (read_only (cli_command c) \<longrightarrow> framed dir mc (fs_stands False (fs_view (mc_roots mc dir))) mc')"
    if dir: "registry_root p c = Inr dir" for dir
  proof (cases "read_only (cli_command c)")
    case True
    from triple_both[OF read_only_keeps[OF this dir] frame[OF dir], of L] run
    have "framed dir mc (fs_stands False (fs_view (mc_roots mc dir))) mc'" by simp
    then show ?thesis by (auto simp: framed_def intro: reaches_same)
  next
    case False
    have "sound (cl_tools L) (fs_view (mc_roots mc dir))" using assms(2)[OF dir] ..
    from triple_both[OF writing_reaches[OF assms(1) this dir False] frame[OF dir]] run False
    show ?thesis by simp
  qed
  show "mc_roots mc' d = mc_roots mc d" if "registry_root p c \<noteq> Inr d"
  proof (cases "registry_root p c")
    case (Inl e)
    then show ?thesis using no_root_touches_nothing[OF Inl, of L "cli_command c" mc] run by simp
  next
    case (Inr dir)
    then show ?thesis using effect[OF Inr] that by (simp add: framed_def)
  qed
  show "fs_invar (mc_roots mc' d)
       \<and> lifecycle_steps (cl_tools L) (fs_view (mc_roots mc d)) (fs_view (mc_roots mc' d))
       \<and> (read_only (cli_command c) \<longrightarrow> fs_view (mc_roots mc' d) = fs_view (mc_roots mc d))"
    if "registry_root p c = Inr d"
    using effect[OF that] by (auto simp: framed_def reaches_def fs_stands_def)
qed

definition sound_machine :: "toolchain \<Rightarrow> machine \<Rightarrow> bool" where
  "sound_machine T mc \<longleftrightarrow> (\<forall>d. fs_invar (mc_roots mc d) \<and> sound T (fs_view (mc_roots mc d)))"

lemma session_sound:
  assumes "toolchain_law (cl_tools L)"
  shows "sound_machine (cl_tools L) mc \<Longrightarrow> sound_machine (cl_tools L) (session L ps mc)
    \<and> lifecycle_steps (cl_tools L) (fs_view (mc_roots mc d)) (fs_view (mc_roots (session L ps mc) d))"
proof (induction ps arbitrary: mc)
  case (Cons x ps)
  obtain p c where x: "x = (p, c)" by (cases x)
  obtain code out mc' where run: "ke_run L p c mc = (code, out, mc')" by (cases "ke_run L p c mc")
  have start: "fs_invar (mc_roots mc d)" "sound (cl_tools L) (fs_view (mc_roots mc d))" for d
    using Cons.prems by (simp_all add: sound_machine_def)
  note effect = process_effect[OF assms(1) conjI[OF start] run]
  have step: "fs_invar (mc_roots mc' d)"
    "lifecycle_steps (cl_tools L) (fs_view (mc_roots mc d)) (fs_view (mc_roots mc' d))" for d
    using effect[of d] start(1)[of d] by (cases "registry_root p c = Inr d"; simp)+
  have "sound_machine (cl_tools L) mc'"
    unfolding sound_machine_def using step steps_sound[OF step(2) assms start(2)] by blast
  from Cons.IH[OF this] show ?case
    using rtranclp_trans[OF step(2)[of d]] by (simp add: x run)
qed simp

section \<open>Exit codes\<close>

lemma open_root_quiet:
  assumes "st_io (mc_roots mc dir) = []"
  obtains mc' where "open_root dir mc = (Inr (), mc')" "mc_roots mc' = mc_roots mc" "mc_files mc' = mc_files mc"
proof -
  have "at_root dir (with_error CliRegistry (io what)) mc = (Inr (), mc)" for what
    using assms by (simp add: in_root_def on_registry_def with_error_def io_def results fun_upd_idem)
  then have "open_root dir mc = (Inr (), if dir \<in> mc_marked mc then mc else mc\<lparr>mc_marked := insert dir (mc_marked mc)\<rparr>)"
    by (simp add: open_root_def abind_def)
  then show ?thesis using that by simp
qed

lemma on_artifact_quiet:
  assumes "registry_root p c = Inr dir" "now_unix p c = Inr now" "hex_to_hash hash = Inr h"
    and "st_io (mc_roots mc dir) = []"
  obtains mc' where "on_artifact p c hash f mc = f dir h now mc'" "mc_roots mc' = mc_roots mc"
    "mc_files mc' = mc_files mc"
proof -
  obtain mc' where "open_root dir mc = (Inr (), mc')" "mc_roots mc' = mc_roots mc" "mc_files mc' = mc_files mc"
    by (rule open_root_quiet[OF assms(4)])
  then show ?thesis
    using that[of mc'] by (simp add: on_artifact_def open_backend_def abind_def assms(1-3) hash_argument_def results)
qed

definition quiet_process :: "(string \<Rightarrow> string + string) \<Rightarrow> process" where
  "quiet_process texts =
     \<lparr>pr_var = (\<lambda>_. None), pr_clock = 7, pr_text = texts, pr_mkdir = (\<lambda>_. True), pr_readable = (\<lambda>_. True),
      pr_write = (\<lambda>_. Written), pr_bind = True, pr_requests = []\<rparr>"

definition empty_machine :: machine where
  "empty_machine = \<lparr>mc_roots = (\<lambda>_. empty_store []), mc_marked = {}, mc_files = (\<lambda>_. None)\<rparr>"

definition sample_cli_lib :: cli_lib where
  "sample_cli_lib =
     \<lparr>cl_tools = sample_toolchain, cl_serve = (sample_serve JNull)\<lparr>sl_yaml := sample_document\<rparr>,
      cl_read_intent = (\<lambda>_. Inr sample_intent_input), cl_provenance_json = (\<lambda>_. Inr []),
      cl_sql = (\<lambda>_ _. Inr []), cl_import_line = (\<lambda>_. []), cl_refusal_text = (\<lambda>_. [])\<rparr>"

definition at_dir :: "cli_command \<Rightarrow> cli" where
  "at_dir cmd = \<lparr>cli_registry = Some ''reg'', cli_now = Some 7, cli_command = cmd\<rparr>"

lemma sample_cli_tools: "cl_tools sample_cli_lib = sample_toolchain"
  by (simp add: sample_cli_lib_def)

lemma sample_cli_law: "toolchain_law (cl_tools sample_cli_lib)"
  unfolding sample_cli_tools by (rule sample_toolchain_law(1))

lemma empty_machine_root: "mc_roots empty_machine d = empty_store []"
  by (simp add: empty_machine_def)

section \<open>Properties\<close>







text \<open>\<open>ke sql\<close> stamps its rows with the system clock: the \<open>--now\<close> option and \<open>KE_NOW\<close>, documented as the
  only clock of the command line, do not reach it.\<close>

lemma sql_ignores_clock_option:
  assumes "cli_command c = CliSql query"
  shows "ke_run L p (c\<lparr>cli_now := now\<rparr>) mc = ke_run L p c mc"
  by (simp add: ke_run_def dispatch_cli_def assms sql_command_def open_backend_def registry_root_def)

end
