(* ===== verification/Bindings.thy ===== *)
theory Bindings
  imports Serve Authoring
begin

text \<open>
  The verify-only bindings: the browser package (\<open>src/crates/ke-wasm/src/lib.rs\<close>) and the Python
  module (\<open>src/crates/ke-artifact/src/python.rs\<close>). Inputs arrive as JSON texts and results leave as
  JSON; the readers, \<open>Display\<close> and derived \<open>Debug\<close> texts, the canonical provenance printer and
  Python's \<open>json.loads\<close> are parameters. An exception is the text it carries.

  Shown: both bindings give the same answer as the native call on the same inputs; the Python
  checks taken one by one are the folded verdict; the browser's preview and dry run are the
  routes of the HTTP service.
\<close>

section \<open>What both bindings use\<close>

record 'py binding_lib =
  bl_canon :: canon_lib
  bl_crypto :: crypto
  bl_artifacts :: artifact_codecs
  bl_keydir :: "string \<Rightarrow> string + key_directory"
  bl_context :: "string \<Rightarrow> string + policy_context"
  bl_policy :: "string \<Rightarrow> string + verification_policy"
  bl_evidence :: "string \<Rightarrow> string + registry_evidence"
  bl_value :: "string \<Rightarrow> string + json"
  bl_print :: "json \<Rightarrow> string"
  bl_provenance :: "artifact_provenance \<Rightarrow> string + string"
  bl_summary :: "attestation_summary \<Rightarrow> string + string"
  bl_intent :: "intent_spec_ir \<Rightarrow> string + string"
  bl_spans :: "source_span_index \<Rightarrow> string + string"
  bl_reason :: "rejection_reason \<Rightarrow> string"
  bl_rejection :: "attestation_rejection \<Rightarrow> string"
  bl_artifact_error :: "artifact_error \<Rightarrow> string"
  bl_loads :: "string \<Rightarrow> string + 'py"

definition parse_json :: "string \<Rightarrow> (string \<Rightarrow> string + 'a) \<Rightarrow> string \<Rightarrow> string + 'a" where
  "parse_json label read text = map_err (\<lambda>e. ''invalid '' @ label @ '' JSON: '' @ e) (read text)"

fun registry_status_debug :: "registry_status \<Rightarrow> string" where
  "registry_status_debug StatusPublished = ''Published''"
| "registry_status_debug StatusDeprecated = ''Deprecated''"
| "registry_status_debug StatusRevoked = ''Revoked''"
| "registry_status_debug StatusUnknown = ''Unknown''"

definition verdict_str :: "'py binding_lib \<Rightarrow> verdict \<Rightarrow> string" where
  "verdict_str L v = (case v of Verified \<Rightarrow> ''verified'' | Rejected reason \<Rightarrow> ''rejected:'' @ bl_reason L reason)"

text \<open>The object of the answer, with the provenance parsed back from its canonical text.\<close>

definition answer_json :: "'py binding_lib \<Rightarrow> verification_outcome \<Rightarrow> json \<Rightarrow> json" where
  "answer_json L outcome provenance =
     JObject [(''verdict'', JString (verdict_str L (out_verdict outcome))),
       (''registry_state'', JString (registry_status_debug (out_registry_state outcome))),
       (''content_hash'', JString (hex32 (prov_artifact_hash (out_provenance outcome)))),
       (''provenance'', provenance)]"

section \<open>The browser\<close>

definition wasm_verify ::
    "'py binding_lib \<Rightarrow> bytes \<Rightarrow> string \<Rightarrow> string \<Rightarrow> string \<Rightarrow> string \<Rightarrow> 64 word \<Rightarrow> string + string" where
  "wasm_verify L kew keydir_json context_json policy_json registry_json exported_at =
     rbind (parse_json ''keydir'' (bl_keydir L) keydir_json) (\<lambda>keydir.
     rbind (parse_json ''context'' (bl_context L) context_json) (\<lambda>ctx.
     rbind (parse_json ''policy'' (bl_policy L) policy_json) (\<lambda>policy.
     rbind (parse_json ''registry'' (bl_evidence L) registry_json) (\<lambda>evidence.
     let outcome = verify_artifact (bl_canon L) (bl_crypto L) (bl_artifacts L) kew keydir ctx policy evidence exported_at in
     rbind (map_err (\<lambda>e. ''provenance json: '' @ e) (bl_provenance L (out_provenance outcome))) (\<lambda>text.
     rbind (map_err (\<lambda>e. ''reparse provenance: '' @ e) (bl_value L text)) (\<lambda>provenance.
       Inr (bl_print L (answer_json L outcome provenance))))))))"

definition read_provenance :: "'py binding_lib \<Rightarrow> bytes \<Rightarrow> string \<Rightarrow> 64 word \<Rightarrow> string + string" where
  "read_provenance L kew registry_json exported_at =
     rbind (parse_json ''registry'' (bl_evidence L) registry_json) (\<lambda>evidence.
     rbind (map_err (\<lambda>e. ''decode .kew: '' @ bl_artifact_error L e)
       (decode_artifact (bl_canon L) (bl_artifacts L) kew)) (\<lambda>(a, _).
       map_err (\<lambda>e. ''provenance json: '' @ e) (bl_provenance L (provenance_of a evidence exported_at))))"

text \<open>The two error bodies: \<open>json!({"error": .., "detail": ..}).to_string()\<close>, with the printer of the
  HTTP service's error response, which has the same two fields.\<close>

definition wasm_error_body :: "serve_lib \<Rightarrow> string \<Rightarrow> serve_detail \<Rightarrow> bytes" where
  "wasm_error_body S kind detail = error_body S \<lparr>se_status = 422, se_kind = kind, se_detail = detail\<rparr>"

definition compile_preview_impl :: "serve_lib \<Rightarrow> string \<Rightarrow> bytes + bytes" where
  "compile_preview_impl S source =
     rbind (map_err (\<lambda>e. wasm_error_body S ''compile_error'' (DetailCompile e)) (compile_rules (sl_yaml S) source)) (\<lambda>rules.
       map_err (\<lambda>e. text_bytes (''serialize compile/preview: '' @ e))
         (sl_to_json S (CompilePreviewResponse rules (project_report (verify_rules rules)))))"

definition dry_run_impl :: "serve_lib \<Rightarrow> (string \<Rightarrow> string + json) \<Rightarrow> string \<Rightarrow> string \<Rightarrow> bytes + bytes" where
  "dry_run_impl S read_value source facts_json =
     rbind (map_err (\<lambda>e. wasm_error_body S ''compile_error'' (DetailCompile e)) (compile_rules (sl_yaml S) source)) (\<lambda>rules.
     rbind (map_err (\<lambda>e. wasm_error_body S ''facts_error'' (DetailFacts (''parse facts JSON: '' @ e))) (read_value facts_json))
       (\<lambda>facts_value.
     rbind (map_err (\<lambda>e. wasm_error_body S ''facts_error'' (DetailFacts e))
       (facts_from_json (sl_json_text S) facts_value)) (\<lambda>facts.
       map_err (\<lambda>e. text_bytes (''serialize dry-run: '' @ e))
         (sl_to_json S (DryRunResponse (map (\<lambda>rule. normalized_json (evaluate rule facts)) rules))))))"

section \<open>Python\<close>

record py_artifact =
  py_kew :: bytes
  py_inner :: artifact
  py_envelope_len :: nat

definition from_bytes :: "'py binding_lib \<Rightarrow> bytes \<Rightarrow> string + py_artifact" where
  "from_bytes L kew =
     rmap (\<lambda>(a, n). \<lparr>py_kew = kew, py_inner = a, py_envelope_len = n\<rparr>)
       (map_err (bl_artifact_error L) (decode_artifact (bl_canon L) (bl_artifacts L) kew))"

definition iter_rules :: "py_artifact \<Rightarrow> string list" where
  "iter_rules A = (case art_payload (py_inner A) of PayloadRules rules \<Rightarrow> map rule_id rules | PayloadIntentSpec _ \<Rightarrow> [])"

definition iter_criteria :: "py_artifact \<Rightarrow> string list" where
  "iter_criteria A =
     (case art_payload (py_inner A) of PayloadIntentSpec spec \<Rightarrow> map crit_name (intent_criteria spec) | PayloadRules _ \<Rightarrow> [])"

definition intent_spec :: "'py binding_lib \<Rightarrow> py_artifact \<Rightarrow> string + 'py option" where
  "intent_spec L A =
     (case art_payload (py_inner A) of
        PayloadIntentSpec spec \<Rightarrow> rbind (bl_intent L spec) (\<lambda>text. rmap Some (bl_loads L text))
      | PayloadRules _ \<Rightarrow> Inr None)"

definition zero_unknown_registry :: registry_evidence where
  "zero_unknown_registry = \<lparr>ev_status = StatusUnknown, ev_event_head_hash = 0, ev_live_event_head = None\<rparr>"

definition py_attestations :: "'py binding_lib \<Rightarrow> py_artifact \<Rightarrow> string + 'py list" where
  "py_attestations L A =
     mapR (\<lambda>a. rbind (bl_summary L a) (bl_loads L))
       (prov_attestations (provenance_of (py_inner A) zero_unknown_registry 0))"

definition py_span_index :: "'py binding_lib \<Rightarrow> py_artifact \<Rightarrow> string + 'py" where
  "py_span_index L A = rbind (bl_spans L (art_span_index (py_inner A))) (bl_loads L)"

definition canonical_hash :: "'py binding_lib \<Rightarrow> py_artifact \<Rightarrow> string + string" where
  "canonical_hash L A =
     rmap hex32 (map_err (bl_artifact_error L)
       (content_hash (bl_crypto L) (bl_artifacts L) (take (py_envelope_len A) (py_kew A))))"

definition verify_content_hash :: "'py binding_lib \<Rightarrow> py_artifact \<Rightarrow> bool" where
  "verify_content_hash L A = is_ok (verify_hash (bl_canon L) (bl_crypto L) (bl_artifacts L) (py_kew A))"

definition verify_compiler_signature :: "'py binding_lib \<Rightarrow> py_artifact \<Rightarrow> string \<Rightarrow> string + bool" where
  "verify_compiler_signature L A keydir_json =
     rbind (parse_json ''keydir'' (bl_keydir L) keydir_json) (\<lambda>keydir.
       Inr (case keydir_lookup keydir (cs_key_id (art_compiler_signature (py_inner A))) of
          None \<Rightarrow> False
        | Some entry \<Rightarrow> ed_point (bl_crypto L) (kd_public_key entry)
            \<and> is_ok (verify_signature (bl_crypto L) (take (py_envelope_len A) (py_kew A))
                (art_compiler_signature (py_inner A)) (kd_public_key entry))))"

definition verify_attestations ::
    "'py binding_lib \<Rightarrow> py_artifact \<Rightarrow> string \<Rightarrow> string \<Rightarrow> string \<Rightarrow> string + string list" where
  "verify_attestations L A policy_json keydir_json ctx_json =
     rbind (parse_json ''policy'' (bl_policy L) policy_json) (\<lambda>policy.
     rbind (parse_json ''keydir'' (bl_keydir L) keydir_json) (\<lambda>keydir.
     rbind (parse_json ''policy context'' (bl_context L) ctx_json) (\<lambda>ctx.
       Inr (case verify_attestation_set (bl_crypto L) (bl_artifacts L) (py_inner A) policy keydir ctx of
          Inr _ \<Rightarrow> []
        | Inl rejections \<Rightarrow> map (bl_rejection L) rejections))))"

definition verify_to_py ::
    "'py binding_lib \<Rightarrow> bytes \<Rightarrow> string \<Rightarrow> string \<Rightarrow> string \<Rightarrow> string \<Rightarrow> 64 word \<Rightarrow> string + 'py" where
  "verify_to_py L kew keydir_json ctx_json policy_json registry_json exported_at =
     rbind (parse_json ''keydir'' (bl_keydir L) keydir_json) (\<lambda>keydir.
     rbind (parse_json ''policy context'' (bl_context L) ctx_json) (\<lambda>ctx.
     rbind (parse_json ''policy'' (bl_policy L) policy_json) (\<lambda>policy.
     rbind (parse_json ''registry evidence'' (bl_evidence L) registry_json) (\<lambda>evidence.
     let outcome = verify_artifact (bl_canon L) (bl_crypto L) (bl_artifacts L) kew keydir ctx policy evidence exported_at in
     rbind (bl_provenance L (out_provenance outcome)) (\<lambda>text.
     rbind (bl_value L text) (\<lambda>provenance.
       bl_loads L (bl_print L (answer_json L outcome provenance))))))))"

text \<open>\<open>PyArtifact.verify\<close>, over the bytes the artifact was made from.\<close>

definition py_verify ::
    "'py binding_lib \<Rightarrow> py_artifact \<Rightarrow> string \<Rightarrow> string \<Rightarrow> string \<Rightarrow> string \<Rightarrow> 64 word \<Rightarrow> string + 'py" where
  "py_verify L A = verify_to_py L (py_kew A)"

definition py_provenance :: "'py binding_lib \<Rightarrow> py_artifact \<Rightarrow> string \<Rightarrow> 64 word \<Rightarrow> string + string" where
  "py_provenance L A registry_json exported_at =
     rbind (parse_json ''registry evidence'' (bl_evidence L) registry_json) (\<lambda>evidence.
       bl_provenance L (provenance_of (py_inner A) evidence exported_at))"

section \<open>The two bindings against each other and against the native call\<close>

lemma mapped_error: "rbind (map_err f r) k = (case r of Inl e \<Rightarrow> Inl (f e) | Inr x \<Rightarrow> k x)"
  by (cases r) simp_all

lemma parsed: "rbind (parse_json label read text) k
    = (case read text of Inl e \<Rightarrow> Inl (''invalid '' @ label @ '' JSON: '' @ e) | Inr x \<Rightarrow> k x)"
  by (cases "read text") (simp_all add: parse_json_def)

lemma rejections_not_empty: "verify_attestation_set K A a policy kd ctx \<noteq> Inl []"
  by (simp add: verify_attestation_set_def Let_def)

lemma from_bytes_Inr:
  "from_bytes L kew = Inr A \<longleftrightarrow> (\<exists>a n. decode_artifact (bl_canon L) (bl_artifacts L) kew = Inr (a, n)
     \<and> A = \<lparr>py_kew = kew, py_inner = a, py_envelope_len = n\<rparr>)"
  by (cases "decode_artifact (bl_canon L) (bl_artifacts L) kew") (auto simp: from_bytes_def results)

lemma compiler_signature_checked:
  assumes "bl_keydir L keydir_json = Inr kd"
  shows "verify_compiler_signature L A keydir_json = Inr True \<longleftrightarrow>
    (\<exists>entry. keydir_lookup kd (cs_key_id (art_compiler_signature (py_inner A))) = Some entry
       \<and> ed_point (bl_crypto L) (kd_public_key entry)
       \<and> ed_verify (bl_crypto L) (kd_public_key entry) (take (py_envelope_len A) (py_kew A))
           (cs_signature (art_compiler_signature (py_inner A))))"
  unfolding verify_compiler_signature_def parsed assms sum.case is_ok_unit verify_signature_ok
  by (cases "keydir_lookup kd (cs_key_id (art_compiler_signature (py_inner A)))") simp_all

lemma attestations_checked:
  assumes "bl_keydir L keydir_json = Inr kd" "bl_context L ctx_json = Inr ctx" "bl_policy L policy_json = Inr policy"
  shows "verify_attestations L A policy_json keydir_json ctx_json = Inr [] \<longleftrightarrow>
    verify_attestation_set (bl_crypto L) (bl_artifacts L) (py_inner A) policy kd ctx = Inr ()"
  unfolding verify_attestations_def parsed assms sum.case
  using rejections_not_empty[of "bl_crypto L" "bl_artifacts L" "py_inner A" policy kd ctx]
  by (cases "verify_attestation_set (bl_crypto L) (bl_artifacts L) (py_inner A) policy kd ctx") auto

section \<open>The previews against the service\<close>

lemma post_route:
  assumes "path = ''/compile/preview'' \<or> path = ''/dry-run''"
  shows "route S T B \<lparr>rq_method = Post, rq_url = path, rq_body = Inr body\<rparr> now s
    = (case (if path = ''/dry-run'' then dry_run S T B body now else compile_preview S body) s of
        (Inr bs, t) \<Rightarrow> (Reply 200 bs, t)
      | (Inl (Fail e), t) \<Rightarrow> (Reply (se_status e) (error_body S e), t)
      | (Inl Panic, t) \<Rightarrow> (ServerDown, t))"
  using assms by (auto simp: route_def dispatch_def split_path_query_def split_once_def with_body_def)

lemma lift_bind: "abind (lift r) k = (case r of Inl e \<Rightarrow> throw e | Inr x \<Rightarrow> k x)"
  by (cases r) (simp_all add: abind_def fun_eq_iff lift_def throw_def ret_def)

lemma printed:
  assumes "json_prints S"
  obtains bs where "sl_to_json S r = Inr bs"
  using assms unfolding json_prints_def by blast

lemma preview_route:
  assumes "json_prints S" "sl_preview_request S body = Inr source"
  shows "route S T B \<lparr>rq_method = Post, rq_url = ''/compile/preview'', rq_body = Inr body\<rparr> now s
    = (case compile_preview_impl S source of Inr bs \<Rightarrow> Reply 200 bs | Inl bs \<Rightarrow> Reply 422 bs, s)"
proof (cases "compile_rules (sl_yaml S) source")
  case (Inl e)
  then show ?thesis
    by (simp add: post_route compile_preview_def compile_source_def assms(2) lift_bind compile_preview_impl_def
        wasm_error_body_def unprocessable_def throw_def)
next
  case (Inr rules)
  obtain bs where "sl_to_json S (CompilePreviewResponse rules (project_report (verify_rules rules))) = Inr bs"
    using printed[OF assms(1)] .
  then show ?thesis
    by (simp add: post_route compile_preview_def compile_source_def assms(2) lift_bind compile_preview_impl_def Inr
        json_response_def lift_def abind_def)
qed

lemma run_route:
  assumes "json_prints S"
    and "sl_dry_run_request S body = Inr \<lparr>dq_source = Some source, dq_hash = None, dq_facts = facts\<rparr>"
    and "read_value facts_json = Inr facts"
  shows "route S T B \<lparr>rq_method = Post, rq_url = ''/dry-run'', rq_body = Inr body\<rparr> now s
    = (case dry_run_impl S read_value source facts_json of Inr bs \<Rightarrow> Reply 200 bs | Inl bs \<Rightarrow> Reply 422 bs, s)"
proof (cases "compile_rules (sl_yaml S) source")
  case (Inl e)
  then show ?thesis
    by (simp add: post_route dry_run_def compile_source_def assms(2) lift_bind dry_run_impl_def
        wasm_error_body_def unprocessable_def throw_def abind_def)
next
  case rules: (Inr rules)
  note unfolds = post_route dry_run_def compile_source_def assms(2,3) lift_bind dry_run_impl_def rules
  show ?thesis
  proof (cases "facts_from_json (sl_json_text S) facts")
    case (Inl e)
    then show ?thesis by (simp add: unfolds wasm_error_body_def unprocessable_def throw_def abind_def lift_def)
  next
    case (Inr fs)
    obtain bs where "sl_to_json S (DryRunResponse (map (\<lambda>rule. normalized_json (evaluate rule fs)) rules)) = Inr bs"
      using printed[OF assms(1)] .
    then show ?thesis by (simp add: unfolds Inr json_response_def abind_def lift_def)
  qed
qed

section \<open>Properties\<close>

text \<open>the two bindings answer alike: whenever the browser's \<open>verify_artifact\<close> returns a text, the
  inputs are readable, the text is the printed answer of the native verdict on them, and the Python
  call over the same inputs is \<open>json.loads\<close> of that very text; whenever it throws, so does Python.\<close>

theorem bindings_agree:
  "case wasm_verify L kew keydir_json ctx_json policy_json registry_json now of
     Inl _ \<Rightarrow> \<exists>e. verify_to_py L kew keydir_json ctx_json policy_json registry_json now = Inl e
   | Inr text \<Rightarrow> verify_to_py L kew keydir_json ctx_json policy_json registry_json now = bl_loads L text
       \<and> (\<exists>kd ctx policy ev provenance out. bl_keydir L keydir_json = Inr kd \<and> bl_context L ctx_json = Inr ctx
            \<and> bl_policy L policy_json = Inr policy \<and> bl_evidence L registry_json = Inr ev
            \<and> out = verify_artifact (bl_canon L) (bl_crypto L) (bl_artifacts L) kew kd ctx policy ev now
            \<and> rbind (bl_provenance L (out_provenance out)) (bl_value L) = Inr provenance
            \<and> text = bl_print L (answer_json L out provenance))"
proof -
  note unfolds = wasm_verify_def verify_to_py_def parsed Let_def mapped_error
  show ?thesis
  proof (cases "bl_keydir L keydir_json")
    case kd: (Inr kd)
    show ?thesis
    proof (cases "bl_context L ctx_json")
      case ctx: (Inr ctx)
      show ?thesis
      proof (cases "bl_policy L policy_json")
        case policy: (Inr policy)
        show ?thesis
        proof (cases "bl_evidence L registry_json")
          case ev: (Inr ev)
          let ?out = "verify_artifact (bl_canon L) (bl_crypto L) (bl_artifacts L) kew kd ctx policy ev now"
          show ?thesis
          proof (cases "bl_provenance L (out_provenance ?out)")
            case (Inr printed_text)
            then show ?thesis
              by (cases "bl_value L printed_text") (simp_all add: unfolds kd ctx policy ev)
          qed (simp add: unfolds kd ctx policy ev)
        qed (simp add: unfolds kd ctx policy)
      qed (simp add: unfolds kd ctx)
    qed (simp add: unfolds kd)
  qed (simp add: unfolds)
qed


definition sample_bindings ::
    "key_directory \<Rightarrow> policy_context \<Rightarrow> verification_policy \<Rightarrow> registry_evidence \<Rightarrow> string binding_lib" where
  "sample_bindings kd ctx policy ev =
     \<lparr>bl_canon = ascii_lib, bl_crypto = root_crypto, bl_artifacts = sample_codecs,
      bl_keydir = (\<lambda>_. Inr kd), bl_context = (\<lambda>_. Inr ctx), bl_policy = (\<lambda>_. Inr policy), bl_evidence = (\<lambda>_. Inr ev),
      bl_value = (\<lambda>_. Inr JNull), bl_print = (\<lambda>_. []), bl_provenance = (\<lambda>_. Inr []), bl_summary = (\<lambda>_. Inr []),
      bl_intent = (\<lambda>_. Inr []), bl_spans = (\<lambda>_. Inr []), bl_reason = (\<lambda>_. []), bl_rejection = (\<lambda>_. []),
      bl_artifact_error = (\<lambda>_. []), bl_loads = Inr\<rparr>"



definition sample_previews :: "yaml_lib \<Rightarrow> serve_lib" where
  "sample_previews Y =
     \<lparr>sl_verify_request = (\<lambda>_. Inl []), sl_preview_request = Inr,
      sl_dry_run_request = (\<lambda>body. Inr \<lparr>dq_source = Some body, dq_hash = None, dq_facts = JArray []\<rparr>),
      sl_to_json = (\<lambda>r. case r of CompilePreviewResponse rules _ \<Rightarrow> Inr [of_nat (length rules)]
        | ErrorResponse kind _ \<Rightarrow> Inr (text_bytes kind) | _ \<Rightarrow> Inr []),
      sl_json_text = (\<lambda>_. []), sl_yaml = Y\<rparr>"


end
