(* ===== verification/Python_Import.thy ===== *)
theory Python_Import
  imports Compiler Runtime_Value
begin

text \<open>
  The differential harness: the reader of the platform's rule dumps
  (\<open>src/crates/ke-compiler/src/python_import.rs\<close>) and the developer tool that compares them with
  compiled rules (\<open>src/crates/ke-compiler/src/bin/ke-compile.rs\<close>). An object is a list of entries
  with distinct keys; the text \<open>serde_json\<close> prints for a double is the parameter \<open>N\<close>.

  Shown: the tool exits with success exactly when both sides have the same rule ids with the same
  semantic forms, which then decide alike; a faithful dump of what was compiled is accepted.
\<close>

section \<open>Reading an object\<close>

datatype import_fault = ImportFailed compile_error | ImportPanic

definition refused :: "string \<Rightarrow> import_fault" where
  "refused message = ImportFailed (unlocated message)"

fun as_object :: "json \<Rightarrow> (string \<times> json) list option" where
  "as_object (JObject ob) = Some ob"
| "as_object _ = None"

fun as_array :: "json \<Rightarrow> json list option" where
  "as_array (JArray vs) = Some vs"
| "as_array _ = None"

fun as_str :: "json \<Rightarrow> string option" where
  "as_str (JString s) = Some s"
| "as_str _ = None"

definition opt_str :: "(string \<times> json) list \<Rightarrow> string \<Rightarrow> string option" where
  "opt_str ob key = Option.bind (map_of ob key) as_str"

definition req_str :: "(string \<times> json) list \<Rightarrow> string \<Rightarrow> import_fault + string" where
  "req_str ob key = ok_or (refused (''missing `'' @ key @ ''`'')) (opt_str ob key)"

text \<open>A key that is there and not null.\<close>

definition given :: "(string \<times> json) list \<Rightarrow> string \<Rightarrow> json option" where
  "given ob key = (case map_of ob key of Some JNull \<Rightarrow> None | r \<Rightarrow> r)"

definition strings_of :: "(string \<times> json) list \<Rightarrow> string \<Rightarrow> string list" where
  "strings_of ob key = option_or (map_option (List.map_filter as_str) (Option.bind (map_of ob key) as_array)) []"

section \<open>Conditions and groups\<close>

fun import_value :: "(f64 \<Rightarrow> string) \<Rightarrow> json \<Rightarrow> scalar_value" where
  "import_value N (JBool b) = ScalarBool b"
| "import_value N (JInt n) = option_or (parse_decimal (int_digits n)) (ScalarStr (int_digits n))"
| "import_value N (JFloat f) = option_or (parse_decimal (N f)) (ScalarStr (N f))"
| "import_value N (JString s) = ScalarStr s"
| "import_value N (JArray a) = ScalarList (map (import_value N) a)"
| "import_value N JNull = ScalarStr []"
| "import_value N (JObject _) = ScalarStr []"

text \<open>\<open>v.as_object().unwrap()\<close> panics on anything but an object.\<close>

definition import_condition :: "(f64 \<Rightarrow> string) \<Rightarrow> json \<Rightarrow> import_fault + condition" where
  "import_condition N v =
     rbind (ok_or ImportPanic (as_object v)) (\<lambda>ob.
     rbind (req_str ob ''field'') (\<lambda>field.
     let op_str = option_or (opt_str ob ''operator'') ''=='' in
     rbind (ok_or (refused (''unknown operator `'' @ op_str @ ''`'')) (operator_from_str op_str)) (\<lambda>opr.
       Inr \<lparr>cond_field = field, cond_operator = opr,
         cond_value = import_value N (option_or (map_of ob ''value'') JNull),
         cond_description = opt_str ob ''description''\<rparr>)))"

lemma entry_smaller: "map_of ob key = Some v \<Longrightarrow> size v < size_list (size_prod (\<lambda>_. 0) size) ob"
  by (induction ob) (auto split: if_splits)

lemma given_smaller: "given ob key = Some v \<Longrightarrow> size v < size_list (size_prod (\<lambda>_. 0) size) ob"
  by (rule entry_smaller) (auto simp: given_def split: option.splits json.splits)

lemma object_size: "as_object v = Some ob \<Longrightarrow> size v = Suc (size_list (size_prod (\<lambda>_. 0) size) ob)"
  by (cases v) auto

lemma array_member_smaller: "as_array v = Some vs \<Longrightarrow> w \<in> set vs \<Longrightarrow> size w < size v"
  by (cases v) (auto simp: less_Suc_eq_le intro: size_list_estimation')

function import_group :: "(f64 \<Rightarrow> string) \<Rightarrow> json \<Rightarrow> import_fault + condition_group"
  and import_item :: "(f64 \<Rightarrow> string) \<Rightarrow> json \<Rightarrow> import_fault + condition_or_group"
where
  "import_group N v =
     rbind (ok_or (refused ''condition group must be an object'') (as_object v)) (\<lambda>ob.
     case given ob ''all'' of
       Some a \<Rightarrow>
         rbind (ok_or (refused ''`all`/`any` must be an array'') (as_array a)) (\<lambda>items.
         rbind (mapR (import_item N) items) (\<lambda>is. Inr (ConditionGroupSpec (Some is) None)))
     | None \<Rightarrow> (case given ob ''any'' of
         Some a \<Rightarrow>
           rbind (ok_or (refused ''`all`/`any` must be an array'') (as_array a)) (\<lambda>items.
           rbind (mapR (import_item N) items) (\<lambda>is. Inr (ConditionGroupSpec None (Some is))))
       | None \<Rightarrow> Inr (ConditionGroupSpec None None)))"
| "import_item N v =
     rbind (ok_or (refused ''group item must be an object'') (as_object v)) (\<lambda>ob.
       if map_of ob ''field'' \<noteq> None then rmap CondItem (import_condition N v)
       else rmap GroupItem (import_group N v))"
  by pat_completeness auto

termination
  by (relation "measure (\<lambda>x. case x of Inl (N, v) \<Rightarrow> 2 * size v | Inr (N, v) \<Rightarrow> Suc (2 * size v))")
    (auto simp: ok_or_Inr object_size dest!: given_smaller array_member_smaller)

declare import_group.simps [simp del] import_item.simps [simp del]

section \<open>Decision trees\<close>

definition import_obligation :: "json \<Rightarrow> import_fault + obligation_spec" where
  "import_obligation v =
     rbind (ok_or (refused ''obligation must be an object'') (as_object v)) (\<lambda>ob.
     rbind (req_str ob ''id'') (\<lambda>i.
       Inr \<lparr>obl_id = i, obl_description = opt_str ob ''description'',
         obl_deadline = opt_str ob ''deadline'', obl_source_span = None\<rparr>))"

definition import_leaf :: "(string \<times> json) list \<Rightarrow> import_fault + decision_leaf" where
  "import_leaf ob =
     rbind (mapR import_obligation (option_or (Option.bind (map_of ob ''obligations'') as_array) [])) (\<lambda>obligations.
     rbind (req_str ob ''result'') (\<lambda>result.
       Inr \<lparr>leaf_result = result,
         leaf_obligations = (if obligations = [] then None else Some obligations),
         leaf_notes = opt_str ob ''notes'', leaf_source_span = None\<rparr>))"

definition missing_branch :: "string \<Rightarrow> import_fault" where
  "missing_branch which = refused (''decision node has no `'' @ which @ ''`'')"

function import_decision :: "(f64 \<Rightarrow> string) \<Rightarrow> json \<Rightarrow> import_fault + decision_entry" where
  "import_decision N v =
     rbind (ok_or (refused ''decision entry must be an object'') (as_object v)) (\<lambda>ob.
     if map_of ob ''result'' \<noteq> None then rmap LeafEntry (import_leaf ob)
     else
       rbind (ok_or (refused ''decision node has no condition'') (given ob ''condition'')) (\<lambda>c.
       rbind (import_condition N c) (\<lambda>condition.
       rbind (case given ob ''true_branch'' of
           Some b \<Rightarrow> import_decision N b | None \<Rightarrow> Inl (missing_branch ''true_branch'')) (\<lambda>t.
       rbind (case given ob ''false_branch'' of
           Some b \<Rightarrow> import_decision N b | None \<Rightarrow> Inl (missing_branch ''false_branch'')) (\<lambda>f.
         Inr (NodeEntry (DecisionNode (option_or (opt_str ob ''node_id'') ''unnamed'') condition t f None)))))))"
  by pat_completeness auto
termination
  by (relation "measure (\<lambda>(N, v). size v)") (auto simp: ok_or_Inr object_size dest!: given_smaller)

declare import_decision.simps [simp del]

section \<open>Rules\<close>

fun as_page :: "json \<Rightarrow> 32 word option" where
  "as_page (JInt n) = map_option of_int (as_u64 n)"
| "as_page _ = None"

definition import_source :: "json \<Rightarrow> import_fault + document_ref" where
  "import_source v =
     rbind (ok_or (refused ''source must be an object'') (as_object v)) (\<lambda>ob.
     rbind (req_str ob ''document_id'') (\<lambda>document_id.
       Inr \<lparr>doc_document_id = document_id, doc_article = opt_str ob ''article'',
         doc_section = opt_str ob ''section'', doc_paragraphs = strings_of ob ''paragraphs'',
         doc_pages = option_or (map_option (List.map_filter as_page) (Option.bind (map_of ob ''pages'') as_array)) [],
         doc_url = opt_str ob ''url''\<rparr>))"

text \<open>\<open>JurisdictionDate::new\<close> does not check the fields against each other.\<close>

definition import_date :: "string \<Rightarrow> import_fault + jurisdiction_date" where
  "import_date s =
     (let parts = split_on CHR ''-'' (trim s); bad = refused (''invalid ISO date `'' @ s @ ''`'') in
      rbind (ensure (length parts = 3) bad) (\<lambda>_.
      rbind (ok_or bad (parse_i16 (parts ! 0))) (\<lambda>y.
      rbind (ok_or bad (parse_u8 (parts ! 1))) (\<lambda>m.
      rbind (ok_or bad (parse_u8 (parts ! 2))) (\<lambda>d.
        Inr \<lparr>year = y, month = m, day = d\<rparr>)))))"

definition import_window :: "(string \<times> json) list \<Rightarrow> import_fault + effective_window option" where
  "import_window ob =
     opt_mapR (\<lambda>from.
       rbind (import_date from) (\<lambda>effective_from.
       rbind (opt_mapR import_date (opt_str ob ''effective_to'')) (\<lambda>effective_to.
         Inr \<lparr>effective_from = effective_from, effective_to = effective_to,
           jurisdiction_time_zone = None, effective_time_policy = None\<rparr>)))
     (opt_str ob ''effective_from'')"

definition import_rule :: "(f64 \<Rightarrow> string) \<Rightarrow> json \<Rightarrow> import_fault + rule_ir" where
  "import_rule N v =
     rbind (ok_or (refused ''python rule must be a JSON object'') (as_object v)) (\<lambda>ob.
     rbind (req_str ob ''rule_id'') (\<lambda>rule_id.
     rbind (ok_or (refused (''python rule `'' @ rule_id @ ''` has no decision_tree'')) (given ob ''decision_tree'')) (\<lambda>dt.
     rbind (import_decision N dt) (\<lambda>decision_tree.
     rbind (ok_or (refused (''python rule `'' @ rule_id @ ''` has no source'')) (given ob ''source'')) (\<lambda>s.
     rbind (import_source s) (\<lambda>source.
     let tags = strings_of ob ''tags'' in
     rbind (opt_mapR (import_group N) (given ob ''applies_if'')) (\<lambda>applies.
     rbind (import_window ob) (\<lambda>window.
       Inr \<lparr>rule_id = rule_id, rule_version = option_or (opt_str ob ''version'') ''1.0'',
         rule_description = opt_str ob ''description'',
         rule_tags = (if tags = [] then None else Some tags), applies_if = applies,
         decision_tree = decision_tree, rule_obligations = [], rule_source = source,
         interpretation_notes = opt_str ob ''interpretation_notes'',
         rule_effective_window = window, rule_provenance = ProvCandidate None\<rparr>))))))))"

fun import_rules :: "(f64 \<Rightarrow> string) \<Rightarrow> json \<Rightarrow> import_fault + rule_ir list" where
  "import_rules N (JArray items) = mapR (import_rule N) items"
| "import_rules N v = rmap (\<lambda>r. [r]) (import_rule N v)"

section \<open>A faithful dump\<close>

text \<open>\<open>Rule.model_dump(mode="json")\<close> as the import's documentation describes it: every key is there,
  null when the field is absent. \<open>F\<close> gives the double of a decimal that is not an integer of 64 bits.\<close>

definition text_or_null :: "string option \<Rightarrow> json" where
  "text_or_null x = (case x of None \<Rightarrow> JNull | Some s \<Rightarrow> JString s)"

definition small_int :: "int \<Rightarrow> int \<Rightarrow> bool" where
  "small_int m s = (s = 0 \<and> - (2 ^ 63) \<le> m \<and> m < 2 ^ 64)"

fun dump_value :: "(int \<Rightarrow> int \<Rightarrow> f64) \<Rightarrow> scalar_value \<Rightarrow> json" where
  "dump_value F (ScalarStr s) = JString s"
| "dump_value F (ScalarBool b) = JBool b"
| "dump_value F (ScalarDecimal m s) = (if small_int m s then JInt m else JFloat (F m s))"
| "dump_value F (ScalarList vs) = JArray (map (dump_value F) vs)"

definition dump_condition :: "(int \<Rightarrow> int \<Rightarrow> f64) \<Rightarrow> condition \<Rightarrow> json" where
  "dump_condition F c = JObject
     [(''field'', JString (cond_field c)), (''operator'', JString (op_token (cond_operator c))),
      (''value'', dump_value F (cond_value c)), (''description'', text_or_null (cond_description c))]"

fun dump_group :: "(int \<Rightarrow> int \<Rightarrow> f64) \<Rightarrow> condition_group \<Rightarrow> json"
  and dump_item :: "(int \<Rightarrow> int \<Rightarrow> f64) \<Rightarrow> condition_or_group \<Rightarrow> json"
where
  "dump_group F (ConditionGroupSpec as ns) = JObject
     [(''all'', case as of None \<Rightarrow> JNull | Some items \<Rightarrow> JArray (map (dump_item F) items)),
      (''any'', case ns of None \<Rightarrow> JNull | Some items \<Rightarrow> JArray (map (dump_item F) items))]"
| "dump_item F (CondItem c) = dump_condition F c"
| "dump_item F (GroupItem g) = dump_group F g"

definition dump_obligation :: "obligation_spec \<Rightarrow> json" where
  "dump_obligation ob = JObject
     [(''id'', JString (obl_id ob)), (''description'', text_or_null (obl_description ob)),
      (''deadline'', text_or_null (obl_deadline ob))]"

definition dump_leaf :: "decision_leaf \<Rightarrow> json" where
  "dump_leaf l = JObject
     [(''result'', JString (leaf_result l)),
      (''obligations'', JArray (map dump_obligation (option_or (leaf_obligations l) []))),
      (''notes'', text_or_null (leaf_notes l))]"

fun dump_tree :: "(int \<Rightarrow> int \<Rightarrow> f64) \<Rightarrow> decision_entry \<Rightarrow> json"
  and dump_node :: "(int \<Rightarrow> int \<Rightarrow> f64) \<Rightarrow> decision_node \<Rightarrow> json"
where
  "dump_tree F (LeafEntry l) = dump_leaf l"
| "dump_tree F (NodeEntry n) = dump_node F n"
| "dump_node F (DecisionNode i c t f sp) = JObject
     [(''node_id'', JString i), (''condition'', dump_condition F c),
      (''true_branch'', dump_tree F t), (''false_branch'', dump_tree F f)]"

definition dump_source :: "document_ref \<Rightarrow> json" where
  "dump_source d = JObject
     [(''document_id'', JString (doc_document_id d)), (''article'', text_or_null (doc_article d)),
      (''section'', text_or_null (doc_section d)),
      (''paragraphs'', JArray (map JString (doc_paragraphs d))),
      (''pages'', JArray (map (\<lambda>w. JInt (uint w)) (doc_pages d))), (''url'', text_or_null (doc_url d))]"

definition dump_rule :: "(int \<Rightarrow> int \<Rightarrow> f64) \<Rightarrow> rule_ir \<Rightarrow> json" where
  "dump_rule F r = JObject
     [(''rule_id'', JString (rule_id r)), (''version'', JString (rule_version r)),
      (''description'', text_or_null (rule_description r)),
      (''tags'', JArray (map JString (option_or (rule_tags r) []))),
      (''effective_from'', text_or_null (map_option (\<lambda>w. render_date (effective_from w)) (rule_effective_window r))),
      (''effective_to'', text_or_null (map_option render_date (Option.bind (rule_effective_window r) effective_to))),
      (''applies_if'', case applies_if r of None \<Rightarrow> JNull | Some g \<Rightarrow> dump_group F g),
      (''decision_tree'', dump_tree F (decision_tree r)), (''source'', dump_source (rule_source r)),
      (''interpretation_notes'', text_or_null (interpretation_notes r))]"

text \<open>Which rules such a dump carries faithfully: the double of a decimal that is dumped as one is
  printed as a literal of the same normal form (\<open>0.90\<close> comes back as \<open>0.9\<close>).\<close>

fun faithful_value :: "(f64 \<Rightarrow> string) \<Rightarrow> (int \<Rightarrow> int \<Rightarrow> f64) \<Rightarrow> scalar_value \<Rightarrow> bool" where
  "faithful_value N F (ScalarDecimal m s) \<longleftrightarrow> small_int m s
     \<or> map_option sem_value_of (parse_decimal (N (F m s))) = Some (sem_value_of (ScalarDecimal m s))"
| "faithful_value N F (ScalarList vs) \<longleftrightarrow> list_all (faithful_value N F) vs"
| "faithful_value N F _ \<longleftrightarrow> True"

fun faithful_group :: "(f64 \<Rightarrow> string) \<Rightarrow> (int \<Rightarrow> int \<Rightarrow> f64) \<Rightarrow> condition_group \<Rightarrow> bool"
  and faithful_item :: "(f64 \<Rightarrow> string) \<Rightarrow> (int \<Rightarrow> int \<Rightarrow> f64) \<Rightarrow> condition_or_group \<Rightarrow> bool"
where
  "faithful_group N F (ConditionGroupSpec as ns) \<longleftrightarrow>
     pred_option (list_all (faithful_item N F)) as \<and> pred_option (list_all (faithful_item N F)) ns"
| "faithful_item N F (CondItem c) \<longleftrightarrow> faithful_value N F (cond_value c)"
| "faithful_item N F (GroupItem g) \<longleftrightarrow> faithful_group N F g"

fun faithful_tree :: "(f64 \<Rightarrow> string) \<Rightarrow> (int \<Rightarrow> int \<Rightarrow> f64) \<Rightarrow> decision_entry \<Rightarrow> bool"
  and faithful_node :: "(f64 \<Rightarrow> string) \<Rightarrow> (int \<Rightarrow> int \<Rightarrow> f64) \<Rightarrow> decision_node \<Rightarrow> bool"
where
  "faithful_tree N F (LeafEntry l) \<longleftrightarrow> True"
| "faithful_tree N F (NodeEntry n) \<longleftrightarrow> faithful_node N F n"
| "faithful_node N F (DecisionNode i c t f sp) \<longleftrightarrow>
     faithful_value N F (cond_value c) \<and> faithful_tree N F t \<and> faithful_tree N F f"

definition faithful_rule :: "(f64 \<Rightarrow> string) \<Rightarrow> (int \<Rightarrow> int \<Rightarrow> f64) \<Rightarrow> rule_ir \<Rightarrow> bool" where
  "faithful_rule N F r \<longleftrightarrow> pred_option (faithful_group N F) (applies_if r) \<and> faithful_tree N F (decision_tree r)"

section \<open>Reading a dump back\<close>

lemma text_or_null_str [simp]: "as_str (text_or_null x) = x"
  by (cases x) (simp_all add: text_or_null_def)

lemma filter_strings [simp]: "List.map_filter as_str (map JString ss) = ss"
  by (induction ss) (simp_all add: List.map_filter_def)

lemma filter_pages [simp]: "List.map_filter as_page (map (\<lambda>w. JInt (uint w)) ws) = ws"
proof (induction ws)
  case (Cons w ws)
  have "uint w < 2 ^ 64" using uint_bounded[of w] by simp
  then show ?case using Cons by (simp add: List.map_filter_def as_u64_def)
qed (simp add: List.map_filter_def)

lemma import_of_int:
  assumes "plain_value (ScalarDecimal m 0)"
  shows "parse_decimal (int_digits m) = Some (ScalarDecimal m 0)"
proof -
  have "render_decimal m 0 = int_digits m"
    using nat_digits_nonempty[of "\<bar>m\<bar>"] by (cases "nat_digits \<bar>m\<bar>") (auto simp: render_decimal_def int_digits_def)
  then show ?thesis using parse_render_decimal[OF assms] by simp
qed

lemma mapR_roundtrip_id: "(\<And>x. x \<in> set xs \<Longrightarrow> f (g x) = Inr x) \<Longrightarrow> mapR f (map g xs) = Inr xs"
  by (induction xs) auto

lemma mapR_same_image:
  assumes "\<And>x. x \<in> set xs \<Longrightarrow> \<exists>y. f (g x) = Inr y \<and> h y = h x"
  shows "\<exists>ys. mapR f (map g xs) = Inr ys \<and> map h ys = map h xs"
  using assms
proof (induction xs)
  case (Cons x xs)
  then obtain y ys where "f (g x) = Inr y" "h y = h x" "mapR f (map g xs) = Inr ys" "map h ys = map h xs"
    by (meson list.set_intros)
  then show ?case by (intro exI[of _ "y # ys"]) simp
qed simp

lemma import_dump_value:
  "plain_value v \<Longrightarrow> faithful_value N F v \<Longrightarrow> sem_value_of (import_value N (dump_value F v)) = sem_value_of v"
proof (induction v)
  case (ScalarDecimal m s)
  show ?case
  proof (cases "small_int m s")
    case True
    then show ?thesis using ScalarDecimal(1) by (auto simp: small_int_def import_of_int option_or_def)
  qed (use ScalarDecimal(2) in \<open>auto simp: option_or_def\<close>)
next
  case (ScalarList vs)
  then have "map (\<lambda>x. sem_value_of (import_value N (dump_value F x))) vs = map sem_value_of vs"
    by (auto simp: list_all_iff)
  then show ?case by (simp add: comp_def del: map_eq_conv)
qed auto

lemma import_dump_condition:
  assumes "plain_value (cond_value c)" "faithful_value N F (cond_value c)"
  shows "\<exists>c'. import_condition N (dump_condition F c) = Inr c' \<and> sem_cond_of c' = sem_cond_of c"
  using import_dump_value[OF assms]
  by (simp add: import_condition_def dump_condition_def ok_or_def req_str_def opt_str_def option_or_def
      operator_of_token sem_cond_of_def)

lemma import_dump_group:
  "plain_group g \<Longrightarrow> faithful_group N F g
    \<Longrightarrow> \<exists>g'. import_group N (dump_group F g) = Inr g' \<and> sem_predicate_of g' = sem_predicate_of g"
  "plain_item i \<Longrightarrow> faithful_item N F i
    \<Longrightarrow> \<exists>i'. import_item N (dump_item F i) = Inr i' \<and> sem_item i' = sem_item i"
proof (induction g and i rule: plain_group_plain_item.induct)
  case (1 as ns)
  have items: "\<exists>is. mapR (import_item N) (map (dump_item F) items) = Inr is \<and> map sem_item is = map sem_item items"
    if "as = Some items \<or> as = None \<and> ns = Some items" for items
    using 1 that by (intro mapR_same_image) (auto simp: list_all_iff)
  show ?case
  proof (cases as)
    case (Some xs)
    with items[of xs] 1(3) show ?thesis
      by (subst import_group.simps) (auto simp: given_def ok_or_def)
  next
    case None
    with items[of "the ns"] 1(3) show ?thesis
      by (subst import_group.simps) (auto simp: given_def ok_or_def split: option.splits)
  qed
next
  case (2 c)
  then obtain c' where "import_condition N (dump_condition F c) = Inr c'" "sem_cond_of c' = sem_cond_of c"
    using import_dump_condition[of c N F] by auto
  then show ?case by (subst import_item.simps) (simp add: dump_condition_def ok_or_def)
next
  case (3 g)
  then obtain g' where "import_group N (dump_group F g) = Inr g'" "sem_predicate_of g' = sem_predicate_of g" by auto
  then show ?case by (cases g) (subst import_item.simps, simp add: ok_or_def)
qed

lemma dump_not_null [simp]: "dump_tree F t \<noteq> JNull" "dump_node F n \<noteq> JNull" "dump_group F g \<noteq> JNull"
proof -
  show "dump_tree F t \<noteq> JNull" "dump_node F n \<noteq> JNull"
    by (induction t and n rule: dump_tree_dump_node.induct) (simp_all add: dump_leaf_def)
  show "dump_group F g \<noteq> JNull" by (cases g) simp
qed

lemma given_Some: "map_of ob k = Some v \<Longrightarrow> v \<noteq> JNull \<Longrightarrow> given ob k = Some v"
  by (cases v) (auto simp: given_def)

lemma given_null: "map_of ob k = Some JNull \<Longrightarrow> given ob k = None"
  by (simp add: given_def)

lemma import_dump_obligation: "plain_obligation ob \<Longrightarrow> import_obligation (dump_obligation ob) = Inr ob"
  by (simp add: import_obligation_def dump_obligation_def ok_or_def req_str_def opt_str_def plain_obligation_def)

lemma import_dump_leaf:
  assumes "plain_leaf l"
  shows "import_decision N (dump_leaf l) = Inr (LeafEntry l)"
proof -
  have "mapR import_obligation (map dump_obligation (option_or (leaf_obligations l) []))
      = Inr (option_or (leaf_obligations l) [])"
    using assms by (intro mapR_roundtrip_id import_dump_obligation)
      (auto simp: plain_leaf_def option_or_def list_all_iff split: option.splits)
  then show ?thesis
    using assms by (subst import_decision.simps)
      (cases l, auto simp: dump_leaf_def import_leaf_def ok_or_def req_str_def opt_str_def option_or_def
        plain_leaf_def split: option.splits)
qed

lemma import_dump_tree:
  "plain_tree t \<Longrightarrow> faithful_tree N F t
    \<Longrightarrow> \<exists>t'. import_decision N (dump_tree F t) = Inr t' \<and> (\<forall>acc. collect_paths t' acc = collect_paths t acc)"
  "plain_node n \<Longrightarrow> faithful_node N F n
    \<Longrightarrow> \<exists>t'. import_decision N (dump_node F n) = Inr t' \<and> (\<forall>acc. collect_paths t' acc = collect_node_paths n acc)"
proof (induction t and n rule: plain_tree_plain_node.induct)
  case (3 i c t f sp)
  obtain c' where "import_condition N (dump_condition F c) = Inr c'" "sem_cond_of c' = sem_cond_of c"
    using 3(3,4) import_dump_condition[of c N F] by auto
  moreover obtain t' f' where "import_decision N (dump_tree F t) = Inr t'" "\<forall>acc. collect_paths t' acc = collect_paths t acc"
    "import_decision N (dump_tree F f) = Inr f'" "\<forall>acc. collect_paths f' acc = collect_paths f acc"
    using 3 by auto
  ultimately show ?case
    by (subst import_decision.simps)
      (simp add: ok_or_def opt_str_def option_or_def given_Some dump_condition_def)
qed (auto simp: import_dump_leaf)

lemma import_dump_source: "import_source (dump_source d) = Inr d"
  by (simp add: import_source_def dump_source_def ok_or_def req_str_def opt_str_def strings_of_def option_or_def)

lemma import_render_date: "plain_date d \<Longrightarrow> import_date (render_date d) = Inr d"
proof -
  assume "plain_date d"
  then have "parse_date (render_date d) default_span = Inr d" by (rule parse_render_date)
  then show ?thesis by (auto simp: parse_date_def import_date_def Let_def rbind_eq_Inr ok_or_Inr ensure_eq)
qed

lemma import_dump_window:
  assumes "case rule_effective_window r of None \<Rightarrow> True | Some w \<Rightarrow> plain_window w"
    and "opt_str ob ''effective_from'' = map_option (\<lambda>w. render_date (effective_from w)) (rule_effective_window r)"
    and "opt_str ob ''effective_to'' = map_option render_date (Option.bind (rule_effective_window r) effective_to)"
  shows "import_window ob = Inr (rule_effective_window r)"
proof (cases "rule_effective_window r")
  case (Some w)
  with assms show ?thesis
    by (cases "effective_to w"; cases w) (auto simp: import_window_def plain_window_def import_render_date)
qed (use assms in \<open>simp add: import_window_def\<close>)

lemma import_dump_rule:
  assumes "authorable r" "faithful_rule N F r"
  shows "\<exists>r'. import_rule N (dump_rule F r) = Inr r' \<and> from_rule r' = from_rule r"
proof -
  obtain ob where ob: "dump_rule F r = JObject ob" by (simp add: dump_rule_def)
  have entries: "req_str ob ''rule_id'' = Inr (rule_id r)" "opt_str ob ''version'' = Some (rule_version r)"
    "opt_str ob ''description'' = rule_description r" "strings_of ob ''tags'' = option_or (rule_tags r) []"
    "opt_str ob ''effective_from'' = map_option (\<lambda>w. render_date (effective_from w)) (rule_effective_window r)"
    "opt_str ob ''effective_to'' = map_option render_date (Option.bind (rule_effective_window r) effective_to)"
    "given ob ''decision_tree'' = Some (dump_tree F (decision_tree r))"
    "given ob ''source'' = Some (dump_source (rule_source r))"
    "given ob ''applies_if'' = map_option (dump_group F) (applies_if r)"
    using ob by (auto simp: dump_rule_def opt_str_def req_str_def ok_or_def strings_of_def option_or_def given_Some given_null
        dump_source_def split: option.splits)
  have facts: "plain_tree (decision_tree r)" "faithful_tree N F (decision_tree r)"
    "case rule_effective_window r of None \<Rightarrow> True | Some w \<Rightarrow> plain_window w"
    using assms by (auto simp: authorable_def faithful_rule_def)
  obtain ap where scope: "opt_mapR (import_group N) (map_option (dump_group F) (applies_if r)) = Inr ap"
    "map_option sem_predicate_of ap = map_option sem_predicate_of (applies_if r)"
    using assms import_dump_group(1)[of _ N F] by (cases "applies_if r") (fastforce simp: authorable_def faithful_rule_def)+
  obtain t where tree: "import_decision N (dump_tree F (decision_tree r)) = Inr t"
    "\<forall>acc. collect_paths t acc = collect_paths (decision_tree r) acc"
    using import_dump_tree(1)[OF facts(1,2)] by blast
  have tags: "option_or (rule_tags r) [] = (case rule_tags r of None \<Rightarrow> [] | Some ts \<Rightarrow> ts)"
    by (simp add: option_or_def)
  show ?thesis
    using import_dump_window[OF facts(3) entries(5,6)] tags
    by (simp add: import_rule_def ob entries scope(1) tree(1) import_dump_source ok_or_def Let_def
        from_rule_def scope(2) tree(2))
qed

lemma import_dump:
  assumes "list_all authorable rs" "list_all (faithful_rule N F) rs"
  shows "\<exists>rs'. import_rules N (JArray (map (dump_rule F) rs)) = Inr rs' \<and> map from_rule rs' = map from_rule rs"
  using assms import_dump_rule[of _ N F] by (auto simp: list_all_iff intro!: mapR_same_image)

section \<open>Where the import panics\<close>

lemma import_condition_panics: "import_condition N v = Inl ImportPanic \<longleftrightarrow> as_object v = None"
  by (auto simp: import_condition_def ok_or_def req_str_def refused_def Let_def rbind_eq_Inl split: option.splits)

text \<open>A node whose condition is there but is not an object takes the whole process down, where every
  other shape the import does not know is an error with a message.\<close>

lemma node_condition_panics:
  assumes "map_of ob ''result'' = None" "given ob ''condition'' = Some c" "as_object c = None"
  shows "import_decision N (JObject ob) = Inl ImportPanic"
  using assms import_condition_panics[of N c] by (subst import_decision.simps) (simp add: ok_or_def)

end
