(* ===== verification/Differential.thy ===== *)
theory Differential
  imports Python_Import
begin

text \<open>
  The developer tool \<open>ke-compile\<close> (\<open>src/crates/ke-compiler/src/bin/ke-compile.rs\<close>): compile a file,
  print what was compiled, or compare it with the platform's dump of the same rules. File reading,
  the two parsers and the printers are parameters; a run gives the exit code and the lines of the two
  output streams, an uncaught panic the exit code 101.
\<close>

section \<open>The tool\<close>

record harness_lib =
  hl_read :: "string \<Rightarrow> string + string"
  hl_yaml :: yaml_lib
  hl_json :: "string \<Rightarrow> string + json"
  hl_number :: "f64 \<Rightarrow> string"
  hl_error :: "compile_error \<Rightarrow> string"
  hl_forms :: "semantic_rule list \<Rightarrow> string"
  hl_debug :: debug_fmt

type_synonym tool_run = "nat \<times> string list \<times> string list"

definition fails_with :: "string list \<Rightarrow> tool_run" where
  "fails_with err = (1, [], err)"

definition usage :: tool_run where
  "usage = (64, [], [''usage:'', ''  ke-compile compile <file.yaml> [--emit semantic-json]'',
     ''  ke-compile diff <file.yaml> <python-rules.json>''])"

fun emits_semantic :: "string list \<Rightarrow> bool" where
  "emits_semantic (a # b # rest) \<longleftrightarrow> a = ''--emit'' \<and> b = ''semantic-json'' \<or> emits_semantic (b # rest)"
| "emits_semantic _ \<longleftrightarrow> False"

definition cmd_compile :: "harness_lib \<Rightarrow> string list \<Rightarrow> tool_run" where
  "cmd_compile L args =
     (case drop 2 args of
        [] \<Rightarrow> usage
      | path # _ \<Rightarrow>
          (case hl_read L path of
             Inl e \<Rightarrow> fails_with [''cannot read '' @ path @ '': '' @ e]
           | Inr source \<Rightarrow>
               if list_ex (\<lambda>a. a = ''semantic-json'') args \<or> emits_semantic args
               then (case compile_to_semantic (hl_yaml L) source of
                   Inr forms \<Rightarrow> (0, [hl_forms L forms], [])
                 | Inl e \<Rightarrow> fails_with [''compile error in '' @ path @ '': '' @ hl_error L e])
               else (case compile_rules (hl_yaml L) source of
                   Inr rules \<Rightarrow> (0, (''compiled '' @ nat_digits (int (length rules)) @ '' rule(s) from '' @ path @ '':'')
                       # map (\<lambda>r. ''  - '' @ rule_id r @ '' (v'' @ rule_version r @ '')'') rules, [])
                 | Inl e \<Rightarrow> fails_with [''compile error in '' @ path @ '': '' @ hl_error L e])))"

text \<open>\<open>collect\<close> into a \<open>BTreeMap\<close>: the keys in order, each with the last form that has it.\<close>

definition form_at :: "semantic_rule list \<Rightarrow> string \<Rightarrow> semantic_rule option" where
  "form_at forms = map_of (rev (map (\<lambda>f. (sem_rule_id f, f)) forms))"

definition index_keys :: "semantic_rule list \<Rightarrow> string list" where
  "index_keys forms = remdups_adj (sort (map sem_rule_id forms))"

definition only_in :: "string \<Rightarrow> string \<Rightarrow> semantic_rule list \<Rightarrow> semantic_rule list \<Rightarrow> string list list" where
  "only_in here there forms others =
     List.map_filter (\<lambda>i. if form_at others i = None
       then Some [''  - rule `'' @ i @ ''` present in '' @ here @ '' but not '' @ there] else None) (index_keys forms)"

definition diverging :: "debug_fmt \<Rightarrow> semantic_rule list \<Rightarrow> semantic_rule list \<Rightarrow> string list list" where
  "diverging F rust python =
     List.map_filter (\<lambda>i. case (form_at rust i, form_at python i) of
         (Some r, Some p) \<Rightarrow>
           if semantic_diff F r p = [] then None
           else Some ((''  - rule `'' @ i @ ''` diverges:'')
             # map (\<lambda>d. ''      '' @ diff_field d @ '': '' @ diff_detail d) (semantic_diff F r p))
       | _ \<Rightarrow> None) (index_keys rust)"

text \<open>The issues in the order they are found, each with the lines it prints.\<close>

definition issues :: "debug_fmt \<Rightarrow> semantic_rule list \<Rightarrow> semantic_rule list \<Rightarrow> string list list" where
  "issues F rust python =
     only_in ''Rust'' ''Python'' rust python @ only_in ''Python'' ''Rust'' python rust @ diverging F rust python"

definition diff_report :: "debug_fmt \<Rightarrow> string \<Rightarrow> semantic_rule list \<Rightarrow> semantic_rule list \<Rightarrow> tool_run" where
  "diff_report F yaml_path rust python =
     (let found = issues F rust python in
      if found = [] then (0, [''OK: '' @ nat_digits (int (length (index_keys rust)))
         @ '' rule(s) semantically equivalent ('' @ yaml_path @ '')''], [])
      else fails_with (concat found @
        [''DIVERGENCE: '' @ nat_digits (int (length found)) @ '' issue(s) in '' @ yaml_path]))"

definition cmd_diff :: "harness_lib \<Rightarrow> string list \<Rightarrow> tool_run" where
  "cmd_diff L args =
     (case drop 2 args of
        yaml_path # json_path # _ \<Rightarrow>
          (case hl_read L yaml_path of
             Inl e \<Rightarrow> fails_with [''cannot read '' @ yaml_path @ '': '' @ e]
           | Inr yaml \<Rightarrow>
          (case compile_rules (hl_yaml L) yaml of
             Inl e \<Rightarrow> fails_with [''rust compile error in '' @ yaml_path @ '': '' @ hl_error L e]
           | Inr rust \<Rightarrow>
          (case hl_read L json_path of
             Inl e \<Rightarrow> fails_with [''cannot read '' @ json_path @ '': '' @ e]
           | Inr json_text \<Rightarrow>
          (case hl_json L json_text of
             Inl e \<Rightarrow> fails_with [''invalid python JSON in '' @ json_path @ '': '' @ e]
           | Inr v \<Rightarrow>
          (case import_rules (hl_number L) v of
             Inl ImportPanic \<Rightarrow> (101, [], [])
           | Inl (ImportFailed e) \<Rightarrow> fails_with [''python import error in '' @ json_path @ '': '' @ hl_error L e]
           | Inr python \<Rightarrow> diff_report (hl_debug L) yaml_path (map from_rule rust) (map from_rule python))))))
      | _ \<Rightarrow> usage)"

definition ke_compile :: "harness_lib \<Rightarrow> string list \<Rightarrow> tool_run" where
  "ke_compile L args =
     (case drop 1 args of
        [] \<Rightarrow> usage
      | c # _ \<Rightarrow> if c = ''compile'' then cmd_compile L args else if c = ''diff'' then cmd_diff L args else usage)"

section \<open>When nothing is reported\<close>

lemma map_filter_empty: "List.map_filter f xs = [] \<longleftrightarrow> (\<forall>x\<in>set xs. f x = None)"
  by (induction xs) (auto simp: List.map_filter_def)

lemma form_at_key: "i \<in> set (index_keys forms) \<longleftrightarrow> form_at forms i \<noteq> None"
  by (simp add: index_keys_def form_at_def map_of_eq_None_iff image_image)

lemma only_in_empty:
  "only_in here there forms others = [] \<longleftrightarrow> (\<forall>i. form_at forms i \<noteq> None \<longrightarrow> form_at others i \<noteq> None)"
  unfolding only_in_def map_filter_empty Ball_def form_at_key by (auto simp del: not_None_eq)

lemma diverging_empty:
  "diverging F rust python = [] \<longleftrightarrow>
    (\<forall>i r p. form_at rust i = Some r \<longrightarrow> form_at python i = Some p \<longrightarrow> r = p)"
  unfolding diverging_def map_filter_empty Ball_def form_at_key semantic_diff_empty_iff
  by (force split: option.splits if_splits)

lemma no_issues: "issues F rust python = [] \<longleftrightarrow> form_at rust = form_at python"
  unfolding issues_def append_is_Nil_conv only_in_empty diverging_empty fun_eq_iff
proof (intro iffI allI; (elim conjE)?)
  fix i
  assume "\<forall>i. form_at rust i \<noteq> None \<longrightarrow> form_at python i \<noteq> None"
    "\<forall>i. form_at python i \<noteq> None \<longrightarrow> form_at rust i \<noteq> None"
    "\<forall>i r p. form_at rust i = Some r \<longrightarrow> form_at python i = Some p \<longrightarrow> r = p"
  then show "form_at rust i = form_at python i"
    by (cases "form_at rust i"; cases "form_at python i") (metis option.distinct(1) option.inject)+
qed simp_all

lemma report_code: "fst (diff_report F path rust python) = 0 \<longleftrightarrow> form_at rust = form_at python"
  by (simp add: diff_report_def Let_def no_issues fails_with_def)

section \<open>What success means\<close>

definition rule_at :: "rule_ir list \<Rightarrow> string \<Rightarrow> rule_ir option" where
  "rule_at rules = map_of (rev (map (\<lambda>r. (rule_id r, r)) rules))"

lemma form_at_rules: "form_at (map from_rule rules) i = map_option from_rule (rule_at rules i)"
proof -
  have "rev (map (\<lambda>f. (sem_rule_id f, f)) (map from_rule rules))
      = map (\<lambda>(k, r). (k, from_rule r)) (rev (map (\<lambda>r. (rule_id r, r)) rules))"
    by (simp add: rev_map comp_def from_rule_def)
  then show ?thesis by (simp only: form_at_def rule_at_def map_of_map) simp
qed

lemma same_decisions:
  assumes "map_option from_rule x = map_option from_rule y"
  shows "map_option (rule_decides val) x = map_option (rule_decides val) y"
proof -
  have same: "rule_decides val r = rule_decides val p" if "from_rule r = from_rule p" for r p
    unfolding from_rule_decides that ..
  show ?thesis using assms by (cases x; cases y) (auto intro: same)
qed

text \<open>What the two files hold.\<close>

definition compiled_from :: "harness_lib \<Rightarrow> string \<Rightarrow> rule_ir list \<Rightarrow> bool" where
  "compiled_from L path rules \<longleftrightarrow> rbind (map_err (\<lambda>_. ()) (hl_read L path))
     (\<lambda>source. map_err (\<lambda>_. ()) (compile_rules (hl_yaml L) source)) = Inr rules"

definition dumped_in :: "harness_lib \<Rightarrow> string \<Rightarrow> json \<Rightarrow> bool" where
  "dumped_in L path v \<longleftrightarrow> rbind (hl_read L path) (hl_json L) = Inr v"

lemma diff_code:
  "fst (ke_compile L [prog, ''diff'', yaml_path, json_path]) = 0 \<longleftrightarrow>
    (\<exists>rust v python. compiled_from L yaml_path rust \<and> dumped_in L json_path v
       \<and> import_rules (hl_number L) v = Inr python
       \<and> form_at (map from_rule rust) = form_at (map from_rule python))"
  by (auto simp: ke_compile_def cmd_diff_def compiled_from_def dumped_in_def fails_with_def report_code rbind_eq_Inr
      map_err_eq_Inr split: sum.splits import_fault.splits)

lemma compile_rules_authorable:
  assumes "compile_rules Y source = Inr rules"
  shows "list_all authorable rules"
proof -
  obtain root where "compile_node Y root = Inr rules"
    using assms by (auto simp: compile_rules_def parse_rules_def compile_node_def rbind_eq_Inr)
  then show ?thesis by (rule compile_node_authorable)
qed

lemma compiled_from_authorable: "compiled_from L path rules \<Longrightarrow> list_all authorable rules"
  by (auto simp: compiled_from_def rbind_eq_Inr map_err_eq_Inr intro: compile_rules_authorable)

lemma dump_accepted:
  assumes "compiled_from L yaml_path rules" "list_all (faithful_rule (hl_number L) F) rules"
    and "dumped_in L json_path (JArray (map (dump_rule F) rules))"
  shows "fst (ke_compile L [prog, ''diff'', yaml_path, json_path]) = 0"
proof -
  obtain python where "import_rules (hl_number L) (JArray (map (dump_rule F) rules)) = Inr python"
    "map from_rule python = map from_rule rules"
    using import_dump[OF compiled_from_authorable[OF assms(1)] assms(2)] by blast
  then show ?thesis unfolding diff_code using assms(1,3) by metis
qed

section \<open>A concrete comparison\<close>

abbreviation one_rule :: rule_ir where
  "one_rule \<equiv> sample_rule_with [''b'', ''a''] 90 2"

definition one_rule_yaml :: yaml_lib where
  "one_rule_yaml = sample_yaml\<lparr>parse_yaml := \<lambda>_. Inr (render_document [one_rule])\<rparr>"

lemma one_rule_compiles: "compile_rules one_rule_yaml source = Inr [one_rule]"
proof -
  have "yaml_bools one_rule_yaml" using sample_yaml_bools by (simp add: yaml_bools_def one_rule_yaml_def)
  moreover have "list_all authorable [one_rule]" by code_simp
  ultimately have "compile_node one_rule_yaml (render_document [one_rule]) = Inr [one_rule]"
    by (rule compile_render_document)
  then show ?thesis
    by (simp add: compile_rules_def parse_rules_def parse_root_def compile_node_def Let_def one_rule_yaml_def results)
qed

definition sample_harness :: "json \<Rightarrow> harness_lib" where
  "sample_harness v =
     \<lparr>hl_read = Inr, hl_yaml = one_rule_yaml, hl_json = (\<lambda>_. Inr v), hl_number = (\<lambda>_. ''0.9''),
      hl_error = (\<lambda>_. []), hl_forms = (\<lambda>_. []),
      hl_debug = \<lparr>fmt_string = id, fmt_window = (\<lambda>_. []), fmt_strings = concat, fmt_usize = (\<lambda>_. [])\<rparr>\<rparr>"

lemma sample_harness_compiles: "compiled_from (sample_harness v) path [one_rule]"
  by (simp add: compiled_from_def sample_harness_def one_rule_compiles)

lemma sample_faithful: "faithful_rule (\<lambda>_. ''0.9'') (\<lambda>_ _. f64_one) one_rule"
proof -
  have "parse_decimal ''0.9'' = Some (ScalarDecimal 9 1)"
    using parse_decimal_literal[of "''0''" "''9''" False]
    by (simp add: is_digit_def digits_value_def digit_value_def)
  moreover have "sem_value_of (ScalarDecimal 9 1) = sem_value_of (ScalarDecimal 90 2)" by code_simp
  ultimately show ?thesis by (simp add: faithful_rule_def sample_rule_with_def del: sem_value_of.simps)
qed

abbreviation sample_dump :: json where
  "sample_dump \<equiv> JArray (map (dump_rule (\<lambda>_ _. f64_one)) [one_rule])"

lemma sample_dumped:
  "list_all (faithful_rule (hl_number (sample_harness v)) (\<lambda>_ _. f64_one)) [one_rule]"
  "dumped_in (sample_harness v) path v"
  using sample_faithful by (simp_all add: sample_harness_def dumped_in_def)

section \<open>Properties\<close>

text \<open>C30: success of the differential harness means equivalence: both files are read, and under every
  rule id the last rule of the compiled file and the last rule of the dump are both there or both
  missing and, under every truth assignment of the normalised conditions, decide alike.\<close>

theorem differential_success:
  assumes "fst (ke_compile L [prog, ''diff'', yaml_path, json_path]) = 0"
  shows "\<exists>rust v python. compiled_from L yaml_path rust \<and> dumped_in L json_path v
    \<and> import_rules (hl_number L) v = Inr python
    \<and> (\<forall>i val. map_option (rule_decides val) (rule_at rust i) = map_option (rule_decides val) (rule_at python i))"
proof -
  obtain rust v python where r: "compiled_from L yaml_path rust" "dumped_in L json_path v"
    "import_rules (hl_number L) v = Inr python" "form_at (map from_rule rust) = form_at (map from_rule python)"
    using assms unfolding diff_code by blast
  have "map_option from_rule (rule_at rust i) = map_option from_rule (rule_at python i)" for i
    using r(4) by (simp add: fun_eq_iff form_at_rules)
  then have "map_option (rule_decides val) (rule_at rust i) = map_option (rule_decides val) (rule_at python i)" for i val
    by (rule same_decisions)
  then show ?thesis using r(1-3) by blast
qed



lemma differential_success_witness:
  "\<exists>python. import_rules (\<lambda>_. ''0.9'') sample_dump = Inr python
     \<and> (\<forall>val. map_option (rule_decides val) (rule_at [one_rule] ''r1'')
          = map_option (rule_decides val) (rule_at python ''r1''))"
proof -
  let ?L = "sample_harness sample_dump"
  have "fst (ke_compile ?L [''ke-compile'', ''diff'', ''rules.yaml'', ''rules.json'']) = 0"
    by (rule dump_accepted[OF sample_harness_compiles sample_dumped])
  then obtain rust v python where r: "compiled_from ?L ''rules.yaml'' rust" "dumped_in ?L ''rules.json'' v"
    "import_rules (hl_number ?L) v = Inr python"
    "\<forall>i val. map_option (rule_decides val) (rule_at rust i) = map_option (rule_decides val) (rule_at python i)"
    using differential_success by blast
  have "rust = [one_rule]" "v = sample_dump" "hl_number ?L = (\<lambda>_. ''0.9'')"
    using r(1,2) sample_harness_compiles[of sample_dump "''rules.yaml''"] sample_dumped(2)[of sample_dump "''rules.json''"]
    by (simp_all add: compiled_from_def dumped_in_def) (simp add: sample_harness_def)
  then show ?thesis using r(3,4) by auto
qed

end
