(* ===== verification/Dev_Tools.thy ===== *)
theory Dev_Tools
  imports Scenario Differential
begin

text \<open>
  The two developer tools of the runtime (\<open>src/crates/ke-runtime/src/bin\<close>): \<open>gen-scenarios\<close> writes
  the generated scenarios of every rule file with the executor's result, \<open>ke-eval\<close> evaluates one rule
  file on one fact file. File reading, the parsers, serde's text of an object and the file name of a path are
  parameters; a run is the exit code and the JSON values it prints. Shown: evaluating the file a
  scenario came from on its facts gives back the result in its line.
\<close>

section \<open>The tools\<close>

record dev_lib =
  dv_read :: "string \<Rightarrow> string + string"
  dv_yaml :: yaml_lib
  dv_json :: "string \<Rightarrow> string + json"
  dv_json_text :: "json \<Rightarrow> string"
  dv_file_name :: "string \<Rightarrow> string option"

definition parse_u64 :: "string \<Rightarrow> int option" where
  "parse_u64 = parse_int False 0 (2 ^ 64 - 1)"

type_synonym gen_options = "64 word \<times> nat \<times> string list"

definition default_options :: gen_options where
  "default_options = (0x5EED1234ABCD0001, 25, [])"

fun gen_args :: "string list \<Rightarrow> gen_options \<Rightarrow> gen_options option" where
  "gen_args [] opts = Some opts"
| "gen_args [a] (seed, fuzz, files) =
     (if a = ''--seed'' \<or> a = ''--fuzz'' then None else Some (seed, fuzz, files @ [a]))"
| "gen_args (a # b # rest) (seed, fuzz, files) =
     (if a = ''--seed'' then
        (case parse_u64 b of None \<Rightarrow> None | Some n \<Rightarrow> gen_args rest (of_int n, fuzz, files))
      else if a = ''--fuzz'' then
        (case parse_u64 b of None \<Rightarrow> None | Some n \<Rightarrow> gen_args rest (seed, nat n, files))
      else gen_args (b # rest) (seed, fuzz, files @ [a]))"

definition scenario_line :: "dev_lib \<Rightarrow> rule_ir \<Rightarrow> scenario \<Rightarrow> json" where
  "scenario_line L rule sc =
     JObject [(''rule_id'', JString (sc_rule_id sc)), (''label'', JString (sc_label sc)),
       (''facts'', sc_facts sc),
       (''rust'', normalized_json (evaluate rule (facts_map (dv_json_text L) sc)))]"

definition rules_of_file :: "dev_lib \<Rightarrow> string \<Rightarrow> unit + rule_ir list" where
  "rules_of_file L path =
     rbind (map_err (\<lambda>_. ()) (dv_read L path)) (\<lambda>source. map_err (\<lambda>_. ()) (compile_rules (dv_yaml L) source))"

definition file_lines :: "dev_lib \<Rightarrow> 64 word \<Rightarrow> nat \<Rightarrow> string \<Rightarrow> unit + json list" where
  "file_lines L seed fuzz path =
     (if dv_file_name L path = Some ''schema.yaml'' then Inr []
      else rmap (\<lambda>rules. concat (map (\<lambda>rule. map (scenario_line L rule) (generate_for_rule rule seed fuzz)) rules))
        (rules_of_file L path))"

text \<open>What was printed before a file fails stays printed.\<close>

fun gen_files :: "dev_lib \<Rightarrow> 64 word \<Rightarrow> nat \<Rightarrow> string list \<Rightarrow> nat \<times> json list" where
  "gen_files L seed fuzz [] = (0, [])"
| "gen_files L seed fuzz (path # paths) =
     (case file_lines L seed fuzz path of
        Inl _ \<Rightarrow> (1, [])
      | Inr lines \<Rightarrow> (case gen_files L seed fuzz paths of (code, rest) \<Rightarrow> (code, lines @ rest)))"

definition gen_scenarios :: "dev_lib \<Rightarrow> string list \<Rightarrow> nat \<times> json list" where
  "gen_scenarios L args =
     (case gen_args (drop 1 args) default_options of
        None \<Rightarrow> (1, [])
      | Some (seed, fuzz, files) \<Rightarrow> if files = [] then (1, []) else gen_files L seed fuzz files)"

definition eval_object :: "evaluation \<Rightarrow> json" where
  "eval_object ev =
     (case normalized_json ev of
        JObject ob \<Rightarrow> JObject (object_insert ''rule_id'' (JString (ev_rule_id ev)) ob)
      | v \<Rightarrow> v)"

definition ke_eval :: "dev_lib \<Rightarrow> string list \<Rightarrow> nat \<times> json list" where
  "ke_eval L args =
     (case drop 1 args of
        [rule_path, facts_path] \<Rightarrow>
          (case dv_read L rule_path of Inl _ \<Rightarrow> (1, [])
           | Inr yaml \<Rightarrow>
          (case dv_read L facts_path of Inl _ \<Rightarrow> (1, [])
           | Inr facts_src \<Rightarrow>
          (case compile_rules (dv_yaml L) yaml of Inl _ \<Rightarrow> (1, [])
           | Inr rules \<Rightarrow>
          (case dv_json L facts_src of Inl _ \<Rightarrow> (1, [])
           | Inr facts_json \<Rightarrow>
          (case facts_from_json (dv_json_text L) facts_json of Inl _ \<Rightarrow> (1, [])
           | Inr facts \<Rightarrow> (0, [JArray (map (\<lambda>r. eval_object (evaluate r facts)) rules)]))))))
      | _ \<Rightarrow> (1, []))"

section \<open>Every line can be replayed\<close>

lemma generated_object:
  assumes "sc \<in> set (generate_for_rule r seed n)"
  obtains ob where "sc_facts sc = JObject ob"
proof -
  have "free_of_numbers {} (cat_conditions (catalog_from_rule r))" by (simp add: free_of_numbers_def)
  from generated_clean[OF this, of seed n] assms that show thesis
    by (auto simp: list_all_iff clean_facts_def build_facts_def)
qed

lemma evaluated_rule_id [simp]: "ev_rule_id (evaluate r facts) = rule_id r"
  by (simp add: evaluate_def Let_def split: prod.split)

lemma object_insert_new: "k \<notin> fst ` set ob \<Longrightarrow> object_insert k v ob = ob @ [(k, v)]"
  by (induction k v ob rule: object_insert.induct) auto

lemma fuzz_rule_id: "sc \<in> set (fuzz_scenarios rid cat n k st) \<Longrightarrow> sc_rule_id sc = rid"
  by (induction rid cat n k st rule: fuzz_scenarios.induct) (auto simp: Let_def split: prod.splits)

lemma generated_rule_id:
  assumes "sc \<in> set (generate_for_rule r seed n)"
  shows "sc_rule_id sc = rule_id r"
proof -
  have "sc_rule_id sc = i" if "sc \<in> set (boundary_scenarios i xs ys c)" for i xs ys c
    using that by (auto simp: boundary_scenarios_def split: if_splits)
  moreover have "sc_rule_id sc = i" if "sc \<in> set (anchor_scenarios i cat xs ys)" for i cat xs ys
    using that by (auto simp: anchor_scenarios_def split: list.splits)
  moreover have "sc_rule_id sc = rule_id r" if "sc \<in> set (path_scenarios r)"
    using that by (auto simp: path_scenarios_def)
  ultimately show ?thesis
    using assms unfolding generate_for_rule_def Let_def by (auto dest: fuzz_rule_id split: if_splits)
qed

lemma printed_line:
  "line \<in> set (snd (gen_files L seed fuzz files)) \<Longrightarrow>
    \<exists>path rules rule sc. rules_of_file L path = Inr rules \<and> rule \<in> set rules
      \<and> sc \<in> set (generate_for_rule rule seed fuzz) \<and> line = scenario_line L rule sc"
proof (induction files)
  case (Cons path files)
  obtain code rest where rest: "gen_files L seed fuzz files = (code, rest)" by fastforce
  obtain lines where lines: "file_lines L seed fuzz path = Inr lines" "line \<in> set lines \<or> line \<in> set rest"
    using Cons.prems by (auto simp: rest split: sum.splits)
  from lines(2) show ?case
  proof
    assume "line \<in> set lines"
    then obtain rules rule sc where "rules_of_file L path = Inr rules" "rule \<in> set rules"
      "sc \<in> set (generate_for_rule rule seed fuzz)" "line = scenario_line L rule sc"
      using lines(1) by (auto simp: file_lines_def rmap_eq_Inr split: if_splits)
    then show ?case by blast
  qed (use Cons.IH in \<open>simp add: rest\<close>)
qed simp

section \<open>Properties\<close>

text \<open>C34: every line \<open>gen-scenarios\<close> prints can be replayed: it comes from one rule of one of the files,
  and \<open>ke-eval\<close> on that file and any file that holds the line's facts prints, for that rule, the
  line's \<open>rust\<close> object with the rule's id added.\<close>

theorem scenario_line_replays:
  assumes "line \<in> set (snd (gen_scenarios L args))"
  shows "\<exists>path rules rule label facts rust. rules_of_file L path = Inr rules \<and> rule \<in> set rules
    \<and> line = JObject [(''rule_id'', JString (rule_id rule)), (''label'', JString label), (''facts'', facts),
        (''rust'', JObject rust)]
    \<and> (\<forall>facts_path. rbind (dv_read L facts_path) (dv_json L) = Inr facts \<longrightarrow>
        (\<exists>out. ke_eval L [prog, path, facts_path] = (0, [JArray out])
           \<and> JObject (rust @ [(''rule_id'', JString (rule_id rule))]) \<in> set out))"
proof -
  obtain seed fuzz files where "line \<in> set (snd (gen_files L seed fuzz files))"
    using assms by (auto simp: gen_scenarios_def split: option.splits if_splits)
  then obtain path rules rule sc where r: "rules_of_file L path = Inr rules" "rule \<in> set rules"
    "sc \<in> set (generate_for_rule rule seed fuzz)" "line = scenario_line L rule sc"
    using printed_line by blast
  obtain ob where ob: "sc_facts sc = JObject ob" by (rule generated_object[OF r(3)])
  obtain facts where facts: "facts_from_json (dv_json_text L) (sc_facts sc) = Inr facts"
    "facts_map (dv_json_text L) sc = facts"
    by (simp add: ob facts_map_def)
  obtain rust where rust: "normalized_json (evaluate rule facts) = JObject rust" "''rule_id'' \<notin> fst ` set rust"
    by (simp add: normalized_json_def)
  obtain source where source: "dv_read L path = Inr source" "compile_rules (dv_yaml L) source = Inr rules"
    using r(1) by (auto simp: rules_of_file_def rbind_eq_Inr map_err_eq_Inr)
  have "JObject (rust @ [(''rule_id'', JString (rule_id rule))]) = eval_object (evaluate rule facts)"
    by (simp add: eval_object_def rust object_insert_new)
  then have "\<exists>out. ke_eval L [prog, path, facts_path] = (0, [JArray out])
      \<and> JObject (rust @ [(''rule_id'', JString (rule_id rule))]) \<in> set out"
    if "rbind (dv_read L facts_path) (dv_json L) = Inr (sc_facts sc)" for facts_path
    using that r(2) by (auto simp: ke_eval_def source facts(1) rbind_eq_Inr image_iff intro!: bexI)
  moreover have "line = JObject [(''rule_id'', JString (rule_id rule)), (''label'', JString (sc_label sc)),
      (''facts'', sc_facts sc), (''rust'', JObject rust)]"
    by (simp add: r(4) scenario_line_def facts(2) rust(1) generated_rule_id[OF r(3)])
  ultimately show ?thesis using r(1,2) by blast
qed

definition sample_dev :: "json \<Rightarrow> dev_lib" where
  "sample_dev facts = \<lparr>dv_read = Inr, dv_yaml = one_rule_yaml, dv_json = (\<lambda>_. Inr facts), dv_json_text = (\<lambda>_. []),
     dv_file_name = Some\<rparr>"

lemma scenario_line_replays_witness:
  "\<exists>facts rust out. ke_eval (sample_dev facts) [''ke-eval'', ''rules.yaml'', ''facts.json''] = (0, [JArray out])
     \<and> JObject (rust @ [(''rule_id'', JString ''r1'')]) \<in> set out"
proof -
  obtain sc where sc: "sc \<in> set (generate_for_rule one_rule 0x5EED1234ABCD0001 25)"
    unfolding generate_for_rule_def Let_def by (fastforce)
  let ?L = "sample_dev (sc_facts sc)" and ?args = "[''gen-scenarios'', ''rules.yaml'']"
  have "gen_args [''rules.yaml''] default_options = Some (0x5EED1234ABCD0001, 25, [''rules.yaml''])"
    by (simp add: default_options_def)
  moreover have one: "rules_of_file ?L path = Inr [one_rule]" for path
    by (simp add: rules_of_file_def sample_dev_def one_rule_compiles)
  ultimately have "scenario_line ?L one_rule sc \<in> set (snd (gen_scenarios ?L ?args))"
    using sc by (simp add: gen_scenarios_def file_lines_def) (simp add: sample_dev_def)
  from scenario_line_replays[OF this, of "''ke-eval''"] obtain path label facts rust where r:
    "scenario_line ?L one_rule sc = JObject [(''rule_id'', JString (rule_id one_rule)), (''label'', JString label),
       (''facts'', facts), (''rust'', JObject rust)]"
    "rbind (dv_read ?L fp) (dv_json ?L) = Inr facts \<Longrightarrow> \<exists>out. ke_eval ?L [''ke-eval'', path, fp] = (0, [JArray out])
       \<and> JObject (rust @ [(''rule_id'', JString (rule_id one_rule))]) \<in> set out" for fp
    unfolding one by auto
  have "facts = sc_facts sc" using r(1) by (simp add: scenario_line_def)
  then obtain out where out: "ke_eval ?L [''ke-eval'', path, ''facts.json''] = (0, [JArray out])"
    "JObject (rust @ [(''rule_id'', JString (rule_id one_rule))]) \<in> set out"
    using r(2)[of "''facts.json''"] by (auto simp: sample_dev_def)
  have "ke_eval ?L [''ke-eval'', ''rules.yaml'', ''facts.json''] = ke_eval ?L [''ke-eval'', path, ''facts.json'']"
    by (simp add: ke_eval_def sample_dev_def one_rule_compiles)
  then show ?thesis using out by (auto simp: sample_rule_with_def)
qed

end
