(* ===== verification/Spec2Isabelle.thy ===== *)
theory Spec2Isabelle
  imports Canonical Semantic Exec Registry Compiler Structural Graph_Export Serve Authoring
    Offline Scenario Cli Bindings Dev_Tools
begin

text \<open>
  A verification development for the regulatory rule workbench: Rust crates that turn legal
  rules written in YAML into signed, content-addressed artifacts and evaluate them.

  \<^bold>\<open>The program and its model.\<close> The theories follow the crates, bottom up.

  \<^item> \<open>Prelude\<close>: results as sums (\<open>rbind\<close>, \<open>map_err\<close>, \<open>check_all\<close>, \<open>mapR\<close>), \<open>i128\<close> helpers, the
    record of a serialisation codec and its law. \<open>Wire\<close>: digests as bytes, hexadecimal,
    composition of codecs, the interface of BLAKE3 and ed25519.
  \<^item> \<open>IR\<close> (\<open>ke-core/src/ir\<close>, \<open>manifest.rs\<close>, \<open>version.rs\<close>): the rule IR, IntentSpec, manifest
    and policy types, struct for record and enum for datatype.
  \<^item> \<open>Canonical_Ordering\<close>, \<open>Canonical\<close> (\<open>ke-core/src/canonical\<close>): decimal and set normal forms,
    the normalising walkers of \<open>encode.rs\<close>, the checking walkers of \<open>decode.rs\<close> and the entry
    points. Shown: normalisation yields exactly what strict decoding accepts, it is
    idempotent, encoding round-trips and identifies exactly the rules with one normal form.
  \<^item> \<open>Derived_Ord\<close>, \<open>Semantic\<close> (\<open>ke-core/src/semantic\<close>): the semantic form with the orderings
    Rust derives (as \<open>linorder\<close> instances) and the diff. Shown: the diff is empty iff the
    forms are equal, and equal forms decide alike.
  \<^item> \<open>Decimal_Text\<close>, \<open>F64\<close>, \<open>Runtime_Value\<close>, \<open>Compare\<close>, \<open>Exec\<close> (\<open>ke-runtime/src\<close>): facts, CPython
    text forms, IEEE doubles (rounding to nearest even, comparison, parsing, printing), the
    nine operators, applicability, the tree walk with its trace, effective dates.
  \<^item> \<open>Rounding\<close>: every decimal operand becomes a finite double within a relative error of
    \<open>2 powi -53\<close>, so decimals of one scale are compared exactly. \<open>Scenario\<close>
    (\<open>ke-runtime/src/scenario.rs\<close>): the seeded scenario generator. Shown: every leaf whose path
    it can drive is reached by a scenario, and when its membership fields never hold numbers.
  \<^item> \<open>Rust_Text\<close>, \<open>Yaml_Ast\<close>, \<open>Yaml_Parser\<close>, \<open>Lowering\<close>, \<open>Compiler\<close> (\<open>ke-compiler/src\<close>: \<open>ast\<close>,
    \<open>error.rs\<close>, \<open>value.rs\<close>, \<open>parser.rs\<close>, \<open>lower.rs\<close>, \<open>lib.rs\<close>): text operations, the spanned AST,
    the parser over a YAML node tree, lowering. Shown: the rules compilation can produce are
    exactly the authorable ones, each of which has a document, and decimal literals are exact.
  \<^item> \<open>Structural\<close> (\<open>ke-compiler/src/verify\<close>): the tiers T0, T1, T4 and T5. Shown: what blocks, that a
    contradiction is reported iff some truth assignment separates the rules, that windows
    overlap iff the runtime has a common effective date, and that two rules with text scopes
    over a common field which both apply at run time are always reported.
  \<^item> \<open>Artifact_Types\<close>, \<open>Sample_Codecs\<close>, \<open>Artifact\<close> (\<open>ke-artifact/src\<close>: \<open>artifact.rs\<close>, \<open>hash.rs\<close>,
    \<open>sign.rs\<close>, \<open>consistency.rs\<close>): assembly, content addressing, signing, strict decoding,
    appending attestations.
  \<^item> \<open>Attestation\<close> (\<open>tsa.rs\<close>, \<open>keydir.rs\<close>, \<open>attestation.rs\<close>): timestamp tokens, signing, the
    rejection rules R1 to R8 in the order of the code.
  \<^item> \<open>Verify\<close> (\<open>verify.rs\<close>): the one consumer call, and its composition with assembly.
  \<^item> \<open>Policy\<close> (\<open>ke-cli/src/policy.rs\<close>, \<open>ke-core/src/revocation.rs\<close>): built-in verification
    policies, the revocation floor and decision.
  \<^item> \<open>Registry_Event\<close> (\<open>registry/event.rs\<close> and the pure part of \<open>registry/mod.rs\<close>): lifecycle
    states, the transition table, hash-chained root-signed events. Shown: which logs are
    accepted, that built events extend a log, that equal heads mean equal logs.
  \<^item> \<open>Action\<close>: stateful fallible operations and their triples. \<open>Registry_Backend\<close>
    (\<open>registry/backend.rs\<close>): the storage trait as a record of operations, the local file system
    with an outcome for every system call, and the contract as the locale \<open>registry_backend\<close>,
    interpreted on the local backend.
  \<^item> \<open>Lifecycle\<close>: the abstract steps commands may take on the stored objects, and the
    invariant \<open>sound\<close> of every registry they build.
  \<^item> \<open>Commands\<close>, \<open>Command_Triples\<close> (\<open>ke-cli/src/commands\<close>): the transition commands and their
    triples over any backend. \<open>Registry_Query\<close>: selector resolution and evidence.
    \<open>Registry\<close>: sequences of commands on the local file system. Shown: refinement of the
    lifecycle steps under any I/O failure, soundness, what published implies, the release
    pipeline up to the consumer's verdict, and two commands that cannot be repeated.
  \<^item> \<open>Authoring\<close> (\<open>commands/compile.rs\<close>): \<open>ke compile\<close> and \<open>ke compile-intent\<close> from the text of
    a document to the stored artifact, with the decimal reader of IntentSpec thresholds. Shown:
    exactly which documents are stored, and as what.
  \<^item> \<open>Graph\<close> (\<open>ke-cli/src/graph\<close>): the projection of an artifact into a property graph, its Cypher
    text and two queries. Shown: every literal reads back, the breadth-first search returns.
  \<^item> \<open>Consumer\<close>: the key directory, context and verdict that the graph export and the HTTP service
    share. \<open>Graph_Export\<close> (\<open>commands/graph_export.rs\<close>): what is exported is exactly what is
    published and verifies, the graph is well typed, and the blast radius of a document is the
    set of what depends on it.
  \<^item> \<open>Serve\<close> (\<open>ke-cli/src/serve\<close>): the routes and the accept loop. Shown: no request changes
    the registry, what the verify route answers, and a request that ends the server.
  \<^item> \<open>Offline\<close> (\<open>commands/lint.rs\<close>, \<open>query.rs\<close>, \<open>export.rs\<close>, \<open>import_kew.rs\<close>, \<open>sql.rs\<close>): the commands
    that only read the registry. Shown: what an offline import accepts, that an exported file is
    imported under its address, and what the rows of the SQL view hold.
  \<^item> \<open>Cli\<close> (\<open>ke-cli/src/cli.rs\<close>): one process of \<open>ke\<close> on a machine with several registry roots, from
    the parsed command line and the environment to the exit code. Shown: which root it may
    change and how, that every registry of a machine is sound, what the exit code of \<open>publish\<close> means.

  \<^item> \<open>Bindings\<close> (\<open>ke-wasm/src/lib.rs\<close>, \<open>ke-artifact/src/python.rs\<close>): the browser package and the Python
    module. Shown: both give one answer, the Python checks taken one by one are the folded
    verdict, the browser's previews are the replies of the HTTP service.
  \<^item> \<open>Python_Import\<close>, \<open>Differential\<close> (\<open>ke-compiler/src\<close>: \<open>python_import.rs\<close>, \<open>bin/ke-compile.rs\<close>): the
    reader of the platform's rule dumps and the tool that compares them with compiled rules. Shown:
    success means that the rules decide alike, and a faithful dump is accepted. \<open>Dev_Tools\<close>
    (\<open>ke-runtime/src/bin\<close>): \<open>gen-scenarios\<close> and \<open>ke-eval\<close>. Shown: every printed scenario replays.

  \<^bold>\<open>Parameters.\<close> Third-party code is a parameter with its documented law: postcard codecs
  (\<open>codec_law\<close>, \<open>artifact_codec_law\<close>; a concrete instance is in \<open>Sample_Codecs\<close>), marked-yaml
  (\<open>yaml_lib\<close>, with \<open>yaml_bools\<close> for its booleans), Unicode NFC
  and the codec inside \<open>canon_lib\<close>, BLAKE3 and ed25519 (\<open>crypto_law\<close>: what is signed
  verifies; no collision resistance or unforgeability is assumed). A \<open>toolchain\<close> bundles them
  for the commands, with the JSON renderers and the policy file reader; \<open>serve_lib\<close> holds the JSON
  readers and printer of the HTTP service, \<open>cli_lib\<close> what the command line adds to it.

  \<^bold>\<open>Bounds.\<close> Recursion is structural or has a measure, except in the shortest printing of a
  double, whose three searches carry fuel above their range: 18 digits where 17 always read back,
  20 zeros to strip from them, and 700 decimal exponents where a double has fewer than 650.
  A sequence number that
  would overflow 32 bits is an error of the model (a panic in a debug build). Machine integers are
  words where they wrap or are compared as unsigned, and \<open>int\<close> with explicit range checks
  where the source uses checked or saturating \<open>i128\<close> arithmetic.

  \<^bold>\<open>Not modelled.\<close> JSON Schema emission and the fixture generators write constant data; the
  argument vector of \<open>ke\<close> is parsed by a library. DuckDB, which runs the query text over the rows of the SQL view, is
  third-party. The frames of the event stream, what goes to the error stream and the wording of
  error messages are not modelled; errors are values.
\<close>

end
